(* ===== verification/Prelude.thy ===== *)
theory Prelude
  imports Main "HOL-Library.Word" "HOL-Library.AList"
begin

text \<open>
  Shared vocabulary of the development: the machine integer types of the Rust sources, byte
  strings, the little-endian conversions of the Rust standard library
  (\<^verbatim>\<open>uN::to_le_bytes\<close>, \<^verbatim>\<open>uN::from_le_bytes\<close>), the ordered map \<^verbatim>\<open>BTreeMap\<close> as a key-sorted
  association list, and the generic list lemmas that the component theories use. Three
  collections carry the automation: \<open>res_simps\<close> (the result monad), \<open>wire_simps\<close> (readers and
  writers of byte formats) and \<open>proc_simps\<close> (running ceremony tasks).
\<close>

named_theorems res_simps "rewrite rules of the result monad"
named_theorems wire_simps "rewrite rules of byte readers and writers"
named_theorems proc_simps "rewrite rules for running ceremony tasks"

type_synonym u8 = "8 word"
type_synonym u16 = "16 word"
type_synonym u32 = "32 word"
type_synonym u64 = "64 word"
type_synonym bytes = "u8 list"

section \<open>Little-endian integers\<close>

primrec le_of_nat :: "nat \<Rightarrow> nat \<Rightarrow> bytes" where
  "le_of_nat 0 k = []"
| "le_of_nat (Suc n) k = word_of_nat (k mod 256) # le_of_nat n (k div 256)"

primrec le_nat :: "bytes \<Rightarrow> nat" where
  "le_nat [] = 0"
| "le_nat (b # bs) = unat b + 256 * le_nat bs"

definition u16_le :: "u16 \<Rightarrow> bytes" where "u16_le w = le_of_nat 2 (unat w)"
definition u32_le :: "u32 \<Rightarrow> bytes" where "u32_le w = le_of_nat 4 (unat w)"
definition u64_le :: "u64 \<Rightarrow> bytes" where "u64_le w = le_of_nat 8 (unat w)"

definition u16_of_le :: "bytes \<Rightarrow> u16" where "u16_of_le bs = word_of_nat (le_nat bs)"
definition u32_of_le :: "bytes \<Rightarrow> u32" where "u32_of_le bs = word_of_nat (le_nat bs)"
definition u64_of_le :: "bytes \<Rightarrow> u64" where "u64_of_le bs = word_of_nat (le_nat bs)"

text \<open>A Rust byte-string literal \<^verbatim>\<open>b"..."\<close>.\<close>

definition str_bytes :: "string \<Rightarrow> bytes" where "str_bytes s = map of_char s"

section \<open>BTreeMap\<close>

text \<open>
  \<^verbatim>\<open>BTreeMap::insert\<close> on the key-sorted association list: a present key gets the new value, an
  absent one is put at its place. Iteration is in key order, which is list order.
\<close>

fun bt_insert :: "'k::linorder \<Rightarrow> 'v \<Rightarrow> ('k \<times> 'v) list \<Rightarrow> ('k \<times> 'v) list" where
  "bt_insert k v [] = [(k, v)]"
| "bt_insert k v ((k', v') # m) =
     (if k < k' then (k, v) # (k', v') # m
      else if k = k' then (k, v) # m
      else (k', v') # bt_insert k v m)"

definition bt_wf :: "('k::linorder \<times> 'v) list \<Rightarrow> bool" where
  "bt_wf m \<longleftrightarrow> sorted_wrt (<) (map fst m)"

section \<open>Lemmas on little-endian integers\<close>

lemma length_le_of_nat [simp]: "length (le_of_nat n k) = n"
  by (induction n arbitrary: k) auto

lemma length_uN_le [simp]:
  "length (u16_le a) = 2" "length (u32_le b) = 4" "length (u64_le c) = 8"
  by (simp_all add: u16_le_def u32_le_def u64_le_def)

lemma unat_word8_of_nat [simp]: "unat (word_of_nat (k mod 256) :: u8) = k mod 256"
  by (simp add: unat_of_nat)

lemma le_nat_le_of_nat: "le_nat (le_of_nat n k) = k mod 256 ^ n"
proof (induction n arbitrary: k)
  case 0
  then show ?case by simp
next
  case (Suc n)
  have "k mod (256 * 256 ^ n) = 256 * (k div 256 mod 256 ^ n) + k mod 256"
    by (rule mod_mult2_eq)
  with Suc show ?case by simp
qed

lemma le_nat_bound: "le_nat bs < 256 ^ length bs"
proof (induction bs)
  case (Cons b bs)
  have b: "unat b < 256" using unsigned_less [of b, where ?'a = nat] by simp
  from Cons have "le_nat bs + 1 \<le> 256 ^ length bs" by simp
  then have "256 * (le_nat bs + 1) \<le> 256 * 256 ^ length bs" by (rule mult_le_mono2)
  with b show ?case by simp
qed simp

lemma le_of_nat_le_nat: "length bs = n \<Longrightarrow> le_of_nat n (le_nat bs) = bs"
proof (induction n arbitrary: bs)
  case 0
  then show ?case by simp
next
  case (Suc n)
  then obtain b bs' where bs: "bs = b # bs'" "length bs' = n" by (cases bs) auto
  have b: "unat b < 256" using unsigned_less [of b, where ?'a = nat] by simp
  then have "(unat b + 256 * le_nat bs') mod 256 = unat b"
    and "(unat b + 256 * le_nat bs') div 256 = le_nat bs'" by simp_all
  then show ?case using Suc.IH [OF bs(2)] by (simp add: bs(1))
qed

lemma u16_of_le_le [simp]: "u16_of_le (u16_le w) = w"
  using unsigned_less [of w, where ?'a = nat] by (simp add: u16_of_le_def u16_le_def le_nat_le_of_nat)

lemma u32_of_le_le [simp]: "u32_of_le (u32_le w) = w"
  using unsigned_less [of w, where ?'a = nat] by (simp add: u32_of_le_def u32_le_def le_nat_le_of_nat)

lemma u64_of_le_le [simp]: "u64_of_le (u64_le w) = w"
  using unsigned_less [of w, where ?'a = nat] by (simp add: u64_of_le_def u64_le_def le_nat_le_of_nat)

lemma u16_le_of_le: "length bs = 2 \<Longrightarrow> u16_le (u16_of_le bs) = bs"
  using le_nat_bound [of bs] by (simp add: u16_of_le_def u16_le_def unat_of_nat le_of_nat_le_nat)

lemma u32_le_of_le: "length bs = 4 \<Longrightarrow> u32_le (u32_of_le bs) = bs"
  using le_nat_bound [of bs] by (simp add: u32_of_le_def u32_le_def unat_of_nat le_of_nat_le_nat)

lemma u64_le_of_le: "length bs = 8 \<Longrightarrow> u64_le (u64_of_le bs) = bs"
  using le_nat_bound [of bs] by (simp add: u64_of_le_def u64_le_def unat_of_nat le_of_nat_le_nat)

lemma unat_word16_of_nat [simp]: "n < 65536 \<Longrightarrow> unat (word_of_nat n :: u16) = n"
  by (simp add: unat_of_nat)

lemma unat_word32_of_nat [simp]: "n < 4294967296 \<Longrightarrow> unat (word_of_nat n :: u32) = n"
  by (simp add: unat_of_nat)

text \<open>A sum of words that does not overflow is the sum of the numbers.\<close>

lemma unat_sum_list:
  assumes "sum_list (map unat vs) < 2 ^ 64"
  shows "unat (sum_list (vs :: u64 list)) = sum_list (map unat vs)"
proof -
  have "sum_list vs = word_of_nat (sum_list (map unat vs))" by (induction vs) simp_all
  with assms show ?thesis by (simp add: unat_of_nat)
qed

section \<open>Lemmas on ordered maps\<close>

lemma set_bt_insert_keys: "fst ` set (bt_insert k v m) = insert k (fst ` set m)"
  by (induction k v m rule: bt_insert.induct) auto

lemma bt_wf_Nil [simp]: "bt_wf []"
  by (simp add: bt_wf_def)

lemma bt_wf_Cons: "bt_wf ((k, v) # m) \<longleftrightarrow> (\<forall>k' \<in> fst ` set m. k < k') \<and> bt_wf m"
  by (auto simp: bt_wf_def)

lemma bt_wf_insert [simp]: "bt_wf m \<Longrightarrow> bt_wf (bt_insert k v m)"
  by (induction k v m rule: bt_insert.induct) (auto simp: bt_wf_Cons set_bt_insert_keys)

lemma bt_wf_distinct: "bt_wf m \<Longrightarrow> distinct (map fst m)"
  by (simp add: bt_wf_def strict_sorted_iff)

lemma map_of_bt_insert: "bt_wf m \<Longrightarrow> map_of (bt_insert k v m) = (map_of m)(k \<mapsto> v)"
  by (induction k v m rule: bt_insert.induct) (auto simp: bt_wf_Cons fun_eq_iff)

text \<open>Inserting beyond the greatest key appends: an in-order decoder rebuilds the map it reads.\<close>

lemma bt_insert_snoc: "\<forall>k' \<in> fst ` set m. k' < k \<Longrightarrow> bt_insert k v m = m @ [(k, v)]"
  by (induction k v m rule: bt_insert.induct) auto

lemma length_bt_insert:
  "bt_wf m \<Longrightarrow> length (bt_insert k v m) = (if k \<in> fst ` set m then length m else Suc (length m))"
  by (induction k v m rule: bt_insert.induct) (auto simp: bt_wf_Cons)

text \<open>An ordered map is determined by its bindings, so insertions of different keys commute.\<close>

lemma bt_wf_eqI:
  assumes "bt_wf m" "bt_wf m'" "map_of m = map_of m'"
  shows "m = m'"
proof -
  have "set m = set m'"
    using assms(3) map_of_inject_set [OF bt_wf_distinct [OF assms(1)] bt_wf_distinct [OF assms(2)]] by simp
  moreover have "sorted (map fst m)" "sorted (map fst m')" "distinct (map fst m)" "distinct (map fst m')"
    using assms(1,2) by (auto simp: bt_wf_def strict_sorted_iff)
  ultimately show ?thesis by (intro map_sorted_distinct_set_unique) (auto simp: distinct_map)
qed

lemma bt_insert_commute:
  assumes "bt_wf m" "k \<noteq> k'"
  shows "bt_insert k v (bt_insert k' v' m) = bt_insert k' v' (bt_insert k v m)"
  using assms by (intro bt_wf_eqI) (auto simp: map_of_bt_insert fun_upd_twist)

section \<open>Lemmas on lists\<close>

lemma take_drop_mid [simp]:
  "take (length xs) (drop (length pre) (pre @ xs @ post)) = xs"
  by simp

lemma find_append: "find P (xs @ ys) = (case find P xs of None \<Rightarrow> find P ys | Some x \<Rightarrow> Some x)"
  by (induction xs) auto

lemma concat_const_length: "\<forall>x \<in> set xs. length x = n \<Longrightarrow> length (concat xs) = n * length xs"
  by (induction xs) auto

end
