(* ===== verification/Ffi_Errors.thy ===== *)
theory Ffi_Errors
  imports Prelude
begin

text \<open>
  The error layer of \<^verbatim>\<open>frost-ffi\<close> (\<^verbatim>\<open>errors.rs\<close>, \<^verbatim>\<open>bytes.rs\<close>). A Rust \<^verbatim>\<open>Result<T, lib_error>\<close> that may
  also panic is a value of \<open>'a res\<close>: \<open>Ok\<close>, \<open>Err\<close>, \<open>Panic\<close>, and \<open>Blamed id\<close> for an \<^verbatim>\<open>Err(LIB_BLAME)\<close>
  whose production has stored \<open>id\<close> in the thread-local \<^verbatim>\<open>LAST_BLAMED_ID\<close> (the only way the sources
  make \<^verbatim>\<open>LIB_BLAME\<close>). The exported C functions run their body under \<^verbatim>\<open>with_error_handler\<close>, which
  turns every outcome, panics included, into an error code.
\<close>

datatype lib_error =
    LIB_OK | LIB_INVALID_HANDLE | LIB_HANDLE_IN_USE | LIB_INVALID_HANDLE_TYPE | LIB_NULL_PTR
  | LIB_INVALID_BUFFER_SIZE | LIB_UNKNOWN_ERROR | LIB_SERIALIZATION_ERROR
  | LIB_INVALID_IDENTIFIER | LIB_DKG_ERROR | LIB_SIGNING_ERROR | LIB_RESHARE_ERROR
  | LIB_KEY_IMPORT_ERROR | LIB_SAPLING_ERROR | LIB_CKD_ERROR | LIB_ADDRESS_ERROR
  | LIB_SESSION_NOT_READY | LIB_BLAME

datatype 'a res = Ok 'a | Err lib_error | Blamed u16 | Panic

text \<open>The \<^verbatim>\<open>?\<close> operator: stop at the first outcome that is not \<open>Ok\<close>.\<close>

definition rbind :: "'a res \<Rightarrow> ('a \<Rightarrow> 'b res) \<Rightarrow> 'b res" where
  "rbind m f = (case m of Ok x \<Rightarrow> f x | Err e \<Rightarrow> Err e | Blamed i \<Rightarrow> Blamed i | Panic \<Rightarrow> Panic)"

definition ok_or :: "'a option \<Rightarrow> lib_error \<Rightarrow> 'a res" where
  "ok_or x e = (case x of None \<Rightarrow> Err e | Some y \<Rightarrow> Ok y)"

definition guard :: "bool \<Rightarrow> lib_error \<Rightarrow> unit res" where
  "guard b e = (if b then Ok () else Err e)"

text \<open>\<^verbatim>\<open>iter().map(f).collect::<Result<_, _>>()\<close>: the first failure, or all the results.\<close>

primrec rmap :: "('a \<Rightarrow> 'b res) \<Rightarrow> 'a list \<Rightarrow> 'b list res" where
  "rmap f [] = Ok []"
| "rmap f (x # xs) = rbind (f x) (\<lambda>y. rbind (rmap f xs) (\<lambda>ys. Ok (y # ys)))"

section \<open>The blamed party\<close>

definition set_blamed_party :: "u16 \<Rightarrow> u16 \<Rightarrow> u16" where
  "set_blamed_party frost_id cell = frost_id"

definition take_blamed_party :: "u16 \<Rightarrow> u16 \<times> u16" where
  "take_blamed_party cell = (cell, 0)"

definition frost_last_blamed_party :: "u16 \<Rightarrow> u16 \<times> u16" where
  "frost_last_blamed_party cell = take_blamed_party cell"

definition with_error_handler :: "unit res \<Rightarrow> u16 \<Rightarrow> lib_error \<times> u16" where
  "with_error_handler r cell =
     (case r of Ok _ \<Rightarrow> (LIB_OK, cell) | Err e \<Rightarrow> (e, cell)
      | Blamed i \<Rightarrow> (LIB_BLAME, set_blamed_party i cell)
      | Panic \<Rightarrow> (LIB_UNKNOWN_ERROR, cell))"

section \<open>Lemmas on results\<close>

lemma rbind_simps [simp, res_simps]:
  "rbind (Ok x) f = f x" "rbind (Err e) f = Err e" "rbind (Blamed i) f = Blamed i"
  "rbind Panic f = Panic"
  by (simp_all add: rbind_def)

lemma ok_or_simps [simp, res_simps]: "ok_or (Some x) e = Ok x" "ok_or None e = Err e"
  by (simp_all add: ok_or_def)

lemma guard_simps [simp, res_simps]: "guard True e = Ok ()" "guard False e = Err e"
  by (simp_all add: guard_def)

lemma rbind_assoc: "rbind (rbind m f) g = rbind m (\<lambda>x. rbind (f x) g)"
  by (cases m) simp_all

lemma rbind_Ok_right [simp]: "rbind m Ok = m"
  by (cases m) simp_all

lemma rbind_eq_Ok: "rbind m f = Ok y \<longleftrightarrow> (\<exists>x. m = Ok x \<and> f x = Ok y)"
  by (cases m) simp_all

lemma rbind_eq_Panic: "rbind m f = Panic \<longleftrightarrow> m = Panic \<or> (\<exists>x. m = Ok x \<and> f x = Panic)"
  by (cases m) simp_all

lemma rbind_OkE:
  assumes "rbind m f = Ok y"
  obtains x where "m = Ok x" "f x = Ok y"
  using assms by (auto simp: rbind_eq_Ok)

lemma ok_or_eq_Ok [simp]: "ok_or x e = Ok y \<longleftrightarrow> x = Some y"
  by (cases x) simp_all

lemma ok_or_neq_Panic [simp]: "ok_or x e \<noteq> Panic" "ok_or x e \<noteq> Blamed i"
  by (cases x; simp)+

lemma guard_eq_Ok [simp]: "guard b e = Ok u \<longleftrightarrow> b"
  by (cases b) simp_all

lemma guard_neq_Panic [simp]: "guard b e \<noteq> Panic" "guard b e \<noteq> Blamed i"
  by (cases b; simp)+

lemma rmap_Ok_map: "(\<forall>x \<in> set xs. f x = Ok (g x)) \<Longrightarrow> rmap f xs = Ok (map g xs)"
  by (induction xs) auto

lemma rmap_eq_Ok_length: "rmap f xs = Ok ys \<Longrightarrow> length ys = length xs"
  by (induction xs arbitrary: ys) (auto elim!: rbind_OkE)

lemma rmap_neq_Panic: "(\<forall>x \<in> set xs. f x \<noteq> Panic) \<Longrightarrow> rmap f xs \<noteq> Panic"
  by (induction xs) (auto simp: rbind_eq_Panic)

end
