(* ===== verification/Wire.thy ===== *)
theory Wire
  imports Ffi_Errors
begin

text \<open>
  Byte readers. A Rust reader that advances \<^verbatim>\<open>pos: &mut usize\<close> over \<^verbatim>\<open>data: &[u8]\<close> takes the
  position and returns the value with the new position. Slicing and indexing out of range are
  \<open>Panic\<close>; a test of the length before them is the \<open>Err\<close> the source returns. \<^verbatim>\<open>usize\<close> is \<open>nat\<close>: on
  the 64-bit targets of the C library a position is at most \<^verbatim>\<open>isize::MAX\<close> and a length read
  from the wire at most \<^verbatim>\<open>u32::MAX\<close>, so \<^verbatim>\<open>pos + len\<close> cannot overflow.

  The locale \<open>wire_format\<close> is the contract between an encoder and the decoder of one kind of
  value inside a larger message; its client lemmas give prefix-freeness, injectivity of the
  encoder, and the decoding of a sequence by a counted loop.
\<close>

text \<open>Positions stay sums of numerals.\<close>

declare add_2_eq_Suc [simp del] add_2_eq_Suc' [simp del]

section \<open>Slices of a byte array\<close>

definition slice :: "bytes \<Rightarrow> nat \<Rightarrow> nat \<Rightarrow> bytes res" where
  "slice data a b = (if a \<le> b \<and> b \<le> length data then Ok (take (b - a) (drop a data)) else Panic)"

definition index :: "bytes \<Rightarrow> nat \<Rightarrow> u8 res" where
  "index data i = (if i < length data then Ok (data ! i) else Panic)"

text \<open>\<^verbatim>\<open>try_into().unwrap()\<close> of a slice into \<^verbatim>\<open>[u8; n]\<close>.\<close>

definition to_array :: "nat \<Rightarrow> bytes \<Rightarrow> bytes res" where
  "to_array n bs = (if length bs = n then Ok bs else Panic)"

text \<open>
  The guarded read that every decoder of the sources writes out:
  \<^verbatim>\<open>if pos + n > data.len() { return Err(LIB_SERIALIZATION_ERROR); } data[pos..pos + n]; pos += n\<close>.
\<close>

definition read_bytes :: "nat \<Rightarrow> bytes \<Rightarrow> nat \<Rightarrow> (bytes \<times> nat) res" where
  "read_bytes n data pos =
     (if pos + n > length data then Err LIB_SERIALIZATION_ERROR
      else rbind (slice data pos (pos + n)) (\<lambda>b. Ok (b, pos + n)))"

text \<open>The readers of \<^verbatim>\<open>codec.rs\<close> and \<^verbatim>\<open>setup.rs\<close>.\<close>

definition codec_read_u32 :: "bytes \<Rightarrow> nat \<Rightarrow> (u32 \<times> nat) res" where
  "codec_read_u32 data pos =
     (if pos + 4 > length data then Err LIB_SERIALIZATION_ERROR
      else rbind (slice data pos (pos + 4)) (\<lambda>s.
           rbind (to_array 4 s) (\<lambda>a. Ok (u32_of_le a, pos + 4))))"

definition setup_read_u16 :: "bytes \<Rightarrow> nat \<Rightarrow> (u16 \<times> nat) res" where
  "setup_read_u16 data pos =
     (if pos + 2 > length data then Err LIB_SERIALIZATION_ERROR
      else rbind (index data pos) (\<lambda>b0.
           rbind (index data (pos + 1)) (\<lambda>b1. Ok (u16_of_le [b0, b1], pos + 2))))"

definition setup_read_u32 :: "bytes \<Rightarrow> nat \<Rightarrow> (u32 \<times> nat) res" where
  "setup_read_u32 data pos =
     (if pos + 4 > length data then Err LIB_SERIALIZATION_ERROR
      else rbind (slice data pos (pos + 4)) (\<lambda>s.
           rbind (to_array 4 s) (\<lambda>a. Ok (u32_of_le a, pos + 4))))"

text \<open>The reader of the key share bundles.\<close>

definition bundle_read_u64 :: "bytes \<Rightarrow> nat \<Rightarrow> (u64 \<times> nat) res" where
  "bundle_read_u64 data pos =
     (if pos + 8 > length data then Err LIB_SERIALIZATION_ERROR
      else rbind (slice data pos (pos + 8)) (\<lambda>s.
           rbind (to_array 8 s) (\<lambda>a. Ok (u64_of_le a, pos + 8))))"

text \<open>
  The loop \<^verbatim>\<open>for _ in 0..n { v.push(read(data, &mut pos)?); }\<close>.
\<close>

primrec read_many ::
  "nat \<Rightarrow> (bytes \<Rightarrow> nat \<Rightarrow> ('a \<times> nat) res) \<Rightarrow> bytes \<Rightarrow> nat \<Rightarrow> ('a list \<times> nat) res" where
  "read_many 0 rd data pos = Ok ([], pos)"
| "read_many (Suc n) rd data pos =
     rbind (rd data pos) (\<lambda>(x, pos). rbind (read_many n rd data pos) (\<lambda>(xs, pos). Ok (x # xs, pos)))"

section \<open>Outcomes that are neither a panic nor a blame\<close>

definition proper :: "'a res \<Rightarrow> bool" where
  "proper r = (case r of Ok _ \<Rightarrow> True | Err _ \<Rightarrow> True | Blamed _ \<Rightarrow> False | Panic \<Rightarrow> False)"

lemma proper_simps [simp, res_simps]:
  "proper (Ok x)" "proper (Err e)" "\<not> proper (Blamed i)" "\<not> proper Panic"
  by (simp_all add: proper_def)

lemma proper_rbind [simp, res_simps]:
  "proper (rbind m f) \<longleftrightarrow> proper m \<and> (\<forall>x. m = Ok x \<longrightarrow> proper (f x))"
  by (cases m) simp_all

lemma proper_neq_Panic: "proper r \<Longrightarrow> r \<noteq> Panic"
  by auto

lemma proper_ok_or [simp]: "proper (ok_or x e)"
  by (cases x) simp_all

lemma proper_guard [simp]: "proper (guard b e)"
  by (cases b) simp_all

lemma proper_rmap: "(\<And>x. x \<in> set xs \<Longrightarrow> proper (f x)) \<Longrightarrow> proper (rmap f xs)"
  by (induction xs) auto

section \<open>Lemmas on readers\<close>

lemma slice_mid [wire_simps]:
  "slice (pre @ xs @ post) (length pre) (length pre + length xs) = Ok xs"
  by (simp add: slice_def)

lemma slice_Ok [wire_simps]: "a \<le> b \<Longrightarrow> b \<le> length d \<Longrightarrow> slice d a b = Ok (take (b - a) (drop a d))"
  by (simp add: slice_def)

lemma to_array_Ok [wire_simps]: "length bs = n \<Longrightarrow> to_array n bs = Ok bs"
  by (simp add: to_array_def)

lemma index_Ok [wire_simps]: "i < length d \<Longrightarrow> index d i = Ok (d ! i)"
  by (simp add: index_def)

lemma read_bytes_mid [wire_simps]:
  "n = length xs \<Longrightarrow> read_bytes n (pre @ xs @ post) (length pre) = Ok (xs, length pre + n)"
  by (simp add: read_bytes_def slice_mid)

lemma read_bytes_eq:
  "read_bytes n data pos =
     (if pos + n > length data then Err LIB_SERIALIZATION_ERROR
      else Ok (take n (drop pos data), pos + n))"
  by (simp add: read_bytes_def slice_def)

lemma take_Suc_Suc_drop:
  "pos + 2 \<le> length data \<Longrightarrow> take 2 (drop pos data) = [data ! pos, data ! (pos + 1)]"
  by (rule nth_equalityI) (auto simp: less_Suc_eq numeral_2_eq_2 nth_Cons split: nat.splits)

text \<open>The three fixed-width readers are the guarded read followed by the conversion.\<close>

lemma setup_read_u16_eq:
  "setup_read_u16 data pos = rbind (read_bytes 2 data pos) (\<lambda>(b, p). Ok (u16_of_le b, p))"
  using take_Suc_Suc_drop [of pos data]
  by (simp add: setup_read_u16_def read_bytes_eq index_def)

lemma codec_read_u32_eq:
  "codec_read_u32 data pos = rbind (read_bytes 4 data pos) (\<lambda>(b, p). Ok (u32_of_le b, p))"
  by (simp add: codec_read_u32_def read_bytes_eq slice_def to_array_def)

lemma setup_read_u32_eq: "setup_read_u32 = codec_read_u32"
  by (intro ext) (simp add: setup_read_u32_def codec_read_u32_def)

text \<open>Reading a part of one of several chunks of the same length.\<close>

lemma slice_chunk:
  assumes "\<forall>x \<in> set xs. length x = k" "i < length xs" "a \<le> b" "b \<le> k"
  shows "slice (pre @ concat xs @ post) (length pre + i * k + a) (length pre + i * k + b) =
    Ok (take (b - a) (drop a (xs ! i)))"
proof -
  have "\<forall>x \<in> set (take i xs). length x = k" using assms(1) by (meson in_set_takeD)
  from concat_const_length [OF this] have l: "length (concat (take i xs)) = i * k"
    using assms(2) by (simp add: mult.commute)
  have "concat xs = concat (take i xs) @ xs ! i @ concat (drop (Suc i) xs)"
    using id_take_nth_drop [OF assms(2)] by (metis concat.simps(2) concat_append)
  moreover have "length (xs ! i) = k" using assms by simp
  ultimately show ?thesis using assms(3,4) l by (simp add: slice_def)
qed

section \<open>Bytes at a position\<close>

definition holds_at :: "bytes \<Rightarrow> nat \<Rightarrow> bytes \<Rightarrow> bool" where
  "holds_at data pos bs \<longleftrightarrow> pos + length bs \<le> length data \<and> take (length bs) (drop pos data) = bs"

lemma holds_at_append [wire_simps]:
  "holds_at data pos (a @ b) \<longleftrightarrow> holds_at data pos a \<and> holds_at data (pos + length a) b"
proof -
  have "take (length a + length b) (drop pos data)
          = take (length a) (drop pos data) @ take (length b) (drop (pos + length a) data)"
    by (simp add: take_add add.commute)
  then show ?thesis
    by (fastforce simp: holds_at_def append_eq_append_conv add.assoc)
qed

lemma holds_at_Nil [simp]: "holds_at data pos [] \<longleftrightarrow> pos \<le> length data"
  by (simp add: holds_at_def)

lemma holds_at_mid [simp]: "holds_at (pre @ bs @ post) (length pre) bs"
  by (simp add: holds_at_def)

lemma holds_at_start [simp]: "holds_at (bs @ post) 0 bs"
  by (simp add: holds_at_def)

lemma holds_at_0 [simp]: "holds_at bs 0 bs"
  by (simp add: holds_at_def)

lemma holds_at_0_iff: "holds_at data 0 bs \<longleftrightarrow> (\<exists>post. data = bs @ post)"
  unfolding holds_at_def by (metis add_0 append_take_drop_id append_eq_conv_conj drop_0 length_append le_add1)

lemma holds_at_bound: "holds_at data pos bs \<Longrightarrow> pos + length bs \<le> length data"
  by (simp add: holds_at_def)

lemma holds_at_unique: "holds_at data pos a \<Longrightarrow> holds_at data pos b \<Longrightarrow> length a = length b \<Longrightarrow> a = b"
  by (simp add: holds_at_def)

lemma read_bytes_iff [wire_simps]:
  "read_bytes n data pos = Ok (b, pos') \<longleftrightarrow> length b = n \<and> holds_at data pos b \<and> pos' = pos + n"
  by (auto simp: read_bytes_eq holds_at_def)

section \<open>The contract of an encoder and its decoder\<close>

text \<open>
  \<open>dec\<close> accepts exactly what \<open>enc\<close> writes for the values in \<open>wf\<close>, at any position of a longer
  array, and it never panics.
\<close>

locale wire_format =
  fixes dec :: "bytes \<Rightarrow> nat \<Rightarrow> ('a \<times> nat) res" and enc :: "'a \<Rightarrow> bytes" and wf :: "'a \<Rightarrow> bool"
  assumes dec_proper: "proper (dec data pos)"
    and dec_iff: "dec data pos = Ok (x, pos') \<longleftrightarrow>
                    wf x \<and> holds_at data pos (enc x) \<and> pos' = pos + length (enc x)"
begin

lemma dec_enc: "wf x \<Longrightarrow> dec (pre @ enc x @ post) (length pre) = Ok (x, length pre + length (enc x))"
  by (simp add: dec_iff)

text \<open>Two well-formed values with the encoding of one a prefix of the other's are the same.\<close>

lemma enc_prefix_free:
  assumes "wf x" "wf y" "enc x @ p = enc y @ q"
  shows "x = y \<and> p = q"
  using dec_enc [OF assms(1), of "[]" p] dec_enc [OF assms(2), of "[]" q] assms(3) by auto

lemma enc_inj: "wf x \<Longrightarrow> wf y \<Longrightarrow> enc x = enc y \<Longrightarrow> x = y"
  using enc_prefix_free [of x y "[]" "[]"] by simp

lemma many_proper: "proper (read_many n dec data pos)"
  by (induction n arbitrary: pos) (auto simp: dec_proper)

lemma many_iff:
  assumes "pos \<le> length data"
  shows "read_many n dec data pos = Ok (xs, pos') \<longleftrightarrow>
     length xs = n \<and> (\<forall>x \<in> set xs. wf x) \<and> holds_at data pos (concat (map enc xs)) \<and>
     pos' = pos + length (concat (map enc xs))"
  using assms
proof (induction n arbitrary: pos xs)
  case (Suc n)
  show ?case
  proof (cases xs)
    case (Cons x ys)
    have "pos + length (enc x) \<le> length data" if "holds_at data pos (enc x)"
      using holds_at_bound [OF that] .
    then show ?thesis
      using Suc.IH [of "pos + length (enc x)" ys] Cons
      by (auto simp: rbind_eq_Ok dec_iff holds_at_append add.assoc)
  qed (auto simp: rbind_eq_Ok)
qed auto

end

section \<open>The fixed-width readers satisfy the contract\<close>

lemma proper_read_bytes [simp]: "proper (read_bytes n data pos)"
  by (simp add: read_bytes_eq)

lemma read_u16_iff [wire_simps]:
  "setup_read_u16 data pos = Ok (v, pos') \<longleftrightarrow> holds_at data pos (u16_le v) \<and> pos' = pos + 2"
  by (auto simp: setup_read_u16_eq rbind_eq_Ok read_bytes_iff u16_le_of_le intro!: exI [of _ "u16_le v"])

lemma read_u32_iff [wire_simps]:
  "codec_read_u32 data pos = Ok (v, pos') \<longleftrightarrow> holds_at data pos (u32_le v) \<and> pos' = pos + 4"
  by (auto simp: codec_read_u32_eq rbind_eq_Ok read_bytes_iff u32_le_of_le intro!: exI [of _ "u32_le v"])

lemma bundle_read_u64_eq:
  "bundle_read_u64 data pos = rbind (read_bytes 8 data pos) (\<lambda>(b, p). Ok (u64_of_le b, p))"
  by (simp add: bundle_read_u64_def read_bytes_eq slice_def to_array_def)

lemma read_u64_iff [wire_simps]:
  "bundle_read_u64 data pos = Ok (v, pos') \<longleftrightarrow> holds_at data pos (u64_le v) \<and> pos' = pos + 8"
  by (auto simp: bundle_read_u64_eq rbind_eq_Ok read_bytes_iff u64_le_of_le intro!: exI [of _ "u64_le v"])

lemma proper_bundle_read_u64 [simp]: "proper (bundle_read_u64 data pos)"
  by (auto simp: bundle_read_u64_eq split: prod.splits)

lemma proper_setup_read_u16 [simp]: "proper (setup_read_u16 data pos)"
  by (auto simp: setup_read_u16_eq split: prod.splits)

lemma proper_codec_read_u32 [simp]: "proper (codec_read_u32 data pos)"
  by (auto simp: codec_read_u32_eq split: prod.splits)

lemma proper_setup_read_u32 [simp]: "proper (setup_read_u32 data pos)"
  by (simp add: setup_read_u32_eq)

interpretation u16_wire: wire_format setup_read_u16 u16_le "\<lambda>_. True"
  by unfold_locales (auto simp: read_u16_iff)

interpretation u32_wire: wire_format codec_read_u32 u32_le "\<lambda>_. True"
  by unfold_locales (auto simp: read_u32_iff)

interpretation u64_wire: wire_format bundle_read_u64 u64_le "\<lambda>_. True"
  by unfold_locales (auto simp: read_u64_iff)

section \<open>Length-prefixed blobs\<close>

text \<open>
  The recurring pair of a \<^verbatim>\<open>u32\<close> (or \<^verbatim>\<open>u16\<close>) length and that many bytes, as written and as read.
\<close>

definition blob32 :: "bytes \<Rightarrow> bytes" where
  "blob32 b = u32_le (word_of_nat (length b)) @ b"

definition fits32 :: "bytes \<Rightarrow> bool" where
  "fits32 b \<longleftrightarrow> length b < 2 ^ 32"

definition fits16 :: "bytes \<Rightarrow> bool" where
  "fits16 b \<longleftrightarrow> length b < 2 ^ 16"

definition read_blob32 :: "bytes \<Rightarrow> nat \<Rightarrow> (bytes \<times> nat) res" where
  "read_blob32 data pos =
     rbind (codec_read_u32 data pos) (\<lambda>(n, pos). read_bytes (unat n) data pos)"

lemma unat_u32_le_iff: "unat (n :: u32) = k \<longleftrightarrow> k < 2 ^ 32 \<and> n = word_of_nat k"
  using unsigned_less [of n, where ?'a = nat] by (auto simp: unat_of_nat)

lemma unat_u16_le_iff: "unat (n :: u16) = k \<longleftrightarrow> k < 2 ^ 16 \<and> n = word_of_nat k"
  using unsigned_less [of n, where ?'a = nat] by (auto simp: unat_of_nat)

lemma read_blob32_iff [wire_simps]:
  "read_blob32 data pos = Ok (b, pos') \<longleftrightarrow>
     fits32 b \<and> holds_at data pos (blob32 b) \<and> pos' = pos + length (blob32 b)"
  unfolding read_blob32_def
  by (auto simp: rbind_eq_Ok read_u32_iff read_bytes_iff blob32_def holds_at_append fits32_def)
     (auto simp: eq_commute [of "length b"] unat_u32_le_iff)

lemma proper_read_blob32 [simp]: "proper (read_blob32 data pos)"
  by (auto simp: read_blob32_def)

interpretation blob32_wire: wire_format read_blob32 blob32 fits32
  by unfold_locales (auto simp: read_blob32_iff)

end
