(* ===== verification/Map_Codec.thy ===== *)
theory Map_Codec
  imports Wire
begin

text \<open>
  The map codec of \<^verbatim>\<open>frost-ffi/src/codec.rs\<close>: a count, then for every entry of the ordered map
  the length-prefixed key and the length-prefixed value. The key and value codecs are
  arguments, as the closures are in the source. The locale \<open>item_codec\<close> is what the map codec
  needs of them; \<open>map_codec\<close> puts two of them together and gives the round trip.
\<close>

section \<open>Definitions\<close>

primrec encode_entries ::
  "('k \<Rightarrow> bytes res) \<Rightarrow> ('v \<Rightarrow> bytes res) \<Rightarrow> ('k \<times> 'v) list \<Rightarrow> bytes \<Rightarrow> bytes res" where
  "encode_entries encode_key encode_val [] buf = Ok buf"
| "encode_entries encode_key encode_val (e # es) buf =
     rbind (encode_key (fst e)) (\<lambda>kb.
     rbind (encode_val (snd e)) (\<lambda>vb.
       encode_entries encode_key encode_val es
         (buf @ u32_le (word_of_nat (length kb)) @ kb @ u32_le (word_of_nat (length vb)) @ vb)))"

definition encode_map ::
  "('k \<Rightarrow> bytes res) \<Rightarrow> ('v \<Rightarrow> bytes res) \<Rightarrow> ('k \<times> 'v) list \<Rightarrow> bytes res" where
  "encode_map encode_key encode_val m =
     encode_entries encode_key encode_val m (u32_le (word_of_nat (length m)))"

text \<open>One turn of the decoding loop: key length, key, value length, value.\<close>

definition decode_entry ::
  "(bytes \<Rightarrow> 'k res) \<Rightarrow> (bytes \<Rightarrow> 'v res) \<Rightarrow> bytes \<Rightarrow> nat \<Rightarrow> (('k \<times> 'v) \<times> nat) res" where
  "decode_entry decode_key decode_val data pos =
     rbind (codec_read_u32 data pos) (\<lambda>(klen, pos).
     rbind (read_bytes (unat klen) data pos) (\<lambda>(kb, pos).
     rbind (decode_key kb) (\<lambda>k.
     rbind (codec_read_u32 data pos) (\<lambda>(vlen, pos).
     rbind (read_bytes (unat vlen) data pos) (\<lambda>(vb, pos).
     rbind (decode_val vb) (\<lambda>v. Ok ((k, v), pos)))))))"

primrec decode_entries ::
  "(bytes \<Rightarrow> 'k::linorder res) \<Rightarrow> (bytes \<Rightarrow> 'v res) \<Rightarrow> nat \<Rightarrow> bytes \<Rightarrow> nat
     \<Rightarrow> ('k \<times> 'v) list \<Rightarrow> ('k \<times> 'v) list res" where
  "decode_entries decode_key decode_val 0 data pos m = Ok m"
| "decode_entries decode_key decode_val (Suc n) data pos m =
     rbind (decode_entry decode_key decode_val data pos) (\<lambda>((k, v), pos).
       decode_entries decode_key decode_val n data pos (bt_insert k v m))"

definition decode_map ::
  "(bytes \<Rightarrow> 'k::linorder res) \<Rightarrow> (bytes \<Rightarrow> 'v res) \<Rightarrow> bytes \<Rightarrow> ('k \<times> 'v) list res" where
  "decode_map decode_key decode_val data =
     rbind (codec_read_u32 data 0) (\<lambda>(count, pos).
       decode_entries decode_key decode_val (unat count) data pos [])"

text \<open>The key closure of \<^verbatim>\<open>decode_u16_map\<close>.\<close>

definition decode_u16_key :: "bytes \<Rightarrow> u16 res" where
  "decode_u16_key b =
     (if length b < 2 then Err LIB_SERIALIZATION_ERROR
      else rbind (index b 0) (\<lambda>b0. rbind (index b 1) (\<lambda>b1. Ok (u16_of_le [b0, b1]))))"

definition decode_u16_map :: "bytes \<Rightarrow> (u16 \<times> bytes) list res" where
  "decode_u16_map data = decode_map decode_u16_key Ok data"

section \<open>The contract of the closures\<close>

text \<open>
  A codec of single values: what the encoder writes, the decoder reads back.
\<close>

locale item_codec =
  fixes enc :: "'a \<Rightarrow> bytes res" and dec :: "bytes \<Rightarrow> 'a res"
  assumes dec_enc: "enc x = Ok b \<Longrightarrow> dec b = Ok x"
begin

lemma enc_inj: "enc x = Ok b \<Longrightarrow> enc y = Ok b \<Longrightarrow> x = y"
  by (metis dec_enc res.inject(1))

end

text \<open>The encoded bytes of an entry, when both closures succeed.\<close>

definition entry_bytes :: "bytes \<Rightarrow> bytes \<Rightarrow> bytes" where
  "entry_bytes kb vb = blob32 kb @ blob32 vb"

definition entry_fits ::
  "('k \<Rightarrow> bytes res) \<Rightarrow> ('v \<Rightarrow> bytes res) \<Rightarrow> 'k \<times> 'v \<Rightarrow> bool" where
  "entry_fits ek ev e \<longleftrightarrow>
     (\<forall>kb. ek (fst e) = Ok kb \<longrightarrow> fits32 kb) \<and> (\<forall>vb. ev (snd e) = Ok vb \<longrightarrow> fits32 vb)"

lemma decode_entry_iff [wire_simps]:
  "decode_entry dk dv data pos = Ok ((k, v), pos') \<longleftrightarrow>
     (\<exists>kb vb. fits32 kb \<and> fits32 vb \<and> dk kb = Ok k \<and> dv vb = Ok v \<and>
        holds_at data pos (entry_bytes kb vb) \<and> pos' = pos + length (entry_bytes kb vb))"
proof -
  have "decode_entry dk dv data pos =
     rbind (read_blob32 data pos) (\<lambda>(kb, pos). rbind (dk kb) (\<lambda>k.
     rbind (read_blob32 data pos) (\<lambda>(vb, pos). rbind (dv vb) (\<lambda>v. Ok ((k, v), pos)))))"
    by (simp add: decode_entry_def read_blob32_def rbind_assoc case_prod_unfold)
  then show ?thesis
    by (auto simp: rbind_eq_Ok read_blob32_iff entry_bytes_def holds_at_append add.assoc)
qed

definition encode_entry :: "('k \<Rightarrow> bytes res) \<Rightarrow> ('v \<Rightarrow> bytes res) \<Rightarrow> 'k \<times> 'v \<Rightarrow> bytes res" where
  "encode_entry ek ev e = rbind (ek (fst e)) (\<lambda>kb. rbind (ev (snd e)) (\<lambda>vb. Ok (entry_bytes kb vb)))"

lemma encode_entries_eq:
  "encode_entries ek ev es buf = rbind (rmap (encode_entry ek ev) es) (\<lambda>bs. Ok (buf @ concat bs))"
  by (induction es arbitrary: buf) (simp_all add: encode_entry_def entry_bytes_def blob32_def rbind_assoc)

lemma encode_map_OkE:
  assumes "encode_map ek ev m = Ok buf"
  obtains bs where "rmap (encode_entry ek ev) m = Ok bs"
    "buf = u32_le (word_of_nat (length m)) @ concat bs"
  using assms by (auto simp: encode_map_def encode_entries_eq elim!: rbind_OkE)

section \<open>Decoding never panics and yields an ordered map\<close>

lemma proper_decode_entry:
  "(\<And>b. proper (dk b)) \<Longrightarrow> (\<And>b. proper (dv b)) \<Longrightarrow> proper (decode_entry dk dv data pos)"
  by (auto simp: decode_entry_def)

lemma proper_decode_entries:
  assumes "\<And>b. proper (dk b)" "\<And>b. proper (dv b)"
  shows "proper (decode_entries dk dv n data pos m)"
  by (induction n arbitrary: pos m) (auto simp: proper_decode_entry [OF assms])

lemma proper_decode_map:
  assumes "\<And>b. proper (dk b)" "\<And>b. proper (dv b)"
  shows "proper (decode_map dk dv data)"
  by (auto simp: decode_map_def proper_decode_entries [OF assms])

lemma decode_entries_wf: "decode_entries dk dv n data pos m = Ok m' \<Longrightarrow> bt_wf m \<Longrightarrow> bt_wf m'"
  by (induction n arbitrary: pos m) (auto elim!: rbind_OkE)

lemma decode_map_wf: "decode_map dk dv data = Ok m \<Longrightarrow> bt_wf m"
  by (auto simp: decode_map_def elim!: rbind_OkE dest: decode_entries_wf)

lemma proper_decode_u16_key [simp]: "proper (decode_u16_key b)"
  by (simp add: decode_u16_key_def index_def)

section \<open>The round trip\<close>

locale map_codec = key: item_codec ek dk + val: item_codec ev dv
  for ek :: "'k::linorder \<Rightarrow> bytes res" and dk ev and dv :: "bytes \<Rightarrow> 'v res"
begin

lemma decode_entries_enc:
  assumes "rmap (encode_entry ek ev) m = Ok bs" "\<forall>e \<in> set m. entry_fits ek ev e" "bt_wf (acc @ m)"
  shows "decode_entries dk dv (length m) (pre @ concat bs @ post) (length pre) acc = Ok (acc @ m)"
  using assms
proof (induction m arbitrary: pre acc bs)
  case (Cons e m)
  obtain k v where e: "e = (k, v)" by (cases e)
  from Cons.prems(1) obtain kb vb bs' where enc: "ek k = Ok kb" "ev v = Ok vb"
    and bs': "rmap (encode_entry ek ev) m = Ok bs'" and bs: "bs = entry_bytes kb vb # bs'"
    by (auto simp: encode_entry_def [of ek ev "(k, v)"] e elim!: rbind_OkE)
  have fits: "fits32 kb" "fits32 vb" using Cons.prems(2) enc by (auto simp: entry_fits_def e)
  have "\<forall>k' \<in> fst ` set acc. k' < k"
    using Cons.prems(3) by (auto simp: bt_wf_def sorted_wrt_append e)
  then have ins: "bt_insert k v acc = acc @ [(k, v)]" by (rule bt_insert_snoc)
  have "decode_entry dk dv (pre @ concat bs @ post) (length pre)
          = Ok ((k, v), length (pre @ entry_bytes kb vb))"
    using fits key.dec_enc [OF enc(1)] val.dec_enc [OF enc(2)]
    unfolding decode_entry_iff by - (rule exI [of _ kb], rule exI [of _ vb], simp add: bs)
  moreover have "decode_entries dk dv (length m) ((pre @ entry_bytes kb vb) @ concat bs' @ post)
      (length (pre @ entry_bytes kb vb)) (acc @ [(k, v)]) = Ok ((acc @ [(k, v)]) @ m)"
    using Cons.prems by (intro Cons.IH bs') (simp_all add: e)
  ultimately show ?case by (simp add: e ins bs)
qed simp

text \<open>A decoder reads back the map, and ignores what follows it.\<close>

lemma decode_encode:
  assumes "encode_map ek ev m = Ok buf" "bt_wf m" "length m < 2 ^ 32" "\<forall>e \<in> set m. entry_fits ek ev e"
  shows "decode_map dk dv (buf @ post) = Ok m"
proof -
  from assms(1) obtain bs where bs: "rmap (encode_entry ek ev) m = Ok bs"
    "buf = u32_le (word_of_nat (length m)) @ concat bs" by (rule encode_map_OkE)
  have "codec_read_u32 (u32_le (word_of_nat (length m)) @ concat bs @ post) 0
          = Ok (word_of_nat (length m), 4)"
    by (simp add: read_u32_iff)
  moreover have "decode_entries dk dv (length m) (buf @ post) 4 [] = Ok m"
    using decode_entries_enc [OF bs(1) assms(4), of "[]" "u32_le (word_of_nat (length m))" post] assms(2)
    by (simp add: bs(2))
  ultimately show ?thesis using assms(3) by (simp add: decode_map_def bs(2))
qed

end

lemma decode_u16_key_le [simp]: "decode_u16_key (u16_le k) = Ok k"
proof -
  have "take 2 (drop 0 (u16_le k)) = [u16_le k ! 0, u16_le k ! (0 + 1)]"
    by (rule take_Suc_Suc_drop) simp
  then have "[u16_le k ! 0, u16_le k ! 1] = u16_le k" by simp
  then show ?thesis by (simp add: decode_u16_key_def index_def)
qed

interpretation u16_map: map_codec "\<lambda>k. Ok (u16_le k)" decode_u16_key Ok Ok
  by unfold_locales auto

section \<open>Properties\<close>

text \<open>C21: For any key and value closures that read back what they write, decoding the encoding of
  an ordered map gives the map, whatever follows it in the buffer: the count, the entry lengths
  and the order of the entries are all recovered. The encoder casts lengths with
  \<^verbatim>\<open>as u32\<close>, so the map and its items have to be shorter than \<open>2 ^ 32\<close>.\<close>

theorem decode_map_encode_map:
  assumes "map_codec ek dk ev dv" "encode_map ek ev m = Ok buf" "bt_wf m" "length m < 2 ^ 32"
    and "\<forall>e \<in> set m. entry_fits ek ev e"
  shows "decode_map dk dv (buf @ post) = Ok m"
  using assms by (rule map_codec.decode_encode)

theorem decode_map_encode_map_witness:
  "decode_map decode_u16_key Ok
     ([2, 0, 0, 0, 2, 0, 0, 0, 1, 0, 1, 0, 0, 0, 9, 2, 0, 0, 0, 2, 1, 0, 0, 0, 0] @ [7])
     = Ok [(1 :: u16, [9 :: u8]), (258, [])]"
proof (rule decode_map_encode_map [where ek = "\<lambda>k. Ok (u16_le k)" and ev = Ok])
  show "map_codec (\<lambda>k. Ok (u16_le k)) decode_u16_key Ok Ok" by (rule u16_map.map_codec_axioms)
  show "encode_map (\<lambda>k. Ok (u16_le k)) Ok [(1, [9]), (258, [])]
      = Ok [2, 0, 0, 0, 2, 0, 0, 0, 1, 0, 1, 0, 0, 0, 9, 2, 0, 0, 0, 2, 1, 0, 0, 0, 0]" by code_simp
qed (simp_all add: bt_wf_def entry_fits_def fits32_def)

text \<open>Decoding a map from arbitrary bytes never panics and never reads out of the buffer: with
  closures that do not panic the outcome is a map or an error, and the map is in strict key
  order, so duplicate keys of the input have been merged.\<close>

theorem decode_map_total:
  assumes "\<And>b. proper (dk b)" "\<And>b. proper (dv b)"
  shows "proper (decode_map dk dv data) \<and> (\<forall>m. decode_map dk dv data = Ok m \<longrightarrow> bt_wf m)"
  using assms by (auto intro: proper_decode_map decode_map_wf)

theorem decode_map_total_witness:
  "let data = [2, 0, 0, 0, 2, 0, 0, 0, 5, 0, 0, 0, 0, 0, 2, 0, 0, 0, 3, 0, 1, 0, 0, 0, 7] in
   proper (decode_u16_map data) \<and> decode_u16_map data = Ok [(3, [7]), (5, [])] \<and> bt_wf [(3 :: u16, [7 :: u8]), (5, [])]"
proof -
  let ?data = "[2, 0, 0, 0, 2, 0, 0, 0, 5, 0, 0, 0, 0, 0, 2, 0, 0, 0, 3, 0, 1, 0, 0, 0, 7]"
  have "decode_map decode_u16_key Ok ?data = Ok [(3, [7]), (5, [])]" by code_simp
  with decode_map_total [of decode_u16_key "Ok :: bytes \<Rightarrow> _" ?data] show ?thesis
    unfolding Let_def decode_u16_map_def by simp
qed

end
