(* ===== verification/Frost_Library.thy ===== *)
theory Frost_Library
  imports Map_Codec
begin

text \<open>
  The interface of the crate \<^verbatim>\<open>frost-core\<close> that the ceremonies call. The crate is not part of the
  repository, so it is an argument \<open>L\<close> of every definition that uses it: a record with one field
  per function, over type variables for its opaque types: identifiers \<open>'i\<close> (ordered, as
  \<^verbatim>\<open>Identifier: Ord\<close>), scalars \<open>'f\<close> (a field), group elements \<open>'g\<close>, signatures \<open>'sig\<close>, errors
  \<open>'e\<close>, random generators \<open>'rng\<close>, the packages and secrets of the DKG rounds \<open>'p1 's1 'p2 's2\<close>,
  key packages \<open>'kp\<close> and public key packages \<open>'pk\<close>; and for signing the nonces, commitments,
  signing packages and signature shares. A fallible function returns \<open>'e + 'a\<close> where the error is
  inspected and an option where it is replaced. \<^verbatim>\<open>thread_rng()\<close> is the argument \<open>rng\<close>.

  What a theorem needs of the crate is a named predicate on the record, stated from the crate's
  documentation.
\<close>

record ('i, 'f, 'g, 'sig, 'e, 'rng, 's1, 'p1, 's2, 'p2, 'kp, 'pk) frost =
  id_try_from :: "u16 \<Rightarrow> 'i option"
  id_serialize :: "'i \<Rightarrow> bytes"
  id_deserialize :: "bytes \<Rightarrow> 'i option"
  id_scalar :: "'i \<Rightarrow> 'f"
  culprit :: "'e \<Rightarrow> 'i option"
  random_scalar :: "'rng \<Rightarrow> 'f \<times> 'rng"
  invert :: "'f \<Rightarrow> 'f option"
  mul_generator :: "'f \<Rightarrow> 'g"
  dkg_core_part1 :: "'i \<Rightarrow> u16 \<Rightarrow> u16 \<Rightarrow> 'rng \<Rightarrow> 'e + 's1 \<times> 'p1"
  dkg_core_part2 :: "'s1 \<Rightarrow> ('i \<times> 'p1) list \<Rightarrow> 'e + 's2 \<times> ('i \<times> 'p2) list"
  dkg_core_part3 :: "'s2 \<Rightarrow> ('i \<times> 'p1) list \<Rightarrow> ('i \<times> 'p2) list \<Rightarrow> 'e + 'kp \<times> 'pk"
  compute_proof_of_knowledge :: "'i \<Rightarrow> 'f list \<Rightarrow> 'g list \<Rightarrow> 'rng \<Rightarrow> 'e + 'sig"
  secret1_new :: "'i \<Rightarrow> 'f list \<Rightarrow> 'g list \<Rightarrow> u16 \<Rightarrow> u16 \<Rightarrow> 's1"
  package1_new :: "'g list \<Rightarrow> 'sig \<Rightarrow> 'p1"
  package1_serialize :: "'p1 \<Rightarrow> bytes option"
  package1_deserialize :: "bytes \<Rightarrow> 'p1 option"
  package2_serialize :: "'p2 \<Rightarrow> bytes option"
  package2_deserialize :: "bytes \<Rightarrow> 'p2 option"
  kp_identifier :: "'kp \<Rightarrow> 'i"
  kp_signing_share :: "'kp \<Rightarrow> 'f"
  kp_serialize :: "'kp \<Rightarrow> bytes option"
  kp_deserialize :: "bytes \<Rightarrow> 'kp option"
  pk_serialize :: "'pk \<Rightarrow> bytes option"
  pk_deserialize :: "bytes \<Rightarrow> 'pk option"
  pk_verifying_key :: "'pk \<Rightarrow> 'g"
  vk_serialize :: "'g \<Rightarrow> bytes option"

record ('i, 'e, 'rng, 'kp, 'pk, 'sig, 'f, 'nonces, 'cm, 'sp, 'sh) frost_sign =
  commit :: "'f \<Rightarrow> 'rng \<Rightarrow> 'nonces \<times> 'cm"
  cm_serialize :: "'cm \<Rightarrow> bytes option"
  cm_deserialize :: "bytes \<Rightarrow> 'cm option"
  signing_package_new :: "('i \<times> 'cm) list \<Rightarrow> bytes \<Rightarrow> 'sp"
  sp_serialize :: "'sp \<Rightarrow> bytes option"
  core_sign :: "'sp \<Rightarrow> 'nonces \<Rightarrow> 'kp \<Rightarrow> 'e + 'sh"
  share_serialize :: "'sh \<Rightarrow> bytes"
  share_deserialize :: "bytes \<Rightarrow> 'sh option"
  core_aggregate :: "'sp \<Rightarrow> ('i \<times> 'sh) list \<Rightarrow> 'pk \<Rightarrow> 'e + 'sig"
  sig_serialize :: "'sig \<Rightarrow> bytes option"

section \<open>Documented behaviour\<close>

text \<open>
  \<^verbatim>\<open>TryFrom<u16> for Identifier\<close>: only 0 is rejected; different numbers give different
  identifiers, and so do their serializations.
\<close>

definition ids_ok :: "('i, 'f, 'g, 'sig, 'e, 'rng, 's1, 'p1, 's2, 'p2, 'kp, 'pk, 'z) frost_scheme \<Rightarrow> bool" where
  "ids_ok L \<longleftrightarrow>
     (\<forall>n. id_try_from L n = None \<longleftrightarrow> n = 0) \<and>
     (\<forall>n m i. id_try_from L n = Some i \<longrightarrow> id_try_from L m = Some i \<longrightarrow> n = m) \<and>
     inj (id_serialize L) \<and> (\<forall>i. id_deserialize L (id_serialize L i) = Some i)"

text \<open>\<^verbatim>\<open>Field::invert\<close>: the inverse, or an error on zero.\<close>

definition invert_ok ::
  "('i, 'f::field, 'g, 'sig, 'e, 'rng, 's1, 'p1, 's2, 'p2, 'kp, 'pk, 'z) frost_scheme \<Rightarrow> bool" where
  "invert_ok L \<longleftrightarrow> (\<forall>x. invert L x = (if x = 0 then None else Some (inverse x)))"

text \<open>\<^verbatim>\<open>serialize\<close> and \<^verbatim>\<open>deserialize\<close> of a type are inverse.\<close>

definition serde_ok :: "('a \<Rightarrow> bytes option) \<Rightarrow> (bytes \<Rightarrow> 'a option) \<Rightarrow> bool" where
  "serde_ok ser de \<longleftrightarrow> (\<forall>x b. ser x = Some b \<longrightarrow> de b = Some x)"

lemma ids_ok_serialize: "ids_ok L \<Longrightarrow> id_serialize L i = id_serialize L j \<longleftrightarrow> i = j"
  by (auto simp: ids_ok_def inj_def)

lemma ids_ok_try_from_inj: "ids_ok L \<Longrightarrow> id_try_from L n = Some i \<Longrightarrow> id_try_from L m = Some i \<Longrightarrow> n = m"
  by (auto simp: ids_ok_def)

lemma ids_ok_Some: "ids_ok L \<Longrightarrow> n \<noteq> 0 \<Longrightarrow> \<exists>i. id_try_from L n = Some i"
  by (metis ids_ok_def option.exhaust)

end
