(* ===== verification/Session_Driver.thy ===== *)
theory Session_Driver
  imports Wire
begin

text \<open>
  The session layer of \<^verbatim>\<open>frost-session\<close>: frames (\<^verbatim>\<open>message.rs\<close>, \<^verbatim>\<open>relay.rs\<close>) and the driver that
  polls a ceremony task by hand (\<^verbatim>\<open>session.rs\<close>). An \<^verbatim>\<open>async fn\<close> that talks through a
  \<^verbatim>\<open>FrostChannel\<close> is a value of \<open>'a proc\<close>: it returns, sends a frame and goes on, or waits for a
  frame. Its only suspension points are the receives, so one poll runs it over the frames in
  the inbox until it returns or the inbox is empty. The loops of the ceremonies are
  \<^verbatim>\<open>for _ in 0..n\<close>, so a task is a well-founded tree. A task that panics stays in the session
  and panics again at the next poll, as a poisoned \<^verbatim>\<open>async fn\<close> does.
\<close>

section \<open>Frames\<close>

definition read_recipient :: "bytes \<Rightarrow> u16" where
  "read_recipient msg = (if length msg < 2 then 0 else u16_of_le [msg ! 0, msg ! 1])"

definition payload :: "bytes \<Rightarrow> bytes" where
  "payload msg = (if length msg < 2 then msg else drop 2 msg)"

definition wrap_sender :: "u16 \<Rightarrow> bytes \<Rightarrow> bytes" where
  "wrap_sender sender_id data = u16_le sender_id @ data"

section \<open>Ceremony tasks\<close>

datatype 'a proc =
    Ret "'a res"
  | Send bytes "'a proc"
  | Recv "u16 \<times> bytes \<Rightarrow> 'a proc"

primrec pbind :: "'a proc \<Rightarrow> ('a \<Rightarrow> 'b proc) \<Rightarrow> 'b proc" where
  "pbind (Ret r) f =
     (case r of Ok x \<Rightarrow> f x | Err e \<Rightarrow> Ret (Err e) | Blamed i \<Rightarrow> Ret (Blamed i) | Panic \<Rightarrow> Ret Panic)"
| "pbind (Send m p) f = Send m (pbind p f)"
| "pbind (Recv k) f = Recv (\<lambda>m. pbind (k m) f)"

definition broadcast :: "bytes \<Rightarrow> unit proc" where
  "broadcast data = Send (u16_le 0 @ data) (Ret (Ok ()))"

definition send_to :: "u16 \<Rightarrow> bytes \<Rightarrow> unit proc" where
  "send_to recipient data = Send (u16_le recipient @ data) (Ret (Ok ()))"

text \<open>
  What \<^verbatim>\<open>recv\<close> makes of the frame it pops. Its indexing and its slice panic out of range, as
  the source's do; the test of the length before them is what keeps a short frame from it
  (\<open>pop_frame_eq\<close>), so that the frame is always read to the value \<open>recv_frame\<close>.
\<close>

definition pop_frame :: "bytes \<Rightarrow> (u16 \<times> bytes) res" where
  "pop_frame frame =
     (if length frame < 2 then Ok (0, frame)
      else rbind (index frame 0) (\<lambda>b0.
           rbind (index frame 1) (\<lambda>b1.
           rbind (slice frame 2 (length frame)) (\<lambda>data. Ok (u16_of_le [b0, b1], data)))))"

definition recv_frame :: "bytes \<Rightarrow> u16 \<times> bytes" where
  "recv_frame frame =
     (if length frame < 2 then (0, frame) else (u16_of_le [frame ! 0, frame ! 1], drop 2 frame))"

lemma pop_frame_eq [simp]: "pop_frame frame = Ok (recv_frame frame)"
  by (auto simp: pop_frame_def recv_frame_def index_def slice_def)

definition recv :: "(u16 \<times> bytes) proc" where
  "recv = Recv (\<lambda>m. Ret (Ok m))"

text \<open>The loop \<^verbatim>\<open>for _ in 0..n { let m = ch.recv().await; acc = step(m, acc)?; }\<close>.\<close>

primrec recv_loop :: "nat \<Rightarrow> (u16 \<times> bytes \<Rightarrow> 'a \<Rightarrow> 'a res) \<Rightarrow> 'a \<Rightarrow> 'a proc" where
  "recv_loop 0 stp acc = Ret (Ok acc)"
| "recv_loop (Suc n) stp acc = pbind recv (\<lambda>m. pbind (Ret (stp m acc)) (recv_loop n stp))"

text \<open>The loop \<^verbatim>\<open>for x in xs { let (to, data) = prepare(x)?; ch.send_to(to, data).await; }\<close>.\<close>

primrec send_loop :: "('x \<Rightarrow> (u16 \<times> bytes) res) \<Rightarrow> 'x list \<Rightarrow> unit proc" where
  "send_loop prepare [] = Ret (Ok ())"
| "send_loop prepare (x # xs) =
     pbind (Ret (prepare x)) (\<lambda>(to, data). pbind (send_to to data) (\<lambda>_. send_loop prepare xs))"

text \<open>Polling: the rest of the task, the frames left in the inbox, the outbox.\<close>

primrec poll :: "'a proc \<Rightarrow> bytes list \<Rightarrow> bytes list \<Rightarrow> 'a proc \<times> bytes list \<times> bytes list" where
  "poll (Ret r) inb outb = (Ret r, inb, outb)"
| "poll (Send m p) inb outb = poll p inb (outb @ [m])"
| "poll (Recv k) inb outb =
     (case inb of
        [] \<Rightarrow> (Recv k, [], outb)
      | f # fs \<Rightarrow>
          (case pop_frame f of
             Ok m \<Rightarrow> poll (k m) fs outb
           | Err e \<Rightarrow> (Ret (Err e), fs, outb)
           | Blamed i \<Rightarrow> (Ret (Blamed i), fs, outb)
           | Panic \<Rightarrow> (Ret Panic, fs, outb)))"

section \<open>The driver\<close>

record 'a protocol =
  task :: "'a proc option"
  outcome :: "'a res option"
  inbox :: "bytes list"
  outbox :: "bytes list"

definition advance :: "'a protocol \<Rightarrow> bool res \<times> 'a protocol" where
  "advance s =
     (case task s of
        None \<Rightarrow> (Ok True, s)
      | Some p \<Rightarrow>
          (let (p', inb, outb) = poll p (inbox s) (outbox s);
               s' = s\<lparr>inbox := inb, outbox := outb\<rparr>
           in case p' of
                Ret Panic \<Rightarrow> (Panic, s'\<lparr>task := Some p'\<rparr>)
              | Ret r \<Rightarrow> (Ok True, s'\<lparr>task := None, outcome := Some r\<rparr>)
              | _ \<Rightarrow> (Ok False, s'\<lparr>task := Some p'\<rparr>)))"

definition start :: "'a proc \<Rightarrow> bool res \<times> 'a protocol" where
  "start p = advance \<lparr>task = Some p, outcome = None, inbox = [], outbox = []\<rparr>"

definition feed :: "bytes \<Rightarrow> 'a protocol \<Rightarrow> bool res \<times> 'a protocol" where
  "feed msg s =
     (if outcome s \<noteq> None then (Ok True, s) else advance (s\<lparr>inbox := inbox s @ [msg]\<rparr>))"

definition take_msg :: "'a protocol \<Rightarrow> bytes option \<times> 'a protocol" where
  "take_msg s = (case outbox s of [] \<Rightarrow> (None, s) | m # ms \<Rightarrow> (Some m, s\<lparr>outbox := ms\<rparr>))"

definition protocol_result :: "'a protocol \<Rightarrow> 'a res option \<times> 'a protocol" where
  "protocol_result s = (outcome s, s\<lparr>task := None, outcome := None\<rparr>)"

section \<open>Lemmas on tasks\<close>

lemma pbind_assoc: "pbind (pbind p f) g = pbind p (\<lambda>x. pbind (f x) g)"
  by (induction p) (auto split: res.splits)

lemma pbind_Ret_right [simp]: "pbind p (\<lambda>x. Ret (Ok x)) = p"
  by (induction p) (auto split: res.splits)

lemma pbind_Ret_rbind: "pbind (Ret (rbind r f)) g = pbind (Ret r) (\<lambda>x. pbind (Ret (f x)) g)"
  by (cases r) simp_all

lemma poll_pbind [proc_simps]:
  "poll (pbind p f) inb outb =
     (case poll p inb outb of
        (Ret (Ok x), inb', outb') \<Rightarrow> poll (f x) inb' outb'
      | (p', inb', outb') \<Rightarrow> (pbind p' f, inb', outb'))"
proof (induction p arbitrary: inb outb)
  case (Ret r)
  then show ?case by (cases r) auto
next
  case (Recv k)
  then show ?case by (cases inb) auto
qed simp

lemma poll_outbox: "poll p inb outb = (case poll p inb [] of (p', inb', o') \<Rightarrow> (p', inb', outb @ o'))"
proof (induction p arbitrary: inb outb)
  case (Send m p)
  show ?case using Send [of inb "outb @ [m]"] Send [of inb "[m]"] by (auto split: prod.splits)
next
  case (Recv k)
  show ?case
  proof (cases inb)
    case (Cons f fs)
    then show ?thesis using Recv [of "k (recv_frame f)" fs outb] by simp
  qed simp
qed simp

text \<open>A poll over more frames is a poll that goes on from where the first one stopped.\<close>

lemma poll_append:
  "poll p (a @ b) outb = (case poll p a outb of (p', rest, o') \<Rightarrow> poll p' (rest @ b) o')"
proof (induction p arbitrary: a outb)
  case (Recv k)
  then show ?case by (cases a; cases b) auto
qed auto

lemma poll_stops:
  "poll p inb outb = (p', rest, o') \<Longrightarrow> (\<exists>r. p' = Ret r) \<or> ((\<exists>k. p' = Recv k) \<and> rest = [])"
proof (induction p arbitrary: inb outb)
  case (Recv k)
  show ?case
  proof (cases inb)
    case (Cons f fs)
    then show ?thesis using Recv.IH [of "k (recv_frame f)" fs outb] Recv.prems by auto
  qed (use Recv.prems in auto)
qed auto

lemma poll_Ret_rest: "poll p inb outb = (Ret r, rest, o') \<Longrightarrow> poll p (inb @ b) outb = (Ret r, rest @ b, o')"
  by (subst poll_append) simp

lemma poll_recv_loop_Nil [proc_simps]: "poll (recv_loop 0 stp acc) inb outb = (Ret (Ok acc), inb, outb)"
  by simp

lemma poll_recv_loop_Cons [proc_simps]:
  "poll (recv_loop (Suc n) stp acc) (f # fs) outb =
     (case stp (recv_frame f) acc of
        Ok acc' \<Rightarrow> poll (recv_loop n stp acc') fs outb
      | Err e \<Rightarrow> (Ret (Err e), fs, outb)
      | Blamed i \<Rightarrow> (Ret (Blamed i), fs, outb)
      | Panic \<Rightarrow> (Ret Panic, fs, outb))"
  by (auto simp: recv_def split: res.splits)

text \<open>A receive loop consumes exactly its number of frames and folds the step over them.\<close>

primrec rfold :: "('m \<Rightarrow> 'a \<Rightarrow> 'a res) \<Rightarrow> 'm list \<Rightarrow> 'a \<Rightarrow> 'a res" where
  "rfold stp [] acc = Ok acc"
| "rfold stp (m # ms) acc = rbind (stp m acc) (rfold stp ms)"

lemma poll_recv_loop_Ok [proc_simps]:
  assumes "rfold stp (map recv_frame fs) acc = Ok acc'"
  shows "poll (recv_loop (length fs) stp acc) (fs @ rest) outb = (Ret (Ok acc'), rest, outb)"
  using assms
proof (induction fs arbitrary: acc)
  case (Cons f fs)
  then obtain a where "stp (recv_frame f) acc = Ok a" "rfold stp (map recv_frame fs) a = Ok acc'"
    by (auto elim: rbind_OkE)
  then show ?case using Cons.IH by (simp only: length_Cons append_Cons poll_recv_loop_Cons res.case)
qed simp

lemma poll_send_loop_Ok [proc_simps]:
  assumes "rmap prepare xs = Ok ys"
  shows "poll (send_loop prepare xs) inb outb
           = (Ret (Ok ()), inb, outb @ map (\<lambda>(to, data). u16_le to @ data) ys)"
  using assms
proof (induction xs arbitrary: ys outb)
  case (Cons x xs)
  then obtain to data ys' where "prepare x = Ok (to, data)" "rmap prepare xs = Ok ys'" "ys = (to, data) # ys'"
    by (auto elim!: rbind_OkE)
  then show ?case using Cons.IH by (simp add: send_to_def)
qed simp

text \<open>The value of a poll that has ended the task, for evaluating concrete runs.\<close>

definition returned :: "'a proc \<times> bytes list \<times> bytes list \<Rightarrow> ('a res \<times> bytes list \<times> bytes list) option" where
  "returned t = (case t of (p, inb, outb) \<Rightarrow>
     (case p of Ret r \<Rightarrow> Some (r, inb, outb) | Send _ _ \<Rightarrow> None | Recv _ \<Rightarrow> None))"

lemma returned_Some: "returned t = Some (r, inb, outb) \<Longrightarrow> t = (Ret r, inb, outb)"
  by (auto simp: returned_def split: prod.splits proc.splits)

section \<open>What a task can return\<close>

text \<open>\<open>pall Q p\<close>: whatever frames the task gets, a value it returns satisfies \<open>Q\<close>.\<close>

primrec pall :: "('a res \<Rightarrow> bool) \<Rightarrow> 'a proc \<Rightarrow> bool" where
  "pall Q (Ret r) \<longleftrightarrow> Q r"
| "pall Q (Send m p) \<longleftrightarrow> pall Q p"
| "pall Q (Recv k) \<longleftrightarrow> (\<forall>m. pall Q (k m))"

lemma pall_poll: "pall Q p \<Longrightarrow> poll p inb outb = (Ret r, rest, o') \<Longrightarrow> Q r"
proof (induction p arbitrary: inb outb)
  case (Recv k)
  show ?case
  proof (cases inb)
    case (Cons f fs)
    moreover have "pall Q (k (recv_frame f))" using Recv.prems(1) by (cases "recv_frame f") simp
    ultimately show ?thesis using Recv.IH [of "k (recv_frame f)" fs outb] Recv.prems(2) by simp
  qed (use Recv.prems in simp)
qed auto

text \<open>A property of the successful values holds when the last part of the task gives it.\<close>

definition on_ok :: "('a \<Rightarrow> bool) \<Rightarrow> 'a res \<Rightarrow> bool" where
  "on_ok Q r \<longleftrightarrow> (\<forall>x. r = Ok x \<longrightarrow> Q x)"

lemma pall_on_ok_bind: "(\<And>x. pall (on_ok Q) (f x)) \<Longrightarrow> pall (on_ok Q) (pbind p f)"
  by (induction p) (auto simp: on_ok_def split: res.splits)

lemma pall_no_panic_bind:
  "pall (\<lambda>r. r \<noteq> Panic) p \<Longrightarrow> (\<And>x. pall (\<lambda>r. r \<noteq> Panic) (f x)) \<Longrightarrow> pall (\<lambda>r. r \<noteq> Panic) (pbind p f)"
  by (induction p) (auto split: res.splits)

lemma pall_no_panic_comm [simp]:
  "pall (\<lambda>r. r \<noteq> Panic) (broadcast d)" "pall (\<lambda>r. r \<noteq> Panic) (send_to i d)" "pall (\<lambda>r. r \<noteq> Panic) recv"
  by (simp_all add: broadcast_def send_to_def recv_def)

lemma pall_no_panic_recv_loop:
  "(\<And>m acc. stp m acc \<noteq> Panic) \<Longrightarrow> pall (\<lambda>r. r \<noteq> Panic) (recv_loop n stp acc)"
  by (induction n arbitrary: acc) (auto intro!: pall_no_panic_bind split: res.splits)

lemma pall_no_panic_send_loop:
  "(\<And>x. prepare x \<noteq> Panic) \<Longrightarrow> pall (\<lambda>r. r \<noteq> Panic) (send_loop prepare xs)"
  by (induction xs) (auto intro!: pall_no_panic_bind split: res.splits prod.splits)

lemma recv_wrap_sender [simp]: "recv_frame (wrap_sender i d) = (i, d)"
proof -
  have "u16_le i = [u16_le i ! 0, u16_le i ! 1]"
    by (rule nth_equalityI) (auto simp: less_Suc_eq numeral_2_eq_2 nth_Cons split: nat.splits)
  then obtain a b where ab: "u16_le i = [a, b]" by blast
  moreover have "u16_of_le [a, b] = i" using u16_of_le_le [of i] by (simp add: ab)
  ultimately show ?thesis by (simp add: recv_frame_def wrap_sender_def)
qed

section \<open>The interface of a ceremony\<close>

text \<open>
  What a host relies on of the trait \<^verbatim>\<open>Ceremony\<close>: pending messages come out in order and once,
  a finished session ignores further messages, and asking for the result ends it.
\<close>

locale ceremony =
  fixes feed' :: "bytes \<Rightarrow> 's \<Rightarrow> bool res \<times> 's" and take' :: "'s \<Rightarrow> bytes option \<times> 's"
    and result' :: "'s \<Rightarrow> 'r option \<times> 's"
    and pending :: "'s \<Rightarrow> bytes list" and finished :: "'s \<Rightarrow> 'r option"
  assumes take_empty: "pending s = [] \<Longrightarrow> take' s = (None, s)"
    and take_next: "pending s = m # ms \<Longrightarrow>
          \<exists>s'. take' s = (Some m, s') \<and> pending s' = ms \<and> finished s' = finished s"
    and feed_finished: "finished s \<noteq> None \<Longrightarrow> feed' m s = (Ok True, s)"
    and feed_pending: "feed' m s = (r, s') \<Longrightarrow> \<exists>new. pending s' = pending s @ new"
    and result_finished: "\<exists>s'. result' s = (finished s, s') \<and> finished s' = None"
begin

text \<open>The host's loop \<^verbatim>\<open>while let Some(m) = take_msg()\<close>, with the fuel it needs.\<close>

primrec drain :: "nat \<Rightarrow> 's \<Rightarrow> bytes list \<times> 's" where
  "drain 0 s = ([], s)"
| "drain (Suc n) s =
     (case take' s of (None, s') \<Rightarrow> ([], s')
      | (Some m, s') \<Rightarrow> (let (ms, s'') = drain n s' in (m # ms, s'')))"

lemma drain_all:
  "length (pending s) < n \<Longrightarrow> \<exists>s'. drain n s = (pending s, s') \<and> pending s' = [] \<and> finished s' = finished s"
proof (induction n arbitrary: s)
  case (Suc n)
  show ?case
  proof (cases "pending s")
    case (Cons m ms)
    with take_next obtain s1 where s1: "take' s = (Some m, s1)" "pending s1 = ms" "finished s1 = finished s"
      by blast
    with Suc.IH [of s1] Suc.prems Cons show ?thesis by auto
  qed (simp add: take_empty)
qed simp

lemma feeds_finished: "finished s \<noteq> None \<Longrightarrow> fold (\<lambda>m. snd \<circ> feed' m) ms s = s"
  by (induction ms) (simp_all add: feed_finished)

end

lemma advance_pending: "advance s = (r, s') \<Longrightarrow> \<exists>new. outbox s' = outbox s @ new"
  by (auto simp: advance_def Let_def poll_outbox [of _ _ "outbox s"]
      split: option.splits prod.splits proc.splits res.splits)

interpretation protocol: ceremony feed take_msg protocol_result outbox outcome
proof
  fix s s' :: "'a protocol" and m r
  assume "feed m s = (r, s')"
  then show "\<exists>new. outbox s' = outbox s @ new"
    using advance_pending [of "s\<lparr>inbox := inbox s @ [m]\<rparr>" r s'] by (auto simp: feed_def split: if_splits)
qed (auto simp: take_msg_def feed_def protocol_result_def)

section \<open>The driver refines one run of the task\<close>

text \<open>What the host does with a session, in any order, and what it gets to see.\<close>

datatype host_call = Feed bytes | Take_msg

primrec host_step :: "host_call \<Rightarrow> bytes list \<times> 'a protocol \<Rightarrow> bytes list \<times> 'a protocol" where
  "host_step (Feed m) st = (fst st, snd (feed m (snd st)))"
| "host_step Take_msg st =
     (case take_msg (snd st) of (None, s) \<Rightarrow> (fst st, s) | (Some m, s) \<Rightarrow> (fst st @ [m], s))"

definition host_run :: "'a proc \<Rightarrow> host_call list \<Rightarrow> bytes list \<times> 'a protocol" where
  "host_run p calls = fold host_step calls ([], snd (start p))"

primrec fed :: "host_call list \<Rightarrow> bytes list" where
  "fed [] = []"
| "fed (c # cs) = (case c of Feed m \<Rightarrow> m # fed cs | Take_msg \<Rightarrow> fed cs)"

lemma fed_append [simp]: "fed (xs @ ys) = fed xs @ fed ys"
  by (induction xs) (auto split: host_call.splits)

text \<open>The specification: the whole inbox is there from the start, and the task runs once.\<close>

definition outcome_of :: "'a proc \<Rightarrow> 'a res option" where
  "outcome_of p = (case p of Ret Panic \<Rightarrow> None | Ret r \<Rightarrow> Some r | _ \<Rightarrow> None)"

definition simulates :: "'a proc \<Rightarrow> bytes list \<Rightarrow> bytes list \<times> 'a protocol \<Rightarrow> bool" where
  "simulates p msgs st \<longleftrightarrow>
     (case poll p msgs [] of (p', rest, out) \<Rightarrow>
        fst st @ outbox (snd st) = out \<and> outcome (snd st) = outcome_of p' \<and>
        (if outcome_of p' = None then task (snd st) = Some p' \<and> inbox (snd st) = rest
         else task (snd st) = None))"

lemma simulates_start: "simulates p [] ([], snd (start p))"
  by (auto simp: simulates_def start_def advance_def outcome_of_def Let_def
      split: prod.splits proc.splits res.splits)

lemma simulates_take: "simulates p msgs st \<Longrightarrow> simulates p msgs (host_step Take_msg st)"
  by (auto simp: simulates_def take_msg_def split: list.splits prod.splits)

lemma simulates_feed:
  assumes "simulates p msgs st"
  shows "simulates p (msgs @ [m]) (host_step (Feed m) st)"
proof -
  obtain p' rest out where pol: "poll p msgs [] = (p', rest, out)" by (cases "poll p msgs []")
  have app: "poll p (msgs @ [m]) [] = poll p' (rest @ [m]) out"
    by (subst poll_append) (simp add: pol)
  show ?thesis
  proof (cases "outcome_of p'")
    case (Some r)
    then have "\<exists>x. p' = Ret x" by (auto simp: outcome_of_def split: proc.splits)
    with Some assms show ?thesis by (auto simp: simulates_def pol app feed_def)
  next
    case None
    obtain p2 rest2 new where pol2: "poll p' (rest @ [m]) [] = (p2, rest2, new)"
      by (cases "poll p' (rest @ [m]) []")
    have out: "\<And>o1. poll p' (rest @ [m]) o1 = (p2, rest2, o1 @ new)"
      by (subst poll_outbox) (simp add: pol2)
    have st: "outcome (snd st) = None" "task (snd st) = Some p'" "inbox (snd st) = rest"
      "fst st @ outbox (snd st) = out"
      using assms None by (auto simp: simulates_def pol)
    show ?thesis
      using st(4) by (auto simp: simulates_def app out feed_def advance_def st outcome_of_def Let_def
          split: proc.splits res.splits)
  qed
qed

lemma simulates_host_run: "simulates p (fed calls) (host_run p calls)"
proof (induction calls rule: rev_induct)
  case (snoc c cs)
  then show ?case
    by (cases c) (simp_all add: host_run_def simulates_take simulates_feed del: host_step.simps)
qed (simp add: host_run_def simulates_start)

text \<open>What \<^verbatim>\<open>feed\<close> answers is determined by the task and the messages it was fed.\<close>

definition feed_answer :: "'a proc \<Rightarrow> bool res" where
  "feed_answer p = (case p of Ret r \<Rightarrow> (if r = Panic then Panic else Ok True) | _ \<Rightarrow> Ok False)"

lemma fst_advance: "task s = Some p \<Longrightarrow> fst (advance s) = feed_answer (fst (poll p (inbox s) []))"
  by (subst poll_outbox [of p "inbox s" "[]"])
     (auto simp: advance_def feed_answer_def Let_def poll_outbox [of p "inbox s" "outbox s"]
       split: prod.splits proc.splits res.splits)

lemma feed_host_run: "fst (feed m (snd (host_run p calls))) = feed_answer (fst (poll p (fed calls @ [m]) []))"
proof -
  obtain p' rest out where p': "poll p (fed calls) [] = (p', rest, out)" by (cases "poll p (fed calls) []")
  have sim: "simulates p (fed calls) (host_run p calls)" by (rule simulates_host_run)
  have "poll p (fed calls @ [m]) [] = poll p' (rest @ [m]) out" by (subst poll_append) (simp add: p')
  then have app: "fst (poll p (fed calls @ [m]) []) = fst (poll p' (rest @ [m]) [])"
    by (simp add: poll_outbox [of p' "rest @ [m]" out] split: prod.splits)
  show ?thesis
  proof (cases "outcome_of p'")
    case None
    then show ?thesis using sim by (auto simp: simulates_def p' feed_def fst_advance app)
  next
    case (Some r)
    then have "p' = Ret r" "r \<noteq> Panic" by (auto simp: outcome_of_def split: proc.splits res.splits)
    then show ?thesis using sim Some by (simp add: simulates_def p' feed_def app feed_answer_def)
  qed
qed

lemma start_answer: "fst (start p) = feed_answer (fst (poll p [] []))"
  by (simp add: start_def fst_advance)

section \<open>Properties\<close>

text \<open>C3: The driver is a refinement of one run of the task. Whatever the order in which a host feeds
  messages and takes messages out, the messages it has taken followed by those still in the outbox
  are the output of the task run once on all the messages fed, and the session has an outcome
  exactly when that run returns, with the same value: messages are neither lost, duplicated nor
  reordered, and polling in steps does not matter.\<close>

theorem host_run_refines_task:
  "case poll p (fed calls) [] of (p', rest, out) \<Rightarrow>
     fst (host_run p calls) @ outbox (snd (host_run p calls)) = out \<and>
     outcome (snd (host_run p calls)) = outcome_of p'"
  using simulates_host_run [of p calls] by (auto simp: simulates_def)

text \<open>A finished session is stable: after the task has returned, any further messages leave the
  session as it is and \<^verbatim>\<open>feed\<close> keeps reporting completion, until the result is taken; taking the
  result a second time finds none.\<close>

theorem finished_session_stable:
  assumes "outcome s = Some r"
  shows "fold (\<lambda>m. snd \<circ> feed m) ms s = s \<and> fst (feed m s) = Ok True \<and>
    fst (protocol_result s) = Some r \<and> fst (protocol_result (snd (protocol_result s))) = None"
  using assms protocol.feeds_finished [of s ms] by (simp add: feed_def protocol_result_def)

theorem finished_session_stable_witness:
  "let s = snd (start (Ret (Ok (7 :: nat)))) in
     fold (\<lambda>m. snd \<circ> feed m) [[1, 0, 5]] s = s \<and> fst (feed [2] s) = Ok True \<and>
     fst (protocol_result s) = Some (Ok 7) \<and> fst (protocol_result (snd (protocol_result s))) = None"
  unfolding Let_def
  by (rule finished_session_stable) (simp add: start_def advance_def)

text \<open>A frame that the relay wraps with a sender identifier is received as that sender and that
  payload, for every identifier and payload, and a frame sent to a recipient shows that recipient
  and the payload to the host: framing loses nothing.\<close>

theorem frames_round_trip:
  "recv_frame (wrap_sender i d) = (i, d) \<and>
   poll (send_to i d) [] [] = (Ret (Ok ()), [], [wrap_sender i d]) \<and>
   read_recipient (wrap_sender i d) = i \<and> payload (wrap_sender i d) = d \<and>
   poll (broadcast d) [] [] = (Ret (Ok ()), [], [wrap_sender 0 d])"
  using recv_wrap_sender [of i d]
  by (auto simp: send_to_def broadcast_def wrap_sender_def read_recipient_def payload_def recv_frame_def)

end
