(* ===== verification/Interpolation.thy ===== *)
theory Interpolation
  imports Main
begin

text \<open>
  Secret sharing polynomials over a field, as coefficient lists with the constant term first,
  the form in which \<^verbatim>\<open>key_import_part1\<close> and \<^verbatim>\<open>reshare_part1\<close> build them. The main fact is Lagrange
  interpolation at zero: the shares of any set of distinct non-zero points, at least as many as
  coefficients, weighted with the quotients that \<^verbatim>\<open>lagrange_coeff\<close> computes, add up to the
  constant term.
\<close>

primrec eval_poly :: "'f::comm_ring_1 list \<Rightarrow> 'f \<Rightarrow> 'f" where
  "eval_poly [] x = 0"
| "eval_poly (c # cs) x = c + x * eval_poly cs x"

text \<open>Functions given by at most \<open>n\<close> coefficients.\<close>

definition polyfun :: "nat \<Rightarrow> ('f::field \<Rightarrow> 'f) \<Rightarrow> bool" where
  "polyfun n f \<longleftrightarrow> (\<exists>cs. length cs \<le> n \<and> f = eval_poly cs)"

lemma polyfunI: "length cs \<le> n \<Longrightarrow> polyfun n (eval_poly cs)"
  by (auto simp: polyfun_def)

fun add_coeffs :: "'f::field list \<Rightarrow> 'f list \<Rightarrow> 'f list" where
  "add_coeffs [] ys = ys"
| "add_coeffs xs [] = xs"
| "add_coeffs (x # xs) (y # ys) = (x + y) # add_coeffs xs ys"

lemma eval_add_coeffs: "eval_poly (add_coeffs xs ys) v = eval_poly xs v + eval_poly ys v"
  by (induction xs ys rule: add_coeffs.induct) (auto simp: algebra_simps)

lemma length_add_coeffs [simp]: "length (add_coeffs xs ys) = max (length xs) (length ys)"
  by (induction xs ys rule: add_coeffs.induct) auto

lemma eval_smult: "eval_poly (map ((*) c) cs) v = c * eval_poly cs v"
  by (induction cs) (auto simp: algebra_simps)

lemma polyfun_add: "polyfun n f \<Longrightarrow> polyfun n g \<Longrightarrow> polyfun n (\<lambda>x. f x + g x)"
proof -
  assume "polyfun n f" "polyfun n g"
  then obtain cs ds where "length cs \<le> n" "f = eval_poly cs" "length ds \<le> n" "g = eval_poly ds"
    by (auto simp: polyfun_def)
  then have "length (add_coeffs cs ds) \<le> n" "(\<lambda>x. f x + g x) = eval_poly (add_coeffs cs ds)"
    by (auto simp: eval_add_coeffs)
  then show ?thesis unfolding polyfun_def by blast
qed

lemma polyfun_smult: "polyfun n f \<Longrightarrow> polyfun n (\<lambda>x. c * f x)"
proof -
  assume "polyfun n f"
  then obtain cs where "length cs \<le> n" "f = eval_poly cs" by (auto simp: polyfun_def)
  then have "length (map ((*) c) cs) \<le> n" "(\<lambda>x. c * f x) = eval_poly (map ((*) c) cs)"
    by (auto simp: eval_smult)
  then show ?thesis unfolding polyfun_def by blast
qed

lemma polyfun_0: "polyfun n (\<lambda>x. 0)"
  by (auto simp: polyfun_def intro!: exI [of _ "[]"])

lemma polyfun_sum: "finite A \<Longrightarrow> (\<And>a. a \<in> A \<Longrightarrow> polyfun n (f a)) \<Longrightarrow> polyfun n (\<lambda>x. \<Sum>a \<in> A. f a x)"
  by (induction A rule: finite_induct) (auto intro: polyfun_add polyfun_0)

lemma polyfun_shift: "polyfun n f \<Longrightarrow> polyfun (Suc n) (\<lambda>x. x * f x)"
proof -
  assume "polyfun n f"
  then obtain cs where "length cs \<le> n" "f = eval_poly cs" by (auto simp: polyfun_def)
  then have "length (0 # cs) \<le> Suc n" "(\<lambda>x. x * f x) = eval_poly (0 # cs)" by auto
  then show ?thesis unfolding polyfun_def by blast
qed

lemma polyfun_mono: "polyfun n f \<Longrightarrow> n \<le> m \<Longrightarrow> polyfun m f"
  by (auto simp: polyfun_def intro: order_trans)

lemma polyfun_linear_mult:
  assumes "polyfun n f"
  shows "polyfun (Suc n) (\<lambda>x. (a - x) * f x)"
proof -
  have "polyfun (Suc n) (\<lambda>x. a * f x + (- 1) * (x * f x))"
    by (intro polyfun_add polyfun_smult polyfun_shift assms polyfun_mono [OF assms]) simp
  then show ?thesis by (simp add: algebra_simps)
qed

lemma polyfun_1: "polyfun (Suc n) (\<lambda>x. 1)"
  by (auto simp: polyfun_def fun_eq_iff intro!: exI [of _ "[1]"])

lemma polyfun_prod_list: "polyfun (Suc (length js)) (\<lambda>x. \<Prod>j \<leftarrow> js. (j - x))"
  by (induction js) (simp_all add: polyfun_1 polyfun_linear_mult)

section \<open>A polynomial with too many roots is zero\<close>

text \<open>Synthetic division by \<open>X - a\<close>.\<close>

fun synth :: "'f::comm_ring_1 \<Rightarrow> 'f list \<Rightarrow> 'f list" where
  "synth a [] = []"
| "synth a [c] = []"
| "synth a (c # d # cs) = eval_poly (d # cs) a # synth a (d # cs)"

lemma eval_synth: "eval_poly cs x = eval_poly cs a + (x - a) * eval_poly (synth a cs) x"
proof (induction a cs rule: synth.induct)
  case (3 a c d cs)
  let ?p = "eval_poly (d # cs)"
  have "x * ?p x = a * ?p a + (x - a) * (?p a + x * eval_poly (synth a (d # cs)) x)"
    by (subst 3) (simp only: algebra_simps)
  then show ?case by (simp only: synth.simps eval_poly.simps(2) [of c] eval_poly.simps(2) [of "eval_poly _ _"]) (simp only: algebra_simps)
qed simp_all

lemma length_synth: "length (synth a cs) = length cs - 1"
  by (induction a cs rule: synth.induct) auto

lemma root_bound:
  fixes cs :: "'f::field list"
  assumes "distinct xs" "length cs \<le> length xs" "\<And>x. x \<in> set xs \<Longrightarrow> eval_poly cs x = 0"
  shows "eval_poly cs v = 0"
  using assms
proof (induction xs arbitrary: cs v)
  case (Cons a xs)
  have a: "eval_poly cs y = (y - a) * eval_poly (synth a cs) y" for y
    using eval_synth [of cs y a] Cons.prems(3) [of a] by simp
  have "eval_poly (synth a cs) v = 0"
  proof (rule Cons.IH)
    show "length (synth a cs) \<le> length xs" using Cons.prems(2) by (simp add: length_synth)
    fix x assume "x \<in> set xs"
    then show "eval_poly (synth a cs) x = 0" using Cons.prems a [of x] by auto
  qed (use Cons.prems in simp)
  then show ?case using a [of v] by simp
qed simp

lemma polyfun_eq_on:
  assumes "polyfun n f" "polyfun n g" "distinct xs" "n \<le> length xs" "\<And>x. x \<in> set xs \<Longrightarrow> f x = g x"
  shows "f v = g v"
proof -
  have "polyfun n (\<lambda>x. f x + (- 1) * g x)" by (intro polyfun_add polyfun_smult assms)
  then obtain cs where cs: "length cs \<le> n" "(\<lambda>x. f x + (- 1) * g x) = eval_poly cs"
    by (auto simp: polyfun_def)
  have "eval_poly cs v = 0"
    by (rule root_bound [OF assms(3)]) (use cs assms(4,5) in \<open>auto simp flip: cs(2)\<close>)
  then show ?thesis by (simp flip: cs(2))
qed

section \<open>Lagrange interpolation at zero\<close>

definition basis :: "'f::field list \<Rightarrow> 'f \<Rightarrow> 'f \<Rightarrow> 'f" where
  "basis xs i x = (\<Prod>j \<leftarrow> filter (\<lambda>j. j \<noteq> i) xs. (j - x)) / (\<Prod>j \<leftarrow> filter (\<lambda>j. j \<noteq> i) xs. (j - i))"

lemma prod_list_neq_0: "(0 :: 'f::field) \<notin> set xs \<Longrightarrow> prod_list xs \<noteq> 0"
  by (induction xs) auto

lemma basis_same: "basis xs i i = 1"
  by (simp add: basis_def) (rule prod_list_neq_0, auto)

lemma basis_other: "x \<in> set xs \<Longrightarrow> x \<noteq> i \<Longrightarrow> basis xs i x = 0"
  by (auto simp: basis_def prod_list_zero_iff image_iff)

lemma polyfun_basis:
  assumes "distinct xs" "i \<in> set xs"
  shows "polyfun (length xs) (basis xs i)"
proof -
  have "length (filter (\<lambda>j. j \<noteq> i) xs) < length xs" by (rule length_filter_less) (use assms in auto)
  then have "polyfun (length xs) (\<lambda>x. \<Prod>j \<leftarrow> filter (\<lambda>j. j \<noteq> i) xs. (j - x))"
    by (intro polyfun_mono [OF polyfun_prod_list]) simp
  from polyfun_smult [OF this, of "1 / (\<Prod>j \<leftarrow> filter (\<lambda>j. j \<noteq> i) xs. (j - i))"]
  show ?thesis by (simp add: basis_def [abs_def])
qed

lemma lagrange_interpolation:
  fixes cs :: "'f::field list"
  assumes "distinct xs" "length cs \<le> length xs"
  shows "(\<Sum>i \<leftarrow> xs. eval_poly cs i * basis xs i v) = eval_poly cs v"
proof -
  have "(\<Sum>i \<in> set xs. eval_poly cs i * basis xs i v) = eval_poly cs v"
  proof (rule polyfun_eq_on [of "length xs" "\<lambda>v. \<Sum>i \<in> set xs. eval_poly cs i * basis xs i v", OF _ _ assms(1)])
    show "polyfun (length xs) (\<lambda>v. \<Sum>i \<in> set xs. eval_poly cs i * basis xs i v)"
      by (intro polyfun_sum polyfun_smult polyfun_basis assms) auto
    fix x assume x: "x \<in> set xs"
    have "(\<Sum>i \<in> set xs. eval_poly cs i * basis xs i x) = (\<Sum>i \<in> set xs. if i = x then eval_poly cs x else 0)"
      by (intro sum.cong) (auto simp: basis_same basis_other [OF x])
    then show "(\<Sum>i \<in> set xs. eval_poly cs i * basis xs i x) = eval_poly cs x"
      using x by simp
  qed (use assms in \<open>auto intro: polyfunI\<close>)
  then show ?thesis by (simp add: sum_list_distinct_conv_sum_set [OF assms(1)])
qed

end
