(* ===== verification/Ceremonies.thy ===== *)
theory Ceremonies
  imports Frost_Library Session_Driver Interpolation "HOL-Library.Multiset"
begin

text \<open>
  The crate \<^verbatim>\<open>frost-ceremony\<close>: blame attribution, the round-based DKG, key import, resharing and
  signing, and the four message-driven versions that run over a \<^verbatim>\<open>FrostChannel\<close>. \<^verbatim>\<open>u16\<close> arithmetic
  is word arithmetic, which is the wrapping arithmetic of a release build.
\<close>

section \<open>blame.rs\<close>

primrec find_u16 ::
  "('i, 'f, 'g, 'sig, 'e, 'rng, 's1, 'p1, 's2, 'p2, 'kp, 'pk, 'z) frost_scheme
     \<Rightarrow> bytes \<Rightarrow> u16 list \<Rightarrow> u16 option" where
  "find_u16 L target [] = None"
| "find_u16 L target (i # is) =
     (case id_try_from L i of
        None \<Rightarrow> None
      | Some c \<Rightarrow> if id_serialize L c = target then Some i else find_u16 L target is)"

definition identifier_to_u16 where
  "identifier_to_u16 L ident = find_u16 L (id_serialize L ident) (map word_of_nat [1..<257])"

definition frost_err_to_blame where
  "frost_err_to_blame L err dflt =
     (case culprit L err of
        None \<Rightarrow> Err dflt
      | Some ident \<Rightarrow>
          (case identifier_to_u16 L ident of None \<Rightarrow> Err dflt | Some i \<Rightarrow> Blamed i))"

text \<open>\<^verbatim>\<open>r.map_err(|e| frost_err_to_blame(e, default))?\<close>\<close>

definition or_blame where
  "or_blame L r dflt = (case r of Inr x \<Rightarrow> Ok x | Inl e \<Rightarrow> frost_err_to_blame L e dflt)"

text \<open>\<^verbatim>\<open>r.map_err(ser_err)?\<close>, with \<^verbatim>\<open>ser_err\<close> constantly \<^verbatim>\<open>LIB_SERIALIZATION_ERROR\<close>.\<close>

definition ser_err :: "'a option \<Rightarrow> 'a res" where
  "ser_err r = ok_or r LIB_SERIALIZATION_ERROR"

definition try_id where
  "try_id L n = ok_or (id_try_from L n) LIB_INVALID_IDENTIFIER"

section \<open>dkg.rs\<close>

definition decode_r1_map where
  "decode_r1_map L data =
     decode_map (\<lambda>b. ser_err (id_deserialize L b)) (\<lambda>b. ser_err (package1_deserialize L b)) data"

definition encode_r2_map where
  "encode_r2_map L packages =
     encode_map (\<lambda>i. Ok (id_serialize L i)) (\<lambda>p. ser_err (package2_serialize L p)) packages"

definition decode_r2_map where
  "decode_r2_map L data =
     decode_map (\<lambda>b. ser_err (id_deserialize L b)) (\<lambda>b. ser_err (package2_deserialize L b)) data"

definition dkg_part1 where
  "dkg_part1 L rng i max_signers min_signers =
     (if min_signers < 2 \<or> max_signers < min_signers then Err LIB_DKG_ERROR
      else
        rbind (try_id L i) (\<lambda>ident.
        rbind (or_blame L (dkg_core_part1 L ident max_signers min_signers rng) LIB_DKG_ERROR) (\<lambda>(secret, package).
        rbind (ser_err (package1_serialize L package)) (\<lambda>pkg_bytes. Ok (secret, pkg_bytes)))))"

definition dkg_part2 where
  "dkg_part2 L secret round1_packages_data =
     rbind (decode_r1_map L round1_packages_data) (\<lambda>r1_pkgs.
     rbind (or_blame L (dkg_core_part2 L secret r1_pkgs) LIB_DKG_ERROR) (\<lambda>(secret2, r2_pkgs).
     rbind (encode_r2_map L r2_pkgs) (\<lambda>r2_bytes. Ok (secret2, r2_bytes))))"

definition dkg_part3 where
  "dkg_part3 L secret round1_packages_data round2_packages_data =
     rbind (decode_r1_map L round1_packages_data) (\<lambda>r1_pkgs.
     rbind (decode_r2_map L round2_packages_data) (\<lambda>r2_pkgs.
       or_blame L (dkg_core_part3 L secret r1_pkgs r2_pkgs) LIB_DKG_ERROR))"

section \<open>key_import.rs and reshare.rs\<close>

text \<open>The loop \<^verbatim>\<open>for _ in 1..min_signers { coefficients.push(F::random(&mut rng)); }\<close>.\<close>

primrec random_scalars where
  "random_scalars L 0 rng = ([], rng)"
| "random_scalars L (Suc n) rng =
     (let (c, rng) = random_scalar L rng; (cs, rng) = random_scalars L n rng in (c # cs, rng))"

text \<open>
  The common body of \<^verbatim>\<open>key_import_part1\<close> and \<^verbatim>\<open>reshare_part1\<close>, which differ in the error of a
  failing proof of knowledge.
\<close>

definition key_import_part1 where
  "key_import_part1 L rng i max_signers min_signers constant_term =
     rbind (try_id L i) (\<lambda>ident.
     let (rest, rng) = random_scalars L (unat min_signers - 1) rng;
         coefficients = constant_term # rest;
         commitment = map (mul_generator L) coefficients
     in
     rbind (or_blame L (compute_proof_of_knowledge L ident coefficients commitment rng) LIB_KEY_IMPORT_ERROR) (\<lambda>prf.
     let secret = secret1_new L ident coefficients commitment min_signers max_signers in
     rbind (ser_err (package1_serialize L (package1_new L commitment prf))) (\<lambda>pkg_bytes.
       Ok (secret, pkg_bytes))))"

definition key_import_part3 where
  "key_import_part3 L secret round1_packages_data round2_packages_data expected_verifying_key =
     rbind (decode_r1_map L round1_packages_data) (\<lambda>r1_pkgs.
     rbind (decode_r2_map L round2_packages_data) (\<lambda>r2_pkgs.
     rbind (or_blame L (dkg_core_part3 L secret r1_pkgs r2_pkgs) LIB_DKG_ERROR) (\<lambda>(key_package, pub_key_package).
     rbind (ser_err (vk_serialize L (pk_verifying_key L pub_key_package))) (\<lambda>vk_bytes.
       if vk_bytes \<noteq> expected_verifying_key then Err LIB_KEY_IMPORT_ERROR
       else Ok (key_package, pub_key_package)))))"

text \<open>Subtracting one \<open>n\<close> times, the loop of \<^verbatim>\<open>derive_constant_term\<close> and \<^verbatim>\<open>compute_additive_share\<close>.\<close>

primrec minus_ones :: "nat \<Rightarrow> 'f::field \<Rightarrow> 'f" where
  "minus_ones 0 x = x"
| "minus_ones (Suc n) x = minus_ones n (x - 1)"

definition derive_constant_term :: "'f::field \<Rightarrow> u16 \<Rightarrow> 'f" where
  "derive_constant_term sk_scalar max_signers = minus_ones (unat (max_signers - 1)) sk_scalar"

text \<open>The loop over \<open>i\<close> in \<^verbatim>\<open>0..count\<close> reads the two bytes at \<open>2 * i\<close>.\<close>

primrec old_ids_from where
  "old_ids_from L data 0 i = Ok []"
| "old_ids_from L data (Suc n) i =
     rbind (index data (i * 2)) (\<lambda>b0.
     rbind (index data (i * 2 + 1)) (\<lambda>b1.
     rbind (try_id L (u16_of_le [b0, b1])) (\<lambda>ident.
     rbind (old_ids_from L data n (i + 1)) (\<lambda>ids. Ok (ident # ids)))))"

definition decode_old_identifiers where
  "decode_old_identifiers L data =
     (if length data mod 2 \<noteq> 0 then Err LIB_SERIALIZATION_ERROR
      else old_ids_from L data (length data div 2) 0)"

primrec lagrange_loop where
  "lagrange_loop L my_id [] num den = (num, den)"
| "lagrange_loop L my_id (i # ids) num den =
     (if i = my_id then lagrange_loop L my_id ids num den
      else lagrange_loop L my_id ids (num * id_scalar L i) (den * (id_scalar L i - id_scalar L my_id)))"

definition lagrange_coeff where
  "lagrange_coeff L my_id all_ids =
     (let (num, den) = lagrange_loop L my_id all_ids 1 1 in
      rbind (ok_or (invert L den) LIB_RESHARE_ERROR) (\<lambda>den_inv. Ok (num * den_inv)))"

definition compute_additive_share where
  "compute_additive_share L key_package old_ids max_signers =
     (if (word_of_nat (length old_ids) :: u16) > max_signers then Err LIB_RESHARE_ERROR
      else
        rbind (lagrange_coeff L (kp_identifier L key_package) old_ids) (\<lambda>li.
        let share = kp_signing_share L key_package * li;
            num_new = max_signers - word_of_nat (length old_ids)
        in case old_ids of
             [] \<Rightarrow> Err LIB_RESHARE_ERROR
           | _ \<Rightarrow>
               Ok (if kp_identifier L key_package = Min (set old_ids) then minus_ones (unat num_new) share
                   else share)))"

definition reshare_part1 where
  "reshare_part1 L rng i max_signers min_signers additive_share =
     rbind (try_id L i) (\<lambda>ident.
     let (rest, rng) = random_scalars L (unat min_signers - 1) rng;
         coefficients = additive_share # rest;
         commitment = map (mul_generator L) coefficients
     in
     rbind (or_blame L (compute_proof_of_knowledge L ident coefficients commitment rng) LIB_RESHARE_ERROR) (\<lambda>prf.
     let secret = secret1_new L ident coefficients commitment min_signers max_signers in
     rbind (ser_err (package1_serialize L (package1_new L commitment prf))) (\<lambda>pkg_bytes.
       Ok (secret, pkg_bytes))))"

definition reshare_part3 where
  "reshare_part3 L secret round1_packages_data round2_packages_data expected_verifying_key =
     rbind (decode_r1_map L round1_packages_data) (\<lambda>r1_pkgs.
     rbind (decode_r2_map L round2_packages_data) (\<lambda>r2_pkgs.
     rbind (or_blame L (dkg_core_part3 L secret r1_pkgs r2_pkgs) LIB_DKG_ERROR) (\<lambda>(key_package, pub_key_package).
     rbind (ser_err (vk_serialize L (pk_verifying_key L pub_key_package))) (\<lambda>vk_bytes.
       if vk_bytes \<noteq> expected_verifying_key then Err LIB_RESHARE_ERROR
       else Ok (key_package, pub_key_package)))))"

section \<open>sign.rs\<close>

definition decode_commitments_map where
  "decode_commitments_map L S data =
     decode_map (\<lambda>b. ser_err (id_deserialize L b)) (\<lambda>b. ser_err (cm_deserialize S b)) data"

definition decode_shares_map where
  "decode_shares_map L S data =
     decode_map (\<lambda>b. ser_err (id_deserialize L b)) (\<lambda>b. ser_err (share_deserialize S b)) data"

definition sign_commit where
  "sign_commit L S rng key_package =
     (let (nonces, commitments) = commit S (kp_signing_share L key_package) rng in
      rbind (ser_err (cm_serialize S commitments)) (\<lambda>commitments_bytes. Ok (nonces, commitments_bytes)))"

definition sign_create_package where
  "sign_create_package L S message commitments_data =
     rbind (decode_commitments_map L S commitments_data) (\<lambda>commitments.
       ser_err (sp_serialize S (signing_package_new S commitments message)))"

definition sign where
  "sign L S signing_package nonces key_package =
     rbind (or_blame L (core_sign S signing_package nonces key_package) LIB_SIGNING_ERROR) (\<lambda>share.
       Ok (share_serialize S share))"

definition sign_aggregate where
  "sign_aggregate L S signing_package shares_data pub_key_package =
     rbind (decode_shares_map L S shares_data) (\<lambda>shares.
     rbind (or_blame L (core_aggregate S signing_package shares pub_key_package) LIB_SIGNING_ERROR) (\<lambda>signature.
       ser_err (sig_serialize S signature)))"

section \<open>session_dkg.rs, session_key_import.rs, session_reshare.rs, session_sign.rs\<close>

text \<open>The map from serialized identifiers to numbers; a later entry of a key hides an earlier one.\<close>

primrec id_map_from where
  "id_map_from L [] m = Ok m"
| "id_map_from L (i # is) m =
     rbind (try_id L i) (\<lambda>ident. id_map_from L is (m(id_serialize L ident \<mapsto> i)))"

definition build_id_map where
  "build_id_map L (max_signers :: u16) =
     id_map_from L (map word_of_nat [1..<unat max_signers + 1]) Map.empty"

definition lookup_u16 where
  "lookup_u16 L (m :: bytes \<Rightarrow> u16 option) ident = ok_or (m (id_serialize L ident)) LIB_INVALID_IDENTIFIER"

text \<open>The body of every receive loop: the sender as an identifier, the package, the map.\<close>

definition recv_insert where
  "recv_insert L deserialize m acc =
     rbind (try_id L (fst m)) (\<lambda>sender.
     rbind (ser_err (deserialize (snd m))) (\<lambda>pkg. Ok (bt_insert sender pkg acc)))"

text \<open>The body of the send loop of round two.\<close>

definition prepare_r2 where
  "prepare_r2 L id_map e =
     rbind (lookup_u16 L id_map (fst e)) (\<lambda>recipient_u16.
     rbind (ser_err (package2_serialize L (snd e))) (\<lambda>pkg_bytes. Ok (recipient_u16, pkg_bytes)))"

definition dkg_run where
  "dkg_run L rng my_id (max_signers :: u16) min_signers =
     pbind (Ret (build_id_map L max_signers)) (\<lambda>id_map.
     pbind (Ret (try_id L my_id)) (\<lambda>ident.
     pbind (Ret (or_blame L (dkg_core_part1 L ident max_signers min_signers rng) LIB_DKG_ERROR)) (\<lambda>(secret1, package).
     pbind (Ret (ser_err (package1_serialize L package))) (\<lambda>r1_bytes.
     pbind (broadcast r1_bytes) (\<lambda>_.
     let num_others = unat (max_signers - 1) in
     pbind (recv_loop num_others (recv_insert L (package1_deserialize L)) []) (\<lambda>r1_map.
     pbind (Ret (or_blame L (dkg_core_part2 L secret1 r1_map) LIB_DKG_ERROR)) (\<lambda>(secret2, r2_map).
     pbind (send_loop (prepare_r2 L id_map) r2_map) (\<lambda>_.
     pbind (recv_loop num_others (recv_insert L (package2_deserialize L)) []) (\<lambda>r2_received.
       Ret (or_blame L (dkg_core_part3 L secret2 r1_map r2_received) LIB_DKG_ERROR))))))))))"

definition key_import_run where
  "key_import_run L rng my_id (max_signers :: u16) min_signers constant_term =
     pbind (Ret (build_id_map L max_signers)) (\<lambda>id_map.
     pbind (Ret (key_import_part1 L rng my_id max_signers min_signers constant_term)) (\<lambda>(secret1, r1_bytes).
     pbind (broadcast r1_bytes) (\<lambda>_.
     let num_others = unat (max_signers - 1) in
     pbind (recv_loop num_others (recv_insert L (package1_deserialize L)) []) (\<lambda>r1_map.
     pbind (Ret (or_blame L (dkg_core_part2 L secret1 r1_map) LIB_DKG_ERROR)) (\<lambda>(secret2, r2_map).
     pbind (send_loop (prepare_r2 L id_map) r2_map) (\<lambda>_.
     pbind (recv_loop num_others (recv_insert L (package2_deserialize L)) []) (\<lambda>r2_received.
       Ret (or_blame L (dkg_core_part3 L secret2 r1_map r2_received) LIB_DKG_ERROR))))))))"

definition reshare_run where
  "reshare_run L rng my_id (max_signers :: u16) min_signers additive_share expected_vk =
     pbind (Ret (build_id_map L max_signers)) (\<lambda>id_map.
     pbind (Ret (reshare_part1 L rng my_id max_signers min_signers additive_share)) (\<lambda>(secret1, r1_bytes).
     pbind (broadcast r1_bytes) (\<lambda>_.
     let num_others = unat (max_signers - 1) in
     pbind (recv_loop num_others (recv_insert L (package1_deserialize L)) []) (\<lambda>r1_map.
     pbind (Ret (or_blame L (dkg_core_part2 L secret1 r1_map) LIB_DKG_ERROR)) (\<lambda>(secret2, r2_map).
     pbind (send_loop (prepare_r2 L id_map) r2_map) (\<lambda>_.
     pbind (recv_loop num_others (recv_insert L (package2_deserialize L)) []) (\<lambda>r2_received.
     pbind (Ret (or_blame L (dkg_core_part3 L secret2 r1_map r2_received) LIB_DKG_ERROR)) (\<lambda>(key_package, pub_key_package).
     pbind (Ret (ser_err (vk_serialize L (pk_verifying_key L pub_key_package)))) (\<lambda>vk_bytes.
       Ret (if vk_bytes \<noteq> expected_vk then Err LIB_RESHARE_ERROR
            else Ok (key_package, pub_key_package)))))))))))"

text \<open>\<^verbatim>\<open>num_signers - 1\<close> on \<^verbatim>\<open>usize\<close>, wrapping at zero.\<close>

definition usize_pred :: "nat \<Rightarrow> nat" where
  "usize_pred n = (if n = 0 then 2 ^ 64 - 1 else n - 1)"

definition sign_run where
  "sign_run L S rng key_package pub_key_package message num_signers =
     (let my_ident = kp_identifier L key_package;
          (nonces, commitments) = commit S (kp_signing_share L key_package) rng
      in
      pbind (Ret (ser_err (cm_serialize S commitments))) (\<lambda>commit_bytes.
      pbind (broadcast commit_bytes) (\<lambda>_.
      pbind (recv_loop (usize_pred num_signers) (recv_insert L (cm_deserialize S)) [(my_ident, commitments)]) (\<lambda>commit_map.
      let signing_package = signing_package_new S commit_map message in
      pbind (Ret (or_blame L (core_sign S signing_package nonces key_package) LIB_SIGNING_ERROR)) (\<lambda>share.
      pbind (broadcast (share_serialize S share)) (\<lambda>_.
      pbind (recv_loop (usize_pred num_signers) (recv_insert L (share_deserialize S)) [(my_ident, share)]) (\<lambda>shares.
      pbind (Ret (or_blame L (core_aggregate S signing_package shares pub_key_package) LIB_SIGNING_ERROR)) (\<lambda>signature.
        Ret (ser_err (sig_serialize S signature))))))))))"

section \<open>Blame\<close>

lemma find_u16_hit:
  assumes "ids_ok L" "id_try_from L n = Some i" "0 \<notin> set ns"
  shows "find_u16 L (id_serialize L i) ns = (if n \<in> set ns then Some n else None)"
  using assms(3)
proof (induction ns)
  case (Cons k ns)
  then obtain c where c: "id_try_from L k = Some c" using ids_ok_Some [OF assms(1), of k] by auto
  show ?case
  proof (cases "k = n")
    case False
    then have "c \<noteq> i" using ids_ok_try_from_inj [OF assms(1) c] assms(2) by blast
    with False c Cons ids_ok_serialize [OF assms(1)] show ?thesis by auto
  qed (use c assms(2) in simp)
qed simp

lemma set_u16_range: "k < 2 ^ 16 \<Longrightarrow> set (map word_of_nat [1..<k + 1]) = {n :: u16. 1 \<le> unat n \<and> unat n \<le> k}"
proof (intro set_eqI iffI)
  fix n :: u16 assume k: "k < 2 ^ 16" and n: "n \<in> {n. 1 \<le> unat n \<and> unat n \<le> k}"
  have "n = word_of_nat (unat n)" by simp
  with n show "n \<in> set (map word_of_nat [1..<k + 1])" by (metis (mono_tags, lifting) Suc_eq_plus1
     atLeastLessThan_iff imageI less_Suc_eq_le list.set_map mem_Collect_eq set_upt)
qed auto

lemma identifier_to_u16_eq:
  assumes "ids_ok L" "id_try_from L n = Some i"
  shows "identifier_to_u16 L i = (if unat n \<le> 256 then Some n else None)"
proof -
  have n: "n \<noteq> 0" using assms unfolding ids_ok_def by (metis option.distinct(1))
  then have "1 \<le> unat n" by (simp add: Suc_le_eq unat_gt_0)
  moreover have r: "set (map word_of_nat [1..<257]) = {n :: u16. 1 \<le> unat n \<and> unat n \<le> 256}"
    using set_u16_range [of 256] by simp
  moreover have "(0 :: u16) \<notin> set (map word_of_nat [1..<257])" by (simp only: r) simp
  ultimately show ?thesis
    using find_u16_hit [OF assms, of "map word_of_nat [1..<257]"]
    unfolding identifier_to_u16_def r by simp
qed

section \<open>Secret sharing\<close>

lemma minus_ones_eq: "minus_ones n x = x - of_nat n"
  by (induction n arbitrary: x) (simp_all add: algebra_simps)

lemma lagrange_loop_eq:
  "lagrange_loop L my_id ids num den =
     (num * (\<Prod>j \<leftarrow> filter (\<lambda>j. j \<noteq> my_id) ids. id_scalar L j),
      den * (\<Prod>j \<leftarrow> filter (\<lambda>j. j \<noteq> my_id) ids. id_scalar L j - id_scalar L my_id))"
  by (induction ids arbitrary: num den) (auto simp: algebra_simps)

lemma filter_scalars:
  assumes "inj_on (id_scalar L) (set ids)" "i \<in> set ids"
  shows "filter (\<lambda>j. j \<noteq> id_scalar L i) (map (id_scalar L) ids) = map (id_scalar L) (filter (\<lambda>j. j \<noteq> i) ids)"
  using assms by (auto simp: filter_map o_def inj_on_eq_iff intro!: arg_cong [where f = "map _"] filter_cong)

lemma lagrange_coeff_eq:
  assumes "invert_ok L" "inj_on (id_scalar L) (set ids)" "i \<in> set ids"
  shows "lagrange_coeff L i ids = Ok (basis (map (id_scalar L) ids) (id_scalar L i) 0)"
proof -
  let ?den = "\<Prod>j \<leftarrow> filter (\<lambda>j. j \<noteq> i) ids. id_scalar L j - id_scalar L i"
  have "?den \<noteq> 0"
    using assms(2,3) by (intro prod_list_neq_0) (auto simp: inj_on_eq_iff)
  then show ?thesis
    using assms(1)
    by (simp add: lagrange_coeff_def lagrange_loop_eq invert_ok_def basis_def filter_scalars [OF assms(2,3)]
        o_def divide_inverse)
qed

lemma compute_additive_share_eq:
  assumes "invert_ok L" "inj_on (id_scalar L) (set ids)" "kp_identifier L kp \<in> set ids"
    and "length ids \<le> unat max_signers"
  shows "compute_additive_share L kp ids max_signers =
     Ok (kp_signing_share L kp * basis (map (id_scalar L) ids) (id_scalar L (kp_identifier L kp)) 0
         - (if kp_identifier L kp = Min (set ids) then of_nat (unat max_signers - length ids) else 0))"
proof -
  have "length ids < 2 ^ 16" using assms(4) unsigned_less [of max_signers, where ?'a = nat] by simp
  then have n: "unat (word_of_nat (length ids) :: u16) = length ids" by simp
  then have le: "\<not> max_signers < word_of_nat (length ids)"
    using assms(4) by (simp add: word_less_nat_alt)
  have "unat (max_signers - word_of_nat (length ids)) = unat max_signers - length ids"
    using le n by (subst unat_sub) (auto simp: not_less)
  then show ?thesis
    using assms le
    by (cases ids) (auto simp: compute_additive_share_def lagrange_coeff_eq Let_def minus_ones_eq)
qed

lemma sum_list_if_eq:
  "distinct xs \<Longrightarrow> a \<in> set xs \<Longrightarrow> (\<Sum>x \<leftarrow> xs. if x = a then c else (0 :: 'f::field)) = c"
  by (simp add: sum_list_distinct_conv_sum_set)

section \<open>Tasks of the DKG family\<close>

text \<open>
  The part that the three key-generating sessions share after their first broadcast.
\<close>

definition dkg_rounds where
  "dkg_rounds L (max_signers :: u16) id_map secret1 r1_bytes =
     pbind (broadcast r1_bytes) (\<lambda>_.
     pbind (recv_loop (unat (max_signers - 1)) (recv_insert L (package1_deserialize L)) []) (\<lambda>r1_map.
     pbind (Ret (or_blame L (dkg_core_part2 L secret1 r1_map) LIB_DKG_ERROR)) (\<lambda>(secret2, r2_map).
     pbind (send_loop (prepare_r2 L id_map) r2_map) (\<lambda>_.
     pbind (recv_loop (unat (max_signers - 1)) (recv_insert L (package2_deserialize L)) []) (\<lambda>r2_received.
       Ret (or_blame L (dkg_core_part3 L secret2 r1_map r2_received) LIB_DKG_ERROR))))))"

lemma dkg_run_eq:
  "dkg_run L rng my_id max_signers min_signers =
     pbind (Ret (build_id_map L max_signers)) (\<lambda>id_map.
     pbind (Ret (try_id L my_id)) (\<lambda>ident.
     pbind (Ret (or_blame L (dkg_core_part1 L ident max_signers min_signers rng) LIB_DKG_ERROR)) (\<lambda>(secret1, package).
     pbind (Ret (ser_err (package1_serialize L package))) (dkg_rounds L max_signers id_map secret1))))"
  unfolding dkg_run_def dkg_rounds_def Let_def ..

lemma key_import_run_eq:
  "key_import_run L rng my_id max_signers min_signers constant_term =
     pbind (Ret (build_id_map L max_signers)) (\<lambda>id_map.
     pbind (Ret (key_import_part1 L rng my_id max_signers min_signers constant_term)) (\<lambda>(secret1, r1_bytes).
       dkg_rounds L max_signers id_map secret1 r1_bytes))"
  unfolding key_import_run_def dkg_rounds_def Let_def ..

lemma reshare_run_eq:
  "reshare_run L rng my_id max_signers min_signers additive_share expected_vk =
     pbind (Ret (build_id_map L max_signers)) (\<lambda>id_map.
     pbind (Ret (reshare_part1 L rng my_id max_signers min_signers additive_share)) (\<lambda>(secret1, r1_bytes).
     pbind (dkg_rounds L max_signers id_map secret1 r1_bytes) (\<lambda>(key_package, pub_key_package).
     pbind (Ret (ser_err (vk_serialize L (pk_verifying_key L pub_key_package)))) (\<lambda>vk_bytes.
       Ret (if vk_bytes \<noteq> expected_vk then Err LIB_RESHARE_ERROR
            else Ok (key_package, pub_key_package))))))"
  unfolding reshare_run_def dkg_rounds_def Let_def by (simp only: pbind_assoc case_prod_unfold)

lemma id_map_from_Ok:
  assumes "ids_ok L" "0 \<notin> set ns"
  shows "\<exists>m'. id_map_from L ns m = Ok m' \<and>
    (\<forall>n i. id_try_from L n = Some i \<longrightarrow> m' (id_serialize L i) = (if n \<in> set ns then Some n else m (id_serialize L i)))"
  using assms(2)
proof (induction ns arbitrary: m)
  case (Cons k ns)
  then obtain c where c: "id_try_from L k = Some c" using ids_ok_Some [OF assms(1), of k] by auto
  from Cons obtain m' where m': "id_map_from L ns (m(id_serialize L c \<mapsto> k)) = Ok m'"
    "\<And>n i. id_try_from L n = Some i \<Longrightarrow>
       m' (id_serialize L i) = (if n \<in> set ns then Some n else (m(id_serialize L c \<mapsto> k)) (id_serialize L i))"
    by fastforce
  have "i = c \<longleftrightarrow> n = k" if "id_try_from L n = Some i" for n i
    using that c ids_ok_try_from_inj [OF assms(1)] by auto
  then show ?case
    using m' ids_ok_serialize [OF assms(1)] by (auto simp: try_id_def c)
qed simp

lemma build_id_map_Ok:
  assumes "ids_ok L"
  shows "\<exists>m. build_id_map L max_signers = Ok m \<and>
    (\<forall>n i. id_try_from L n = Some i \<longrightarrow> lookup_u16 L m i = (if n \<le> max_signers then Ok n else Err LIB_INVALID_IDENTIFIER))"
proof -
  have k: "unat max_signers < 2 ^ 16" using unsigned_less [of max_signers, where ?'a = nat] by simp
  have r: "set (map word_of_nat [1..<unat max_signers + 1]) = {n :: u16. 1 \<le> unat n \<and> unat n \<le> unat max_signers}"
    using set_u16_range [OF k] .
  have z: "(0 :: u16) \<notin> set (map word_of_nat [1..<unat max_signers + 1])" by (simp only: r) simp
  have pos: "1 \<le> unat n" if "id_try_from L n = Some i" for n i
    using that assms unfolding ids_ok_def by (metis One_nat_def Suc_leI option.distinct(1) unat_gt_0)
  obtain m where m: "build_id_map L max_signers = Ok m"
    "\<And>n i. id_try_from L n = Some i \<Longrightarrow>
       m (id_serialize L i) = (if n \<in> set (map word_of_nat [1..<unat max_signers + 1]) then Some n else None)"
    using id_map_from_Ok [OF assms z, of Map.empty] unfolding build_id_map_def by auto
  have "lookup_u16 L m i = (if n \<le> max_signers then Ok n else Err LIB_INVALID_IDENTIFIER)"
    if "id_try_from L n = Some i" for n i
    using m(2) [OF that] pos [OF that] unfolding r lookup_u16_def by (simp add: word_le_nat_alt)
  with m(1) show ?thesis by blast
qed

text \<open>One poll of the shared rounds over the frames of round one and then of round two.\<close>

lemma poll_dkg_rounds:
  assumes "length fs1 = unat (max_signers - 1)" "length fs2 = unat (max_signers - 1)"
    and "rfold (recv_insert L (package1_deserialize L)) (map recv_frame fs1) [] = Ok r1_map"
    and "rfold (recv_insert L (package2_deserialize L)) (map recv_frame fs2) [] = Ok r2_map"
    and "dkg_core_part2 L secret1 r1_map = Inr (secret2, pkgs)" "rmap (prepare_r2 L id_map) pkgs = Ok ys"
  shows "poll (dkg_rounds L max_signers id_map secret1 r1_bytes) (fs1 @ fs2) [] =
    (Ret (or_blame L (dkg_core_part3 L secret2 r1_map r2_map) LIB_DKG_ERROR), [],
     map (\<lambda>(n, b). wrap_sender n b) ((0, r1_bytes) # ys))"
  using poll_recv_loop_Ok [OF assms(3), of fs2] poll_recv_loop_Ok [OF assms(4), of "[]"]
    poll_send_loop_Ok [OF assms(6)] assms(5)
  by (simp add: dkg_rounds_def poll_pbind broadcast_def or_blame_def [of L "Inr _"] assms(1,2)
      wrap_sender_def split_def)

text \<open>Frames of one round may arrive in any order.\<close>

lemma recv_insert_commute:
  assumes "recv_insert L de m1 acc = Ok a1" "recv_insert L de m2 a1 = Ok a2" "bt_wf acc"
    and "ids_ok L" "fst m1 \<noteq> fst m2"
  shows "\<exists>b. recv_insert L de m2 acc = Ok b \<and> recv_insert L de m1 b = Ok a2"
proof -
  from assms(1) obtain i1 p1 where 1: "id_try_from L (fst m1) = Some i1" "de (snd m1) = Some p1"
    "a1 = bt_insert i1 p1 acc" by (auto simp: recv_insert_def try_id_def ser_err_def elim!: rbind_OkE)
  from assms(2) obtain i2 p2 where 2: "id_try_from L (fst m2) = Some i2" "de (snd m2) = Some p2"
    "a2 = bt_insert i2 p2 a1" by (auto simp: recv_insert_def try_id_def ser_err_def elim!: rbind_OkE)
  have "i1 \<noteq> i2" using ids_ok_try_from_inj [OF assms(4)] 1(1) 2(1) assms(5) by blast
  then show ?thesis
    using 1 2 bt_insert_commute [OF assms(3), of i1 i2 p1 p2]
    by (auto simp: recv_insert_def try_id_def ser_err_def)
qed

lemma recv_insert_wf: "recv_insert L de m acc = Ok a \<Longrightarrow> bt_wf acc \<Longrightarrow> bt_wf a"
  by (auto simp: recv_insert_def elim!: rbind_OkE)

lemma rfold_recv_pull:
  assumes "rfold (recv_insert L de) (xs @ m # ys) acc = Ok a" "bt_wf acc" "ids_ok L"
    and "fst m \<notin> fst ` set xs"
  shows "rfold (recv_insert L de) (m # xs @ ys) acc = Ok a"
  using assms
proof (induction xs arbitrary: acc)
  case (Cons x xs)
  from Cons.prems(1) obtain a1 where a1: "recv_insert L de x acc = Ok a1"
    "rfold (recv_insert L de) (xs @ m # ys) a1 = Ok a" by (auto elim: rbind_OkE)
  have "rfold (recv_insert L de) (m # xs @ ys) a1 = Ok a"
    using Cons.IH [OF a1(2)] Cons.prems recv_insert_wf [OF a1(1)] by auto
  then obtain a2 where a2: "recv_insert L de m a1 = Ok a2" "rfold (recv_insert L de) (xs @ ys) a2 = Ok a"
    by (auto elim: rbind_OkE)
  from recv_insert_commute [OF a1(1) a2(1) Cons.prems(2,3)] Cons.prems(4)
  obtain b where "recv_insert L de m acc = Ok b" "recv_insert L de x b = Ok a2" by auto
  with a2(2) show ?case by simp
qed simp

lemma rfold_recv_perm:
  assumes "rfold (recv_insert L de) ms acc = Ok a" "bt_wf acc" "ids_ok L"
    and "distinct (map fst ms)" "mset ms = mset ms'"
  shows "rfold (recv_insert L de) ms' acc = Ok a"
  using assms
proof (induction ms' arbitrary: ms acc)
  case (Cons m ms')
  then have "m \<in> set ms" by (metis list.set_intros(1) set_mset_mset)
  then obtain xs ys where ms: "ms = xs @ m # ys" by (auto dest: split_list)
  have "fst m \<notin> fst ` set xs" using Cons.prems(4) by (auto simp: ms)
  from rfold_recv_pull [OF Cons.prems(1) [unfolded ms] Cons.prems(2,3) this]
  obtain b where b: "recv_insert L de m acc = Ok b" "rfold (recv_insert L de) (xs @ ys) b = Ok a"
    by (auto elim: rbind_OkE)
  have "rfold (recv_insert L de) ms' b = Ok a"
    using Cons.prems b(1) by (intro Cons.IH [OF b(2)]) (auto simp: ms intro: recv_insert_wf)
  with b(1) show ?case by simp
qed simp

section \<open>No panics\<close>

lemma or_blame_neq_Panic [simp]: "or_blame L r d \<noteq> Panic"
  by (auto simp: or_blame_def frost_err_to_blame_def split: sum.splits option.splits)

lemma proper_ser_err [simp]: "proper (ser_err x)"
  by (simp add: ser_err_def)

lemma ser_err_neq_Panic [simp]: "ser_err r \<noteq> Panic"
  by (simp add: ser_err_def)

lemma try_id_neq_Panic [simp]: "try_id L n \<noteq> Panic"
  by (simp add: try_id_def)

lemma recv_insert_neq_Panic [simp]: "recv_insert L de m acc \<noteq> Panic"
  by (simp add: recv_insert_def rbind_eq_Panic)

lemma prepare_r2_neq_Panic [simp]: "prepare_r2 L m e \<noteq> Panic"
  by (auto simp: prepare_r2_def lookup_u16_def rbind_eq_Panic)

lemma id_map_from_neq_Panic [simp]: "id_map_from L ns m \<noteq> Panic"
  by (induction ns arbitrary: m) (auto simp: rbind_eq_Panic)

lemma build_id_map_neq_Panic [simp]: "build_id_map L mx \<noteq> Panic"
  by (simp add: build_id_map_def)

lemma part1_neq_Panic [simp]:
  "key_import_part1 L rng i mx mn c \<noteq> Panic" "reshare_part1 L rng i mx mn c \<noteq> Panic"
  by (auto simp: key_import_part1_def reshare_part1_def rbind_eq_Panic Let_def split: prod.splits)

lemmas no_panic_intros = pall_no_panic_bind pall_no_panic_recv_loop pall_no_panic_send_loop

lemma pall_no_panic_Ret: "r \<noteq> Panic \<Longrightarrow> pall (\<lambda>r. r \<noteq> Panic) (Ret r)"
  by simp

lemma dkg_rounds_no_panic [simp]: "pall (\<lambda>r. r \<noteq> Panic) (dkg_rounds L mx m s b)"
  unfolding dkg_rounds_def case_prod_unfold
  by (intro no_panic_intros pall_no_panic_Ret) simp_all

text \<open>A frame of the wrong kind ends the loop of its round.\<close>

lemma poll_recv_loop_Err:
  assumes "rfold stp (map recv_frame fs) acc = Ok acc'" "stp (recv_frame f) acc' = Err e" "length fs < n"
  shows "poll (recv_loop n stp acc) (fs @ f # rest) outb = (Ret (Err e), rest, outb)"
  using assms
proof (induction fs arbitrary: acc n)
  case Nil
  then obtain k where "n = Suc k" by (cases n) auto
  with Nil show ?case by (simp only: append_Nil poll_recv_loop_Cons) simp
next
  case (Cons g fs)
  then obtain k a where k: "n = Suc k" and a: "stp (recv_frame g) acc = Ok a"
    "rfold stp (map recv_frame fs) a = Ok acc'" by (cases n) (auto elim: rbind_OkE)
  show ?case
    using Cons.IH [OF a(2) Cons.prems(2), of k] Cons.prems(3) a(1)
    by (simp only: k append_Cons poll_recv_loop_Cons res.case) simp
qed

end
