(* ===== verification/Demo_Library.thy ===== *)
theory Demo_Library
  imports Ceremonies Complex_Main
begin

text \<open>
  A concrete value for the library argument, on which the hypotheses about \<^verbatim>\<open>frost-core\<close> can be
  checked and the ceremonies evaluated: the same secret sharing over the rationals with the
  group written additively, without zero-knowledge proofs, and with byte strings for small
  non-negative integers. It is used only in concrete instances of the theorems.
\<close>

definition small_rat :: "rat \<Rightarrow> u8 option" where
  "small_rat x = (let (n, d) = quotient_of x in
     if d = 1 \<and> 0 \<le> n \<and> n < 256 then Some (word_of_int n) else None)"

definition rat_of_byte :: "u8 \<Rightarrow> rat" where "rat_of_byte b = of_int (uint b)"

primrec small_rats :: "rat list \<Rightarrow> bytes option" where
  "small_rats [] = Some []"
| "small_rats (x # xs) =
     (case small_rat x of None \<Rightarrow> None | Some b \<Rightarrow> map_option (\<lambda>bs. b # bs) (small_rats xs))"

definition demo :: "(nat, rat, rat, unit, nat option, nat, nat \<times> rat list, rat list, nat \<times> rat list, rat,
    nat \<times> rat, rat) frost" where
  "demo = \<lparr>
     id_try_from = (\<lambda>n. if n = 0 then None else Some (unat n)),
     id_serialize = (\<lambda>i. replicate i 0),
     id_deserialize = (\<lambda>b. Some (length b)),
     id_scalar = of_nat,
     culprit = (\<lambda>e. e),
     random_scalar = (\<lambda>r. (of_nat r, r + 1)),
     invert = (\<lambda>x. if x = 0 then None else Some (inverse x)),
     mul_generator = (\<lambda>x. x),
     dkg_core_part1 = (\<lambda>i mx mn r.
       if mn < 2 \<or> mx < mn then Inl None
       else let cs = map (\<lambda>k. of_nat (r + k)) [0..<unat mn] in Inr ((i, cs), cs)),
     dkg_core_part2 = (\<lambda>(i, cs) r1. Inr ((i, cs), map (\<lambda>(j, _). (j, eval_poly cs (of_nat j))) r1)),
     dkg_core_part3 = (\<lambda>(i, cs) r1 r2.
       if map fst r1 \<noteq> map fst r2 then Inl None
       else Inr ((i, eval_poly cs (of_nat i) + sum_list (map snd r2)), hd cs + sum_list (map (hd \<circ> snd) r1))),
     compute_proof_of_knowledge = (\<lambda>i cs cm r. Inr ()),
     secret1_new = (\<lambda>i cs cm mn mx. (i, cs)),
     package1_new = (\<lambda>cm s. cm),
     package1_serialize = small_rats,
     package1_deserialize = (\<lambda>b. if b = [] then None else Some (map rat_of_byte b)),
     package2_serialize = (\<lambda>x. map_option (\<lambda>b. [b]) (small_rat x)),
     package2_deserialize = (\<lambda>b. case b of [x] \<Rightarrow> Some (rat_of_byte x) | _ \<Rightarrow> None),
     kp_identifier = fst,
     kp_signing_share = snd,
     kp_serialize = (\<lambda>(i, x). map_option (\<lambda>b. b # replicate i 0) (small_rat x)),
     kp_deserialize = (\<lambda>b. case b of x # r \<Rightarrow> Some (length r, rat_of_byte x) | _ \<Rightarrow> None),
     pk_serialize = (\<lambda>x. map_option (\<lambda>b. [b]) (small_rat x)),
     pk_deserialize = (\<lambda>b. case b of [x] \<Rightarrow> Some (rat_of_byte x) | _ \<Rightarrow> None),
     pk_verifying_key = (\<lambda>x. x),
     vk_serialize = (\<lambda>x. map_option (\<lambda>b. [b]) (small_rat x))\<rparr>"

lemma ids_ok_demo: "ids_ok demo"
  by (auto simp: ids_ok_def demo_def inj_def word_unat_eq_iff split: if_splits)

lemma invert_ok_demo: "invert_ok demo"
  by (simp add: invert_ok_def demo_def)

lemma demo_simps:
  "id_scalar demo = of_nat" "kp_identifier demo = fst" "kp_signing_share demo = snd" "culprit demo = (\<lambda>e. e)"
  by (simp_all add: demo_def fun_eq_iff)

lemma rat_of_small_rat: "small_rat x = Some w \<Longrightarrow> rat_of_byte w = x"
proof -
  assume a: "small_rat x = Some w"
  obtain n d where q: "quotient_of x = (n, d)" by (cases "quotient_of x")
  with a have "d = 1" "0 \<le> n" "n < 256" "w = word_of_int n" by (auto simp: small_rat_def split: if_splits)
  moreover have "x = of_int n / of_int d" using q by (rule quotient_of_div)
  ultimately show ?thesis by (simp add: rat_of_byte_def uint_word_of_int)
qed

lemma serde_demo:
  "serde_ok (kp_serialize demo) (kp_deserialize demo)" "serde_ok (pk_serialize demo) (pk_deserialize demo)"
  by (auto simp: serde_ok_def demo_def rat_of_small_rat split: prod.splits)

end
