(* ===== verification/Identifier_Table.thy ===== *)
theory Identifier_Table
  imports Demo_Library
begin

text \<open>
  The cached table from serialized identifiers to numbers that both libraries keep
  (\<^verbatim>\<open>frozt-lib/src/keyshare/mod.rs\<close>, \<^verbatim>\<open>fromt-lib/src/keyshare/identifier.rs\<close>). The cache is filled once
  with values that depend on nothing else, so it is the value itself.
\<close>

text \<open>The lookup table: identifiers that cannot be made are left out.\<close>

primrec id_lookup_from where
  "id_lookup_from L [] m = m"
| "id_lookup_from L (i # is) m =
     id_lookup_from L is (case id_try_from L i of None \<Rightarrow> m | Some c \<Rightarrow> m(id_serialize L c \<mapsto> (i :: u16)))"

definition get_id_lookup where
  "get_id_lookup L = id_lookup_from L (map word_of_nat [1..<257]) Map.empty"

definition keyshare_identifier_to_u16 where
  "keyshare_identifier_to_u16 L i = ok_or (get_id_lookup L (id_serialize L i)) LIB_INVALID_IDENTIFIER"

section \<open>Lemmas\<close>

lemma id_lookup_from_eq:
  assumes "ids_ok L" "id_try_from L n = Some i" "0 \<notin> set ns"
  shows "id_lookup_from L ns m (id_serialize L i) = (if n \<in> set ns then Some n else m (id_serialize L i))"
  using assms(3)
proof (induction ns arbitrary: m)
  case (Cons k ns)
  then obtain c where c: "id_try_from L k = Some c" using ids_ok_Some [OF assms(1), of k] by auto
  have "i = c \<longleftrightarrow> n = k" using assms(2) c ids_ok_try_from_inj [OF assms(1)] by auto
  with Cons c ids_ok_serialize [OF assms(1)] show ?case by auto
qed simp

lemma keyshare_identifier_to_u16_eq:
  assumes "ids_ok L" "id_try_from L n = Some i"
  shows "keyshare_identifier_to_u16 L i = ok_or (identifier_to_u16 L i) LIB_INVALID_IDENTIFIER"
proof -
  have r: "set (map word_of_nat [1..<257]) = {n :: u16. 1 \<le> unat n \<and> unat n \<le> 256}"
    using set_u16_range [of 256] by simp
  have "(0 :: u16) \<notin> set (map word_of_nat [1..<257])" by (simp only: r) simp
  moreover have "n \<noteq> 0" using assms unfolding ids_ok_def by (metis option.distinct(1))
  then have "1 \<le> unat n" by (simp add: Suc_le_eq unat_gt_0)
  ultimately show ?thesis
    using id_lookup_from_eq [OF assms, of "map word_of_nat [1..<257]" Map.empty] identifier_to_u16_eq [OF assms]
    unfolding keyshare_identifier_to_u16_def get_id_lookup_def r by simp
qed

section \<open>Properties\<close>

text \<open>The two translations of an identifier to its number agree: the cached table of the key share functions
  gives the number that the search used for blame gives, on every identifier made from a number.\<close>

theorem identifier_tables_agree:
  assumes "ids_ok L" "id_try_from L n = Some i"
  shows "keyshare_identifier_to_u16 L i = ok_or (identifier_to_u16 L i) LIB_INVALID_IDENTIFIER \<and>
    identifier_to_u16 L i = (if unat n \<le> 256 then Some n else None)"
  using keyshare_identifier_to_u16_eq [OF assms] identifier_to_u16_eq [OF assms] by blast

theorem identifier_tables_agree_witness:
  "keyshare_identifier_to_u16 demo 300 = ok_or (identifier_to_u16 demo 300) LIB_INVALID_IDENTIFIER \<and>
    identifier_to_u16 demo 300 = (if unat (300 :: u16) \<le> 256 then Some 300 else None)"
  by (rule identifier_tables_agree [OF ids_ok_demo]) (simp add: demo_def)

end
