(* ===== verification/Handle_Table.thy ===== *)
theory Handle_Table
  imports Ffi_Errors "HOL-Library.Multiset"
begin

text \<open>
  The handle table of \<^verbatim>\<open>frost-ffi/src/handle.rs\<close>: the objects of the library behind integer
  handles. \<^verbatim>\<open>LAST\<close> is an \<^verbatim>\<open>i32\<close>, kept as an integer with the wrap-around of \<^verbatim>\<open>fetch_add\<close> written
  out; \<^verbatim>\<open>HMAP\<close> is an association list with distinct keys; an entry is \<open>None\<close> while a
  \<^verbatim>\<open>HandleGuard\<close> has the object. A downcast of \<^verbatim>\<open>Box<dyn Any>\<close> to \<^verbatim>\<open>T\<close> is a partial function on the
  type of all objects. Every operation runs under the mutex of \<^verbatim>\<open>HMAP\<close>, so a step relation
  over whole operations has all the interleavings of several threads.
\<close>

definition MAX_HANDLES :: nat where "MAX_HANDLES = 4096"

datatype handle_error = NullHandle | NotFound | InUse | InvalidType | TableFull

record 'o htable =
  last_handle :: int
  hmap :: "(int \<times> 'o option) list"

definition initial_table :: "'o htable" where
  "initial_table = \<lparr>last_handle = 1, hmap = []\<rparr>"

text \<open>\<^verbatim>\<open>impl From<handle::Error> for lib_error\<close>.\<close>

fun lib_error_of_handle :: "handle_error \<Rightarrow> lib_error" where
  "lib_error_of_handle NullHandle = LIB_INVALID_HANDLE"
| "lib_error_of_handle NotFound = LIB_INVALID_HANDLE"
| "lib_error_of_handle InUse = LIB_HANDLE_IN_USE"
| "lib_error_of_handle InvalidType = LIB_INVALID_HANDLE_TYPE"
| "lib_error_of_handle TableFull = LIB_UNKNOWN_ERROR"

definition wrap_i32 :: "int \<Rightarrow> int" where
  "wrap_i32 x = (x + 2 ^ 31) mod 2 ^ 32 - 2 ^ 31"

text \<open>
  The search loop of \<^verbatim>\<open>allocate\<close>: \<open>attempts\<close> counts the resets of \<^verbatim>\<open>LAST\<close>; the result is the free
  handle, or \<open>None\<close> for the early return, with the value \<^verbatim>\<open>LAST\<close> is left with.
\<close>

function alloc_loop :: "nat \<Rightarrow> int \<Rightarrow> int list \<Rightarrow> int option \<times> int" where
  "alloc_loop attempts lst keys =
     (if lst \<le> 0 then
        (if attempts + 1 > 1 then (None, 1) else alloc_loop (attempts + 1) 1 keys)
      else if lst \<notin> set keys then (Some lst, wrap_i32 (lst + 2))
      else alloc_loop attempts (wrap_i32 (lst + 2)) keys)"
  by pat_completeness auto

text \<open>How far the counter is from its next reset.\<close>

definition room :: "int \<Rightarrow> nat" where
  "room lst = (if lst \<ge> 2 ^ 31 then 2 ^ 31 + 1 else if lst \<le> 0 then 0 else nat (2 ^ 31 - lst))"

lemma wrap_i32_id: "- (2 ^ 31) \<le> x \<Longrightarrow> x < 2 ^ 31 \<Longrightarrow> wrap_i32 x = x"
  by (simp add: wrap_i32_def)

lemma wrap_i32_over: "2 ^ 31 \<le> x \<Longrightarrow> x < 2 ^ 31 + 2 \<Longrightarrow> wrap_i32 x = x - 2 ^ 32"
proof -
  assume x: "2 ^ 31 \<le> x" "x < 2 ^ 31 + 2"
  have "(x + 2 ^ 31) mod 2 ^ 32 = ((x - 2 ^ 31) + 2 ^ 32) mod 2 ^ 32"
    by (simp add: add.commute)
  also have "\<dots> = x - 2 ^ 31" using x by (simp only: mod_add_self2) simp
  finally show ?thesis by (simp add: wrap_i32_def)
qed

lemma wrap_i32_range: "- (2 ^ 31) \<le> wrap_i32 x" "wrap_i32 x < 2 ^ 31"
  by (simp_all add: wrap_i32_def)

lemma odd_wrap_i32: "odd (wrap_i32 x) \<longleftrightarrow> odd x"
  by (simp add: wrap_i32_def dvd_mod_iff)

lemma room_step: "0 < lst \<Longrightarrow> room (wrap_i32 (lst + 2)) < room lst"
proof (cases "lst + 2 < 2 ^ 31")
  case True
  moreover assume "0 < lst"
  ultimately show ?thesis by (simp add: room_def wrap_i32_id)
next
  case False
  assume "0 < lst"
  show ?thesis
  proof (cases "lst < 2 ^ 31")
    case True
    with False have "wrap_i32 (lst + 2) \<le> 0" by (simp add: wrap_i32_over)
    with True \<open>0 < lst\<close> show ?thesis by (simp add: room_def)
  next
    case False
    then show ?thesis using wrap_i32_range [of "lst + 2"] by (auto simp: room_def nat_less_iff)
  qed
qed

termination alloc_loop
  by (relation "measures [\<lambda>(a, l, k). 2 - a, \<lambda>(a, l, k). room l]") (auto intro: room_step)

definition allocate :: "'o \<Rightarrow> 'o htable \<Rightarrow> (handle_error + int) \<times> 'o htable" where
  "allocate obj t =
     (if length (hmap t) \<ge> MAX_HANDLES then (Inl TableFull, t)
      else case alloc_loop 0 (last_handle t) (map fst (hmap t)) of
        (None, l) \<Rightarrow> (Inl TableFull, t\<lparr>last_handle := l\<rparr>)
      | (Some h, l) \<Rightarrow> (Inr h, t\<lparr>last_handle := l, hmap := AList.update h (Some obj) (hmap t)\<rparr>))"

definition handle_get ::
  "('o \<Rightarrow> 'a option) \<Rightarrow> int \<Rightarrow> 'o htable \<Rightarrow> (handle_error + 'a) \<times> 'o htable" where
  "handle_get downcast h t =
     (if h = 0 then (Inl NullHandle, t)
      else case map_of (hmap t) h of
        None \<Rightarrow> (Inl NotFound, t)
      | Some None \<Rightarrow> (Inl InUse, t)
      | Some (Some obj) \<Rightarrow>
          (case downcast obj of
             Some x \<Rightarrow> (Inr x, t\<lparr>hmap := AList.update h None (hmap t)\<rparr>)
           | None \<Rightarrow> (Inl InvalidType, t\<lparr>hmap := AList.update h (Some obj) (hmap t)\<rparr>)))"

definition handle_take ::
  "('o \<Rightarrow> 'a option) \<Rightarrow> int \<Rightarrow> 'o htable \<Rightarrow> (handle_error + 'a) \<times> 'o htable" where
  "handle_take downcast h t =
     (if h = 0 then (Inl NullHandle, t)
      else case map_of (hmap t) h of
        None \<Rightarrow> (Inl NotFound, t)
      | Some None \<Rightarrow> (Inl InUse, t)
      | Some (Some obj) \<Rightarrow>
          (case downcast obj of
             Some x \<Rightarrow> (Inr x, t\<lparr>hmap := AList.delete h (hmap t)\<rparr>)
           | None \<Rightarrow> (Inl InvalidType, t\<lparr>hmap := AList.update h (Some obj) (hmap t)\<rparr>)))"

definition handle_free :: "int \<Rightarrow> 'o htable \<Rightarrow> (handle_error + unit) \<times> 'o htable" where
  "handle_free h t =
     (case map_of (hmap t) h of
        None \<Rightarrow> (Inl NotFound, t)
      | Some _ \<Rightarrow> (Inr (), t\<lparr>hmap := AList.delete h (hmap t)\<rparr>))"

text \<open>\<^verbatim>\<open>put\<close>, which \<^verbatim>\<open>Drop for HandleGuard\<close> calls with the guard's handle and object.\<close>

definition put :: "int \<Rightarrow> 'o \<Rightarrow> 'o htable \<Rightarrow> 'o htable" where
  "put h obj t = t\<lparr>hmap := AList.update h (Some obj) (hmap t)\<rparr>"

text \<open>\<^verbatim>\<open>HandleGuard::into_inner\<close>: the guard's object, with the entry gone.\<close>

definition into_inner :: "int \<Rightarrow> 'o \<Rightarrow> 'o htable \<Rightarrow> 'o \<times> 'o htable" where
  "into_inner h obj t = (obj, t\<lparr>hmap := AList.delete h (hmap t)\<rparr>)"

section \<open>The allocation loop\<close>

declare alloc_loop.simps [simp del]

lemma alloc_loop_Some:
  assumes "alloc_loop a l keys = (Some h, l')" "l < 2 ^ 31" "odd l"
  shows "h \<notin> set keys \<and> 0 < h \<and> h < 2 ^ 31 \<and> odd h \<and> odd l' \<and> l' < 2 ^ 31"
  using assms
proof (induction a l keys rule: alloc_loop.induct)
  case (1 a l keys)
  show ?case
  proof (cases "0 < l \<and> l \<in> set keys")
    case True
    then show ?thesis
      using 1 wrap_i32_range [of "l + 2"] odd_wrap_i32 [of "l + 2"]
      by (simp add: alloc_loop.simps [of a l keys])
  next
    case False
    with 1 show ?thesis
      using wrap_i32_range [of "l + 2"] odd_wrap_i32 [of "l + 2"]
      by (cases "l \<le> 0"; cases a) (auto simp: alloc_loop.simps [of _ l keys])
  qed
qed

text \<open>The loop gives up only when no odd number is free above a positive starting point.\<close>

lemma alloc_loop_None:
  assumes "alloc_loop a l keys = (None, l')" "odd l" "0 < l" "l \<le> k" "k < 2 ^ 31" "odd k"
  shows "k \<in> set keys"
  using assms
proof (induction a l keys rule: alloc_loop.induct)
  case (1 a l keys)
  then have l: "l \<in> set keys" and rec: "alloc_loop a (wrap_i32 (l + 2)) keys = (None, l')"
    by (auto simp: alloc_loop.simps [of a l keys] split: if_splits)
  show ?case
  proof (cases "k = l")
    case False
    with 1 have "l + 2 \<le> k" by presburger
    then have "wrap_i32 (l + 2) = l + 2" using 1 by (intro wrap_i32_id) auto
    then show ?thesis using 1 l rec \<open>l + 2 \<le> k\<close> by auto
  qed (use l in simp)
qed

lemma alloc_loop_restart: "l \<le> 0 \<Longrightarrow> alloc_loop 0 l keys = alloc_loop 1 1 keys"
  by (simp add: alloc_loop.simps [of 0 l])

lemma alloc_loop_0_None: "alloc_loop 0 l keys = (None, l') \<Longrightarrow> \<exists>l''. alloc_loop 1 1 keys = (None, l'')"
proof (induction "room l" arbitrary: l rule: less_induct)
  case less
  show ?case
  proof (cases "l \<le> 0")
    case False
    then have "alloc_loop 0 (wrap_i32 (l + 2)) keys = (None, l')"
      using less.prems by (auto simp: alloc_loop.simps [of 0 l] split: if_splits)
    with False show ?thesis using less.hyps [OF room_step] by simp
  qed (use less.prems alloc_loop_restart in auto)
qed

lemma alloc_loop_succeeds:
  assumes "length keys < MAX_HANDLES"
  shows "\<exists>h l'. alloc_loop 0 l keys = (Some h, l')"
proof (rule ccontr)
  assume "\<nexists>h l'. alloc_loop 0 l keys = (Some h, l')"
  then obtain l' where "alloc_loop 0 l keys = (None, l')"
    by (cases "alloc_loop 0 l keys"; cases "fst (alloc_loop 0 l keys)") auto
  then obtain l'' where none: "alloc_loop 1 1 keys = (None, l'')"
    using alloc_loop_0_None by blast
  let ?f = "\<lambda>i. 2 * int i + 1"
  have "?f ` {..<MAX_HANDLES} \<subseteq> set keys"
  proof
    fix k assume "k \<in> ?f ` {..<MAX_HANDLES}"
    then obtain i where "i < 4096" "k = 2 * int i + 1" by (auto simp: MAX_HANDLES_def)
    then show "k \<in> set keys" by (intro alloc_loop_None [OF none]) auto
  qed
  then have "card (?f ` {..<MAX_HANDLES}) \<le> card (set keys)" by (intro card_mono) auto
  moreover have "card (?f ` {..<MAX_HANDLES}) = MAX_HANDLES" by (subst card_image) (auto simp: inj_on_def)
  ultimately show False using assms card_length [of keys] by linarith
qed

section \<open>The operations on the abstract map\<close>

abbreviation entries :: "'o htable \<Rightarrow> int \<rightharpoonup> 'o option" where
  "entries t \<equiv> map_of (hmap t)"

definition table_wf :: "'o htable \<Rightarrow> bool" where
  "table_wf t \<longleftrightarrow>
     distinct (map fst (hmap t)) \<and> length (hmap t) \<le> MAX_HANDLES \<and>
     list_all (\<lambda>(h, _). 0 < h \<and> h < 2 ^ 31 \<and> odd h) (hmap t) \<and>
     odd (last_handle t) \<and> last_handle t < 2 ^ 31"

lemma length_AList_update:
  "length (AList.update k v m) = (if k \<in> fst ` set m then length m else Suc (length m))"
  by (induction m) auto

lemma list_all_keys: "list_all (\<lambda>(h, _). P h) m \<longleftrightarrow> (\<forall>h \<in> fst ` set m. P h)"
  by (auto simp: list_all_iff)

lemma table_wf_update:
  assumes "table_wf t" "h \<in> fst ` set (hmap t)"
  shows "table_wf (t\<lparr>hmap := AList.update h v (hmap t)\<rparr>)"
  using assms
  by (auto simp: table_wf_def list_all_keys dom_update length_AList_update distinct_update insert_absorb)

lemma set_AList_delete: "set (AList.delete h m) \<subseteq> set m"
  by (induction m) auto

lemma table_wf_delete: "table_wf t \<Longrightarrow> table_wf (t\<lparr>hmap := AList.delete h (hmap t)\<rparr>)"
  using length_delete_le [of h "hmap t"] set_AList_delete [of h "hmap t"]
  by (auto simp: table_wf_def list_all_iff distinct_delete)

lemma map_of_update_same: "m h = Some v \<Longrightarrow> m(h \<mapsto> v) = m"
  by (simp add: map_upd_triv)

lemma allocate_cases:
  assumes "table_wf t"
  obtains (full) "length (hmap t) = MAX_HANDLES" "allocate obj t = (Inl TableFull, t)"
  | (fresh) h t' where "length (hmap t) < MAX_HANDLES" "allocate obj t = (Inr h, t')"
      "entries t h = None" "0 < h" "h < 2 ^ 31" "odd h" "entries t' = (entries t)(h \<mapsto> Some obj)" "table_wf t'"
proof (cases "length (hmap t) \<ge> MAX_HANDLES")
  case True
  then show ?thesis using assms by (intro full) (auto simp: table_wf_def allocate_def)
next
  case False
  then obtain h l' where a: "alloc_loop 0 (last_handle t) (map fst (hmap t)) = (Some h, l')"
    using alloc_loop_succeeds [of "map fst (hmap t)" "last_handle t"] by auto
  have h: "h \<notin> fst ` set (hmap t)" "0 < h" "h < 2 ^ 31" "odd h" "odd l'" "l' < 2 ^ 31"
    using alloc_loop_Some [OF a] assms by (auto simp: table_wf_def)
  let ?t' = "t\<lparr>last_handle := l', hmap := AList.update h (Some obj) (hmap t)\<rparr>"
  show ?thesis
  proof (rule fresh [of h ?t'])
    show "table_wf ?t'"
      using assms h False
      by (auto simp: table_wf_def list_all_keys dom_update length_AList_update distinct_update)
    show "entries t h = None" using h by (simp add: map_of_eq_None_iff)
  qed (use False h a in \<open>simp_all add: allocate_def update_conv'\<close>)
qed

text \<open>
  The contract the exported functions rely on: a table of objects under handles, with an
  object absent while it is borrowed.
\<close>

locale object_store =
  fixes lookup :: "'t \<Rightarrow> int \<rightharpoonup> 'o option" and wf :: "'t \<Rightarrow> bool"
    and alloc :: "'o \<Rightarrow> 't \<Rightarrow> (handle_error + int) \<times> 't"
    and borrow :: "('o \<Rightarrow> 'a option) \<Rightarrow> int \<Rightarrow> 't \<Rightarrow> (handle_error + 'a) \<times> 't"
    and give_back :: "int \<Rightarrow> 'o \<Rightarrow> 't \<Rightarrow> 't"
    and remove :: "('o \<Rightarrow> 'a option) \<Rightarrow> int \<Rightarrow> 't \<Rightarrow> (handle_error + 'a) \<times> 't"
  assumes alloc_ok: "wf t \<Longrightarrow> alloc obj t = (Inr h, t') \<Longrightarrow>
            wf t' \<and> h \<noteq> 0 \<and> lookup t h = None \<and> lookup t' = (lookup t)(h \<mapsto> Some obj)"
    and borrow_ok: "wf t \<Longrightarrow> h \<noteq> 0 \<Longrightarrow> lookup t h = Some (Some obj) \<Longrightarrow> down obj = Some x \<Longrightarrow>
            \<exists>t'. borrow down h t = (Inr x, t') \<and> wf t' \<and> lookup t' = (lookup t)(h \<mapsto> None)"
    and borrow_in_use: "h \<noteq> 0 \<Longrightarrow> lookup t h = Some None \<Longrightarrow> borrow down h t = (Inl InUse, t)"
    and give_back_ok: "wf t \<Longrightarrow> lookup t h = Some e \<Longrightarrow>
            wf (give_back h obj t) \<and> lookup (give_back h obj t) = (lookup t)(h \<mapsto> Some obj)"
    and remove_ok: "wf t \<Longrightarrow> h \<noteq> 0 \<Longrightarrow> lookup t h = Some (Some obj) \<Longrightarrow> down obj = Some x \<Longrightarrow>
            \<exists>t'. remove down h t = (Inr x, t') \<and> wf t' \<and> lookup t' = (lookup t)(h := None)"
begin

text \<open>Borrow, change and give back is an update of one entry and of no other.\<close>

lemma borrow_give_back:
  assumes "wf t" "h \<noteq> 0" "lookup t h = Some (Some obj)" "down obj = Some x"
  shows "\<exists>t'. borrow down h t = (Inr x, t') \<and> wf (give_back h obj' t') \<and>
           lookup (give_back h obj' t') = (lookup t)(h \<mapsto> Some obj')"
proof -
  from borrow_ok [where down = down, OF assms] obtain t' where t': "borrow down h t = (Inr x, t')" "wf t'"
    "lookup t' = (lookup t)(h \<mapsto> None)" by blast
  then show ?thesis using give_back_ok [OF t'(2), of h None obj'] by auto
qed

lemma borrow_twice:
  assumes "wf t" "h \<noteq> 0" "lookup t h = Some (Some obj)" "down obj = Some x" "borrow down h t = (r, t')"
  shows "borrow down h t' = (Inl InUse, t')"
  using borrow_ok [where down = down, OF assms(1-4)] assms by (auto intro!: borrow_in_use)

lemma alloc_then_remove:
  assumes "wf t" "alloc obj t = (Inr h, t')" "down obj = Some x"
  shows "\<exists>t''. remove down h t' = (Inr x, t'') \<and> lookup t'' = lookup t"
proof -
  from alloc_ok [OF assms(1,2)] have a: "wf t'" "h \<noteq> 0" "lookup t h = None" "lookup t' h = Some (Some obj)"
    and upd: "lookup t' = (lookup t)(h \<mapsto> Some obj)" by auto
  from remove_ok [where down = down, OF a(1,2,4) assms(3)] obtain t''
    where "remove down h t' = (Inr x, t'')" "lookup t'' = (lookup t')(h := None)" by blast
  with upd a(3) show ?thesis by (auto intro!: ext)
qed

end

lemma in_keys: "map_of m h = Some v \<Longrightarrow> h \<in> fst ` set m"
  by (force dest: map_of_SomeD)

lemma handle_get_ok:
  assumes "table_wf t" "h \<noteq> 0" "entries t h = Some (Some obj)" "down obj = Some x"
  shows "\<exists>t'. handle_get down h t = (Inr x, t') \<and> table_wf t' \<and> entries t' = (entries t)(h \<mapsto> None)"
  using assms table_wf_update [OF assms(1) in_keys [OF assms(3)], of None]
  by (auto simp: handle_get_def update_conv')

lemma handle_take_ok:
  assumes "table_wf t" "h \<noteq> 0" "entries t h = Some (Some obj)" "down obj = Some x"
  shows "\<exists>t'. handle_take down h t = (Inr x, t') \<and> table_wf t' \<and> entries t' = (entries t)(h := None)"
  using assms table_wf_delete [OF assms(1), of h]
  by (auto simp: handle_take_def delete_conv')

lemma allocate_ok:
  assumes "table_wf t" "allocate obj t = (Inr h, t')"
  shows "table_wf t' \<and> h \<noteq> 0 \<and> entries t h = None \<and> entries t' = (entries t)(h \<mapsto> Some obj)"
  using assms(2) by (auto intro: allocate_cases [OF assms(1), of obj])

interpretation handles: object_store entries table_wf allocate handle_get put handle_take
  by unfold_locales
     (auto simp: allocate_ok handle_get_ok handle_take_ok handle_get_def [of _ _ "_ :: 'a htable"]
       put_def update_conv' intro: table_wf_update in_keys)

section \<open>Interleaved use: borrowed objects are exclusive\<close>

text \<open>
  The operations of several threads, interleaved. A state has the table, the guards that are out, as
  handles with their objects, and two ghost components: the handles that \<^verbatim>\<open>Handle::free\<close> was called on
  while they were borrowed, and the identities of the objects allocated so far. An object is an
  identity with a value; a guard may have changed the value when it is dropped.
\<close>

type_synonym ('i, 'v) hstate = "('i \<times> 'v) htable \<times> (int \<times> 'i \<times> 'v) multiset \<times> int set \<times> 'i set"

definition downcast_to :: "('o \<Rightarrow> bool) \<Rightarrow> 'o \<Rightarrow> 'o option" where
  "downcast_to is_T obj = (if is_T obj then Some obj else None)"

inductive hstep :: "('i, 'v) hstate \<Rightarrow> ('i, 'v) hstate \<Rightarrow> bool" where
  step_alloc: "i \<notin> ids \<Longrightarrow> hstep (t, gs, freed, ids) (snd (allocate (i, v) t), gs, freed, insert i ids)"
| step_get:
    "handle_get (downcast_to T) h t = (Inr obj, t') \<Longrightarrow>
     hstep (t, gs, freed, ids) (t', add_mset (h, obj) gs, freed, ids)"
| step_get_err:
    "handle_get (downcast_to T) h t = (Inl e, t') \<Longrightarrow> hstep (t, gs, freed, ids) (t', gs, freed, ids)"
| step_drop:
    "(h, i, v) \<in># gs \<Longrightarrow> hstep (t, gs, freed, ids) (put h (i, v') t, gs - {#(h, i, v)#}, freed, ids)"
| step_into_inner:
    "(h, obj) \<in># gs \<Longrightarrow>
     hstep (t, gs, freed, ids) (snd (into_inner h obj t), gs - {#(h, obj)#}, freed, ids)"
| step_take: "hstep (t, gs, freed, ids) (snd (handle_take (downcast_to T) h t), gs, freed, ids)"
| step_free:
    "hstep (t, gs, freed, ids)
       (snd (handle_free h t), gs, if h \<in># image_mset fst gs then insert h freed else freed, ids)"

text \<open>The identities of the objects in the table.\<close>

definition held_ids :: "(int \<times> ('i \<times> 'v) option) list \<Rightarrow> 'i multiset" where
  "held_ids m = mset (map fst (List.map_filter snd m))"

lemma held_ids_simps [simp]:
  "held_ids [] = {#}" "held_ids ((h, None) # m) = held_ids m" "held_ids ((h, Some obj) # m) = add_mset (fst obj) (held_ids m)"
  by (simp_all add: held_ids_def map_filter_simps)

lemma held_ids_update: "held_ids (AList.update h (Some obj) m) \<subseteq># add_mset (fst obj) (held_ids m)"
proof (induction m)
  case (Cons e m)
  then show ?case by (cases e; cases "snd e") (auto simp: add_mset_commute intro: subset_mset.add_increasing2 subset_mset.order_trans [OF Cons])
qed simp

lemma held_ids_borrow:
  "map_of m h = Some (Some obj) \<Longrightarrow> held_ids m = add_mset (fst obj) (held_ids (AList.update h None m))"
proof (induction m)
  case (Cons e m)
  then show ?case by (cases e; cases "snd e") (auto simp: add_mset_commute split: if_splits)
qed simp

lemma held_ids_delete: "held_ids (AList.delete h m) \<subseteq># held_ids m"
proof (induction m)
  case (Cons e m)
  then show ?case by (cases e; cases "snd e") (auto intro: subset_mset.add_increasing2 subset_mset.order_trans [OF Cons])
qed simp

text \<open>An operation that reports an error leaves the table as it was.\<close>

lemma get_result:
  "(\<exists>e. handle_get (downcast_to T) h t = (Inl e, t)) \<or>
   (\<exists>obj. entries t h = Some (Some obj) \<and>
      handle_get (downcast_to T) h t = (Inr obj, t\<lparr>hmap := AList.update h None (hmap t)\<rparr>))"
proof (cases "entries t h")
  case (Some e)
  then show ?thesis
    by (cases e; cases "T (the e)") (simp_all add: handle_get_def downcast_to_def update_triv)
qed (simp add: handle_get_def)

lemma take_result:
  "(\<exists>e. handle_take (downcast_to T) h t = (Inl e, t)) \<or>
   (\<exists>obj. entries t h = Some (Some obj) \<and>
      handle_take (downcast_to T) h t = (Inr obj, t\<lparr>hmap := AList.delete h (hmap t)\<rparr>))"
proof (cases "entries t h")
  case (Some e)
  then show ?thesis
    by (cases e; cases "T (the e)") (simp_all add: handle_take_def downcast_to_def update_triv)
qed (simp add: handle_take_def)

lemma get_Inr:
  "handle_get (downcast_to T) h t = (Inr obj, t') \<Longrightarrow>
   entries t h = Some (Some obj) \<and> t' = t\<lparr>hmap := AList.update h None (hmap t)\<rparr>"
  using get_result [of T h t] by auto

lemma get_Inl: "handle_get (downcast_to T) h t = (Inl e, t') \<Longrightarrow> t' = t"
  using get_result [of T h t] by auto

lemma take_cases:
  obtains (err) "snd (handle_take (downcast_to T) h t) = t"
  | (ok) obj where "entries t h = Some (Some obj)"
      "snd (handle_take (downcast_to T) h t) = t\<lparr>hmap := AList.delete h (hmap t)\<rparr>"
  using take_result [of T h t] by (metis snd_conv)

text \<open>The keys stay handles, and the table outgrows its bound at most by handles put back after a free.\<close>

definition handle_ok :: "int \<Rightarrow> bool" where
  "handle_ok h \<longleftrightarrow> 0 < h \<and> h < 2 ^ 31 \<and> odd h"

definition table_shape :: "('i, 'v) hstate \<Rightarrow> bool" where
  "table_shape s = (case s of (t, gs, freed, ids) \<Rightarrow>
     distinct (map fst (hmap t)) \<and> (\<forall>h \<in> fst ` set (hmap t). handle_ok h) \<and> (\<forall>g \<in># gs. handle_ok (fst g)) \<and>
     odd (last_handle t) \<and> last_handle t < 2 ^ 31 \<and> finite freed \<and>
     length (hmap t) \<le> MAX_HANDLES + card (freed \<inter> fst ` set (hmap t)))"

definition marks_match :: "('i, 'v) hstate \<Rightarrow> bool" where
  "marks_match s = (case s of (t, gs, freed, ids) \<Rightarrow>
     (\<forall>h. h \<notin> freed \<longrightarrow> count (image_mset fst gs) h = (if entries t h = Some None then 1 else 0)) \<and>
     (\<forall>h. entries t h = Some None \<longrightarrow> 0 < count (image_mset fst gs) h))"

definition one_place :: "('i, 'v) hstate \<Rightarrow> bool" where
  "one_place s = (case s of (t, gs, freed, ids) \<Rightarrow>
     finite ids \<and> image_mset (fst \<circ> snd) gs + held_ids (hmap t) \<subseteq># mset_set ids)"

text \<open>What the changes of a table do to its keys and its size.\<close>

lemma keys_update: "fst ` set (AList.update h v m) = insert h (fst ` set m)"
  by (simp add: dom_update)

lemma keys_delete: "fst ` set (AList.delete h m) = fst ` set m - {h}"
  by (induction m) auto

lemma length_AList_delete:
  "distinct (map fst m) \<Longrightarrow> length (AList.delete h m) = (if h \<in> fst ` set m then length m - 1 else length m)"
proof (induction m)
  case (Cons e m)
  then show ?case
    by (cases m) (auto simp: delete_idem)
qed simp

lemma allocate_full: "length (hmap t) \<ge> MAX_HANDLES \<Longrightarrow> allocate obj t = (Inl TableFull, t)"
  by (simp add: allocate_def)

lemma allocate_shape:
  assumes "table_shape (t, gs, freed, ids)"
  obtains (full) "snd (allocate obj t) = t"
  | (fresh) h l where "length (hmap t) < MAX_HANDLES" "handle_ok h" "h \<notin> fst ` set (hmap t)" "odd l" "l < 2 ^ 31"
      "snd (allocate obj t) = t\<lparr>last_handle := l, hmap := AList.update h (Some obj) (hmap t)\<rparr>"
proof (cases "length (hmap t) < MAX_HANDLES")
  case True
  then obtain h l where a: "alloc_loop 0 (last_handle t) (map fst (hmap t)) = (Some h, l)"
    using alloc_loop_succeeds [of "map fst (hmap t)" "last_handle t"] by auto
  have "h \<notin> fst ` set (hmap t) \<and> handle_ok h \<and> odd l \<and> l < 2 ^ 31"
    using alloc_loop_Some [OF a] assms by (auto simp: table_shape_def handle_ok_def)
  then show ?thesis using True by (intro fresh [of h l]) (simp_all add: allocate_def a)
qed (use full allocate_full [of t obj] in simp)

text \<open>Replacing or removing an entry keeps the shape.\<close>

lemma card_Int_insert:
  assumes "finite F"
  shows "card (F \<inter> insert h K) = card (F \<inter> K) + (if h \<in> F \<and> h \<notin> K then 1 else 0)"
  using assms by (auto simp: Int_insert_right card_insert_if)

lemma card_Int_remove:
  assumes "finite F" "h \<in> K"
  shows "card (F \<inter> K) \<le> card (F \<inter> (K - {h})) + 1"
proof -
  have "F \<inter> K \<subseteq> insert h (F \<inter> (K - {h}))" by auto
  then have "card (F \<inter> K) \<le> card (insert h (F \<inter> (K - {h})))" using assms(1) by (intro card_mono) auto
  also have "\<dots> \<le> card (F \<inter> (K - {h})) + 1" using assms(1) by (simp add: card_insert_if)
  finally show ?thesis .
qed

lemma table_shape_delete:
  assumes "table_shape (t, gs, freed, ids)" "gs' \<subseteq># gs" "freed' = freed \<or> freed' = insert h freed"
  shows "table_shape (t\<lparr>hmap := AList.delete h (hmap t)\<rparr>, gs', freed', ids')"
proof -
  have gs: "\<forall>g \<in># gs'. handle_ok (fst g)" using assms(1,2) by (auto simp: table_shape_def dest: mset_subset_eqD)
  have same: "freed' \<inter> (fst ` set (hmap t) - {h}) = freed \<inter> (fst ` set (hmap t) - {h})" using assms(3) by auto
  have "length (AList.delete h (hmap t)) \<le> MAX_HANDLES + card (freed \<inter> (fst ` set (hmap t) - {h}))"
  proof (cases "h \<in> fst ` set (hmap t)")
    case True
    then show ?thesis
      using assms(1) card_Int_remove [of freed h "fst ` set (hmap t)"] by (auto simp: table_shape_def length_AList_delete)
  next
    case False
    then have "fst ` set (hmap t) - {h} = fst ` set (hmap t)" by auto
    then show ?thesis using assms(1) False by (simp add: table_shape_def length_AList_delete)
  qed
  moreover have "\<forall>x \<in> set (AList.delete h (hmap t)). handle_ok (fst x)"
    using assms(1) set_AList_delete [of h "hmap t"] by (auto simp: table_shape_def)
  moreover have "finite freed'" using assms(1,3) by (auto simp: table_shape_def)
  ultimately show ?thesis using assms(1) gs by (simp add: table_shape_def distinct_delete keys_delete same)
qed

lemma table_shape_update:
  assumes "table_shape (t, gs, freed, ids)" "handle_ok h" "gs' \<subseteq># add_mset (h, obj) gs"
    and "h \<in> freed \<or> h \<in> fst ` set (hmap t) \<or> length (hmap t) < MAX_HANDLES" "odd l" "l < 2 ^ 31"
  shows "table_shape (t\<lparr>last_handle := l, hmap := AList.update h v (hmap t)\<rparr>, gs', freed, ids')"
proof -
  have "\<forall>g \<in># add_mset (h, obj) gs. handle_ok (fst g)" using assms(1,2) by (auto simp: table_shape_def)
  then have gs: "\<forall>g \<in># gs'. handle_ok (fst g)" using assms(3) by (blast dest: mset_subset_eqD)
  have "length (AList.update h v (hmap t)) \<le> MAX_HANDLES + card (freed \<inter> insert h (fst ` set (hmap t)))"
    using assms(1,4) by (auto simp: table_shape_def length_AList_update card_Int_insert)
  moreover have "handle_ok (fst x)" if "x \<in> set (AList.update h v (hmap t))" for x
    using assms(1,2) keys_update [of h v "hmap t"] imageI [OF that, of fst] by (auto simp: table_shape_def)
  ultimately show ?thesis
    using assms(1,5,6) gs by (simp add: table_shape_def keys_update distinct_update)
qed

section \<open>Every step keeps the invariants\<close>

lemma free_table: "snd (handle_free h t) = t\<lparr>hmap := AList.delete h (hmap t)\<rparr>"
proof (cases "entries t h")
  case None
  then have "AList.delete h (hmap t) = hmap t" by (simp add: delete_idem map_of_eq_None_iff)
  with None show ?thesis by (simp add: handle_free_def)
qed (simp add: handle_free_def)

text \<open>A guard's handle is marked, unless the handle was freed meanwhile.\<close>

lemma guarded_entry:
  "marks_match (t, gs, freed, ids) \<Longrightarrow> g \<in># gs \<Longrightarrow> fst g \<notin> freed \<Longrightarrow> entries t (fst g) = Some None"
  by (auto simp: marks_match_def split: if_splits dest!: spec [of _ "fst g"])

lemma table_shape_step: "hstep s s' \<Longrightarrow> table_shape s \<Longrightarrow> marks_match s \<Longrightarrow> table_shape s'"
proof (induction rule: hstep.induct)
  case (step_alloc i ids t gs freed v)
  from step_alloc(2) show ?case
  proof (rule allocate_shape [where obj = "(i, v)"])
    fix h l assume "length (hmap t) < MAX_HANDLES" "handle_ok h" "odd l" "l < 2 ^ 31"
      "snd (allocate (i, v) t) = t\<lparr>last_handle := l, hmap := AList.update h (Some (i, v)) (hmap t)\<rparr>"
    then show ?thesis using table_shape_update [OF step_alloc(2), of h gs "(i, v)" l "Some (i, v)"] by simp
  qed (use step_alloc(2) in \<open>simp add: table_shape_def\<close>)
next
  case (step_get T h t obj t' gs freed ids)
  note g = get_Inr [OF step_get(1)]
  then have "h \<in> fst ` set (hmap t)" by (blast intro: in_keys)
  then show ?case
    using g step_get(2) table_shape_update [OF step_get(2), of h "add_mset (h, obj) gs" obj "last_handle t" None]
    by (auto simp: table_shape_def)
next
  case (step_drop h i v gs t freed ids v')
  have "h \<in> freed \<or> h \<in> fst ` set (hmap t)"
    using guarded_entry [OF step_drop(3,1)] in_keys [of "hmap t" h] by auto
  moreover have "handle_ok h" "odd (last_handle t)" "last_handle t < 2 ^ 31"
    using step_drop(1,2) by (auto simp: table_shape_def)
  moreover have "gs - {#(h, i, v)#} \<subseteq># add_mset (h, i, v) gs"
    by (auto intro: subset_mset.order_trans [OF diff_subset_eq_self])
  ultimately have "table_shape (t\<lparr>last_handle := last_handle t, hmap := AList.update h (Some (i, v')) (hmap t)\<rparr>,
      gs - {#(h, i, v)#}, freed, ids)"
    by (intro table_shape_update [OF step_drop(2)]) auto
  then show ?case by (simp add: put_def)
next
  case (step_into_inner h obj gs t freed ids)
  then show ?case by (auto simp: into_inner_def intro!: table_shape_delete)
next
  case (step_take t gs freed ids T h)
  then show ?case by (cases rule: take_cases [of T h t]) (auto intro!: table_shape_delete)
next
  case (step_free t gs freed ids h)
  then show ?case by (auto simp: free_table intro!: table_shape_delete)
qed (auto dest: get_Inl)

lemma marks_match_drop:
  assumes "marks_match (t, add_mset (h, obj) gs, freed, ids)" "entries t' = (entries t)(h := e)" "e \<noteq> Some None"
  shows "marks_match (t', gs, freed, ids)"
proof -
  let ?c = "count (image_mset fst gs)"
  have "?c k = (if entries t' k = Some None then 1 else 0)" if "k \<notin> freed" for k
    using assms that by (cases "k = h") (auto simp: marks_match_def count_eq_zero_iff split: if_splits)
  moreover have "0 < ?c k" if "entries t' k = Some None" for k
    using assms that by (cases "k = h") (auto simp: marks_match_def simp del: count_greater_zero_iff)
  ultimately show ?thesis by (simp add: marks_match_def del: count_greater_zero_iff)
qed

lemma marks_match_step: "hstep s s' \<Longrightarrow> table_shape s \<Longrightarrow> marks_match s \<Longrightarrow> marks_match s'"
proof (induction rule: hstep.induct)
  case (step_alloc i ids t gs freed v)
  from step_alloc(2) show ?case
  proof (rule allocate_shape [where obj = "(i, v)"])
    fix h l assume "h \<notin> fst ` set (hmap t)"
      "snd (allocate (i, v) t) = t\<lparr>last_handle := l, hmap := AList.update h (Some (i, v)) (hmap t)\<rparr>"
    moreover from this have "entries t h = None" by (simp add: map_of_eq_None_iff)
    ultimately show ?thesis using step_alloc(3) by (auto simp: marks_match_def update_conv')
  qed (use step_alloc(3) in \<open>simp add: marks_match_def\<close>)
next
  case (step_get T h t obj t' gs freed ids)
  then show ?case using get_Inr [OF step_get(1)] by (auto simp: marks_match_def update_conv')
next
  case (step_drop h i v gs t freed ids v')
  from multi_member_split [OF step_drop(1)] obtain gs' where "gs = add_mset (h, i, v) gs'" by blast
  with step_drop(3) show ?case
    using marks_match_drop [of t h "(i, v)" gs' freed ids "put h (i, v') t" "Some (Some (i, v'))"] by (simp add: put_def update_conv')
next
  case (step_into_inner h obj gs t freed ids)
  from multi_member_split [OF step_into_inner(1)] obtain gs' where "gs = add_mset (h, obj) gs'" by blast
  with step_into_inner(3) show ?case
    using marks_match_drop [of t h obj gs' freed ids "snd (into_inner h obj t)" None] by (simp add: into_inner_def delete_conv')
next
  case (step_take t gs freed ids T h)
  then show ?case by (cases rule: take_cases [of T h t]) (auto simp: marks_match_def delete_conv')
next
  case (step_free t gs freed ids h)
  then show ?case by (auto simp: marks_match_def free_table delete_conv' count_eq_zero_iff)
qed (auto dest: get_Inl)

text \<open>Objects move between the table and the guards, and only an allocation brings in a new one.\<close>

lemma one_place_less:
  "one_place (t, gs, freed, ids) \<Longrightarrow>
   image_mset (fst \<circ> snd) gs' + held_ids (hmap t') \<subseteq># image_mset (fst \<circ> snd) gs + held_ids (hmap t) \<Longrightarrow>
   one_place (t', gs', freed', ids)"
  by (auto simp: one_place_def intro: subset_mset.order_trans)

lemma one_place_delete:
  "one_place (t, gs, freed, ids) \<Longrightarrow> gs' \<subseteq># gs \<Longrightarrow> one_place (t\<lparr>hmap := AList.delete h (hmap t)\<rparr>, gs', freed', ids)"
  by (erule one_place_less) (simp add: held_ids_delete image_mset_subseteq_mono subset_mset.add_mono)

lemma one_place_step: "hstep s s' \<Longrightarrow> table_shape s \<Longrightarrow> one_place s \<Longrightarrow> one_place s'"
proof (induction rule: hstep.induct)
  case (step_alloc i ids t gs freed v)
  have ids: "mset_set (insert i ids) = add_mset i (mset_set ids)" using step_alloc(1,3) by (simp add: one_place_def)
  from step_alloc(2) show ?case
  proof (rule allocate_shape [where obj = "(i, v)"])
    fix h l assume a: "snd (allocate (i, v) t) = t\<lparr>last_handle := l, hmap := AList.update h (Some (i, v)) (hmap t)\<rparr>"
    have "image_mset (fst \<circ> snd) gs + held_ids (AList.update h (Some (i, v)) (hmap t))
        \<subseteq># add_mset i (image_mset (fst \<circ> snd) gs + held_ids (hmap t))"
      using subset_mset.add_left_mono [OF held_ids_update [of h "(i, v)" "hmap t"]] by simp
    also have "\<dots> \<subseteq># add_mset i (mset_set ids)" using step_alloc(3) by (simp add: one_place_def)
    finally show ?thesis using step_alloc(3) by (simp add: a one_place_def ids)
  next
    assume "snd (allocate (i, v) t) = t"
    moreover have "image_mset (fst \<circ> snd) gs + held_ids (hmap t) \<subseteq># add_mset i (mset_set ids)"
      using step_alloc(3) by (auto simp: one_place_def intro: subset_mset.order_trans)
    ultimately show ?thesis using step_alloc(3) by (simp add: one_place_def ids)
  qed
next
  case (step_get T h t obj t' gs freed ids)
  then show ?case using get_Inr [OF step_get(1)] held_ids_borrow [of "hmap t" h obj] by (auto simp: one_place_def)
next
  case (step_drop h i v gs t freed ids v')
  from multi_member_split [OF step_drop(1)] obtain gs' where gs: "gs = add_mset (h, i, v) gs'" by blast
  show ?case
    using held_ids_update [of h "(i, v')" "hmap t"] by (intro one_place_less [OF step_drop(3)]) (simp add: gs put_def)
next
  case (step_into_inner h obj gs t freed ids)
  then show ?case by (auto simp: into_inner_def intro!: one_place_delete)
next
  case (step_take t gs freed ids T h)
  then show ?case by (cases rule: take_cases [of T h t]) (auto intro!: one_place_delete)
next
  case (step_free t gs freed ids h)
  then show ?case by (auto simp: free_table intro!: one_place_delete)
qed (auto dest: get_Inl)

section \<open>Properties\<close>

text \<open>C9: Allocation on a well-formed table fails exactly when the table holds \<^verbatim>\<open>MAX_HANDLES\<close> entries,
  whatever the counter is and however often it has wrapped; otherwise it returns a positive odd
  handle that is not in the table, under which the object can be found, and changes no other entry.
  In particular the search loop ends, and the null handle 0 is never given out.\<close>

theorem allocate_spec:
  assumes "table_wf t"
  shows "case allocate obj t of
      (Inl e, t') \<Rightarrow> e = TableFull \<and> length (hmap t) = MAX_HANDLES \<and> t' = t
    | (Inr h, t') \<Rightarrow> length (hmap t) < MAX_HANDLES \<and> map_of (hmap t) h = None \<and> 0 < h \<and> h < 2 ^ 31 \<and>
        odd h \<and> map_of (hmap t') = (map_of (hmap t))(h \<mapsto> Some obj) \<and> table_wf t'"
  using assms by (rule allocate_cases [where obj = obj]) auto

theorem allocate_spec_witness:
  "let t = \<lparr>last_handle = 2 ^ 31 - 1, hmap = [(2 ^ 31 - 1, Some CHR ''a''), (1, None)]\<rparr> in
     table_wf t \<and> fst (allocate CHR ''b'' t) = Inr 3 \<and> map_of (hmap t) 3 = None"
proof -
  let ?t = "\<lparr>last_handle = 2 ^ 31 - 1, hmap = [(2 ^ 31 - 1, Some CHR ''a''), (1, None)]\<rparr>"
  have wf: "table_wf ?t" by (simp add: table_wf_def MAX_HANDLES_def)
  have "fst (allocate CHR ''b'' ?t) = Inr 3" by code_simp
  with wf allocate_spec [OF wf, of "CHR ''b''"] show ?thesis
    by (cases "allocate CHR ''b'' ?t") (simp add: Let_def)
qed

text \<open>C8: Along every interleaving of allocations, borrows, guard drops, conversions into the inner value,
  takes and frees from the empty table, where a free may hit a handle that is borrowed: a handle that
  was never freed while it was borrowed has at most one guard, and its entry is marked as in use exactly
  while that guard is out; no entry is marked without a guard for its handle; and no object is in two
  places, whatever was freed: not in two guards, not under two handles, and not in a guard and the table.
  The keys of the table are distinct positive odd numbers, and the table exceeds \<^verbatim>\<open>MAX_HANDLES\<close> at most
  by the handles that were freed while borrowed and put back by their guards.\<close>

theorem handles_exclusive:
  assumes "hstep\<^sup>*\<^sup>* (initial_table, {#}, {}, {}) (t, gs, freed, ids)"
  shows "(\<forall>h. h \<notin> freed \<longrightarrow>
      count (image_mset fst gs) h = (if map_of (hmap t) h = Some None then 1 else 0)) \<and>
    (\<forall>h. map_of (hmap t) h = Some None \<longrightarrow> h \<in># image_mset fst gs) \<and>
    (\<forall>i. count (image_mset (fst \<circ> snd) gs + held_ids (hmap t)) i \<le> 1) \<and>
    distinct (map fst (hmap t)) \<and> (\<forall>h \<in> fst ` set (hmap t). 0 < h \<and> h < 2 ^ 31 \<and> odd h) \<and>
    finite freed \<and> length (hmap t) \<le> MAX_HANDLES + card freed"
proof -
  have "table_shape s \<and> marks_match s \<and> one_place s" if "hstep\<^sup>*\<^sup>* (initial_table, {#}, {}, {}) s" for s :: "('a, 'b) hstate"
    using that
  proof (induction rule: rtranclp_induct)
    case base
    show ?case by (simp add: table_shape_def marks_match_def one_place_def initial_table_def)
  next
    case (step s s')
    then show ?case using table_shape_step marks_match_step one_place_step by blast
  qed
  with assms have s: "table_shape (t, gs, freed, ids)" and m: "marks_match (t, gs, freed, ids)" and o: "one_place (t, gs, freed, ids)"
    by blast+
  have "count (image_mset (fst \<circ> snd) gs + held_ids (hmap t)) i \<le> count (mset_set ids) i" for i
    using o unfolding one_place_def by (simp only: prod.case) (blast intro: mset_subset_eq_count)
  moreover have "count (mset_set ids) i \<le> 1" for i by (cases "i \<in> ids"; cases "finite ids") simp_all
  ultimately have "count (image_mset (fst \<circ> snd) gs + held_ids (hmap t)) i \<le> 1" for i by (meson le_trans)
  moreover have "card (freed \<inter> fst ` set (hmap t)) \<le> card freed" using s by (auto simp: table_shape_def intro: card_mono)
  moreover have "\<forall>h. map_of (hmap t) h = Some None \<longrightarrow> h \<in># image_mset fst gs"
    using m by (simp add: marks_match_def)
  ultimately show ?thesis using s m by (simp add: table_shape_def marks_match_def handle_ok_def del: set_image_mset)
qed

text \<open>A handle is borrowed, freed and put back by the drop of its guard, while another one is borrowed.\<close>

theorem handles_exclusive_witness:
  "let t = \<lparr>last_handle = 5, hmap = [(3, None), (1, Some (0 :: nat, CHR ''a''))]\<rparr>; gs = {#(3 :: int, 1 :: nat, CHR ''b'')#} in
   (\<forall>h. h \<notin> {1} \<longrightarrow> count (image_mset fst gs) h = (if map_of (hmap t) h = Some None then 1 else 0)) \<and>
   (\<forall>i. count (image_mset (fst \<circ> snd) gs + held_ids (hmap t)) i \<le> 1)"
proof -
  let ?a = "(0 :: nat, CHR ''a'')" and ?b = "(1 :: nat, CHR ''b'')" and ?any = "\<lambda>_ :: nat \<times> char. True"
  have "hstep (initial_table, {#}, {}, {}) (snd (allocate ?a initial_table), {#}, {}, {0})" by (rule step_alloc) simp
  also have "snd (allocate ?a initial_table) = \<lparr>last_handle = 3, hmap = [(1, Some ?a)]\<rparr>" by code_simp
  finally have 1: "hstep\<^sup>*\<^sup>* (initial_table, {#}, {}, {}) (\<lparr>last_handle = 3, hmap = [(1, Some ?a)]\<rparr>, {#}, {}, {0})" by blast
  have "handle_get (downcast_to ?any) 1 \<lparr>last_handle = 3, hmap = [(1, Some ?a)]\<rparr> =
      (Inr ?a, \<lparr>last_handle = 3, hmap = [(1, None)]\<rparr>)" by code_simp
  note rtranclp.rtrancl_into_rtrancl [OF 1 step_get [OF this]]
  from rtranclp.rtrancl_into_rtrancl [OF this step_free [where h = 1]]
  have 2: "hstep\<^sup>*\<^sup>* (initial_table, {#}, {}, {}) (\<lparr>last_handle = 3, hmap = []\<rparr>, {#(1, ?a)#}, {1}, {0})"
    by (simp add: handle_free_def)
  have "snd (allocate ?b \<lparr>last_handle = 3, hmap = []\<rparr>) = \<lparr>last_handle = 5, hmap = [(3, Some ?b)]\<rparr>" by code_simp
  with rtranclp.rtrancl_into_rtrancl [OF 2 step_alloc [of 1 _ _ _ _ "CHR ''b''"]]
  have 3: "hstep\<^sup>*\<^sup>* (initial_table, {#}, {}, {}) (\<lparr>last_handle = 5, hmap = [(3, Some ?b)]\<rparr>, {#(1, ?a)#}, {1}, {1, 0})"
    by simp
  have "handle_get (downcast_to ?any) 3 \<lparr>last_handle = 5, hmap = [(3, Some ?b)]\<rparr> =
      (Inr ?b, \<lparr>last_handle = 5, hmap = [(3, None)]\<rparr>)" by code_simp
  note 4 = rtranclp.rtrancl_into_rtrancl [OF 3 step_get [OF this]]
  have "hstep\<^sup>*\<^sup>* (initial_table, {#}, {}, {})
      (\<lparr>last_handle = 5, hmap = [(3, None), (1, Some ?a)]\<rparr>, {#(3, ?b)#}, {1}, {1, 0})"
    using rtranclp.rtrancl_into_rtrancl [OF 4 step_drop [of 1 0 "CHR ''a''" _ _ _ _ "CHR ''a''"]] by (simp add: put_def)
  from handles_exclusive [OF this] show ?thesis unfolding Let_def by (elim conjE) (intro conjI; assumption)
qed

text \<open>Why the freed handles are set apart: when \<^verbatim>\<open>Handle::free\<close> succeeds on a handle whose object is
  borrowed, the later drop of the guard puts the object back, so a handle that was reported as freed is
  live again.\<close>

theorem free_of_borrowed_handle_is_undone:
  assumes "map_of (hmap t) h = Some None"
  shows "\<exists>t'. handle_free h t = (Inr (), t') \<and> map_of (hmap t') h = None \<and>
           map_of (hmap (put h obj t')) h = Some (Some obj)"
  using assms by (auto simp: handle_free_def put_def delete_conv' update_conv')

theorem free_of_borrowed_handle_is_undone_witness:
  "\<exists>t'. handle_free 1 \<lparr>last_handle = 3, hmap = [(1, None)]\<rparr> = (Inr (), t') \<and> map_of (hmap t') 1 = None \<and>
     map_of (hmap (put 1 CHR ''a'' t')) 1 = Some (Some CHR ''a'')"
  by (rule free_of_borrowed_handle_is_undone) simp

end
