(* ===== verification/Setup_Messages.thy ===== *)
theory Setup_Messages
  imports Wire
begin

text \<open>
  The setup messages of \<^verbatim>\<open>frost-session/src/setup.rs\<close>: the record of a ceremony's parties and its
  four extensions, their encoders and decoders, and the lookups by identifier and by name.
  Every decoder accepts exactly the encodings of the well-formed values (those whose counts
  and lengths fit the fields that carry them), and reports how much it consumed.
\<close>

record party_entry =
  frost_id :: u16
  name :: bytes

record setup_msg =
  max_signers :: u16
  min_signers :: u16
  parties :: "party_entry list"

record sign_setup =
  ss_base :: setup_msg
  message :: bytes

record reshare_setup =
  rs_base :: setup_msg
  old_identifiers :: "u16 list"
  expected_vk :: bytes

record key_import_setup =
  ki_base :: setup_msg
  seed_holder_id :: u16
  secret_data :: bytes
  account_index :: u32

record key_image_setup =
  kimg_base :: setup_msg
  outputs_data :: bytes

section \<open>Encoders and decoders\<close>

definition encode_party :: "party_entry \<Rightarrow> bytes" where
  "encode_party p = u16_le (frost_id p) @ u16_le (word_of_nat (length (name p))) @ name p"

definition setup_encode :: "setup_msg \<Rightarrow> bytes" where
  "setup_encode s =
     u16_le (max_signers s) @ u16_le (min_signers s) @ u16_le (word_of_nat (length (parties s))) @
     concat (map encode_party (parties s))"

definition read_party :: "bytes \<Rightarrow> nat \<Rightarrow> (party_entry \<times> nat) res" where
  "read_party data pos =
     rbind (setup_read_u16 data pos) (\<lambda>(fid, pos).
     rbind (setup_read_u16 data pos) (\<lambda>(name_len, pos).
     rbind (read_bytes (unat name_len) data pos) (\<lambda>(nm, pos).
       Ok (\<lparr>frost_id = fid, name = nm\<rparr>, pos))))"

definition setup_decode :: "bytes \<Rightarrow> (setup_msg \<times> nat) res" where
  "setup_decode data =
     (if length data < 6 then Err LIB_SERIALIZATION_ERROR
      else
        rbind (setup_read_u16 data 0) (\<lambda>(mx, pos).
        rbind (setup_read_u16 data pos) (\<lambda>(mn, pos).
        rbind (setup_read_u16 data pos) (\<lambda>(num_parties, pos).
        rbind (read_many (unat num_parties) read_party data pos) (\<lambda>(ps, pos).
          Ok (\<lparr>max_signers = mx, min_signers = mn, parties = ps\<rparr>, pos))))))"

definition party_name :: "setup_msg \<Rightarrow> u16 \<Rightarrow> bytes option" where
  "party_name s fid = map_option name (find (\<lambda>p. frost_id p = fid) (parties s))"

definition frost_id_by_name :: "setup_msg \<Rightarrow> bytes \<Rightarrow> u16 option" where
  "frost_id_by_name s nm = map_option frost_id (find (\<lambda>p. name p = nm) (parties s))"

definition other_party_ids :: "setup_msg \<Rightarrow> u16 \<Rightarrow> u16 list" where
  "other_party_ids s my_id = map frost_id (filter (\<lambda>p. frost_id p \<noteq> my_id) (parties s))"

definition coordinator_id :: "setup_msg \<Rightarrow> u16 res" where
  "coordinator_id s = (case parties s of [] \<Rightarrow> Panic | p # _ \<Rightarrow> Ok (frost_id p))"

definition sign_setup_encode :: "sign_setup \<Rightarrow> bytes" where
  "sign_setup_encode s =
     setup_encode (ss_base s) @ u32_le (word_of_nat (length (message s))) @ message s"

definition sign_setup_decode :: "bytes \<Rightarrow> sign_setup res" where
  "sign_setup_decode data =
     rbind (setup_decode data) (\<lambda>(b, pos).
     rbind (setup_read_u32 data pos) (\<lambda>(msg_len, pos).
     rbind (read_bytes (unat msg_len) data pos) (\<lambda>(m, pos).
       Ok \<lparr>ss_base = b, message = m\<rparr>)))"

definition reshare_setup_encode :: "reshare_setup \<Rightarrow> bytes" where
  "reshare_setup_encode s =
     setup_encode (rs_base s) @ u16_le (word_of_nat (length (old_identifiers s))) @
     concat (map u16_le (old_identifiers s)) @
     u32_le (word_of_nat (length (expected_vk s))) @ expected_vk s"

definition reshare_setup_decode :: "bytes \<Rightarrow> reshare_setup res" where
  "reshare_setup_decode data =
     rbind (setup_decode data) (\<lambda>(b, pos).
     rbind (setup_read_u16 data pos) (\<lambda>(num_old, pos).
     rbind (read_many (unat num_old) setup_read_u16 data pos) (\<lambda>(ids, pos).
     rbind (setup_read_u32 data pos) (\<lambda>(vk_len, pos).
     rbind (read_bytes (unat vk_len) data pos) (\<lambda>(vk, pos).
       Ok \<lparr>rs_base = b, old_identifiers = ids, expected_vk = vk\<rparr>)))))"

definition key_import_setup_encode :: "key_import_setup \<Rightarrow> bytes" where
  "key_import_setup_encode s =
     setup_encode (ki_base s) @ u16_le (seed_holder_id s) @
     u32_le (word_of_nat (length (secret_data s))) @ secret_data s @ u32_le (account_index s)"

definition key_import_setup_decode :: "bytes \<Rightarrow> key_import_setup res" where
  "key_import_setup_decode data =
     rbind (setup_decode data) (\<lambda>(b, pos).
     rbind (setup_read_u16 data pos) (\<lambda>(holder, pos).
     rbind (setup_read_u32 data pos) (\<lambda>(secret_len, pos).
     rbind (read_bytes (unat secret_len) data pos) (\<lambda>(secret, pos).
     rbind (setup_read_u32 data pos) (\<lambda>(account, pos).
       Ok \<lparr>ki_base = b, seed_holder_id = holder, secret_data = secret, account_index = account\<rparr>)))))"

definition key_image_setup_encode :: "key_image_setup \<Rightarrow> bytes" where
  "key_image_setup_encode s =
     setup_encode (kimg_base s) @ u32_le (word_of_nat (length (outputs_data s))) @ outputs_data s"

definition key_image_setup_decode :: "bytes \<Rightarrow> key_image_setup res" where
  "key_image_setup_decode data =
     rbind (setup_decode data) (\<lambda>(b, pos).
     rbind (setup_read_u32 data pos) (\<lambda>(outputs_len, pos).
     rbind (read_bytes (unat outputs_len) data pos) (\<lambda>(outs, pos).
       Ok \<lparr>kimg_base = b, outputs_data = outs\<rparr>)))"

section \<open>Well-formed messages\<close>

definition party_wf :: "party_entry \<Rightarrow> bool" where
  "party_wf p \<longleftrightarrow> fits16 (name p)"

definition setup_wf :: "setup_msg \<Rightarrow> bool" where
  "setup_wf s \<longleftrightarrow> length (parties s) < 2 ^ 16 \<and> (\<forall>p \<in> set (parties s). party_wf p)"

section \<open>The decoders accept exactly the encodings\<close>

lemma read_party_iff [wire_simps]:
  "read_party data pos = Ok (p, pos') \<longleftrightarrow>
     party_wf p \<and> holds_at data pos (encode_party p) \<and> pos' = pos + length (encode_party p)"
  by (cases p)
     (auto simp: read_party_def encode_party_def rbind_eq_Ok wire_simps party_wf_def fits16_def
       unat_u16_le_iff eq_commute [of "length _"])

lemma proper_read_party [simp]: "proper (read_party data pos)"
  by (auto simp: read_party_def)

interpretation party_wire: wire_format read_party encode_party party_wf
  by unfold_locales (auto simp: read_party_iff)

lemma proper_setup_decode [simp]: "proper (setup_decode data)"
  by (auto simp: setup_decode_def party_wire.many_proper)

lemma setup_decode_iff [wire_simps]:
  "setup_decode data = Ok (s, n) \<longleftrightarrow> setup_wf s \<and> holds_at data 0 (setup_encode s) \<and> n = length (setup_encode s)"
proof (cases "length data < 6")
  case True
  then show ?thesis
    by (auto simp: setup_decode_def setup_encode_def holds_at_def)
next
  case False
  then have "read_many k read_party data 6 = Ok (xs, pos') \<longleftrightarrow>
     length xs = k \<and> (\<forall>x \<in> set xs. party_wf x) \<and> holds_at data 6 (concat (map encode_party xs)) \<and>
     pos' = 6 + length (concat (map encode_party xs))" for k xs pos'
    by (intro party_wire.many_iff) simp
  with False show ?thesis
    by (cases s)
       (auto simp: setup_decode_def setup_encode_def rbind_eq_Ok wire_simps setup_wf_def
         unat_u16_le_iff eq_commute [of "length _"])
qed

lemmas setup_unfold = rbind_eq_Ok wire_simps setup_read_u32_eq fits32_def
  unat_u32_le_iff unat_u16_le_iff eq_commute [of "length _"]

lemma sign_setup_decode_iff [wire_simps]:
  "sign_setup_decode data = Ok s \<longleftrightarrow>
     setup_wf (ss_base s) \<and> fits32 (message s) \<and> holds_at data 0 (sign_setup_encode s)"
  by (cases s) (auto simp: sign_setup_decode_def sign_setup_encode_def setup_unfold)

lemma key_import_setup_decode_iff [wire_simps]:
  "key_import_setup_decode data = Ok k \<longleftrightarrow>
     setup_wf (ki_base k) \<and> fits32 (secret_data k) \<and> holds_at data 0 (key_import_setup_encode k)"
  by (cases k) (auto simp: key_import_setup_decode_def key_import_setup_encode_def setup_unfold add.assoc)

lemma key_image_setup_decode_iff [wire_simps]:
  "key_image_setup_decode data = Ok i \<longleftrightarrow>
     setup_wf (kimg_base i) \<and> fits32 (outputs_data i) \<and> holds_at data 0 (key_image_setup_encode i)"
  by (cases i) (auto simp: key_image_setup_decode_def key_image_setup_encode_def setup_unfold)

text \<open>The old identifiers of a reshare setup, with their count before them.\<close>

definition encode_ids :: "u16 list \<Rightarrow> bytes" where
  "encode_ids ids = u16_le (word_of_nat (length ids)) @ concat (map u16_le ids)"

definition read_ids :: "bytes \<Rightarrow> nat \<Rightarrow> (u16 list \<times> nat) res" where
  "read_ids data pos =
     rbind (setup_read_u16 data pos) (\<lambda>(n, pos). read_many (unat n) setup_read_u16 data pos)"

lemma read_ids_iff [wire_simps]:
  "read_ids data pos = Ok (ids, pos')
     \<longleftrightarrow> length ids < 2 ^ 16 \<and> holds_at data pos (encode_ids ids) \<and> pos' = pos + length (encode_ids ids)"
proof -
  have "read_many k setup_read_u16 data (pos + 2) = Ok (xs, pos') \<longleftrightarrow>
     k = length xs \<and> holds_at data (pos + 2) (concat (map u16_le xs)) \<and>
     pos' = pos + 2 + length (concat (map u16_le xs))" if "holds_at data pos (u16_le w)" for w k xs
    using u16_wire.many_iff [of "pos + 2" data k xs pos'] holds_at_bound [OF that] by auto
  then show ?thesis
    by (auto simp: read_ids_def encode_ids_def rbind_eq_Ok wire_simps unat_u16_le_iff)
qed

lemma reshare_setup_decode_iff [wire_simps]:
  "reshare_setup_decode data = Ok r \<longleftrightarrow>
     setup_wf (rs_base r) \<and> length (old_identifiers r) < 2 ^ 16 \<and> fits32 (expected_vk r) \<and>
     holds_at data 0 (reshare_setup_encode r)"
proof -
  have "reshare_setup_decode data =
     rbind (setup_decode data) (\<lambda>(b, pos).
     rbind (read_ids data pos) (\<lambda>(ids, pos).
     rbind (read_blob32 data pos) (\<lambda>(vk, pos). Ok \<lparr>rs_base = b, old_identifiers = ids, expected_vk = vk\<rparr>)))"
    by (simp add: reshare_setup_decode_def read_blob32_def read_ids_def setup_read_u32_eq rbind_assoc case_prod_unfold)
  moreover have "reshare_setup_encode r =
      setup_encode (rs_base r) @ encode_ids (old_identifiers r) @ blob32 (expected_vk r)"
    by (simp add: reshare_setup_encode_def encode_ids_def blob32_def)
  ultimately show ?thesis
    by (cases r) (auto simp: rbind_eq_Ok wire_simps)
qed

section \<open>Properties\<close>

text \<open>C22: The decoder of a setup message accepts a byte string exactly when it starts with the
  encoding of a well-formed message (at most 65535 parties with names of at most 65535 bytes);
  it then returns that message and the length of that encoding. So decoding inverts encoding,
  no two messages share an encoding, and nothing else is accepted.\<close>

theorem setup_decode_exact:
  "setup_decode data = Ok (s, n) \<longleftrightarrow>
     setup_wf s \<and> (\<exists>post. data = setup_encode s @ post) \<and> n = length (setup_encode s)"
  by (simp add: setup_decode_iff holds_at_0_iff)

text \<open>The four extended setup messages (sign, reshare, key import, key image) are decoded from
  exactly the byte strings that start with the encoding of a message whose base is well formed
  and whose variable parts fit their length fields.\<close>

theorem extended_setups_decode_exact:
  "(sign_setup_decode data = Ok s \<longleftrightarrow>
     setup_wf (ss_base s) \<and> fits32 (message s) \<and> (\<exists>post. data = sign_setup_encode s @ post)) \<and>
   (reshare_setup_decode data = Ok r \<longleftrightarrow>
     setup_wf (rs_base r) \<and> length (old_identifiers r) < 2 ^ 16 \<and> fits32 (expected_vk r) \<and>
     (\<exists>post. data = reshare_setup_encode r @ post)) \<and>
   (key_import_setup_decode data = Ok k \<longleftrightarrow>
     setup_wf (ki_base k) \<and> fits32 (secret_data k) \<and> (\<exists>post. data = key_import_setup_encode k @ post)) \<and>
   (key_image_setup_decode data = Ok i \<longleftrightarrow>
     setup_wf (kimg_base i) \<and> fits32 (outputs_data i) \<and> (\<exists>post. data = key_image_setup_encode i @ post))"
  by (intro conjI; simp add: wire_simps flip: holds_at_0_iff)

text \<open>No setup decoder panics, on any input: the outcome is a message or an error value.\<close>

theorem setup_decoders_total:
  "proper (setup_decode data) \<and> proper (sign_setup_decode data) \<and> proper (reshare_setup_decode data) \<and>
   proper (key_import_setup_decode data) \<and> proper (key_image_setup_decode data)"
  by (auto simp: sign_setup_decode_def reshare_setup_decode_def key_import_setup_decode_def
      key_image_setup_decode_def u16_wire.many_proper)

end
