(* ===== verification/Ffi_Calls.thy ===== *)
theory Ffi_Calls
  imports Handle_Table Session_Driver Setup_Messages
begin

text \<open>
  What the exported C functions share. The state of the library is the handle table and the
  blamed party; the body of an exported function is a computation on that state that may fail,
  and \<open>exported\<close> wraps it the way \<^verbatim>\<open>with_error_handler\<close> does. A nullable pointer argument is an
  option (\<open>unit option\<close> for an output pointer); what is written through the output pointers is the
  value of the computation. The second part has the session calls (feed, take a message, find the
  receiver, result, free), which both libraries repeat for every kind of session with the type of
  the session state as the only difference; they are parameterised by the downcast to and the
  injection of that type.
\<close>

section \<open>Slices from the caller\<close>

text \<open>\<open>gs_ptr\<close> is \<open>None\<close> for a null pointer, otherwise the memory the pointer leads to.\<close>

record go_slice =
  gs_ptr :: "bytes option"
  gs_len :: nat

definition go_slice_is_empty :: "go_slice \<Rightarrow> bool" where
  "go_slice_is_empty g \<longleftrightarrow> gs_ptr g = None \<or> gs_len g = 0"

definition as_slice :: "go_slice \<Rightarrow> bytes" where
  "as_slice g = (if go_slice_is_empty g then [] else take (gs_len g) (the (gs_ptr g)))"

definition go_slice_of :: "bytes \<Rightarrow> go_slice" where
  "go_slice_of b = \<lparr>gs_ptr = Some b, gs_len = length b\<rparr>"

lemma as_slice_of [simp]: "as_slice (go_slice_of b) = b"
  by (simp add: as_slice_def go_slice_of_def go_slice_is_empty_def)

section \<open>Calls\<close>

record 'o ffi =
  table :: "'o htable"
  blamed :: u16

type_synonym ('o, 'a) call = "'o ffi \<Rightarrow> 'a res \<times> 'o ffi"

definition cret :: "'a res \<Rightarrow> ('o, 'a) call" where
  "cret r st = (r, st)"

definition cbind :: "('o, 'a) call \<Rightarrow> ('a \<Rightarrow> ('o, 'b) call) \<Rightarrow> ('o, 'b) call" where
  "cbind c f st =
     (case c st of
        (Ok x, st') \<Rightarrow> f x st'
      | (Err e, st') \<Rightarrow> (Err e, st')
      | (Blamed i, st') \<Rightarrow> (Blamed i, st')
      | (Panic, st') \<Rightarrow> (Panic, st'))"

text \<open>\<^verbatim>\<open>arg.ok_or(lib_error::LIB_NULL_PTR)?\<close>\<close>

definition nonnull :: "'a option \<Rightarrow> ('o, 'a) call" where
  "nonnull x = cret (ok_or x LIB_NULL_PTR)"

text \<open>The handle operations, with \<^verbatim>\<open>handle::Error\<close> turned into a \<^verbatim>\<open>lib_error\<close> by \<^verbatim>\<open>?\<close>.\<close>

definition lift_handle :: "((handle_error + 'a) \<times> 'o htable) \<Rightarrow> 'o ffi \<Rightarrow> 'a res \<times> 'o ffi" where
  "lift_handle x st =
     (case x of (Inl e, t) \<Rightarrow> (Err (lib_error_of_handle e), st\<lparr>table := t\<rparr>)
      | (Inr v, t) \<Rightarrow> (Ok v, st\<lparr>table := t\<rparr>))"

definition h_allocate :: "'o \<Rightarrow> ('o, int) call" where
  "h_allocate obj st = lift_handle (allocate obj (table st)) st"

definition h_get :: "('o \<Rightarrow> 'a option) \<Rightarrow> int \<Rightarrow> ('o, 'a) call" where
  "h_get down h st = lift_handle (handle_get down h (table st)) st"

definition h_take :: "('o \<Rightarrow> 'a option) \<Rightarrow> int \<Rightarrow> ('o, 'a) call" where
  "h_take down h st = lift_handle (handle_take down h (table st)) st"

definition h_put :: "int \<Rightarrow> 'o \<Rightarrow> ('o, unit) call" where
  "h_put h obj st = (Ok (), st\<lparr>table := put h obj (table st)\<rparr>)"

definition exported :: "('o, 'a) call \<Rightarrow> 'o ffi \<Rightarrow> lib_error \<times> 'a option \<times> 'o ffi" where
  "exported c st =
     (case c st of (r, st') \<Rightarrow>
        let (code, cell) = with_error_handler (rbind r (\<lambda>_. Ok ())) (blamed st') in
        (code, (case r of Ok x \<Rightarrow> Some x | _ \<Rightarrow> None), st'\<lparr>blamed := cell\<rparr>))"

definition handle_free_call :: "int \<Rightarrow> 'o ffi \<Rightarrow> lib_error \<times> unit option \<times> 'o ffi" where
  "handle_free_call h = exported (\<lambda>st. lift_handle (handle_free h (table st)) st)"

section \<open>Sessions behind handles\<close>

record 'r session_state =
  protocol_of :: "'r protocol"
  setup_of :: setup_msg
  my_id_of :: u16

text \<open>
  A task that ends with a blame has called \<^verbatim>\<open>set_blamed_party\<close> while it was polled; the outcome
  that is stored is the error code.
\<close>

definition note_blame :: "'r res option \<Rightarrow> 'r res option \<Rightarrow> u16 \<Rightarrow> u16" where
  "note_blame before after cell =
     (case after of Some (Blamed i) \<Rightarrow> (if before = None then set_blamed_party i cell else cell) | _ \<Rightarrow> cell)"

text \<open>\<^verbatim>\<open>Protocol::start\<close>, then the state of the session is put into the table.\<close>

definition start_session ::
  "('r session_state \<Rightarrow> 'o) \<Rightarrow> 'r proc \<Rightarrow> setup_msg \<Rightarrow> u16 \<Rightarrow> ('o, int) call" where
  "start_session up p setup my_id st =
     (let (r, pr) = start p;
          st' = st\<lparr>blamed := note_blame None (outcome pr) (blamed st)\<rparr>
      in case r of
           Panic \<Rightarrow> (Panic, st')
         | _ \<Rightarrow> h_allocate (up \<lparr>protocol_of = pr, setup_of = setup, my_id_of = my_id\<rparr>) st')"

text \<open>
  The guard of the handle is dropped at the end of the body, also when the poll panics.
\<close>

definition session_feed ::
  "('o \<Rightarrow> 'r session_state option) \<Rightarrow> ('r session_state \<Rightarrow> 'o) \<Rightarrow> int \<Rightarrow> go_slice option \<Rightarrow> unit option
     \<Rightarrow> ('o, int) call" where
  "session_feed down up session msg out_finished =
     cbind (nonnull msg) (\<lambda>msg_data.
     cbind (nonnull out_finished) (\<lambda>_.
     cbind (h_get down session) (\<lambda>s st.
       let (done, pr) = feed (as_slice msg_data) (protocol_of s);
           st' = st\<lparr>table := put session (up (s\<lparr>protocol_of := pr\<rparr>)) (table st),
                    blamed := note_blame (outcome (protocol_of s)) (outcome pr) (blamed st)\<rparr>
       in (rbind done (\<lambda>b. Ok (if b then 1 else 0)), st'))))"

definition session_take_msg ::
  "('o \<Rightarrow> 'r session_state option) \<Rightarrow> ('r session_state \<Rightarrow> 'o) \<Rightarrow> int \<Rightarrow> unit option \<Rightarrow> ('o, bytes) call" where
  "session_take_msg down up session out_message =
     cbind (nonnull out_message) (\<lambda>_.
     cbind (h_get down session) (\<lambda>s.
       let (msg, pr) = take_msg (protocol_of s) in
       cbind (h_put session (up (s\<lparr>protocol_of := pr\<rparr>))) (\<lambda>_.
         cret (Ok (case msg of Some m \<Rightarrow> m | None \<Rightarrow> [])))))"

definition msg_receiver_impl :: "setup_msg \<Rightarrow> u16 \<Rightarrow> bytes \<Rightarrow> u32 \<Rightarrow> bytes option" where
  "msg_receiver_impl setup my_id msg idx =
     (let recipient = read_recipient msg in
      if recipient = 0 then
        (let others = other_party_ids setup my_id in
         if unat idx < length others then party_name setup (others ! unat idx) else None)
      else if idx = 0 then party_name setup recipient
      else None)"

definition session_msg_receiver ::
  "('o \<Rightarrow> 'r session_state option) \<Rightarrow> ('r session_state \<Rightarrow> 'o) \<Rightarrow> int \<Rightarrow> go_slice option \<Rightarrow> u32 \<Rightarrow> unit option
     \<Rightarrow> ('o, bytes) call" where
  "session_msg_receiver down up session msg idx out_receiver =
     cbind (nonnull msg) (\<lambda>msg_data.
     cbind (nonnull out_receiver) (\<lambda>_.
     cbind (h_get down session) (\<lambda>s.
     cbind (h_put session (up s)) (\<lambda>_.
       cret (Ok (case msg_receiver_impl (setup_of s) (my_id_of s) (as_slice msg_data) idx of
                   Some nm \<Rightarrow> nm | None \<Rightarrow> []))))))"

text \<open>The error code of a stored outcome; a blame was reported when it happened.\<close>

definition stored_result :: "'r res option \<Rightarrow> 'r res" where
  "stored_result oc =
     (case oc of None \<Rightarrow> Err LIB_SESSION_NOT_READY | Some (Blamed i) \<Rightarrow> Err LIB_BLAME | Some r \<Rightarrow> r)"

text \<open>\<open>finish\<close> is what the function does with the successful value.\<close>

definition session_result ::
  "('o \<Rightarrow> 'r session_state option) \<Rightarrow> ('r \<Rightarrow> 'b res) \<Rightarrow> int \<Rightarrow> ('o, 'b) call" where
  "session_result down finish session =
     cbind (h_take down session) (\<lambda>s.
       cret (rbind (stored_result (fst (protocol_result (protocol_of s)))) finish))"

definition session_free :: "('o \<Rightarrow> 'r session_state option) \<Rightarrow> int \<Rightarrow> ('o, unit) call" where
  "session_free down session = cbind (h_take down session) (\<lambda>_. cret (Ok ()))"

section \<open>Lemmas\<close>

lemma cbind_cret_Ok [simp]: "cbind (cret (Ok x)) f st = f x st"
  by (simp add: cbind_def cret_def)

lemma cbind_cret_Err [simp]: "cbind (cret (Err e)) f st = (Err e, st)"
  by (simp add: cbind_def cret_def)

lemma nonnull_simps [simp]: "nonnull (Some x) = cret (Ok x)" "nonnull None = cret (Err LIB_NULL_PTR)"
  by (simp_all add: nonnull_def)

lemma exported_Ok: "c st = (Ok x, st') \<Longrightarrow> exported c st = (LIB_OK, Some x, st')"
  by (simp add: exported_def with_error_handler_def)

lemma exported_Err: "c st = (Err e, st') \<Longrightarrow> exported c st = (e, None, st')"
  by (simp add: exported_def with_error_handler_def)

lemma exported_OkD: "exported c st = (LIB_OK, Some x, st') \<Longrightarrow> c st = (Ok x, st')"
  by (auto simp: exported_def with_error_handler_def set_blamed_party_def split: prod.splits res.splits)

text \<open>A session, or any other object, that is in the table under a handle.\<close>

definition has_session ::
  "('o \<Rightarrow> 'a option) \<Rightarrow> ('a \<Rightarrow> 'o) \<Rightarrow> int \<Rightarrow> 'a \<Rightarrow> 'o ffi \<Rightarrow> bool" where
  "has_session down up h s st \<longleftrightarrow>
     table_wf (table st) \<and> h \<noteq> 0 \<and> entries (table st) h = Some (Some (up s)) \<and> down (up s) = Some s"

lemma h_get_ok:
  assumes "has_session down up h s st"
  shows "\<exists>t. h_get down h st = (Ok s, st\<lparr>table := t\<rparr>) \<and>
    (\<forall>obj. table_wf (put h obj t) \<and> entries (put h obj t) = (entries (table st))(h \<mapsto> Some obj))"
proof -
  have a: "table_wf (table st)" "h \<noteq> 0" "entries (table st) h = Some (Some (up s))" "down (up s) = Some s"
    using assms by (auto simp: has_session_def)
  obtain t where t: "handle_get down h (table st) = (Inr s, t)" "table_wf t"
    "entries t = (entries (table st))(h \<mapsto> None)" using handles.borrow_ok [where down = down, OF a] by blast
  have "table_wf (put h obj t) \<and> entries (put h obj t) = (entries (table st))(h \<mapsto> Some obj)" for obj
    using handles.give_back_ok [OF t(2), of h None obj] t(3) by simp
  then show ?thesis using t(1) by (auto simp: h_get_def lift_handle_def)
qed

lemma session_feed_ok:
  assumes "has_session down up h s st" "feed (as_slice m) (protocol_of s) = (Ok b, pr)"
  shows "\<exists>st'. session_feed down up h (Some m) (Some ()) st = (Ok (if b then 1 else 0), st') \<and>
     table_wf (table st') \<and>
     entries (table st') = (entries (table st))(h \<mapsto> Some (up (s\<lparr>protocol_of := pr\<rparr>)))"
  using h_get_ok [OF assms(1)] assms(2) by (auto simp: session_feed_def cbind_def [of "h_get _ _"] Let_def)

lemma session_take_msg_ok:
  assumes "has_session down up h s st" "take_msg (protocol_of s) = (m, pr)"
  shows "\<exists>st'. session_take_msg down up h (Some ()) st = (Ok (case m of Some x \<Rightarrow> x | None \<Rightarrow> []), st') \<and>
     table_wf (table st') \<and> blamed st' = blamed st \<and>
     entries (table st') = (entries (table st))(h \<mapsto> Some (up (s\<lparr>protocol_of := pr\<rparr>)))"
  using h_get_ok [OF assms(1)] assms(2)
  by (auto simp: session_take_msg_def cbind_def [of "h_get _ _"] cbind_def [of "h_put _ _"] h_put_def cret_def)

lemma session_result_removes:
  assumes "has_session down up h s st"
  shows "\<exists>st'. session_result down fin h st = (rbind (stored_result (outcome (protocol_of s))) fin, st') \<and>
     table_wf (table st') \<and> entries (table st') = (entries (table st))(h := None)"
proof -
  have a: "table_wf (table st)" "h \<noteq> 0" "entries (table st) h = Some (Some (up s))" "down (up s) = Some s"
    using assms by (auto simp: has_session_def)
  show ?thesis
    using handles.remove_ok [where down = down, OF a]
    by (auto simp: session_result_def cbind_def h_take_def lift_handle_def cret_def protocol_result_def)
qed

text \<open>Routing: how a host finds the receivers of a message.\<close>

lemma party_name_nth:
  assumes "distinct (map frost_id (parties s))" "p \<in> set (parties s)"
  shows "party_name s (frost_id p) = Some (name p)"
proof -
  from assms(2) obtain xs ys where p: "parties s = xs @ p # ys" by (auto dest: split_list)
  with assms(1) have "frost_id p \<notin> frost_id ` set xs" by simp
  then have "\<forall>q \<in> set xs. frost_id q \<noteq> frost_id p" by (metis imageI)
  then have "find (\<lambda>q. frost_id q = frost_id p) xs = None" by (simp add: find_None_iff)
  then show ?thesis by (simp add: party_name_def p find_append)
qed

lemma nth_others:
  assumes "distinct (map frost_id (parties s))" "i < length (other_party_ids s my_id)"
  shows "party_name s (other_party_ids s my_id ! i) = Some (name (filter (\<lambda>p. frost_id p \<noteq> my_id) (parties s) ! i))"
proof -
  let ?ps = "filter (\<lambda>p. frost_id p \<noteq> my_id) (parties s)"
  have i: "i < length ?ps" using assms(2) by (simp add: other_party_ids_def)
  then have "?ps ! i \<in> set (parties s)" using nth_mem [OF i] by simp
  from party_name_nth [OF assms(1) this] i show ?thesis by (simp add: other_party_ids_def)
qed

text \<open>Allocation behind an exported function: it succeeds while the table has room.\<close>

lemma h_allocate_ok:
  assumes "table_wf (table st)" "length (hmap (table st)) < MAX_HANDLES"
  shows "\<exists>h t. h_allocate obj st = (Ok h, st\<lparr>table := t\<rparr>) \<and> h \<noteq> 0 \<and> entries (table st) h = None \<and>
    table_wf t \<and> entries t = (entries (table st))(h \<mapsto> Some obj)"
  using assms(1)
  by (rule allocate_cases [where obj = obj]) (use assms(2) in \<open>auto simp: h_allocate_def lift_handle_def\<close>)

lemma length_update_present: "k \<in> fst ` set m \<Longrightarrow> length (AList.update k v m) = length m"
  by (induction m) auto

lemma h_get_put:
  assumes "has_session down up h x st"
  shows "\<exists>t. h_get down h st = (Ok x, st\<lparr>table := t\<rparr>) \<and>
    (\<forall>obj. table_wf (put h obj t) \<and> entries (put h obj t) = (entries (table st))(h \<mapsto> Some obj) \<and>
       length (hmap (put h obj t)) = length (hmap (table st)))"
proof -
  from h_get_ok [OF assms] obtain t where t: "h_get down h st = (Ok x, st\<lparr>table := t\<rparr>)"
    "\<forall>obj. table_wf (put h obj t) \<and> entries (put h obj t) = (entries (table st))(h \<mapsto> Some obj)" by blast
  have e: "entries (table st) h = Some (Some (up x))" "h \<noteq> 0" "down (up x) = Some x"
    using assms by (auto simp: has_session_def)
  then have "t = (table st)\<lparr>hmap := AList.update h None (hmap (table st))\<rparr>"
    using t(1) by (auto simp: h_get_def lift_handle_def handle_get_def dest: arg_cong [where f = table])
  moreover have "h \<in> fst ` set (hmap (table st))" "h \<in> fst ` set (AList.update h None (hmap (table st)))"
    using in_keys [OF e(1)] by (simp_all add: dom_update)
  ultimately have "length (hmap (put h obj t)) = length (hmap (table st))" for obj
    by (simp add: put_def length_update_present)
  with t show ?thesis by blast
qed

section \<open>Properties\<close>

text \<open>Feeding a session through its handle delivers the message to that session and touches nothing
  else: the call returns \<^verbatim>\<open>LIB_OK\<close> and whether the session is finished, the session under the handle
  has made the step that the driver makes on the message, and every other entry of the table is
  unchanged.\<close>

theorem feed_call_isolated:
  assumes "has_session down up h s st" "feed (as_slice m) (protocol_of s) = (Ok b, pr)"
    and "\<And>x. down (up x) = Some x"
  shows "\<exists>st'. exported (session_feed down up h (Some m) (Some ())) st
        = (LIB_OK, Some (if b then 1 else 0), st') \<and>
     has_session down up h (s\<lparr>protocol_of := pr\<rparr>) st' \<and>
     (\<forall>k. k \<noteq> h \<longrightarrow> map_of (hmap (table st')) k = map_of (hmap (table st)) k)"
proof -
  obtain st' where st': "session_feed down up h (Some m) (Some ()) st = (Ok (if b then 1 else 0), st')"
    "table_wf (table st')" "entries (table st') = (entries (table st))(h \<mapsto> Some (up (s\<lparr>protocol_of := pr\<rparr>)))"
    using session_feed_ok [OF assms(1,2)] by blast
  have "h \<noteq> 0" using assms(1) by (simp add: has_session_def)
  with st' assms(3) show ?thesis
    using exported_Ok [of "session_feed down up h (Some m) (Some ())" st] by (auto simp: has_session_def)
qed

definition demo_session :: "nat proc \<Rightarrow> nat session_state" where
  "demo_session p = \<lparr>protocol_of = snd (start p),
     setup_of = \<lparr>max_signers = 2, min_signers = 2, parties = []\<rparr>, my_id_of = 1\<rparr>"

definition demo_state :: "nat session_state ffi" where
  "demo_state = \<lparr>table = \<lparr>last_handle = 3, hmap = [(1, Some (demo_session (pbind recv (\<lambda>m. Ret (Ok (length (snd m)))))))]\<rparr>,
     blamed = 0\<rparr>"

lemma demo_has_session:
  "has_session Some (\<lambda>x. x) 1 (demo_session (pbind recv (\<lambda>m. Ret (Ok (length (snd m)))))) demo_state"
  by (simp add: has_session_def demo_state_def table_wf_def MAX_HANDLES_def)

theorem feed_call_isolated_witness:
  "let s = demo_session (pbind recv (\<lambda>m. Ret (Ok (length (snd m)))));
       pr = snd (feed [2, 0, 5] (protocol_of s)) in
   \<exists>st'. exported (session_feed Some (\<lambda>x. x) 1 (Some (go_slice_of [2, 0, 5])) (Some ())) demo_state
        = (LIB_OK, Some (if True then 1 else 0), st') \<and>
     has_session Some (\<lambda>x. x) 1 (s\<lparr>protocol_of := pr\<rparr>) st' \<and>
     (\<forall>k. k \<noteq> 1 \<longrightarrow> map_of (hmap (table st')) k = map_of (hmap (table demo_state)) k)"
  unfolding Let_def
  by (rule feed_call_isolated [OF demo_has_session])
     (simp_all add: demo_session_def start_def advance_def recv_def feed_def recv_frame_def)

text \<open>Asking for the result ends the session whatever its state is. If the session has not finished
  the call reports \<^verbatim>\<open>LIB_SESSION_NOT_READY\<close>, and the handle is gone all the same: the session cannot be
  resumed, and the next call on the handle reports an invalid handle.\<close>

theorem early_result_destroys_session:
  assumes "has_session down up h s st" "outcome (protocol_of s) = None"
  shows "\<exists>st'. exported (session_result down fin h) st = (LIB_SESSION_NOT_READY, None, st') \<and>
     map_of (hmap (table st')) h = None \<and>
     exported (session_feed down up h (Some m) (Some ())) st' = (LIB_INVALID_HANDLE, None, st')"
proof -
  obtain st' where st': "session_result down fin h st = (Err LIB_SESSION_NOT_READY, st')"
    "entries (table st') = (entries (table st))(h := None)"
    using session_result_removes [OF assms(1), of fin] assms(2) by (auto simp: stored_result_def)
  have "h \<noteq> 0" using assms(1) by (simp add: has_session_def)
  then have "h_get down h st' = (Err LIB_INVALID_HANDLE, st')"
    by (simp add: h_get_def handle_get_def lift_handle_def st'(2))
  then have "session_feed down up h (Some m) (Some ()) st' = (Err LIB_INVALID_HANDLE, st')"
    by (simp add: session_feed_def cbind_def [of "h_get _ _"])
  with st' show ?thesis
    using exported_Err [of "session_result down fin h" st] exported_Err [of "session_feed down up h (Some m) (Some ())" st']
    by auto
qed

theorem early_result_destroys_session_witness:
  "\<exists>st'. exported (session_result Some Ok 1) demo_state = (LIB_SESSION_NOT_READY, None, st') \<and>
     map_of (hmap (table st')) 1 = None \<and>
     exported (session_feed Some (\<lambda>x. x) 1 (Some (go_slice_of [])) (Some ())) st' = (LIB_INVALID_HANDLE, None, st')"
  by (rule early_result_destroys_session [OF demo_has_session])
     (simp add: demo_session_def start_def advance_def recv_def)

text \<open>A message is routed to the right parties. For a broadcast, the indices 0, 1, ... name exactly the
  other parties of the setup, each once and in order, and the first index past them names nobody; a
  message with a recipient goes to that party at index 0 only; the sender is never a receiver.\<close>

theorem msg_receivers:
  assumes "distinct (map frost_id (parties s))" "length (parties s) < 2 ^ 32"
  shows "(read_recipient msg = 0 \<longrightarrow>
      map (\<lambda>i. msg_receiver_impl s my_id msg (word_of_nat i)) [0..<Suc (length (other_party_ids s my_id))]
        = map (Some \<circ> name) (filter (\<lambda>p. frost_id p \<noteq> my_id) (parties s)) @ [None]) \<and>
    (\<forall>p \<in> set (parties s). read_recipient msg \<noteq> 0 \<and> frost_id p = read_recipient msg \<longrightarrow>
      msg_receiver_impl s my_id msg 0 = Some (name p) \<and> (\<forall>i. i \<noteq> 0 \<longrightarrow> msg_receiver_impl s my_id msg i = None))"
proof (intro conjI ballI impI allI; (elim conjE)?)
  let ?ps = "filter (\<lambda>p. frost_id p \<noteq> my_id) (parties s)"
  have len: "length (other_party_ids s my_id) = length ?ps" by (simp add: other_party_ids_def)
  have small: "length ?ps < 2 ^ 32" using assms(2) length_filter_le [of _ "parties s"] le_less_trans by blast
  assume 0: "read_recipient msg = 0"
  have "msg_receiver_impl s my_id msg (word_of_nat i)
          = (if i < length ?ps then Some (name (?ps ! i)) else None)" if "i \<le> length ?ps" for i
    using that small nth_others [OF assms(1), of i my_id] by (simp add: msg_receiver_impl_def 0 Let_def len)
  then show "map (\<lambda>i. msg_receiver_impl s my_id msg (word_of_nat i)) [0..<Suc (length (other_party_ids s my_id))]
        = map (Some \<circ> name) ?ps @ [None]"
    by (intro nth_equalityI) (auto simp: len nth_append less_Suc_eq simp del: upt_Suc)
next
  fix p
  assume "p \<in> set (parties s)" "read_recipient msg \<noteq> 0" "frost_id p = read_recipient msg"
  with party_name_nth [OF assms(1), of p]
  show "msg_receiver_impl s my_id msg 0 = Some (name p)" by (simp add: msg_receiver_impl_def Let_def)
next
  fix i :: u32
  assume "read_recipient msg \<noteq> 0" "i \<noteq> 0"
  then show "msg_receiver_impl s my_id msg i = None" by (simp add: msg_receiver_impl_def Let_def)
qed

theorem msg_receivers_witness:
  "let s = \<lparr>max_signers = 3, min_signers = 2, parties = [\<lparr>frost_id = 1, name = [97]\<rparr>,
        \<lparr>frost_id = 2, name = [98]\<rparr>, \<lparr>frost_id = 3, name = [99]\<rparr>]\<rparr> in
   map (\<lambda>i. msg_receiver_impl s 2 [0, 0, 7] (word_of_nat i)) [0..<Suc (length (other_party_ids s 2))]
     = map (Some \<circ> name) (filter (\<lambda>p. frost_id p \<noteq> 2) (parties s)) @ [None]"
  unfolding Let_def
  by (rule mp, rule conjunct1, rule msg_receivers) (simp_all add: read_recipient_def u16_of_le_def)

end
