(* ===== verification/Session_Starts.thy ===== *)
theory Session_Starts
  imports Ceremonies Ffi_Calls
begin

text \<open>
  What the functions that start sessions in both libraries have in common: they check their
  arguments, then start a task and allocate a handle. Such a call reports the unknown error, which
  stands for a caught panic, only when the handle table is full, provided that the task does not
  panic; and the ceremony tasks do not.
\<close>

section \<open>Tasks\<close>

lemma poll_after:
  assumes "poll p ms [] = (Ret (Ok x), [], out)"
  shows "poll (pbind p f) (ms @ rest) [] = poll (f x) rest out"
  using poll_Ret_rest [OF assms, of rest] by (simp add: poll_pbind)

lemma ceremonies_no_panic:
  "pall (\<lambda>r. r \<noteq> Panic) (dkg_run L rng my_id mx mn)"
  "pall (\<lambda>r. r \<noteq> Panic) (key_import_run L rng my_id mx mn c)"
  "pall (\<lambda>r. r \<noteq> Panic) (reshare_run L rng my_id mx mn c vk)"
  unfolding dkg_run_eq key_import_run_eq reshare_run_eq case_prod_unfold
  by (intro no_panic_intros pall_no_panic_Ret; simp)+

text \<open>Starting a session whose task does not panic fails only when the table is full.\<close>

lemma start_no_panic: "pall (\<lambda>r. r \<noteq> Panic) p \<Longrightarrow> fst (start p) \<noteq> Panic"
  by (auto simp: start_def advance_def Let_def dest: pall_poll split: prod.splits proc.splits res.splits)

lemma start_session_unknown:
  assumes "pall (\<lambda>r. r \<noteq> Panic) p" "start_session up p setup my_id st = (r, st')" "table_wf (table st)"
  shows "(\<exists>h. r = Ok h) \<or> r = Err LIB_UNKNOWN_ERROR \<and> length (hmap (table st)) = MAX_HANDLES"
proof -
  obtain b pr where s: "start p = (b, pr)" by (cases "start p")
  with start_no_panic [OF assms(1)] have "b \<noteq> Panic" by simp
  then obtain st1 obj where st1: "start_session up p setup my_id st = h_allocate obj st1" "table st1 = table st"
    by (cases b) (auto simp: start_session_def s)
  have "table_wf (table st1)" using assms(3) st1(2) by simp
  then show ?thesis
    by (rule allocate_cases [where obj = obj])
       (use st1 assms(2) in \<open>auto simp: h_allocate_def lift_handle_def\<close>)
qed

section \<open>Calls\<close>

lemma exported_unknown:
  assumes "fst (exported c st) = LIB_UNKNOWN_ERROR"
  shows "fst (c st) = Panic \<or> fst (c st) = Err LIB_UNKNOWN_ERROR"
proof (cases "c st")
  case (Pair r st')
  then show ?thesis using assms by (cases r) (auto simp: exported_def with_error_handler_def)
qed

text \<open>
  A function that checks its arguments and then starts a session reports an unknown error only
  when the table is full.
\<close>

definition clean :: "'a res \<Rightarrow> bool" where
  "clean r \<longleftrightarrow> r \<noteq> Panic \<and> r \<noteq> Err LIB_UNKNOWN_ERROR"

lemma clean_simps [simp]: "clean (Ok x)" "clean (Err e) \<longleftrightarrow> e \<noteq> LIB_UNKNOWN_ERROR" "clean (Blamed i)" "\<not> clean Panic"
  by (simp_all add: clean_def)

lemma clean_rbind [simp]: "clean (rbind m f) \<longleftrightarrow> clean m \<and> (\<forall>x. m = Ok x \<longrightarrow> clean (f x))"
  by (cases m) simp_all

lemma clean_ok_or [simp]: "clean (ok_or x e) \<longleftrightarrow> x \<noteq> None \<or> e \<noteq> LIB_UNKNOWN_ERROR"
  by (cases x) simp_all

lemma clean_lib [simp]: "clean (ser_err y)" "clean (try_id L n)"
  by (simp_all add: ser_err_def try_id_def)

lemma clean_readers [simp]:
  "clean (read_bytes n d pos)" "clean (setup_read_u16 d pos)" "clean (codec_read_u32 d pos)" "clean (setup_read_u32 d pos)"
  by (auto simp: read_bytes_eq setup_read_u16_eq codec_read_u32_eq setup_read_u32_eq)

lemma clean_read_many: "(\<And>p. clean (rd d p)) \<Longrightarrow> clean (read_many n rd d pos)"
  by (induction n arbitrary: pos) auto

lemma clean_rmap: "(\<And>x. clean (f x)) \<Longrightarrow> clean (rmap f xs)"
  by (induction xs) auto

lemma clean_decoders [simp]:
  "clean (setup_decode d)" "clean (sign_setup_decode d)" "clean (reshare_setup_decode d)" "clean (key_import_setup_decode d)"
  by (auto simp: setup_decode_def read_party_def sign_setup_decode_def reshare_setup_decode_def
      key_import_setup_decode_def intro!: clean_read_many)

lemma clean_additive_share [simp]: "clean (compute_additive_share L kp ids mx)"
  by (auto simp: compute_additive_share_def lagrange_coeff_def Let_def split: prod.splits list.splits)

lemma clean_coordinator: "frost_id_by_name s nm = Some i \<Longrightarrow> clean (coordinator_id s)"
  by (cases "parties s") (auto simp: coordinator_id_def frost_id_by_name_def)

lemma checked_start_unknown:
  assumes "fst (exported (cbind (cret chk) (\<lambda>x. start_session up (p x) (setup x) (my x))) st) = LIB_UNKNOWN_ERROR"
    and "clean chk" "\<And>x. chk = Ok x \<Longrightarrow> pall (\<lambda>r. r \<noteq> Panic) (p x)" "table_wf (table st)"
  shows "\<not> length (hmap (table st)) < MAX_HANDLES"
proof (cases chk)
  case (Ok x)
  obtain r st' where "start_session up (p x) (setup x) (my x) st = (r, st')" by fastforce
  from start_session_unknown [OF assms(3) [OF Ok] this assms(4)] this exported_unknown [OF assms(1)]
  show ?thesis by (auto simp: Ok cbind_def cret_def)
qed (use assms(2) exported_unknown [OF assms(1)] in \<open>auto simp: cbind_def cret_def\<close>)

lemma exported_nonnull:
  "exported (cbind (nonnull x) f) = (case x of None \<Rightarrow> (\<lambda>st. (LIB_NULL_PTR, None, st)) | Some y \<Rightarrow> exported (f y))"
  by (cases x) (auto simp: fun_eq_iff exported_def with_error_handler_def)

end
