(* ===== verification/Party_Lists.thy ===== *)
theory Party_Lists
  imports Setup_Messages
begin

text \<open>
  The lists that the caller of a session function passes as bytes: parties and old identifiers. The
  two libraries have the same decoders; those of \<^verbatim>\<open>frozt-lib/src/session.rs\<close> are modelled here, with
  the turns of their loops, which \<^verbatim>\<open>fromt-lib\<close> shares.
\<close>

section \<open>Lists from the caller\<close>

text \<open>One turn of the loop of \<^verbatim>\<open>decode_parties\<close>, which tests both fixed fields at once.\<close>

definition decode_party_at :: "bytes \<Rightarrow> nat \<Rightarrow> (party_entry \<times> nat) res" where
  "decode_party_at data pos =
     (if pos + 4 > length data then Err LIB_SERIALIZATION_ERROR
      else
        rbind (index data pos) (\<lambda>a0. rbind (index data (pos + 1)) (\<lambda>a1.
        rbind (index data (pos + 2)) (\<lambda>b0. rbind (index data (pos + 2 + 1)) (\<lambda>b1.
        let name_len = unat (u16_of_le [b0, b1]); pos = pos + 2 + 2 in
        if pos + name_len > length data then Err LIB_SERIALIZATION_ERROR
        else rbind (slice data pos (pos + name_len)) (\<lambda>nm.
          Ok (\<lparr>frost_id = u16_of_le [a0, a1], name = nm\<rparr>, pos + name_len)))))))"

definition decode_parties :: "bytes \<Rightarrow> party_entry list res" where
  "decode_parties data =
     (if length data < 2 then Err LIB_SERIALIZATION_ERROR
      else
        rbind (index data 0) (\<lambda>b0. rbind (index data 1) (\<lambda>b1.
        rbind (read_many (unat (u16_of_le [b0, b1])) decode_party_at data 2) (\<lambda>(ps, _). Ok ps))))"

definition decode_u16_at :: "bytes \<Rightarrow> nat \<Rightarrow> (u16 \<times> nat) res" where
  "decode_u16_at data pos =
     (if pos + 2 > length data then Err LIB_SERIALIZATION_ERROR
      else rbind (index data pos) (\<lambda>b0. rbind (index data (pos + 1)) (\<lambda>b1.
             Ok (u16_of_le [b0, b1], pos + 2))))"

definition decode_u16_list :: "bytes \<Rightarrow> u16 list res" where
  "decode_u16_list data =
     (if length data < 2 then Err LIB_SERIALIZATION_ERROR
      else
        rbind (index data 0) (\<lambda>b0. rbind (index data 1) (\<lambda>b1.
        rbind (read_many (unat (u16_of_le [b0, b1])) decode_u16_at data 2) (\<lambda>(xs, _). Ok xs))))"

section \<open>Lemmas\<close>

lemma take_2_at: "pos + 2 \<le> length d \<Longrightarrow> take 2 (drop pos d) = [d ! pos, d ! Suc pos]"
  using take_Suc_Suc_drop [of pos d] by simp

lemma decode_party_at_eq: "decode_party_at = read_party"
proof (intro ext)
  fix data pos
  show "decode_party_at data pos = read_party data pos"
  proof (cases "pos + 4 > length data")
    case True
    then show ?thesis
      by (auto simp: decode_party_at_def read_party_def setup_read_u16_eq read_bytes_eq)
  next
    case False
    then show ?thesis
      using take_2_at [of pos data] take_2_at [of "pos + 2" data]
      by (simp add: decode_party_at_def read_party_def setup_read_u16_eq read_bytes_eq index_def slice_def
          Let_def add.assoc add.commute [of _ pos])
  qed
qed

lemma decode_u16_at_eq: "decode_u16_at = setup_read_u16"
  by (intro ext) (simp add: decode_u16_at_def setup_read_u16_def)

lemma first_u16:
  "2 \<le> length data \<Longrightarrow> rbind (index data 0) (\<lambda>b0. rbind (index data 1) (\<lambda>b1. f (u16_of_le [b0, b1])))
     = rbind (setup_read_u16 data 0) (\<lambda>(n, _). f n)"
  by (simp add: setup_read_u16_def index_def)

lemma decode_parties_iff:
  "decode_parties data = Ok ps \<longleftrightarrow>
     length ps < 2 ^ 16 \<and> list_all party_wf ps \<and>
     holds_at data 0 (u16_le (word_of_nat (length ps)) @ concat (map encode_party ps))"
proof (cases "length data < 2")
  case False
  then have eq: "decode_parties data =
      rbind (setup_read_u16 data 0) (\<lambda>(n, _). rbind (read_many (unat n) read_party data 2) (\<lambda>(ps, _). Ok ps))"
    using first_u16 [of data "\<lambda>n. rbind (read_many (unat n) read_party data 2) (\<lambda>(ps, _). Ok ps)"]
    by (simp add: decode_parties_def decode_party_at_eq)
  have many: "read_many n read_party data 2 = Ok (xs, p) \<longleftrightarrow> n = length xs \<and> (\<forall>x \<in> set xs. party_wf x) \<and>
      holds_at data 2 (concat (map encode_party xs)) \<and> p = 2 + length (concat (map encode_party xs))" for n xs p
    using party_wire.many_iff [of 2 data n xs p] False by auto
  show ?thesis
    unfolding eq by (auto simp: rbind_eq_Ok read_u16_iff many holds_at_append unat_u16_le_iff list_all_iff
        simp del: add_2_eq_Suc add_2_eq_Suc')
qed (auto simp: decode_parties_def holds_at_def)

lemma proper_decode_parties [simp]: "proper (decode_parties data)"
  by (auto simp: decode_parties_def decode_party_at_eq party_wire.many_proper index_def)

section \<open>Properties\<close>

text \<open>The party list of the caller is read by the same grammar as the one inside a setup message (although
  the code tests its bounds differently): it is accepted exactly when it starts with a count below
  \<open>2 ^ 16\<close> and the encodings of that many parties, and reading it never panics.\<close>

theorem decode_parties_exact:
  "(decode_parties data = Ok ps \<longleftrightarrow>
     length ps < 2 ^ 16 \<and> list_all party_wf ps \<and>
     (\<exists>post. data = u16_le (word_of_nat (length ps)) @ concat (map encode_party ps) @ post)) \<and>
   proper (decode_parties data)"
  using decode_parties_iff [of data ps] by (auto simp: holds_at_0_iff)

end
