(* ===== verification/Frozt_Keyshare.thy ===== *)
theory Frozt_Keyshare
  imports Identifier_Table Session_Starts Party_Lists
begin

text \<open>
  \<^verbatim>\<open>frozt-lib\<close>: the key share bundle (\<^verbatim>\<open>keyshare/bundle.rs\<close>), the exported accessors
  (\<^verbatim>\<open>keyshare/mod.rs\<close>), the ceremony metadata (\<^verbatim>\<open>ceremony_metadata.rs\<close>) and the parts of
  \<^verbatim>\<open>sapling.rs\<close> and \<^verbatim>\<open>key_import.rs\<close> that derive keys. The Zcash crates are the argument \<open>Z\<close>.
\<close>

section \<open>The Zcash crates and the objects of the library\<close>

text \<open>
  \<open>blake2b\<close> is BLAKE2b with 32 bytes of output and a personalization; the extended spending key is
  opaque, with the accessors that are used; fixed-size arrays are byte strings.
\<close>

record ('rng, 'f, 'xsk) zcash =
  blake2b :: "bytes \<Rightarrow> bytes \<Rightarrow> bytes"
  fr_random_repr :: "'rng \<Rightarrow> bytes \<times> 'rng"
  fill_bytes :: "nat \<Rightarrow> 'rng \<Rightarrow> bytes \<times> 'rng"
  xsk_master :: "bytes \<Rightarrow> 'xsk"
  xsk_from_path :: "'xsk \<Rightarrow> u32 list \<Rightarrow> 'xsk"
  xsk_ask :: "'xsk \<Rightarrow> bytes"
  xsk_nsk :: "'xsk \<Rightarrow> bytes"
  xsk_ovk :: "'xsk \<Rightarrow> bytes"
  xsk_dfvk :: "'xsk \<Rightarrow> bytes"
  scalar_deserialize :: "bytes \<Rightarrow> 'f option"

datatype ('s1, 's2, 'n, 'kp, 'pk) frozt_obj =
    Round1_Secret 's1
  | Round2_Secret 's2
  | Signing_Nonces 'n
  | Dkg_Session "bytes session_state"
  | Sign_Session "bytes session_state"
  | Reshare_Session "('kp \<times> 'pk) session_state"
  | Key_Import_Session "bytes session_state"

text \<open>\<^verbatim>\<open>downcast::<T>()\<close> for the types of objects.\<close>

definition as_round1 where "as_round1 x = (case x of Round1_Secret s \<Rightarrow> Some s | _ \<Rightarrow> None)"
definition as_round2 where "as_round2 x = (case x of Round2_Secret s \<Rightarrow> Some s | _ \<Rightarrow> None)"
definition as_nonces where "as_nonces x = (case x of Signing_Nonces s \<Rightarrow> Some s | _ \<Rightarrow> None)"
definition as_dkg where "as_dkg x = (case x of Dkg_Session s \<Rightarrow> Some s | _ \<Rightarrow> None)"
definition as_sign where "as_sign x = (case x of Sign_Session s \<Rightarrow> Some s | _ \<Rightarrow> None)"
definition as_reshare where "as_reshare x = (case x of Reshare_Session s \<Rightarrow> Some s | _ \<Rightarrow> None)"
definition as_key_import where "as_key_import x = (case x of Key_Import_Session s \<Rightarrow> Some s | _ \<Rightarrow> None)"

lemma downcasts [simp]:
  "as_round1 (Round1_Secret a) = Some a" "as_round2 (Round2_Secret b) = Some b"
  "as_nonces (Signing_Nonces c) = Some c" "as_dkg (Dkg_Session d) = Some d"
  "as_sign (Sign_Session e) = Some e" "as_reshare (Reshare_Session f) = Some f"
  "as_key_import (Key_Import_Session g) = Some g"
  by (simp_all add: as_round1_def as_round2_def as_nonces_def as_dkg_def as_sign_def as_reshare_def
      as_key_import_def)

section \<open>keyshare/bundle.rs\<close>

definition BUNDLE_VERSION :: u8 where "BUNDLE_VERSION = 1"

record ('kp, 'pk) key_share_bundle =
  key_package :: 'kp
  pub_key_package :: 'pk
  sapling_extras :: bytes
  birthday :: u64

definition bundle_serialize where
  "bundle_serialize L b =
     rbind (ser_err (kp_serialize L (key_package b))) (\<lambda>kp_bytes.
     rbind (ser_err (pk_serialize L (pub_key_package b))) (\<lambda>pkp_bytes.
       Ok ([BUNDLE_VERSION] @ u64_le (birthday b) @
           u32_le (word_of_nat (length (sapling_extras b))) @ sapling_extras b @
           u32_le (word_of_nat (length kp_bytes)) @ kp_bytes @
           u32_le (word_of_nat (length pkp_bytes)) @ pkp_bytes)))"

definition bundle_deserialize where
  "bundle_deserialize L data =
     (if length data < 1 + 8 + 4 then Err LIB_SERIALIZATION_ERROR
      else
        rbind (index data 0) (\<lambda>version.
        if version \<noteq> BUNDLE_VERSION then Err LIB_SERIALIZATION_ERROR
        else
          rbind (bundle_read_u64 data 1) (\<lambda>(bday, pos).
          rbind (codec_read_u32 data pos) (\<lambda>(extras_len, pos).
          rbind (read_bytes (unat extras_len) data pos) (\<lambda>(extras, pos).
          rbind (codec_read_u32 data pos) (\<lambda>(kp_len, pos).
          rbind (read_bytes (unat kp_len) data pos) (\<lambda>(kp_bytes, pos).
          rbind (ser_err (kp_deserialize L kp_bytes)) (\<lambda>kp.
          rbind (codec_read_u32 data pos) (\<lambda>(pkp_len, pos).
          rbind (read_bytes (unat pkp_len) data pos) (\<lambda>(pkp_bytes, pos).
          rbind (ser_err (pk_deserialize L pkp_bytes)) (\<lambda>pkp.
            Ok \<lparr>key_package = kp, pub_key_package = pkp, sapling_extras = extras, birthday = bday\<rparr>)))))))))))"

section \<open>keyshare/mod.rs\<close>

definition frozt_encode_identifier where
  "frozt_encode_identifier L n (out_bytes :: unit option) =
     exported (cbind (nonnull out_bytes) (\<lambda>_.
       cret (rbind (try_id L n) (\<lambda>ident. Ok (id_serialize L ident)))))"

definition frozt_decode_identifier where
  "frozt_decode_identifier L id_bytes (out_id :: unit option) =
     exported (cbind (nonnull id_bytes) (\<lambda>data. cbind (nonnull out_id) (\<lambda>_.
       cret (rbind (ser_err (id_deserialize L (as_slice data))) (keyshare_identifier_to_u16 L)))))"

definition frozt_keypackage_identifier where
  "frozt_keypackage_identifier L kp_arg (out_id :: unit option) =
     exported (cbind (nonnull kp_arg) (\<lambda>kp_data. cbind (nonnull out_id) (\<lambda>_.
       cret (rbind (ser_err (kp_deserialize L (as_slice kp_data))) (\<lambda>kp.
         keyshare_identifier_to_u16 L (kp_identifier L kp))))))"

definition frozt_pubkeypackage_verifying_key where
  "frozt_pubkeypackage_verifying_key L pkp_arg (out_key :: unit option) =
     exported (cbind (nonnull pkp_arg) (\<lambda>pkp_data. cbind (nonnull out_key) (\<lambda>_.
       cret (rbind (ser_err (pk_deserialize L (as_slice pkp_data))) (\<lambda>pkp.
         ser_err (vk_serialize L (pk_verifying_key L pkp)))))))"

definition frozt_keyshare_bundle_pack where
  "frozt_keyshare_bundle_pack L kp_arg pkp_arg extras_arg bday (out_bundle :: unit option) =
     exported (cbind (nonnull kp_arg) (\<lambda>kp_data. cbind (nonnull pkp_arg) (\<lambda>pkp_data.
       cbind (nonnull extras_arg) (\<lambda>extras_data. cbind (nonnull out_bundle) (\<lambda>_.
       cret (
         rbind (ser_err (kp_deserialize L (as_slice kp_data))) (\<lambda>kp.
         rbind (ser_err (pk_deserialize L (as_slice pkp_data))) (\<lambda>pkp.
           bundle_serialize L \<lparr>key_package = kp, pub_key_package = pkp,
             sapling_extras = as_slice extras_data, birthday = bday\<rparr>))))))))"

definition frozt_keyshare_bundle_birthday where
  "frozt_keyshare_bundle_birthday L bundle_data (out_birthday :: unit option) =
     exported (cbind (nonnull bundle_data) (\<lambda>data. cbind (nonnull out_birthday) (\<lambda>_.
       cret (rbind (bundle_deserialize L (as_slice data)) (\<lambda>b. Ok (birthday b))))))"

definition frozt_keyshare_bundle_key_package where
  "frozt_keyshare_bundle_key_package L bundle_data (out_kp :: unit option) =
     exported (cbind (nonnull bundle_data) (\<lambda>data. cbind (nonnull out_kp) (\<lambda>_.
       cret (rbind (bundle_deserialize L (as_slice data)) (\<lambda>b. ser_err (kp_serialize L (key_package b)))))))"

definition frozt_keyshare_bundle_pub_key_package where
  "frozt_keyshare_bundle_pub_key_package L bundle_data (out_pkp :: unit option) =
     exported (cbind (nonnull bundle_data) (\<lambda>data. cbind (nonnull out_pkp) (\<lambda>_.
       cret (rbind (bundle_deserialize L (as_slice data)) (\<lambda>b. ser_err (pk_serialize L (pub_key_package b)))))))"

definition frozt_keyshare_bundle_sapling_extras where
  "frozt_keyshare_bundle_sapling_extras L bundle_data (out_extras :: unit option) =
     exported (cbind (nonnull bundle_data) (\<lambda>data. cbind (nonnull out_extras) (\<lambda>_.
       cret (rbind (bundle_deserialize L (as_slice data)) (\<lambda>b. Ok (sapling_extras b))))))"

section \<open>sapling.rs and key_import.rs: extras and derived keys\<close>

definition EXTRAS_LEN :: nat where "EXTRAS_LEN = 96"

definition generate_extras_raw :: "('rng, 'f, 'xsk) zcash \<Rightarrow> 'rng \<Rightarrow> bytes res" where
  "generate_extras_raw Z rng =
     (let (nsk, rng) = fr_random_repr Z rng;
          (a, rng) = fill_bytes Z 32 rng;
          (b, rng) = fill_bytes Z 32 rng
      in Ok (nsk @ a @ b))"

definition frozt_sapling_generate_extras where
  "frozt_sapling_generate_extras Z rng (out_extras :: unit option) =
     exported (cbind (nonnull out_extras) (\<lambda>_. cret (generate_extras_raw Z rng)))"

text \<open>\<^verbatim>\<open>ChildIndex::hardened(i)\<close> is the index itself in a path of hardened indices.\<close>

definition hardened_account_child :: "lib_error \<Rightarrow> u32 \<Rightarrow> u32 res" where
  "hardened_account_child e acct = (if acct \<ge> 2 ^ 31 then Err e else Ok acct)"

definition derive_extras_from_seed :: "('rng, 'f, 'xsk) zcash \<Rightarrow> bytes \<Rightarrow> u32 \<Rightarrow> bytes res" where
  "derive_extras_from_seed Z seed acct =
     (if length seed \<noteq> 64 then Err LIB_INVALID_BUFFER_SIZE
      else
        rbind (hardened_account_child LIB_SAPLING_ERROR acct) (\<lambda>account.
        let child = xsk_from_path Z (xsk_master Z seed) [32, 133, account] in
        rbind (slice (xsk_dfvk Z child) 96 128) (\<lambda>dk. Ok (xsk_nsk Z child @ xsk_ovk Z child @ dk))))"

definition derive_spending_key :: "('rng, 'f, 'xsk) zcash \<Rightarrow> bytes \<Rightarrow> u32 \<Rightarrow> bytes res" where
  "derive_spending_key Z seed acct =
     (if length seed \<noteq> 64 then Err LIB_INVALID_BUFFER_SIZE
      else
        rbind (hardened_account_child LIB_KEY_IMPORT_ERROR acct) (\<lambda>account.
          Ok (xsk_ask Z (xsk_from_path Z (xsk_master Z seed) [32, 133, account]))))"

definition spending_key_to_vk where
  "spending_key_to_vk L Z spending_key =
     rbind (ser_err (scalar_deserialize Z spending_key)) (\<lambda>scalar.
       ser_err (vk_serialize L (mul_generator L scalar)))"

section \<open>ceremony_metadata.rs\<close>

definition METADATA_VERSION :: u8 where "METADATA_VERSION = 1"

definition metadata_create :: "('rng, 'f, 'xsk) zcash \<Rightarrow> 'rng \<Rightarrow> u64 \<Rightarrow> (bytes \<times> bytes) res" where
  "metadata_create Z rng bday =
     rbind (generate_extras_raw Z rng) (\<lambda>extras.
       Ok (extras, [METADATA_VERSION] @ u64_le bday @ extras))"

definition metadata_create_with_extras :: "bytes \<Rightarrow> u64 \<Rightarrow> bytes res" where
  "metadata_create_with_extras extras bday =
     (if length extras \<noteq> 96 then Err LIB_INVALID_BUFFER_SIZE
      else Ok ([METADATA_VERSION] @ u64_le bday @ extras))"

definition metadata_parse :: "bytes \<Rightarrow> (bytes \<times> u64) res" where
  "metadata_parse data =
     (if length data \<noteq> 1 + 8 + 96 then Err LIB_INVALID_BUFFER_SIZE
      else
        rbind (index data 0) (\<lambda>v.
        if v \<noteq> METADATA_VERSION then Err LIB_SERIALIZATION_ERROR
        else
          rbind (slice data 1 9) (\<lambda>s. rbind (to_array 8 s) (\<lambda>a.
          rbind (slice data 9 105) (\<lambda>extras. Ok (extras, u64_of_le a))))))"

definition metadata_hash :: "('rng, 'f, 'xsk) zcash \<Rightarrow> bytes \<Rightarrow> bytes res" where
  "metadata_hash Z data =
     (if length data \<noteq> 1 + 8 + 96 then Err LIB_INVALID_BUFFER_SIZE
      else Ok (blake2b Z (str_bytes ''frozt_meta_hash_'') data))"

definition frozt_keygen_metadata_create where
  "frozt_keygen_metadata_create Z rng bday (out_extras :: unit option) (out_metadata :: unit option) =
     exported (cbind (nonnull out_extras) (\<lambda>_. cbind (nonnull out_metadata) (\<lambda>_.
       cret (metadata_create Z rng bday))))"

definition frozt_keygen_metadata_create_with_extras where
  "frozt_keygen_metadata_create_with_extras extras bday (out_metadata :: unit option) =
     exported (cbind (nonnull extras) (\<lambda>extras_data. cbind (nonnull out_metadata) (\<lambda>_.
       cret (metadata_create_with_extras (as_slice extras_data) bday))))"

definition frozt_keygen_metadata_parse where
  "frozt_keygen_metadata_parse metadata (out_extras :: unit option) (out_birthday :: unit option) =
     exported (cbind (nonnull metadata) (\<lambda>meta_data. cbind (nonnull out_extras) (\<lambda>_.
       cbind (nonnull out_birthday) (\<lambda>_. cret (metadata_parse (as_slice meta_data))))))"

definition frozt_keygen_metadata_hash where
  "frozt_keygen_metadata_hash Z metadata (out_hash :: unit option) =
     exported (cbind (nonnull metadata) (\<lambda>meta_data. cbind (nonnull out_hash) (\<lambda>_.
       cret (metadata_hash Z (as_slice meta_data)))))"

section \<open>Lemmas\<close>

lemma metadata_parse_iff:
  "metadata_parse data = Ok (extras, bday) \<longleftrightarrow>
     length extras = 96 \<and> data = [METADATA_VERSION] @ u64_le bday @ extras"
proof (cases data)
  case (Cons v d)
  have split: "d = take 8 d @ drop 8 d" by simp
  show ?thesis
  proof
    assume "metadata_parse data = Ok (extras, bday)"
    then show "length extras = 96 \<and> data = [METADATA_VERSION] @ u64_le bday @ extras"
      using u64_le_of_le [of "take 8 d"] split
      by (auto simp: metadata_parse_def Cons index_def slice_def to_array_def split: if_splits)
  next
    assume "length extras = 96 \<and> data = [METADATA_VERSION] @ u64_le bday @ extras"
    then show "metadata_parse data = Ok (extras, bday)"
      by (simp add: metadata_parse_def index_def slice_def to_array_def)
  qed
qed (simp add: metadata_parse_def)

lemma proper_bundle_deserialize: "proper (bundle_deserialize L data)"
  by (auto simp: bundle_deserialize_def index_def)

lemma bundle_deserialize_serialize:
  assumes "serde_ok (kp_serialize L) (kp_deserialize L)" "serde_ok (pk_serialize L) (pk_deserialize L)"
    and "bundle_serialize L b = Ok buf" "length buf < 2 ^ 32"
  shows "bundle_deserialize L (buf @ post) = Ok b"
proof -
  from assms(3) obtain kb pb where s: "kp_serialize L (key_package b) = Some kb"
    "pk_serialize L (pub_key_package b) = Some pb"
    and buf: "buf = [BUNDLE_VERSION] @ u64_le (birthday b) @ blob32 (sapling_extras b) @ blob32 kb @ blob32 pb"
    by (auto simp: bundle_serialize_def ser_err_def blob32_def elim!: rbind_OkE)
  have de: "kp_deserialize L kb = Some (key_package b)" "pk_deserialize L pb = Some (pub_key_package b)"
    using assms(1,2) s by (auto simp: serde_ok_def)
  define d where "d = buf @ post"
  have fits: "fits32 (sapling_extras b)" "fits32 kb" "fits32 pb"
    using assms(4) by (auto simp: buf fits32_def blob32_def)
  have "holds_at d 0 ([BUNDLE_VERSION] @ u64_le (birthday b) @ blob32 (sapling_extras b) @ blob32 kb @ blob32 pb)"
    by (simp only: d_def buf holds_at_start)
  then have at1: "holds_at d 1 (u64_le (birthday b))" "holds_at d 9 (blob32 (sapling_extras b))"
    "holds_at d (9 + length (blob32 (sapling_extras b))) (blob32 kb)"
    "holds_at d (9 + length (blob32 (sapling_extras b)) + length (blob32 kb)) (blob32 pb)"
    unfolding holds_at_append by simp_all
  have eq: "bundle_deserialize L d =
      rbind (bundle_read_u64 d 1) (\<lambda>(bday, pos). rbind (read_blob32 d pos) (\<lambda>(extras, pos).
      rbind (read_blob32 d pos) (\<lambda>(kb, pos). rbind (ser_err (kp_deserialize L kb)) (\<lambda>kp.
      rbind (read_blob32 d pos) (\<lambda>(pb, pos). rbind (ser_err (pk_deserialize L pb)) (\<lambda>pkp.
        Ok \<lparr>key_package = kp, pub_key_package = pkp, sapling_extras = extras, birthday = bday\<rparr>))))))"
    by (simp add: bundle_deserialize_def read_blob32_def rbind_assoc case_prod_unfold index_def d_def buf blob32_def)
  have r: "bundle_read_u64 d 1 = Ok (birthday b, 9)"
    "read_blob32 d 9 = Ok (sapling_extras b, 9 + length (blob32 (sapling_extras b)))"
    "read_blob32 d (9 + length (blob32 (sapling_extras b))) = Ok (kb, 9 + length (blob32 (sapling_extras b)) + length (blob32 kb))"
    "read_blob32 d (9 + length (blob32 (sapling_extras b)) + length (blob32 kb))
       = Ok (pb, 9 + length (blob32 (sapling_extras b)) + length (blob32 kb) + length (blob32 pb))"
    using at1 fits by (simp_all add: read_u64_iff read_blob32_iff)
  show ?thesis unfolding d_def [symmetric] eq r rbind_simps prod.case de ser_err_def ok_or_simps by simp
qed

section \<open>Properties\<close>

text \<open>A key share bundle is read back as it was written, whatever follows it: version, birthday, extras
  and both key packages survive, given that the library's own packages do.\<close>

theorem frozt_bundle_round_trip:
  assumes "serde_ok (kp_serialize L) (kp_deserialize L)" "serde_ok (pk_serialize L) (pk_deserialize L)"
    and "bundle_serialize L b = Ok buf" "length buf < 2 ^ 32"
  shows "bundle_deserialize L (buf @ post) = Ok b"
  using assms by (rule bundle_deserialize_serialize)

theorem frozt_bundle_round_trip_witness:
  "bundle_deserialize demo ([1, 7, 0, 0, 0, 0, 0, 0, 0, 1, 0, 0, 0, 9, 2, 0, 0, 0, 5, 0, 1, 0, 0, 0, 3] @ [4])
     = Ok \<lparr>key_package = (1, 5), pub_key_package = 3, sapling_extras = [9], birthday = 7\<rparr>"
proof (rule frozt_bundle_round_trip [OF serde_demo])
  show "bundle_serialize demo \<lparr>key_package = (1, 5), pub_key_package = 3, sapling_extras = [9], birthday = 7\<rparr>
      = Ok [1, 7, 0, 0, 0, 0, 0, 0, 0, 1, 0, 0, 0, 9, 2, 0, 0, 0, 5, 0, 1, 0, 0, 0, 3]" by code_simp
qed simp

text \<open>Reading a bundle from arbitrary bytes never panics.\<close>

theorem frozt_bundle_total: "proper (bundle_deserialize L data)"
  by (rule proper_bundle_deserialize)

text \<open>The metadata parser accepts exactly the blobs that the creator of metadata with these extras and this
  birthday makes, so the two are inverse and a blob has one reading.\<close>

theorem metadata_parse_exact:
  "metadata_parse data = Ok (extras, bday) \<longleftrightarrow> metadata_create_with_extras extras bday = Ok data"
  by (auto simp: metadata_parse_iff metadata_create_with_extras_def)

end
