(* ===== verification/Frozt_Session.thy ===== *)
theory Frozt_Session
  imports Frozt_Keyshare
begin

text \<open>
  \<^verbatim>\<open>frozt-lib/src/session.rs\<close>: the ceremonies of the Zcash library with their metadata agreement, the
  rerandomized signing session, and the exported session functions. The crate
  \<^verbatim>\<open>frost-rerandomized\<close> is the argument \<open>R\<close>. Each source of randomness of a task is an argument of
  its own, since \<^verbatim>\<open>thread_rng()\<close> is called anew at each place.
\<close>

record ('i, 'g, 'e, 'rng, 'kp, 'pk, 'sig, 'nonces, 'sp, 'sh, 'r, 'rp) rerandomized =
  rand_deserialize :: "bytes \<Rightarrow> 'r option"
  rand_serialize :: "'r \<Rightarrow> bytes"
  params_new :: "'g \<Rightarrow> 'sp \<Rightarrow> 'rng \<Rightarrow> 'rp option"
  params_randomizer :: "'rp \<Rightarrow> 'r"
  params_from_randomizer :: "'g \<Rightarrow> 'r \<Rightarrow> 'rp"
  rr_sign :: "'sp \<Rightarrow> 'nonces \<Rightarrow> 'kp \<Rightarrow> 'r \<Rightarrow> 'e + 'sh"
  rr_aggregate :: "'sp \<Rightarrow> ('i \<times> 'sh) list \<Rightarrow> 'pk \<Rightarrow> 'rp \<Rightarrow> 'e + 'sig"
  sp_deserialize :: "bytes \<Rightarrow> 'sp option"
  sig_deserialize :: "bytes \<Rightarrow> 'sig option"
  rr_verify :: "'rp \<Rightarrow> bytes \<Rightarrow> 'sig \<Rightarrow> bool"

section \<open>Distributed key generation with metadata\<close>

text \<open>The body of the loop that compares the hash of another party with the own one.\<close>

definition check_hash :: "lib_error \<Rightarrow> bytes \<Rightarrow> u16 \<times> bytes \<Rightarrow> unit \<Rightarrow> unit res" where
  "check_hash e my_hash m acc =
     (if length (snd m) \<noteq> 32 \<or> snd m \<noteq> my_hash then Err e else Ok ())"

definition frozt_dkg_run where
  "frozt_dkg_run L Z rng rng2 my_id (mx :: u16) mn bday is_coordinator =
     pbind (dkg_run L rng my_id mx mn) (\<lambda>(kp, pkp).
     pbind (if is_coordinator
            then pbind (Ret (metadata_create Z rng2 bday)) (\<lambda>(extras, blob).
                 pbind (broadcast blob) (\<lambda>_. Ret (Ok blob)))
            else pbind recv (\<lambda>(sender, blob). Ret (Ok blob))) (\<lambda>metadata_blob.
     pbind (Ret (metadata_hash Z metadata_blob)) (\<lambda>my_hash.
     pbind (broadcast my_hash) (\<lambda>_.
     pbind (recv_loop (unat (mx - 1)) (check_hash LIB_DKG_ERROR my_hash) ()) (\<lambda>_.
     pbind (Ret (metadata_parse metadata_blob)) (\<lambda>(extras, agreed_birthday).
       Ret (bundle_serialize L \<lparr>key_package = kp, pub_key_package = pkp,
              sapling_extras = extras, birthday = agreed_birthday\<rparr>)))))))"

section \<open>Signing with a randomizer\<close>

text \<open>The coordinator's message: the length-prefixed signing package, then the randomizer.\<close>

definition sign_start_encode :: "bytes \<Rightarrow> bytes \<Rightarrow> bytes" where
  "sign_start_encode sp_ser rand_ser = u32_le (word_of_nat (length sp_ser)) @ sp_ser @ rand_ser"

definition sign_start_decode :: "bytes \<Rightarrow> (bytes \<times> bytes) res" where
  "sign_start_decode combined =
     (if length combined < 4 then Err LIB_SERIALIZATION_ERROR
      else
        rbind (slice combined 0 4) (\<lambda>s. rbind (to_array 4 s) (\<lambda>a.
        let sp_len = unat (u32_of_le a) in
        if length combined < 4 + sp_len then Err LIB_SERIALIZATION_ERROR
        else
          rbind (slice combined 4 (4 + sp_len)) (\<lambda>sp_ser.
          rbind (slice combined (4 + sp_len) (length combined)) (\<lambda>rand_ser. Ok (sp_ser, rand_ser))))))"

definition sign_randomizer where
  "sign_randomizer L S R rng pkp signing_package is_coordinator alpha =
     (if is_coordinator then
        pbind (Ret (case alpha of
            Some alpha_bytes \<Rightarrow> ok_or (rand_deserialize R alpha_bytes) LIB_SIGNING_ERROR
          | None \<Rightarrow>
              rbind (ok_or (params_new R (pk_verifying_key L pkp) signing_package rng) LIB_SIGNING_ERROR) (\<lambda>params.
                Ok (params_randomizer R params)))) (\<lambda>randomizer.
        pbind (Ret (ser_err (sp_serialize S signing_package))) (\<lambda>sp_ser.
        pbind (broadcast (sign_start_encode sp_ser (rand_serialize R randomizer))) (\<lambda>_.
          Ret (Ok randomizer))))
      else
        pbind recv (\<lambda>(sender, combined).
        pbind (Ret (sign_start_decode combined)) (\<lambda>(sp_ser, rand_ser).
          Ret (ok_or (rand_deserialize R rand_ser) LIB_SIGNING_ERROR))))"

definition frozt_sign_run where
  "frozt_sign_run L S R rng rng2 kp pkp msg_to_sign is_coordinator num_signers alpha =
     (let my_ident = kp_identifier L kp;
          (nonces, commitments) = commit S (kp_signing_share L kp) rng
      in
      pbind (Ret (ser_err (cm_serialize S commitments))) (\<lambda>commit_bytes.
      pbind (broadcast commit_bytes) (\<lambda>_.
      pbind (recv_loop (usize_pred num_signers) (recv_insert L (cm_deserialize S)) [(my_ident, commitments)]) (\<lambda>commit_map.
      let signing_package = signing_package_new S commit_map msg_to_sign in
      pbind (sign_randomizer L S R rng2 pkp signing_package is_coordinator alpha) (\<lambda>randomizer.
      pbind (Ret (or_blame L (rr_sign R signing_package nonces kp randomizer) LIB_SIGNING_ERROR)) (\<lambda>share.
      pbind (broadcast (share_serialize S share)) (\<lambda>_.
      pbind (recv_loop (usize_pred num_signers) (recv_insert L (share_deserialize S)) [(my_ident, share)]) (\<lambda>shares.
      pbind (Ret (or_blame L (rr_aggregate R signing_package shares pkp
               (params_from_randomizer R (pk_verifying_key L pkp) randomizer)) LIB_SIGNING_ERROR)) (\<lambda>signature.
        Ret (ser_err (sig_serialize S signature)))))))))))"

section \<open>Key import\<close>

definition frozt_key_import_run where
  "frozt_key_import_run L Z rng my_id (mx :: u16) mn holder seed acct bday =
     (let is_seed_holder = (my_id = holder) in
      pbind (Ret (if is_seed_holder
                  then rbind (derive_spending_key Z seed acct) (\<lambda>sk.
                       rbind (ser_err (scalar_deserialize Z sk)) (\<lambda>sk_scalar.
                         Ok (derive_constant_term sk_scalar mx)))
                  else Ok 1)) (\<lambda>constant_term.
      pbind (key_import_run L rng my_id mx mn constant_term) (\<lambda>(kp, pkp).
      pbind (if is_seed_holder
             then pbind (Ret (derive_extras_from_seed Z seed acct)) (\<lambda>extras.
                  pbind (Ret (metadata_create_with_extras extras bday)) (\<lambda>blob.
                  pbind (broadcast blob) (\<lambda>_. Ret (Ok blob))))
             else pbind recv (\<lambda>(sender, blob). Ret (Ok blob))) (\<lambda>metadata_blob.
      pbind (Ret (metadata_hash Z metadata_blob)) (\<lambda>my_hash.
      pbind (broadcast my_hash) (\<lambda>_.
      pbind (recv_loop (unat (mx - 1)) (check_hash LIB_KEY_IMPORT_ERROR my_hash) ()) (\<lambda>_.
      pbind (if is_seed_holder
             then pbind (Ret (derive_spending_key Z seed acct)) (\<lambda>sk.
                  pbind (Ret (spending_key_to_vk L Z sk)) (\<lambda>expected_vk. broadcast expected_vk))
             else pbind recv (\<lambda>(sender, expected_vk).
                  pbind (Ret (ser_err (vk_serialize L (pk_verifying_key L pkp)))) (\<lambda>actual_vk.
                    Ret (if actual_vk \<noteq> expected_vk then Err LIB_KEY_IMPORT_ERROR else Ok ())))) (\<lambda>_.
      pbind (Ret (metadata_parse metadata_blob)) (\<lambda>(extras, agreed_birthday).
        Ret (bundle_serialize L \<lparr>key_package = kp, pub_key_package = pkp,
               sapling_extras = extras, birthday = agreed_birthday\<rparr>))))))))))"

section \<open>The exported functions\<close>

definition frozt_dkg_setupmsg_new where
  "frozt_dkg_setupmsg_new mx mn parties_data (bday :: u64) (out_setup :: unit option) =
     exported (cbind (nonnull parties_data) (\<lambda>pd. cbind (nonnull out_setup) (\<lambda>_.
       cret (rbind (decode_parties (as_slice pd)) (\<lambda>ps.
         Ok (setup_encode \<lparr>max_signers = mx, min_signers = mn, parties = ps\<rparr> @ u64_le bday))))))"

definition frozt_dkg_session_from_setup where
  "frozt_dkg_session_from_setup L Z rng rng2 setup_data my_party_name (out_handle :: unit option) =
     exported (cbind (nonnull setup_data) (\<lambda>sd. cbind (nonnull my_party_name) (\<lambda>nm.
       cbind (nonnull out_handle) (\<lambda>_.
       let data = as_slice sd in
       cbind (cret (
         rbind (setup_decode data) (\<lambda>(setup, consumed).
         if consumed + 8 > length data then Err LIB_SERIALIZATION_ERROR
         else
           rbind (slice data consumed (consumed + 8)) (\<lambda>b.
           rbind (ok_or (frost_id_by_name setup (as_slice nm)) LIB_INVALID_IDENTIFIER) (\<lambda>my_id.
           rbind (coordinator_id setup) (\<lambda>coord. Ok (setup, u64_of_le b, my_id, coord = my_id))))))) (\<lambda>(setup, bday, my_id, is_coordinator).
         start_session Dkg_Session
           (frozt_dkg_run L Z rng rng2 my_id (max_signers setup) (min_signers setup) bday is_coordinator) setup my_id)))))"

definition frozt_dkg_session_feed where
  "frozt_dkg_session_feed session msg out_finished = exported (session_feed as_dkg Dkg_Session session msg out_finished)"

definition frozt_dkg_session_take_msg where
  "frozt_dkg_session_take_msg session out_message = exported (session_take_msg as_dkg Dkg_Session session out_message)"

definition frozt_dkg_session_msg_receiver where
  "frozt_dkg_session_msg_receiver session msg idx out_receiver =
     exported (session_msg_receiver as_dkg Dkg_Session session msg idx out_receiver)"

definition frozt_dkg_session_result where
  "frozt_dkg_session_result session (out_bundle :: unit option) =
     exported (cbind (nonnull out_bundle) (\<lambda>_. session_result as_dkg Ok session))"

definition frozt_dkg_session_free where
  "frozt_dkg_session_free session = exported (session_free as_dkg session)"

definition frozt_sign_setupmsg_new where
  "frozt_sign_setupmsg_new msg_to_sign parties_data (out_setup :: unit option) =
     exported (cbind (nonnull msg_to_sign) (\<lambda>msg. cbind (nonnull parties_data) (\<lambda>pd.
       cbind (nonnull out_setup) (\<lambda>_.
       cret (rbind (decode_parties (as_slice pd)) (\<lambda>ps.
         let num = word_of_nat (length ps) in
         Ok (sign_setup_encode \<lparr>ss_base = \<lparr>max_signers = num, min_signers = num, parties = ps\<rparr>,
               message = as_slice msg\<rparr>)))))))"

text \<open>The two functions that start a signing session; without \<^verbatim>\<open>alpha\<close> the coordinator draws the randomizer.\<close>

definition sign_session_from where
  "sign_session_from L S R rng rng2 sd nm kp_data pkp_data alpha =
     cbind (cret (
       rbind (sign_setup_decode sd) (\<lambda>sst.
       let setup = ss_base sst in
       rbind (ok_or (frost_id_by_name setup nm) LIB_INVALID_IDENTIFIER) (\<lambda>my_id.
       rbind (ser_err (kp_deserialize L kp_data)) (\<lambda>kp.
       rbind (ser_err (pk_deserialize L pkp_data)) (\<lambda>pkp.
       rbind (coordinator_id setup) (\<lambda>coord. Ok (setup, message sst, my_id, kp, pkp, coord = my_id)))))))) (\<lambda>(setup, msg, my_id, kp, pkp, is_coordinator).
       start_session Sign_Session
         (frozt_sign_run L S R rng rng2 kp pkp msg is_coordinator (length (parties setup)) alpha) setup my_id)"

definition frozt_sign_session_from_setup where
  "frozt_sign_session_from_setup L S R rng rng2 setup_data my_party_name kp_arg pkp_arg (out_handle :: unit option) =
     exported (cbind (nonnull setup_data) (\<lambda>sd. cbind (nonnull my_party_name) (\<lambda>nm.
       cbind (nonnull kp_arg) (\<lambda>kp_data. cbind (nonnull pkp_arg) (\<lambda>pkp_data. cbind (nonnull out_handle) (\<lambda>_.
         sign_session_from L S R rng rng2 (as_slice sd) (as_slice nm) (as_slice kp_data) (as_slice pkp_data) None))))))"

definition frozt_sign_session_from_setup_with_alpha where
  "frozt_sign_session_from_setup_with_alpha L S R rng rng2 setup_data my_party_name kp_arg pkp_arg alpha (out_handle :: unit option) =
     exported (cbind (nonnull setup_data) (\<lambda>sd. cbind (nonnull my_party_name) (\<lambda>nm.
       cbind (nonnull kp_arg) (\<lambda>kp_data. cbind (nonnull pkp_arg) (\<lambda>pkp_data.
       cbind (nonnull alpha) (\<lambda>alpha_data. cbind (nonnull out_handle) (\<lambda>_.
         sign_session_from L S R rng rng2 (as_slice sd) (as_slice nm) (as_slice kp_data) (as_slice pkp_data)
           (Some (as_slice alpha_data)))))))))"

definition frozt_sign_session_feed where
  "frozt_sign_session_feed session msg out_finished = exported (session_feed as_sign Sign_Session session msg out_finished)"

definition frozt_sign_session_take_msg where
  "frozt_sign_session_take_msg session out_message = exported (session_take_msg as_sign Sign_Session session out_message)"

definition frozt_sign_session_msg_receiver where
  "frozt_sign_session_msg_receiver session msg idx out_receiver =
     exported (session_msg_receiver as_sign Sign_Session session msg idx out_receiver)"

definition frozt_sign_session_result where
  "frozt_sign_session_result session (out_signature :: unit option) =
     exported (cbind (nonnull out_signature) (\<lambda>_. session_result as_sign Ok session))"

definition frozt_sign_session_free where
  "frozt_sign_session_free session = exported (session_free as_sign session)"

definition frozt_reshare_setupmsg_new where
  "frozt_reshare_setupmsg_new mx mn parties_data old_ids_arg vk_arg (out_setup :: unit option) =
     exported (cbind (nonnull parties_data) (\<lambda>pd. cbind (nonnull old_ids_arg) (\<lambda>oi.
       cbind (nonnull vk_arg) (\<lambda>vk. cbind (nonnull out_setup) (\<lambda>_.
       cret (rbind (decode_parties (as_slice pd)) (\<lambda>ps.
         rbind (decode_u16_list (as_slice oi)) (\<lambda>old_ids.
           Ok (reshare_setup_encode \<lparr>rs_base = \<lparr>max_signers = mx, min_signers = mn, parties = ps\<rparr>,
                 old_identifiers = old_ids, expected_vk = as_slice vk\<rparr>)))))))))"

definition frozt_reshare_session_from_setup where
  "frozt_reshare_session_from_setup L rng setup_data my_party_name old_kp_arg (out_handle :: unit option) =
     exported (cbind (nonnull setup_data) (\<lambda>sd. cbind (nonnull my_party_name) (\<lambda>nm.
       cbind (nonnull old_kp_arg) (\<lambda>okp. cbind (nonnull out_handle) (\<lambda>_.
       cbind (cret (
         rbind (reshare_setup_decode (as_slice sd)) (\<lambda>rst.
         let setup = rs_base rst in
         rbind (ok_or (frost_id_by_name setup (as_slice nm)) LIB_INVALID_IDENTIFIER) (\<lambda>my_id.
         rbind (ser_err (kp_deserialize L (as_slice okp))) (\<lambda>old_kp.
         rbind (rmap (try_id L) (old_identifiers rst)) (\<lambda>old_ids.
         rbind (compute_additive_share L old_kp old_ids (max_signers setup)) (\<lambda>additive_share.
           Ok (setup, my_id, additive_share, expected_vk rst)))))))) (\<lambda>(setup, my_id, additive_share, vk).
         start_session Reshare_Session
           (reshare_run L rng my_id (max_signers setup) (min_signers setup) additive_share vk) setup my_id))))))"

definition frozt_reshare_session_feed where
  "frozt_reshare_session_feed session msg out_finished =
     exported (session_feed as_reshare Reshare_Session session msg out_finished)"

definition frozt_reshare_session_take_msg where
  "frozt_reshare_session_take_msg session out_message =
     exported (session_take_msg as_reshare Reshare_Session session out_message)"

definition frozt_reshare_session_msg_receiver where
  "frozt_reshare_session_msg_receiver session msg idx out_receiver =
     exported (session_msg_receiver as_reshare Reshare_Session session msg idx out_receiver)"

definition frozt_reshare_session_result where
  "frozt_reshare_session_result L session (out_kp :: unit option) (out_pkp :: unit option) =
     exported (cbind (nonnull out_kp) (\<lambda>_. cbind (nonnull out_pkp) (\<lambda>_.
       session_result as_reshare (\<lambda>(kp, pkp).
         rbind (ser_err (kp_serialize L kp)) (\<lambda>kp_bytes.
         rbind (ser_err (pk_serialize L pkp)) (\<lambda>pkp_bytes. Ok (kp_bytes, pkp_bytes)))) session)))"

definition frozt_reshare_session_free where
  "frozt_reshare_session_free session = exported (session_free as_reshare session)"

definition frozt_key_import_setupmsg_new where
  "frozt_key_import_setupmsg_new mx mn parties_data (bday :: u64) holder seed acct (out_setup :: unit option) =
     exported (cbind (nonnull parties_data) (\<lambda>pd. cbind (nonnull seed) (\<lambda>seed_data.
       cbind (nonnull out_setup) (\<lambda>_.
       cret (rbind (decode_parties (as_slice pd)) (\<lambda>ps.
         Ok (key_import_setup_encode \<lparr>ki_base = \<lparr>max_signers = mx, min_signers = mn, parties = ps\<rparr>,
               seed_holder_id = holder, secret_data = as_slice seed_data, account_index = acct\<rparr> @ u64_le bday)))))))"

definition frozt_key_import_session_from_setup where
  "frozt_key_import_session_from_setup L Z rng setup_data my_party_name (out_handle :: unit option) =
     exported (cbind (nonnull setup_data) (\<lambda>sd. cbind (nonnull my_party_name) (\<lambda>nm.
       cbind (nonnull out_handle) (\<lambda>_.
       let data = as_slice sd in
       cbind (cret (
         rbind (key_import_setup_decode data) (\<lambda>ki.
         let consumed = length (key_import_setup_encode ki) in
         if consumed + 8 > length data then Err LIB_SERIALIZATION_ERROR
         else
           rbind (slice data consumed (consumed + 8)) (\<lambda>b.
           rbind (ok_or (frost_id_by_name (ki_base ki) (as_slice nm)) LIB_INVALID_IDENTIFIER) (\<lambda>my_id.
             Ok (ki, u64_of_le b, my_id)))))) (\<lambda>(ki, bday, my_id).
         start_session Key_Import_Session
           (frozt_key_import_run L Z rng my_id (max_signers (ki_base ki)) (min_signers (ki_base ki))
              (seed_holder_id ki) (secret_data ki) (account_index ki) bday) (ki_base ki) my_id)))))"

definition frozt_key_import_session_feed where
  "frozt_key_import_session_feed session msg out_finished =
     exported (session_feed as_key_import Key_Import_Session session msg out_finished)"

definition frozt_key_import_session_take_msg where
  "frozt_key_import_session_take_msg session out_message =
     exported (session_take_msg as_key_import Key_Import_Session session out_message)"

definition frozt_key_import_session_msg_receiver where
  "frozt_key_import_session_msg_receiver session msg idx out_receiver =
     exported (session_msg_receiver as_key_import Key_Import_Session session msg idx out_receiver)"

definition frozt_key_import_session_result where
  "frozt_key_import_session_result session (out_bundle :: unit option) =
     exported (cbind (nonnull out_bundle) (\<lambda>_. session_result as_key_import Ok session))"

definition frozt_key_import_session_free where
  "frozt_key_import_session_free session = exported (session_free as_key_import session)"

definition frozt_handle_free where
  "frozt_handle_free h = handle_free_call h"

end
