(* ===== verification/Frozt_Session_Properties.thy ===== *)
theory Frozt_Session_Properties
  imports Frozt_Session
begin

text \<open>
  Properties of the Zcash sessions: agreement on the metadata, the start of sessions from setup
  messages, and absence of panics.
\<close>

section \<open>Metadata agreement\<close>

lemma rfold_check_hash:
  "length h = 32 \<Longrightarrow> rfold (check_hash e h) ms () = (if \<forall>m \<in> set ms. snd m = h then Ok () else Err e)"
  by (induction ms) (auto simp: check_hash_def)

lemma poll_check_hashes:
  assumes "length h = 32"
  shows "fst (poll (pbind (recv_loop (length fs) (check_hash e h) ()) f) fs out) =
    (if \<forall>m \<in> set fs. snd (recv_frame m) = h then fst (poll (f ()) [] out) else Ret (Err e))"
proof (induction fs)
  case (Cons m fs)
  then show ?case
    using assms by (auto simp: check_hash_def recv_def poll_pbind split: prod.splits proc.splits res.splits)
qed (simp split: prod.splits)

text \<open>The part of the key generation after the metadata blob is known, with \<open>n\<close> other parties.\<close>

definition agreement where
  "agreement L Z kp pkp n blob =
     pbind (Ret (metadata_hash Z blob)) (\<lambda>my_hash.
     pbind (broadcast my_hash) (\<lambda>_.
     pbind (recv_loop n (check_hash LIB_DKG_ERROR my_hash) ()) (\<lambda>_.
     pbind (Ret (metadata_parse blob)) (\<lambda>(extras, agreed_birthday).
       Ret (bundle_serialize L \<lparr>key_package = kp, pub_key_package = pkp,
              sapling_extras = extras, birthday = agreed_birthday\<rparr>)))))"

lemma metadata_parse_eq:
  assumes "length blob = 105"
  shows "metadata_parse blob = (if hd blob \<noteq> METADATA_VERSION then Err LIB_SERIALIZATION_ERROR
        else Ok (drop 9 blob, u64_of_le (take 8 (drop 1 blob))))"
proof -
  have "hd blob = blob ! 0" using assms by (intro hd_conv_nth) auto
  then show ?thesis using assms by (simp add: metadata_parse_def index_def slice_def to_array_def)
qed

lemma poll_agreement:
  fixes Z :: "('rng, 'f, 'xsk) zcash"
  defines "H \<equiv> blake2b Z (str_bytes ''frozt_meta_hash_'')"
  assumes "length (H blob) = 32" "inj_on H (insert blob (snd ` set others))"
  shows "fst (poll (agreement L Z kp pkp (length others) blob) (map (\<lambda>(i, b). wrap_sender i (H b)) others) o') =
     Ret (if length blob \<noteq> 105 then Err LIB_INVALID_BUFFER_SIZE
          else if \<exists>x \<in> set others. snd x \<noteq> blob then Err LIB_DKG_ERROR
          else if hd blob \<noteq> METADATA_VERSION then Err LIB_SERIALIZATION_ERROR
          else bundle_serialize L \<lparr>key_package = kp, pub_key_package = pkp,
                 sapling_extras = drop 9 blob, birthday = u64_of_le (take 8 (drop 1 blob))\<rparr>)"
proof (cases "length blob = 105")
  case True
  define fs where "fs = map (\<lambda>(i, b). wrap_sender i (H b)) others"
  have len: "length others = length fs" by (simp add: fs_def)
  have hash: "metadata_hash Z blob = Ok (H blob)" using True by (simp add: metadata_hash_def H_def)
  have same: "(\<forall>m \<in> set fs. snd (recv_frame m) = H blob) \<longleftrightarrow> (\<forall>x \<in> set others. snd x = blob)"
    using inj_onD [OF assms(3), of _ blob] by (force simp: fs_def split_def)
  show ?thesis
    unfolding agreement_def fs_def [symmetric] len
    by (auto simp: True hash broadcast_def poll_check_hashes [OF assms(2)] same metadata_parse_eq)
qed (simp add: agreement_def metadata_hash_def)

section \<open>No panics\<close>

definition zcash_ok :: "('rng, 'f, 'xsk) zcash \<Rightarrow> bool" where
  "zcash_ok Z \<longleftrightarrow> (\<forall>x. length (xsk_dfvk Z x) = 128)"

lemma metadata_neq_Panic [simp]:
  "metadata_parse d \<noteq> Panic" "metadata_hash Z d \<noteq> Panic" "metadata_create Z rng b \<noteq> Panic"
  "metadata_create_with_extras x b \<noteq> Panic"
  by (auto simp: metadata_parse_def metadata_hash_def metadata_create_def metadata_create_with_extras_def
      generate_extras_raw_def index_def slice_def to_array_def split: prod.splits)

lemma bundle_serialize_neq_Panic [simp]: "bundle_serialize L b \<noteq> Panic"
  by (auto simp: bundle_serialize_def rbind_eq_Panic)

lemma check_hash_neq_Panic [simp]: "check_hash e h m u \<noteq> Panic"
  by (simp add: check_hash_def)

lemma derived_keys_neq_Panic [simp]:
  "derive_spending_key Z seed acct \<noteq> Panic" "spending_key_to_vk L Z sk \<noteq> Panic"
  by (auto simp: derive_spending_key_def spending_key_to_vk_def hardened_account_child_def rbind_eq_Panic)

lemma derive_extras_neq_Panic: "zcash_ok Z \<Longrightarrow> derive_extras_from_seed Z seed acct \<noteq> Panic"
  by (auto simp: derive_extras_from_seed_def zcash_ok_def hardened_account_child_def slice_def Let_def)

lemma sign_start_decode_neq_Panic [simp]: "sign_start_decode c \<noteq> Panic"
  by (auto simp: sign_start_decode_def slice_def to_array_def Let_def)

lemma frozt_dkg_run_no_panic: "pall (\<lambda>r. r \<noteq> Panic) (frozt_dkg_run L Z rng rng2 my_id mx mn bday c)"
  unfolding frozt_dkg_run_def case_prod_unfold
  by (cases c; simp only: if_True if_False)
     (intro no_panic_intros pall_no_panic_Ret ceremonies_no_panic pall_no_panic_comm; simp)+

lemma frozt_sign_run_no_panic:
  "pall (\<lambda>r. r \<noteq> Panic) (frozt_sign_run L S R rng rng2 kp pkp msg c n alpha)"
  unfolding frozt_sign_run_def sign_randomizer_def case_prod_unfold Let_def
  by (cases c; cases alpha; simp only: if_True if_False option.case)
     (intro no_panic_intros pall_no_panic_Ret pall_no_panic_comm; simp add: rbind_eq_Panic)+

lemma frozt_key_import_run_no_panic:
  "zcash_ok Z \<Longrightarrow> pall (\<lambda>r. r \<noteq> Panic) (frozt_key_import_run L Z rng my_id mx mn holder seed acct bday)"
  unfolding frozt_key_import_run_def case_prod_unfold Let_def
  by (cases "my_id = holder"; simp only: if_True if_False simp_thms)
     (intro no_panic_intros pall_no_panic_Ret ceremonies_no_panic pall_no_panic_comm;
       simp add: rbind_eq_Panic derive_extras_neq_Panic)+

text \<open>A concrete value for the Zcash argument.\<close>

definition demo_zcash :: "(nat, rat, nat) zcash" where
  "demo_zcash = \<lparr>
     blake2b = (\<lambda>p d. take 32 (d @ replicate 32 0)),
     fr_random_repr = (\<lambda>r. (replicate 32 (word_of_nat r), r + 1)),
     fill_bytes = (\<lambda>n r. (replicate n (word_of_nat r), r + 1)),
     xsk_master = length, xsk_from_path = (\<lambda>x p. x + length p),
     xsk_ask = (\<lambda>x. [word_of_nat x]), xsk_nsk = (\<lambda>x. replicate 32 (word_of_nat x)),
     xsk_ovk = (\<lambda>x. replicate 32 (word_of_nat x)), xsk_dfvk = (\<lambda>x. replicate 128 (word_of_nat x)),
     scalar_deserialize = (\<lambda>b. case b of [x] \<Rightarrow> Some (rat_of_byte x) | _ \<Rightarrow> None)\<rparr>"

lemma zcash_ok_demo: "zcash_ok demo_zcash"
  by (simp add: zcash_ok_def demo_zcash_def)

section \<open>Properties\<close>

text \<open>The hosts' two steps fit together: the bytes that \<^verbatim>\<open>frozt_dkg_setupmsg_new\<close> makes from a party list,
  a threshold and a birthday start, for each named party, a session whose task has exactly these
  parameters, with the first party as coordinator.\<close>

theorem dkg_setup_starts_session:
  assumes "setup_wf s" "p \<in> set (parties s)" "distinct (map name (parties s))"
    and "out = Some ()"
  shows "frozt_dkg_session_from_setup L Z rng rng2 (Some (go_slice_of (setup_encode s @ u64_le bday)))
      (Some (go_slice_of (name p))) out =
    exported (start_session Dkg_Session
      (frozt_dkg_run L Z rng rng2 (frost_id p) (max_signers s) (min_signers s) bday
         (frost_id (hd (parties s)) = frost_id p)) s (frost_id p))"
proof -
  from assms(2) obtain xs ys where ps: "parties s = xs @ p # ys" by (auto dest: split_list)
  with assms(3) have "name p \<notin> name ` set xs" by simp
  then have "\<forall>q \<in> set xs. name q \<noteq> name p" by (metis imageI)
  then have "find (\<lambda>q. name q = name p) xs = None" by (simp add: find_None_iff)
  then have id: "frost_id_by_name s (name p) = Some (frost_id p)"
    by (simp add: frost_id_by_name_def ps find_append)
  have dec: "setup_decode (setup_encode s @ u64_le bday) = Ok (s, length (setup_encode s))"
    using assms(1) by (simp add: setup_decode_iff)
  have sl: "slice (setup_encode s @ u64_le bday) (length (setup_encode s)) (length (setup_encode s) + 8) = Ok (u64_le bday)"
    by (simp add: slice_def)
  have co: "coordinator_id s = Ok (frost_id (hd (parties s)))"
    using assms(2) by (cases "parties s") (simp_all add: coordinator_id_def)
  show ?thesis
    unfolding frozt_dkg_session_from_setup_def assms(4)
    by (intro arg_cong [where f = exported] ext) (simp add: Let_def dec sl id co)
qed

theorem dkg_setup_starts_session_witness:
  "let s = \<lparr>max_signers = 2, min_signers = 2,
       parties = [\<lparr>frost_id = 1, name = [97]\<rparr>, \<lparr>frost_id = 2, name = [98]\<rparr>]\<rparr> in
   (frozt_dkg_session_from_setup :: _ \<Rightarrow> _ \<Rightarrow> _ \<Rightarrow> _ \<Rightarrow> _ \<Rightarrow> _ \<Rightarrow> _ \<Rightarrow> (unit, unit, unit, unit, unit) frozt_obj ffi \<Rightarrow> _) demo demo_zcash 3 (4 :: nat) (Some (go_slice_of (setup_encode s @ u64_le 7)))
      (Some (go_slice_of (name \<lparr>frost_id = 2, name = [98]\<rparr>))) (Some ()) =
    exported (start_session Dkg_Session
      (frozt_dkg_run demo demo_zcash 3 4 (frost_id \<lparr>frost_id = 2, name = [98]\<rparr>) (max_signers s) (min_signers s) 7
         (frost_id (hd (parties s)) = frost_id \<lparr>frost_id = 2, name = [98]\<rparr>)) s (frost_id \<lparr>frost_id = 2, name = [98]\<rparr>))"
  unfolding Let_def
  by (rule dkg_setup_starts_session) (simp_all add: setup_wf_def party_wf_def fits16_def)

text \<open>C23: The end of the Zcash key generation, for the coordinator, who creates the metadata blob, and for the
  other parties, who receive it. After the DKG a party with the blob \<open>blob\<close> that receives the hashes of
  the blobs \<open>others\<close> of the other parties ends with \<^verbatim>\<open>LIB_INVALID_BUFFER_SIZE\<close> if the blob has not its
  105 bytes, with \<^verbatim>\<open>LIB_DKG_ERROR\<close> if one of the others holds another blob, with
  \<^verbatim>\<open>LIB_SERIALIZATION_ERROR\<close> if they all hold this blob but its version is unknown, and otherwise with the
  bundle of its key, the extras and the birthday of the blob; these are the ones that the coordinator
  chose. BLAKE2b is taken to give 32 bytes and to have no collision among these blobs.\<close>

theorem dkg_metadata_agreement:
  fixes Z :: "('rng2, 'f2, 'xsk) zcash"
  defines "H \<equiv> blake2b Z (str_bytes ''frozt_meta_hash_'')"
  assumes "poll (dkg_run L rng my_id mx mn) ms [] = (Ret (Ok (kp, pkp)), [], out)"
    and "length others = unat (mx - 1)"
    and "coordinator \<longrightarrow> metadata_create Z rng2 bday = Ok (extras, blob)"
    and "length (H blob) = 32" "inj_on H (insert blob (snd ` set others))"
  shows "fst (poll (frozt_dkg_run L Z rng rng2 my_id mx mn bday coordinator)
       (ms @ (if coordinator then [] else [wrap_sender coord blob]) @ map (\<lambda>(i, b). wrap_sender i (H b)) others) []) =
     Ret (if length blob \<noteq> 105 then Err LIB_INVALID_BUFFER_SIZE
          else if \<exists>x \<in> set others. snd x \<noteq> blob then Err LIB_DKG_ERROR
          else if hd blob \<noteq> METADATA_VERSION then Err LIB_SERIALIZATION_ERROR
          else bundle_serialize L \<lparr>key_package = kp, pub_key_package = pkp,
                 sapling_extras = drop 9 blob, birthday = u64_of_le (take 8 (drop 1 blob))\<rparr>) \<and>
     (coordinator \<longrightarrow> hd blob = METADATA_VERSION \<and> drop 9 blob = extras \<and> u64_of_le (take 8 (drop 1 blob)) = bday)"
proof (rule conjI)
  let ?own = "if coordinator then [] else [wrap_sender coord blob]"
  let ?hashes = "map (\<lambda>(i, b). wrap_sender i (H b)) others"
  have "fst (poll (frozt_dkg_run L Z rng rng2 my_id mx mn bday coordinator) (ms @ ?own @ ?hashes) []) =
     fst (poll (agreement L Z kp pkp (length others) blob) ?hashes (if coordinator then out @ [u16_le 0 @ blob] else out))"
    using assms(3,4) unfolding frozt_dkg_run_def agreement_def
    by (auto simp: poll_after [OF assms(2)] recv_def broadcast_def split: prod.splits)
  then show "fst (poll (frozt_dkg_run L Z rng rng2 my_id mx mn bday coordinator) (ms @ ?own @ ?hashes) []) =
     Ret (if length blob \<noteq> 105 then Err LIB_INVALID_BUFFER_SIZE
          else if \<exists>x \<in> set others. snd x \<noteq> blob then Err LIB_DKG_ERROR
          else if hd blob \<noteq> METADATA_VERSION then Err LIB_SERIALIZATION_ERROR
          else bundle_serialize L \<lparr>key_package = kp, pub_key_package = pkp,
                 sapling_extras = drop 9 blob, birthday = u64_of_le (take 8 (drop 1 blob))\<rparr>)"
    using poll_agreement [OF assms(5,6) [unfolded H_def]] by (simp only: H_def)
next
  show "coordinator \<longrightarrow> hd blob = METADATA_VERSION \<and> drop 9 blob = extras \<and> u64_of_le (take 8 (drop 1 blob)) = bday"
    using assms(4) by (auto simp: metadata_create_def elim!: rbind_OkE)
qed

text \<open>The coordinator of two, and the other party holds its blob.\<close>

theorem dkg_metadata_agreement_witness:
  "fst (poll (frozt_dkg_run demo demo_zcash 3 4 1 2 2 9 True)
       [wrap_sender 2 [5, 6], wrap_sender 2 [11],
        wrap_sender 2 (blake2b demo_zcash (str_bytes ''frozt_meta_hash_'')
          ([METADATA_VERSION] @ u64_le 9 @ replicate 32 4 @ replicate 32 5 @ replicate 32 6))] []) =
   Ret (bundle_serialize demo \<lparr>key_package = (1, 18), pub_key_package = 8,
          sapling_extras = replicate 32 4 @ replicate 32 5 @ replicate 32 6, birthday = 9\<rparr>)"
proof -
  let ?extras = "replicate 32 4 @ replicate 32 5 @ replicate 32 6" and ?ms = "[wrap_sender 2 [5, 6], wrap_sender 2 [11]]"
  let ?blob = "[METADATA_VERSION] @ u64_le 9 @ ?extras"
  have dkg: "poll (dkg_run demo 3 1 2 2) ?ms [] = (Ret (Ok ((1, 18), 8)), [], [[0, 0, 3, 4], [2, 0, 11]])"
    by (rule returned_Some) code_simp
  have "metadata_create demo_zcash 4 9 = Ok (?extras, ?blob)"
    by (simp add: metadata_create_def generate_extras_raw_def demo_zcash_def)
  then show ?thesis
    using dkg_metadata_agreement [OF dkg, where Z = demo_zcash and ?rng2.0 = 4 and bday = 9 and coordinator = True
        and extras = ?extras and blob = ?blob and others = "[(2, ?blob)]"]
    by (simp add: demo_zcash_def)
qed

text \<open>No exported function that starts a session panics: whatever bytes the host passes, and whatever the
  libraries return, as long as the handle table has room the outcome is not the unknown error that
  stands for a caught panic (or a full table).\<close>

theorem session_starts_never_panic:
  assumes "table_wf (table st)" "zcash_ok Z" "length (hmap (table st)) < MAX_HANDLES"
  shows "fst (frozt_dkg_session_from_setup L Z rng rng2 sd nm out st) \<noteq> LIB_UNKNOWN_ERROR \<and>
    fst (frozt_sign_session_from_setup L S R rng rng2 sd nm kp pkp out st) \<noteq> LIB_UNKNOWN_ERROR \<and>
    fst (frozt_reshare_session_from_setup L rng sd nm kp out st) \<noteq> LIB_UNKNOWN_ERROR \<and>
    fst (frozt_key_import_session_from_setup L Z rng sd nm out st) \<noteq> LIB_UNKNOWN_ERROR"
  using assms(3)
  unfolding frozt_dkg_session_from_setup_def frozt_sign_session_from_setup_def sign_session_from_def
    frozt_reshare_session_from_setup_def frozt_key_import_session_from_setup_def exported_nonnull Let_def case_prod_unfold
  by (intro conjI; auto split: option.splits dest!: checked_start_unknown simp: assms(1) slice_def clean_coordinator clean_rmap
      frozt_dkg_run_no_panic frozt_sign_run_no_panic ceremonies_no_panic frozt_key_import_run_no_panic [OF assms(2)])

theorem session_starts_never_panic_witness:
  "fst (frozt_key_import_session_from_setup demo demo_zcash 3 (Some (go_slice_of [1, 2])) (Some (go_slice_of [])) (Some ())
      (\<lparr>table = initial_table, blamed = 0\<rparr> :: (unit, unit, unit, nat \<times> rat, rat) frozt_obj ffi)) \<noteq> LIB_UNKNOWN_ERROR"
  by (rule conjunct2, rule conjunct2, rule conjunct2, rule session_starts_never_panic [OF _ zcash_ok_demo])
     (simp_all add: table_wf_def initial_table_def MAX_HANDLES_def)

end
