(* ===== verification/Frozt_Rounds.thy ===== *)
theory Frozt_Rounds
  imports Frozt_Session_Properties
begin

text \<open>
  The round-based functions that \<^verbatim>\<open>frozt-lib\<close> exports: \<^verbatim>\<open>keygen.rs\<close>, \<^verbatim>\<open>reshare.rs\<close>, \<^verbatim>\<open>key_import.rs\<close>
  and \<^verbatim>\<open>sign.rs\<close>. Secrets and nonces travel between the rounds behind handles, and a round takes
  its secret out of the table, so that it can be used once.
\<close>

section \<open>keygen.rs\<close>

definition frozt_dkg_part1 where
  "frozt_dkg_part1 L rng i mx mn (out_secret :: unit option) (out_package :: unit option) =
     exported (cbind (nonnull out_secret) (\<lambda>_. cbind (nonnull out_package) (\<lambda>_.
       cbind (cret (dkg_part1 L rng i mx mn)) (\<lambda>(secret, pkg_bytes).
       cbind (h_allocate (Round1_Secret secret)) (\<lambda>h. cret (Ok (h, pkg_bytes)))))))"

definition frozt_dkg_part2 where
  "frozt_dkg_part2 L secret round1_packages (out_secret :: unit option) (out_packages :: unit option) =
     exported (cbind (nonnull round1_packages) (\<lambda>r1_data. cbind (nonnull out_secret) (\<lambda>_.
       cbind (nonnull out_packages) (\<lambda>_.
       cbind (h_take as_round1 secret) (\<lambda>secret_pkg.
       cbind (cret (dkg_part2 L secret_pkg (as_slice r1_data))) (\<lambda>(secret2, r2_bytes).
       cbind (h_allocate (Round2_Secret secret2)) (\<lambda>h. cret (Ok (h, r2_bytes)))))))))"

text \<open>The serialized pair of packages with which the third rounds end.\<close>

definition packages_out where
  "packages_out L = (\<lambda>(kp, pkp).
     rbind (ser_err (kp_serialize L kp)) (\<lambda>kp_bytes.
     rbind (ser_err (pk_serialize L pkp)) (\<lambda>pkp_bytes. Ok (kp_bytes, pkp_bytes))))"

definition frozt_dkg_part3 where
  "frozt_dkg_part3 L secret round1_packages round2_packages (out_kp :: unit option) (out_pkp :: unit option) =
     exported (cbind (nonnull round1_packages) (\<lambda>r1_data. cbind (nonnull round2_packages) (\<lambda>r2_data.
       cbind (nonnull out_kp) (\<lambda>_. cbind (nonnull out_pkp) (\<lambda>_.
       cbind (h_take as_round2 secret) (\<lambda>secret_pkg.
         cret (rbind (dkg_part3 L secret_pkg (as_slice r1_data) (as_slice r2_data)) (packages_out L))))))))"

section \<open>reshare.rs\<close>

definition frozt_reshare_part1 where
  "frozt_reshare_part1 L rng i mx mn old_key_package old_ids_arg (out_secret :: unit option) (out_package :: unit option) =
     exported (cbind (nonnull out_secret) (\<lambda>_. cbind (nonnull out_package) (\<lambda>_.
       if mn < 2 \<or> mx < mn then cret (Err LIB_RESHARE_ERROR)
       else
         cbind (case old_key_package of
             Some kp_data \<Rightarrow>
               if \<not> go_slice_is_empty kp_data then
                 cbind (nonnull old_ids_arg) (\<lambda>old_ids_data. cret (
                   rbind (decode_old_identifiers L (as_slice old_ids_data)) (\<lambda>old_ids.
                   rbind (ser_err (kp_deserialize L (as_slice kp_data))) (\<lambda>kp.
                     compute_additive_share L kp old_ids mx))))
               else cret (Ok 1)
           | None \<Rightarrow> cret (Ok 1)) (\<lambda>additive_share.
         cbind (cret (reshare_part1 L rng i mx mn additive_share)) (\<lambda>(secret, pkg_bytes).
         cbind (h_allocate (Round1_Secret secret)) (\<lambda>h. cret (Ok (h, pkg_bytes))))))))"

definition frozt_reshare_part3 where
  "frozt_reshare_part3 L secret round1_packages round2_packages vk_arg (out_kp :: unit option) (out_pkp :: unit option) =
     exported (cbind (nonnull round1_packages) (\<lambda>r1_data. cbind (nonnull round2_packages) (\<lambda>r2_data.
       cbind (nonnull vk_arg) (\<lambda>vk_data. cbind (nonnull out_kp) (\<lambda>_. cbind (nonnull out_pkp) (\<lambda>_.
       cbind (h_take as_round2 secret) (\<lambda>secret_pkg.
         cret (rbind (reshare_part3 L secret_pkg (as_slice r1_data) (as_slice r2_data) (as_slice vk_data))
                 (packages_out L)))))))))"

section \<open>key_import.rs\<close>

text \<open>The verifying key and the extras are handed out only on the side that has the seed.\<close>

definition frozt_key_import_part1 where
  "frozt_key_import_part1 L Z rng i mx mn seed acct (out_secret :: unit option) (out_package :: unit option)
       (out_vk :: unit option) (out_extras :: unit option) =
     exported (cbind (nonnull out_secret) (\<lambda>_. cbind (nonnull out_package) (\<lambda>_.
       if mn < 2 \<or> mx < mn then cret (Err LIB_KEY_IMPORT_ERROR)
       else
         cbind (case seed of
             Some seed_data \<Rightarrow>
               if \<not> go_slice_is_empty seed_data then cret (
                 rbind (derive_spending_key Z (as_slice seed_data) acct) (\<lambda>sk.
                 rbind (spending_key_to_vk L Z sk) (\<lambda>vk.
                 rbind (derive_extras_from_seed Z (as_slice seed_data) acct) (\<lambda>extras.
                 rbind (ser_err (scalar_deserialize Z sk)) (\<lambda>sk_scalar.
                   Ok (derive_constant_term sk_scalar mx,
                       map_option (\<lambda>_. vk) out_vk, map_option (\<lambda>_. extras) out_extras))))))
               else cret (Ok (1, None, None))
           | None \<Rightarrow> cret (Ok (1, None, None))) (\<lambda>(constant_term, vk, extras).
         cbind (cret (key_import_part1 L rng i mx mn constant_term)) (\<lambda>(secret, pkg_bytes).
         cbind (h_allocate (Round1_Secret secret)) (\<lambda>h. cret (Ok (h, pkg_bytes, vk, extras))))))))"

definition frozt_key_import_part3 where
  "frozt_key_import_part3 L secret round1_packages round2_packages vk_arg (out_kp :: unit option) (out_pkp :: unit option) =
     exported (cbind (nonnull round1_packages) (\<lambda>r1_data. cbind (nonnull round2_packages) (\<lambda>r2_data.
       cbind (nonnull vk_arg) (\<lambda>vk_data. cbind (nonnull out_kp) (\<lambda>_. cbind (nonnull out_pkp) (\<lambda>_.
       cbind (h_take as_round2 secret) (\<lambda>secret_pkg.
         cret (rbind (key_import_part3 L secret_pkg (as_slice r1_data) (as_slice r2_data) (as_slice vk_data))
                 (packages_out L)))))))))"

section \<open>sign.rs\<close>

definition frozt_decode_shares_map where
  "frozt_decode_shares_map L S data =
     decode_map (\<lambda>b. ser_err (id_deserialize L b)) (\<lambda>b. ser_err (share_deserialize S b)) data"

definition frozt_sign_commit where
  "frozt_sign_commit L S rng kp_arg (out_nonces :: unit option) (out_commitments :: unit option) =
     exported (cbind (nonnull kp_arg) (\<lambda>kp_data. cbind (nonnull out_nonces) (\<lambda>_.
       cbind (nonnull out_commitments) (\<lambda>_.
       cbind (cret (rbind (ser_err (kp_deserialize L (as_slice kp_data))) (sign_commit L S rng))) (\<lambda>(nonces, commitments_bytes).
       cbind (h_allocate (Signing_Nonces nonces)) (\<lambda>h. cret (Ok (h, commitments_bytes))))))))"

definition frozt_sign_new_package where
  "frozt_sign_new_package L S R rng msg_arg commitments_map pkp_arg (out_sp :: unit option) (out_seed :: unit option) =
     exported (cbind (nonnull msg_arg) (\<lambda>msg. cbind (nonnull commitments_map) (\<lambda>cm_data.
       cbind (nonnull pkp_arg) (\<lambda>pkp_data. cbind (nonnull out_sp) (\<lambda>_. cbind (nonnull out_seed) (\<lambda>_. cret (
         rbind (decode_map (\<lambda>b. ser_err (id_deserialize L b)) (\<lambda>b. ser_err (cm_deserialize S b)) (as_slice cm_data)) (\<lambda>commitments.
         rbind (ser_err (pk_deserialize L (as_slice pkp_data))) (\<lambda>pkp.
         let signing_package = signing_package_new S commitments (as_slice msg) in
         rbind (ok_or (params_new R (pk_verifying_key L pkp) signing_package rng) LIB_SIGNING_ERROR) (\<lambda>params.
         rbind (ser_err (sp_serialize S signing_package)) (\<lambda>sp_bytes.
           Ok (sp_bytes, rand_serialize R (params_randomizer R params)))))))))))))"

definition frozt_sign where
  "frozt_sign L S R sp_arg nonces kp_arg seed_arg (out_share :: unit option) =
     exported (cbind (nonnull sp_arg) (\<lambda>sp_data. cbind (nonnull kp_arg) (\<lambda>kp_data.
       cbind (nonnull seed_arg) (\<lambda>seed_data. cbind (nonnull out_share) (\<lambda>_.
       cbind (cret (ser_err (sp_deserialize R (as_slice sp_data)))) (\<lambda>sp.
       cbind (h_take as_nonces nonces) (\<lambda>n. cret (
         rbind (ser_err (kp_deserialize L (as_slice kp_data))) (\<lambda>kp.
         rbind (ok_or (rand_deserialize R (as_slice seed_data)) LIB_SIGNING_ERROR) (\<lambda>randomizer.
         rbind (or_blame L (rr_sign R sp n kp randomizer) LIB_SIGNING_ERROR) (\<lambda>share.
           Ok (share_serialize S share))))))))))))"

definition frozt_sign_aggregate where
  "frozt_sign_aggregate L S R sp_arg shares_map pkp_arg seed_arg (out_signature :: unit option) =
     exported (cbind (nonnull sp_arg) (\<lambda>sp_data. cbind (nonnull shares_map) (\<lambda>sm_data.
       cbind (nonnull pkp_arg) (\<lambda>pkp_data. cbind (nonnull seed_arg) (\<lambda>seed_data.
       cbind (nonnull out_signature) (\<lambda>_. cret (
         rbind (ser_err (sp_deserialize R (as_slice sp_data))) (\<lambda>sp.
         rbind (frozt_decode_shares_map L S (as_slice sm_data)) (\<lambda>shares.
         rbind (ser_err (pk_deserialize L (as_slice pkp_data))) (\<lambda>pkp.
         rbind (ok_or (rand_deserialize R (as_slice seed_data)) LIB_SIGNING_ERROR) (\<lambda>randomizer.
         rbind (or_blame L (rr_aggregate R sp shares pkp
             (params_from_randomizer R (pk_verifying_key L pkp) randomizer)) LIB_SIGNING_ERROR) (\<lambda>signature.
           ser_err (sig_serialize S signature)))))))))))))"

definition frozt_verify_signature where
  "frozt_verify_signature L R msg_arg sig_arg pkp_arg seed_arg =
     exported (cbind (nonnull msg_arg) (\<lambda>msg. cbind (nonnull sig_arg) (\<lambda>sig_data.
       cbind (nonnull pkp_arg) (\<lambda>pkp_data. cbind (nonnull seed_arg) (\<lambda>seed_data. cret (
         rbind (ser_err (pk_deserialize L (as_slice pkp_data))) (\<lambda>pkp.
         rbind (ok_or (rand_deserialize R (as_slice seed_data)) LIB_SIGNING_ERROR) (\<lambda>randomizer.
         rbind (ser_err (sig_deserialize R (as_slice sig_data))) (\<lambda>sig.
           guard (rr_verify R (params_from_randomizer R (pk_verifying_key L pkp) randomizer) (as_slice msg) sig)
             LIB_SIGNING_ERROR)))))))))"

section \<open>Lemmas\<close>

lemma h_take_ok:
  assumes "table_wf (table st)" "h \<noteq> 0" "entries (table st) h = Some (Some obj)" "down obj = Some x"
  shows "\<exists>t. h_take down h st = (Ok x, st\<lparr>table := t\<rparr>) \<and> table_wf t \<and> entries t = (entries (table st))(h := None)"
  using handles.remove_ok [where down = down, OF assms] by (auto simp: h_take_def lift_handle_def)

lemma h_take_gone: "h \<noteq> 0 \<Longrightarrow> entries (table st) h = None \<Longrightarrow> h_take down h st = (Err LIB_INVALID_HANDLE, st)"
  by (simp add: h_take_def handle_take_def lift_handle_def)

lemma cbind_Ok: "c st = (Ok x, st') \<Longrightarrow> cbind c f st = f x st'"
  by (simp add: cbind_def)

lemma cbind_Err: "c st = (Err e, st') \<Longrightarrow> cbind c f st = (Err e, st')"
  by (simp add: cbind_def)

lemma table_exported: "table (snd (snd (exported c st))) = table (snd (c st))"
  by (auto simp: exported_def split: prod.splits)

lemma allocate_in_frozt:
  assumes "table_wf (table st)" "h_allocate obj st = (Ok h, st')"
  shows "table_wf (table st')" "h \<noteq> 0" "entries (table st) h = None"
    "entries (table st') = (entries (table st))(h \<mapsto> Some obj)"
proof -
  obtain r t where rt: "allocate obj (table st) = (r, t)" by (cases "allocate obj (table st)")
  with assms(2) have "r = Inr h" "st' = st\<lparr>table := t\<rparr>"
    by (auto simp: h_allocate_def lift_handle_def split: sum.splits)
  with handles.alloc_ok [OF assms(1), of obj h t] rt
  show "table_wf (table st')" "h \<noteq> 0" "entries (table st) h = None"
    "entries (table st') = (entries (table st))(h \<mapsto> Some obj)" by auto
qed

section \<open>Properties\<close>

text \<open>Signing nonces are used at most once. When a signing call reaches its nonces (its pointers are not null
  and the signing package is well formed), the nonces are out of the table afterwards whether the call
  succeeds or fails, and every later call with the same handle on that state fails.\<close>

theorem signing_nonces_single_use:
  assumes "table_wf (table st)" "h \<noteq> 0" "map_of (hmap (table st)) h = Some (Some (Signing_Nonces n))"
    and "sp_deserialize R (as_slice sp) \<noteq> None"
    and "frozt_sign L S R (Some sp) h (Some kp) (Some seed) (Some ()) st = (code, share, st')"
  shows "map_of (hmap (table st')) h = None \<and>
    fst (frozt_sign L S R sp2 h kp2 seed2 out2 st') \<noteq> LIB_OK"
proof -
  obtain t where t: "h_take as_nonces h st = (Ok n, st\<lparr>table := t\<rparr>)" "entries t = (entries (table st))(h := None)"
    using h_take_ok [OF assms(1,2,3), of as_nonces n] by auto
  obtain spv where spv: "sp_deserialize R (as_slice sp) = Some spv" using assms(4) by auto
  have "table (snd (snd (frozt_sign L S R (Some sp) h (Some kp) (Some seed) (Some ()) st))) = t"
    unfolding frozt_sign_def table_exported
    by (simp add: spv ser_err_def cbind_def [of "h_take _ _"] t(1) cret_def)
  with assms(5) have st': "table st' = t" by simp
  then have gone: "h_take as_nonces h st' = (Err LIB_INVALID_HANDLE, st')"
    using h_take_gone [OF assms(2), of st'] t(2) by simp
  have "fst (frozt_sign L S R sp2 h kp2 seed2 out2 st') \<noteq> LIB_OK"
  proof (cases "\<exists>a b c d x. sp2 = Some a \<and> kp2 = Some b \<and> seed2 = Some c \<and> out2 = Some d \<and> sp_deserialize R (as_slice a) = Some x")
    case True
    then show ?thesis
      by (auto simp: frozt_sign_def exported_nonnull ser_err_def exported_def cbind_def [of "h_take _ _"] gone
          with_error_handler_def)
  next
    case False
    then show ?thesis
      by (auto simp: frozt_sign_def exported_nonnull ser_err_def exported_def with_error_handler_def
          split: option.splits)
  qed
  with st' t(2) show ?thesis by simp
qed

text \<open>A concrete value for the rerandomized crate and for the signing part of the library.\<close>

definition demo_rerandomized ::
  "(nat, rat, nat option, nat, nat \<times> rat, rat, unit, nat, bytes, nat, bytes, unit) rerandomized" where
  "demo_rerandomized = \<lparr>
     rand_deserialize = Some, rand_serialize = (\<lambda>r. r), params_new = (\<lambda>_ _ _. Some ()),
     params_randomizer = (\<lambda>_. []), params_from_randomizer = (\<lambda>_ _. ()),
     rr_sign = (\<lambda>sp n kp r. Inr (n + length sp)), rr_aggregate = (\<lambda>_ _ _ _. Inr ()),
     sp_deserialize = Some, sig_deserialize = (\<lambda>_. Some ()), rr_verify = (\<lambda>_ _ _. True)\<rparr>"

definition demo_sign :: "(nat, nat option, nat, nat \<times> rat, rat, unit, rat, nat, nat, bytes, nat) frost_sign" where
  "demo_sign = \<lparr>
     commit = (\<lambda>x r. (r, r)), cm_serialize = (\<lambda>c. Some [word_of_nat c]),
     cm_deserialize = (\<lambda>b. case b of [x] \<Rightarrow> Some (unat x) | _ \<Rightarrow> None),
     signing_package_new = (\<lambda>m msg. msg), sp_serialize = Some,
     core_sign = (\<lambda>sp n kp. Inr n), share_serialize = (\<lambda>s. [word_of_nat s]),
     share_deserialize = (\<lambda>b. case b of [x] \<Rightarrow> Some (unat x) | _ \<Rightarrow> None),
     core_aggregate = (\<lambda>_ _ _. Inr ()), sig_serialize = (\<lambda>_. Some [1])\<rparr>"

theorem signing_nonces_single_use_witness:
  "map_of (hmap (table (snd (snd (frozt_sign demo demo_sign demo_rerandomized (Some (go_slice_of [8])) 1
       (Some (go_slice_of [5, 0])) (Some (go_slice_of [2])) (Some ())
       (\<lparr>table = \<lparr>last_handle = 3, hmap = [(1, Some (Signing_Nonces 7))]\<rparr>, blamed = 0\<rparr>
          :: (unit, unit, nat, unit, unit) frozt_obj ffi)))))) 1 = None \<and>
    fst (frozt_sign demo demo_sign demo_rerandomized (Some (go_slice_of [9])) 1
       (Some (go_slice_of [5, 0])) (Some (go_slice_of [2])) (Some ())
       (snd (snd (frozt_sign demo demo_sign demo_rerandomized (Some (go_slice_of [8])) 1
         (Some (go_slice_of [5, 0])) (Some (go_slice_of [2])) (Some ())
         (\<lparr>table = \<lparr>last_handle = 3, hmap = [(1, Some (Signing_Nonces 7))]\<rparr>, blamed = 0\<rparr>
          :: (unit, unit, nat, unit, unit) frozt_obj ffi))))) \<noteq> LIB_OK"
  by (rule signing_nonces_single_use [OF _ _ _ _ prod.collapse [symmetric, THEN trans, OF arg_cong2 [of _ _ _ _ Pair, OF refl prod.collapse [symmetric]]]])
     (simp_all add: table_wf_def MAX_HANDLES_def demo_rerandomized_def)

text \<open>The secret of a round survives behind its handle, and only until the next round. If the first round of
  the DKG succeeds with a handle, the second round with that handle works on exactly the secret that
  the first one made, as if the two functions of the ceremony were composed, and afterwards the
  first handle is no longer valid.\<close>

theorem dkg_rounds_chain:
  assumes "table_wf (table st)"
    and "frozt_dkg_part1 L rng i mx mn (Some ()) (Some ()) st = (LIB_OK, Some (h, r1_bytes), st1)"
  shows "\<exists>secret t. dkg_part1 L rng i mx mn = Ok (secret, r1_bytes) \<and>
    table_wf t \<and> map_of (hmap t) = map_of (hmap (table st)) \<and>
    (\<forall>d. frozt_dkg_part2 L h (Some d) (Some ()) (Some ()) st1 =
       exported (cbind (cret (dkg_part2 L secret (as_slice d))) (\<lambda>(secret2, r2_bytes).
         cbind (h_allocate (Round2_Secret secret2)) (\<lambda>h. cret (Ok (h, r2_bytes))))) (st1\<lparr>table := t\<rparr>))"
proof -
  from assms(2) have "cbind (cret (dkg_part1 L rng i mx mn)) (\<lambda>(secret, pkg_bytes).
       cbind (h_allocate (Round1_Secret secret)) (\<lambda>h. cret (Ok (h, pkg_bytes)))) st = (Ok (h, r1_bytes), st1)"
    unfolding frozt_dkg_part1_def by (auto dest!: exported_OkD)
  then obtain secret where p1: "dkg_part1 L rng i mx mn = Ok (secret, r1_bytes)"
    and al: "h_allocate (Round1_Secret secret) st = (Ok h, st1)"
    by (cases "dkg_part1 L rng i mx mn") (auto simp: cbind_def cret_def split: prod.splits res.splits)
  note a = allocate_in_frozt [OF assms(1) al]
  obtain t where t: "h_take as_round1 h st1 = (Ok secret, st1\<lparr>table := t\<rparr>)" "table_wf t"
    "entries t = (entries (table st1))(h := None)"
    using h_take_ok [OF a(1,2), of "Round1_Secret secret" as_round1 secret] a(4) by auto
  have "entries t = entries (table st)" using t(3) a(3,4) by (auto intro!: ext)
  moreover have "frozt_dkg_part2 L h (Some d) (Some ()) (Some ()) st1 =
       exported (cbind (cret (dkg_part2 L secret (as_slice d))) (\<lambda>(secret2, r2_bytes).
         cbind (h_allocate (Round2_Secret secret2)) (\<lambda>h. cret (Ok (h, r2_bytes))))) (st1\<lparr>table := t\<rparr>)" for d
    by (simp add: frozt_dkg_part2_def exported_def cbind_def [of "h_take _ _"] t(1))
  ultimately show ?thesis using p1 t(2) by blast
qed

theorem dkg_rounds_chain_witness:
  "\<exists>secret t. dkg_part1 demo 3 1 2 2 = Ok (secret, [3, 4]) \<and>
    table_wf t \<and> map_of (hmap t) = map_of (hmap (table \<lparr>table = initial_table, blamed = 0\<rparr>)) \<and>
    (\<forall>d. frozt_dkg_part2 demo 1 (Some d) (Some ()) (Some ())
        (\<lparr>table = \<lparr>last_handle = 3, hmap = [(1, Some (Round1_Secret (1, [3, 4])))]\<rparr>, blamed = 0\<rparr>
           :: (nat \<times> rat list, nat \<times> rat list, unit, unit, unit) frozt_obj ffi) =
       exported (cbind (cret (dkg_part2 demo secret (as_slice d))) (\<lambda>(secret2, r2_bytes).
         cbind (h_allocate (Round2_Secret secret2)) (\<lambda>h. cret (Ok (h, r2_bytes)))))
         (\<lparr>table = \<lparr>last_handle = 3, hmap = [(1, Some (Round1_Secret (1, [3, 4])))]\<rparr>, blamed = 0\<rparr>\<lparr>table := t\<rparr>))"
proof (rule dkg_rounds_chain)
  have p: "dkg_part1 demo 3 1 2 2 = Ok ((1, [3, 4]), [3, 4])" by code_simp
  have l: "alloc_loop 0 1 [] = (Some 1, 3)" by code_simp
  show "frozt_dkg_part1 demo 3 1 2 2 (Some ()) (Some ())
      (\<lparr>table = initial_table, blamed = 0\<rparr> :: (nat \<times> rat list, nat \<times> rat list, unit, unit, unit) frozt_obj ffi) =
      (LIB_OK, Some (1, [3, 4]), \<lparr>table = \<lparr>last_handle = 3, hmap = [(1, Some (Round1_Secret (1, [3, 4])))]\<rparr>, blamed = 0\<rparr>)"
    by (simp add: frozt_dkg_part1_def exported_def p cbind_def [of "h_allocate _"] h_allocate_def lift_handle_def
        allocate_def initial_table_def MAX_HANDLES_def l cret_def with_error_handler_def)
qed (simp add: table_wf_def initial_table_def)

end
