(* ===== verification/Ceremony_Properties.thy ===== *)
theory Ceremony_Properties
  imports Demo_Library
begin

text \<open>
  The properties of the ceremonies: resharing and key import keep the secret, a blamed party is the
  culprit, the message-driven sessions agree with the round-based functions, and do not depend on the
  order of delivery within a round.
\<close>

text \<open>C1: Resharing keeps the secret. If the old signers' shares are the values of one polynomial with
  at most as many coefficients as there are old signers, then every old signer computes its
  additive share, and these together with the constant 1 that each of the
  \<^verbatim>\<open>max_signers - old_ids.len()\<close> new parties contributes add up to the old secret.\<close>

theorem reshare_preserves_secret:
  fixes cs :: "'f::field list" and max_signers :: u16
  assumes "invert_ok L" "distinct old_ids" "inj_on (id_scalar L) (set old_ids)"
    and "map (kp_identifier L) kps = old_ids" "old_ids \<noteq> []" "length cs \<le> length old_ids"
    and "length old_ids \<le> unat max_signers"
    and "\<forall>kp \<in> set kps. kp_signing_share L kp = eval_poly cs (id_scalar L (kp_identifier L kp))"
  shows "\<exists>shares. rmap (\<lambda>kp. compute_additive_share L kp old_ids max_signers) kps = Ok shares \<and>
    sum_list shares + of_nat (unat max_signers - length old_ids) = eval_poly cs 0"
proof -
  let ?xs = "map (id_scalar L) old_ids"
  let ?new = "of_nat (unat max_signers - length old_ids) :: 'f"
  let ?g = "\<lambda>i. eval_poly cs (id_scalar L i) * basis ?xs (id_scalar L i) 0 - (if i = Min (set old_ids) then ?new else 0)"
  have "\<forall>kp \<in> set kps. compute_additive_share L kp old_ids max_signers = Ok (?g (kp_identifier L kp))"
  proof
    fix kp assume kp: "kp \<in> set kps"
    then have "kp_identifier L kp \<in> set old_ids" using assms(4) by auto
    from compute_additive_share_eq [OF assms(1,3) this assms(7)] kp assms(8)
    show "compute_additive_share L kp old_ids max_signers = Ok (?g (kp_identifier L kp))" by simp
  qed
  from rmap_Ok_map [OF this]
  have "rmap (\<lambda>kp. compute_additive_share L kp old_ids max_signers) kps = Ok (map ?g old_ids)"
    by (simp add: assms(4) [symmetric] o_def)
  moreover have "sum_list (map ?g old_ids) = eval_poly cs 0 - ?new"
  proof -
    have "(\<Sum>i \<leftarrow> old_ids. eval_poly cs (id_scalar L i) * basis ?xs (id_scalar L i) 0) = eval_poly cs 0"
      using lagrange_interpolation [of ?xs cs 0] assms(2,3,6) by (simp add: distinct_map o_def)
    then show ?thesis
      using assms(2,5) by (simp add: sum_list_subtractf sum_list_if_eq)
  qed
  ultimately show ?thesis by simp
qed

theorem reshare_preserves_secret_witness:
  "\<exists>shares. rmap (\<lambda>kp. compute_additive_share demo kp [1, 3] 4) [(1, 12), (3, 22)] = Ok shares \<and>
     sum_list shares + of_nat (unat (4 :: u16) - length [1 :: nat, 3]) = eval_poly [7, 5] (0 :: rat)"
  by (rule reshare_preserves_secret) (simp_all add: demo_simps invert_ok_demo)

text \<open>Key import plants the given secret: the constant term that the seed holder takes, with the
  constant 1 that each of the other \<^verbatim>\<open>max_signers - 1\<close> parties takes, add up to the imported key.\<close>

theorem derive_constant_term_spec:
  fixes sk :: "'f::field"
  assumes "max_signers \<noteq> 0"
  shows "derive_constant_term sk max_signers + of_nat (unat max_signers - 1) = sk"
proof -
  have "unat (max_signers - 1) = unat max_signers - 1"
    using assms by (simp add: unat_minus_one)
  then show ?thesis by (simp add: derive_constant_term_def minus_ones_eq)
qed

theorem derive_constant_term_spec_witness:
  "derive_constant_term (42 :: rat) 3 + of_nat (unat (3 :: u16) - 1) = 42"
  by (rule derive_constant_term_spec) simp

text \<open>C27: Blame is attributed to the culprit and to nobody else: an error of the library that names a
  party with a number up to 256 becomes \<^verbatim>\<open>LIB_BLAME\<close> with that number, and every other error
  becomes the default of the call, without a blamed party.\<close>

theorem blame_names_culprit:
  assumes "ids_ok L" "\<And>i. culprit L e = Some i \<Longrightarrow> id_try_from L n = Some i"
  shows "frost_err_to_blame L e dflt =
    (if culprit L e \<noteq> None \<and> unat n \<le> 256 then Blamed n else Err dflt)"
  using assms(2) identifier_to_u16_eq [OF assms(1), of n]
  by (auto simp: frost_err_to_blame_def split: option.splits)

theorem blame_names_culprit_witness:
  "frost_err_to_blame demo (Some 7) LIB_DKG_ERROR =
    (if culprit demo (Some 7) \<noteq> None \<and> unat (7 :: u16) \<le> 256 then Blamed 7 else Err LIB_DKG_ERROR)"
  by (rule blame_names_culprit [OF ids_ok_demo]) (simp add: demo_def)

text \<open>C2: The message-driven DKG computes what the round-based functions compute. When the first
  \<^verbatim>\<open>max_signers - 1\<close> frames carry the round-one packages and the next ones the round-two
  packages, the session ends with the value of \<^verbatim>\<open>dkg_part3\<close> on the encodings of those packages,
  consumes exactly these frames, and has sent the broadcast of \<^verbatim>\<open>dkg_part1\<close> followed by one frame
  per round-two package of \<^verbatim>\<open>dkg_part2\<close>, addressed to the number of its recipient.\<close>

theorem dkg_run_equals_rounds:
  assumes "ids_ok L" "dkg_part1 L rng my_id max_signers min_signers = Ok (secret1, r1_bytes)"
    and "length fs1 = unat max_signers - 1" "length fs2 = unat max_signers - 1"
    and "rfold (recv_insert L (package1_deserialize L)) (map recv_frame fs1) [] = Ok r1_map"
    and "rfold (recv_insert L (package2_deserialize L)) (map recv_frame fs2) [] = Ok r2_map"
    and "decode_r1_map L d1 = Ok r1_map" "decode_r2_map L d2 = Ok r2_map"
    and "dkg_core_part2 L secret1 r1_map = Inr (secret2, pkgs)"
    and "list_all2 (\<lambda>(i, p) (n, b). id_try_from L n = Some i \<and> n \<le> max_signers \<and> package2_serialize L p = Some b)
           pkgs ys"
  shows "poll (dkg_run L rng my_id max_signers min_signers) (fs1 @ fs2) [] =
    (Ret (dkg_part3 L secret2 d1 d2), [], map (\<lambda>(n, b). wrap_sender n b) ((0, r1_bytes) # ys))"
proof -
  from assms(2) obtain ident package where p1: "try_id L my_id = Ok ident"
    "or_blame L (dkg_core_part1 L ident max_signers min_signers rng) LIB_DKG_ERROR = Ok (secret1, package)"
    "ser_err (package1_serialize L package) = Ok r1_bytes" and mx: "\<not> min_signers < 2" "\<not> max_signers < min_signers"
    by (auto simp: dkg_part1_def split: if_splits elim!: rbind_OkE)
  from mx have "max_signers \<noteq> 0" by (auto simp: word_less_nat_alt)
  then have n: "unat (max_signers - 1) = unat max_signers - 1" by (simp add: unat_minus_one)
  obtain m where m: "build_id_map L max_signers = Ok m"
    "\<And>n i. id_try_from L n = Some i \<Longrightarrow>
       lookup_u16 L m i = (if n \<le> max_signers then Ok n else Err LIB_INVALID_IDENTIFIER)"
    using build_id_map_Ok [OF assms(1)] by blast
  have "rmap (prepare_r2 L m) pkgs = Ok ys"
    using assms(10) by (induction rule: list_all2_induct) (auto simp: prepare_r2_def m(2) ser_err_def)
  then show ?thesis
    using poll_dkg_rounds [OF _ _ assms(5,6,9), of max_signers m ys r1_bytes] assms(3,4,7,8) n
    by (simp add: dkg_run_eq m(1) p1 dkg_part3_def)
qed

theorem dkg_run_equals_rounds_witness:
  "poll (dkg_run demo 3 1 2 2) ([wrap_sender 2 [5, 6]] @ [wrap_sender 2 [11]]) [] =
    (Ret (dkg_part3 demo (1, [3, 4]) [1, 0, 0, 0, 2, 0, 0, 0, 0, 0, 2, 0, 0, 0, 5, 6]
            [1, 0, 0, 0, 2, 0, 0, 0, 0, 0, 1, 0, 0, 0, 11]), [],
     map (\<lambda>(n, b). wrap_sender n b) ((0, [3, 4]) # [(2, [11])]))"
proof (rule dkg_run_equals_rounds [OF ids_ok_demo])
  show "dkg_part1 demo 3 1 2 2 = Ok ((1, [3, 4]), [3, 4])" by code_simp
  show "rfold (recv_insert demo (package1_deserialize demo)) (map recv_frame [wrap_sender 2 [5, 6]]) []
      = Ok [(2, [5, 6])]" by code_simp
  show "rfold (recv_insert demo (package2_deserialize demo)) (map recv_frame [wrap_sender 2 [11]]) []
      = Ok [(2, 11)]" by code_simp
  show "decode_r1_map demo [1, 0, 0, 0, 2, 0, 0, 0, 0, 0, 2, 0, 0, 0, 5, 6] = Ok [(2, [5, 6])]" by code_simp
  show "decode_r2_map demo [1, 0, 0, 0, 2, 0, 0, 0, 0, 0, 1, 0, 0, 0, 11] = Ok [(2, 11)]" by code_simp
  show "dkg_core_part2 demo (1, [3, 4]) [(2, [5, 6])] = Inr ((1, [3, 4]), [(2, 11)])" by code_simp
  show "list_all2 (\<lambda>(i, p) (n, b). id_try_from demo n = Some i \<and> n \<le> 2 \<and> package2_serialize demo p = Some b)
     [(2, 11)] [(2, [11])]" by code_simp
qed simp_all

text \<open>The order in which the frames of one round arrive does not matter: with senders that are
  pairwise different, delivering the round-one frames in another order gives the same messages and
  the same outcome of the session, whatever follows.\<close>

theorem dkg_run_order_independent:
  assumes "ids_ok L" "rfold (recv_insert L (package1_deserialize L)) (map recv_frame fs) [] = Ok r1_map"
    and "length fs = unat (max_signers - 1)" "distinct (map (fst \<circ> recv_frame) fs)" "mset fs = mset fs'"
  shows "fst (poll (dkg_run L rng my_id max_signers min_signers) (fs @ rest) []) =
         fst (poll (dkg_run L rng my_id max_signers min_signers) (fs' @ rest) []) \<and>
         snd (snd (poll (dkg_run L rng my_id max_signers min_signers) (fs @ rest) [])) =
         snd (snd (poll (dkg_run L rng my_id max_signers min_signers) (fs' @ rest) []))"
proof -
  have len: "length fs' = unat (max_signers - 1)" using assms(3,5) by (metis size_mset)
  have "rfold (recv_insert L (package1_deserialize L)) (map recv_frame fs') [] = Ok r1_map"
    using assms(4,5) by (intro rfold_recv_perm [OF assms(2) _ assms(1)]) (simp_all add: o_def mset_map)
  note loops = poll_recv_loop_Ok [OF assms(2), of rest] poll_recv_loop_Ok [OF this, of rest]
  have rounds: "poll (dkg_rounds L max_signers m s b) (fs @ rest) [] = poll (dkg_rounds L max_signers m s b) (fs' @ rest) []"
    for m s b
    using loops by (simp add: dkg_rounds_def poll_pbind broadcast_def assms(3) len)
  show ?thesis
    by (simp add: dkg_run_eq rounds split: res.split prod.split)
qed

theorem dkg_run_order_independent_witness:
  "fst (poll (dkg_run demo 3 1 3 2) ([wrap_sender 2 [5, 6], wrap_sender 3 [1, 1]] @ []) []) =
     fst (poll (dkg_run demo 3 1 3 2) ([wrap_sender 3 [1, 1], wrap_sender 2 [5, 6]] @ []) []) \<and>
   snd (snd (poll (dkg_run demo 3 1 3 2) ([wrap_sender 2 [5, 6], wrap_sender 3 [1, 1]] @ []) [])) =
     snd (snd (poll (dkg_run demo 3 1 3 2) ([wrap_sender 3 [1, 1], wrap_sender 2 [5, 6]] @ []) []))"
proof (rule dkg_run_order_independent [OF ids_ok_demo])
  show "rfold (recv_insert demo (package1_deserialize demo))
      (map recv_frame [wrap_sender 2 [5, 6], wrap_sender 3 [1, 1]]) [] = Ok [(2, [5, 6]), (3, [1, 1])]"
    by code_simp
qed simp_all

text \<open>The rounds are not told apart on the wire: a frame whose payload is not a round-one package
  (for instance the round-two package of a party that is ahead) and that arrives among the first
  \<^verbatim>\<open>max_signers - 1\<close> frames ends the session with a serialization error. A host has to deliver
  round by round.\<close>

theorem dkg_run_rejects_other_payload:
  assumes "ids_ok L" "dkg_part1 L rng my_id max_signers min_signers = Ok (secret1, r1_bytes)"
    and "rfold (recv_insert L (package1_deserialize L)) (map recv_frame fs) [] = Ok m"
    and "length fs < unat max_signers - 1"
    and "fst (recv_frame f) \<noteq> 0" "package1_deserialize L (snd (recv_frame f)) = None"
  shows "poll (dkg_run L rng my_id max_signers min_signers) (fs @ f # rest) [] =
    (Ret (Err LIB_SERIALIZATION_ERROR), rest, [wrap_sender 0 r1_bytes])"
proof -
  from assms(2) obtain ident package where p1: "try_id L my_id = Ok ident"
    "or_blame L (dkg_core_part1 L ident max_signers min_signers rng) LIB_DKG_ERROR = Ok (secret1, package)"
    "ser_err (package1_serialize L package) = Ok r1_bytes" and mx: "\<not> min_signers < 2" "\<not> max_signers < min_signers"
    by (auto simp: dkg_part1_def split: if_splits elim!: rbind_OkE)
  from mx have "max_signers \<noteq> 0" by (auto simp: word_less_nat_alt)
  then have n: "unat (max_signers - 1) = unat max_signers - 1" by (simp add: unat_minus_one)
  obtain idm where idm: "build_id_map L max_signers = Ok idm" using build_id_map_Ok [OF assms(1)] by blast
  obtain i where "id_try_from L (fst (recv_frame f)) = Some i" using ids_ok_Some [OF assms(1,5)] by blast
  then have "recv_insert L (package1_deserialize L) (recv_frame f) m = Err LIB_SERIALIZATION_ERROR"
    using assms(6) by (simp add: recv_insert_def try_id_def ser_err_def)
  from poll_recv_loop_Err [OF assms(3) this, of "unat (max_signers - 1)" rest] assms(4) n
  show ?thesis
    by (simp add: dkg_run_eq idm p1 dkg_rounds_def poll_pbind broadcast_def wrap_sender_def)
qed

theorem dkg_run_rejects_other_payload_witness:
  "poll (dkg_run demo 3 1 2 2) ([] @ wrap_sender 2 [] # [[9]]) [] =
    (Ret (Err LIB_SERIALIZATION_ERROR), [[9]], [wrap_sender 0 [3, 4]])"
proof (rule dkg_run_rejects_other_payload [OF ids_ok_demo])
  show "dkg_part1 demo 3 1 2 2 = Ok ((1, [3, 4]), [3, 4])" by code_simp
qed (simp_all add: demo_def)

text \<open>A resharing session succeeds only with the key it was asked to keep: whatever messages
  arrive, a key package is returned only together with a public key package whose verifying key
  serializes to \<^verbatim>\<open>expected_vk\<close>.\<close>

theorem reshare_run_checks_key:
  assumes "poll (reshare_run L rng my_id max_signers min_signers additive_share expected_vk) msgs [] =
    (Ret (Ok (key_package, pub_key_package)), rest, out)"
  shows "vk_serialize L (pk_verifying_key L pub_key_package) = Some expected_vk"
proof -
  let ?Q = "on_ok (\<lambda>x. vk_serialize L (pk_verifying_key L (snd x)) = Some expected_vk)"
  have last: "pall ?Q (pbind (Ret (ser_err (vk_serialize L (pk_verifying_key L (snd x))))) (\<lambda>vk_bytes.
       Ret (if vk_bytes \<noteq> expected_vk then Err LIB_RESHARE_ERROR else Ok (fst x, snd x))))" for x
    by (cases "vk_serialize L (pk_verifying_key L (snd x))") (auto simp: ser_err_def on_ok_def)
  have "pall ?Q (reshare_run L rng my_id max_signers min_signers additive_share expected_vk)"
    unfolding reshare_run_eq case_prod_unfold
    by (rule pall_on_ok_bind, rule pall_on_ok_bind, rule pall_on_ok_bind, rule last)
  from pall_poll [OF this assms] show ?thesis by (simp add: on_ok_def)
qed

theorem reshare_run_checks_key_witness:
  "vk_serialize demo (pk_verifying_key demo 8) = Some [8]"
proof (rule reshare_run_checks_key)
  show "poll (reshare_run demo 3 1 2 2 3 [8]) [wrap_sender 2 [5, 6], wrap_sender 2 [11]] [] =
    (Ret (Ok ((1, 17), 8)), [], [[0, 0, 3, 3], [2, 0, 9]])"
    by (rule returned_Some) code_simp
qed

end
