(* ===== verification/Fromt_Keyshare.thy ===== *)
theory Fromt_Keyshare
  imports Identifier_Table Session_Starts Party_Lists
begin

text \<open>
  \<^verbatim>\<open>fromt-lib\<close>, the Monero library: its key share bundle (\<^verbatim>\<open>keyshare/bundle.rs\<close>), identifiers and the
  exported accessors of key shares (\<^verbatim>\<open>ffi/dkg.rs\<close>). The crates for Ed25519, Keccak and Monero points
  are the argument \<open>K\<close>.
\<close>

section \<open>The cryptographic crates and the objects of the library\<close>

text \<open>
  \<open>f_serialize\<close> and \<open>f_deserialize\<close> are those of the scalar field of \<^verbatim>\<open>frost-ed25519\<close>, \<open>to_bytes\<close>,
  \<open>from_bytes_mod_order\<close> and \<open>from_canonical_bytes\<close> those of \<^verbatim>\<open>curve25519_dalek::Scalar\<close>, which is the
  same type. Curve points are a type \<open>'pt\<close> with its addition; \<open>point_mul\<close> is multiplication by a
  scalar and \<open>basepoint_mul\<close> that of the base point. \<open>keccak256\<close> hashes the concatenation of the
  updates of a \<^verbatim>\<open>Keccak::v256\<close>.
\<close>

record ('f, 'g, 'sig, 'sp, 'pt) monero =
  keccak256 :: "bytes \<Rightarrow> bytes"
  f_serialize :: "'f \<Rightarrow> bytes"
  f_deserialize :: "bytes \<Rightarrow> 'f option"
  to_bytes :: "'f \<Rightarrow> bytes"
  from_bytes_mod_order :: "bytes \<Rightarrow> 'f"
  from_canonical_bytes :: "bytes \<Rightarrow> 'f option"
  group_serialize :: "'g \<Rightarrow> bytes option"
  fromt_sp_deserialize :: "bytes \<Rightarrow> 'sp option"
  fromt_sig_deserialize :: "bytes \<Rightarrow> 'sig option"
  vk_verify :: "'g \<Rightarrow> bytes \<Rightarrow> 'sig \<Rightarrow> bool"
  biased_hash :: "bytes \<Rightarrow> 'pt"
  point_mul :: "'f \<Rightarrow> 'pt \<Rightarrow> 'pt"
  basepoint_mul :: "'f \<Rightarrow> 'pt"
  compress :: "'pt \<Rightarrow> bytes"
  decompress :: "bytes \<Rightarrow> 'pt option"

text \<open>\<^verbatim>\<open>try_into()\<close> of a slice into \<^verbatim>\<open>[u8; n]\<close> with \<^verbatim>\<open>map_err\<close>.\<close>

definition into_array :: "nat \<Rightarrow> lib_error \<Rightarrow> bytes \<Rightarrow> bytes res" where
  "into_array n e bs = (if length bs = n then Ok bs else Err e)"

section \<open>keyshare/bundle.rs\<close>

definition FROMT_BUNDLE_VERSION :: u8 where "FROMT_BUNDLE_VERSION = 2"

record ('kp, 'pk) fromt_bundle =
  fb_key_package :: 'kp
  fb_pub_key_package :: 'pk
  fb_view_key :: bytes
  fb_network :: u8
  fb_birthday :: u64

definition fromt_bundle_serialize where
  "fromt_bundle_serialize L b =
     rbind (ser_err (kp_serialize L (fb_key_package b))) (\<lambda>kp_bytes.
     rbind (ser_err (pk_serialize L (fb_pub_key_package b))) (\<lambda>pkp_bytes.
       Ok ([FROMT_BUNDLE_VERSION] @ [fb_network b] @ fb_view_key b @ u64_le (fb_birthday b) @
           u32_le (word_of_nat (length kp_bytes)) @ kp_bytes @
           u32_le (word_of_nat (length pkp_bytes)) @ pkp_bytes)))"

text \<open>\<^verbatim>\<open>read_bytes (unat n)\<close> is the test \<^verbatim>\<open>pos + n > data.len()\<close> and the slice after it.\<close>

definition fromt_bundle_deserialize where
  "fromt_bundle_deserialize L data =
     (if length data < 1 + 1 + 32 + 4 then Err LIB_SERIALIZATION_ERROR
      else
        rbind (index data 0) (\<lambda>version.
        if version \<noteq> 1 \<and> version \<noteq> FROMT_BUNDLE_VERSION then Err LIB_SERIALIZATION_ERROR
        else
          rbind (index data 1) (\<lambda>network.
          rbind (slice data 2 (2 + 32)) (\<lambda>vk. rbind (into_array 32 LIB_SERIALIZATION_ERROR vk) (\<lambda>view_key.
          rbind (if version \<ge> 2 then bundle_read_u64 data 34 else Ok (0, 34)) (\<lambda>(bday, pos).
          rbind (codec_read_u32 data pos) (\<lambda>(kp_len, pos).
          rbind (read_bytes (unat kp_len) data pos) (\<lambda>(kp_bytes, pos).
          rbind (ser_err (kp_deserialize L kp_bytes)) (\<lambda>kp.
          if pos + 4 > length data then Err LIB_SERIALIZATION_ERROR
          else
            rbind (codec_read_u32 data pos) (\<lambda>(pkp_len, pos).
            rbind (read_bytes (unat pkp_len) data pos) (\<lambda>(pkp_bytes, pos).
            rbind (ser_err (pk_deserialize L pkp_bytes)) (\<lambda>pkp.
              Ok \<lparr>fb_key_package = kp, fb_pub_key_package = pkp, fb_view_key = view_key,
                   fb_network = network, fb_birthday = bday\<rparr>))))))))))))"

definition verifying_key_bytes where
  "verifying_key_bytes L b = ser_err (vk_serialize L (pk_verifying_key L (fb_pub_key_package b)))"

section \<open>keyshare/identifier.rs\<close>

definition fromt_get_id_lookup where
  "fromt_get_id_lookup L = id_lookup_from L (map word_of_nat [1..<257]) Map.empty"

definition fromt_identifier_to_u16 where
  "fromt_identifier_to_u16 L i = ok_or (fromt_get_id_lookup L (id_serialize L i)) LIB_INVALID_IDENTIFIER"

section \<open>Accessors in ffi/dkg.rs\<close>

definition fromt_keyshare_public_key where
  "fromt_keyshare_public_key L key_share (out_pub_key :: unit option) =
     exported (cbind (nonnull key_share) (\<lambda>ks_data. cbind (nonnull out_pub_key) (\<lambda>_.
       cret (rbind (fromt_bundle_deserialize L (as_slice ks_data)) (verifying_key_bytes L)))))"

definition fromt_keyshare_view_key where
  "fromt_keyshare_view_key L key_share (out_view_key :: unit option) =
     exported (cbind (nonnull key_share) (\<lambda>ks_data. cbind (nonnull out_view_key) (\<lambda>_.
       cret (rbind (fromt_bundle_deserialize L (as_slice ks_data)) (\<lambda>b. Ok (fb_view_key b))))))"

definition fromt_keyshare_identifier where
  "fromt_keyshare_identifier L key_share (out_id :: unit option) =
     exported (cbind (nonnull key_share) (\<lambda>ks_data. cbind (nonnull out_id) (\<lambda>_.
       cret (rbind (fromt_bundle_deserialize L (as_slice ks_data)) (\<lambda>b.
         fromt_identifier_to_u16 L (kp_identifier L (fb_key_package b)))))))"

definition fromt_keyshare_birthday where
  "fromt_keyshare_birthday L key_share (out_birthday :: unit option) =
     exported (cbind (nonnull key_share) (\<lambda>ks_data. cbind (nonnull out_birthday) (\<lambda>_.
       cret (rbind (fromt_bundle_deserialize L (as_slice ks_data)) (\<lambda>b. Ok (fb_birthday b))))))"

definition fromt_encode_identifier where
  "fromt_encode_identifier L n (out_bytes :: unit option) =
     exported (cbind (nonnull out_bytes) (\<lambda>_.
       cret (rbind (try_id L n) (\<lambda>ident. Ok (id_serialize L ident)))))"

definition fromt_decode_identifier where
  "fromt_decode_identifier L id_bytes (out_id :: unit option) =
     exported (cbind (nonnull id_bytes) (\<lambda>data. cbind (nonnull out_id) (\<lambda>_.
       cret (rbind (ok_or (id_deserialize L (as_slice data)) LIB_SERIALIZATION_ERROR)
         (fromt_identifier_to_u16 L)))))"

section \<open>Lemmas\<close>

lemma into_array_Ok [simp]: "into_array n e bs = Ok x \<longleftrightarrow> length bs = n \<and> x = bs"
  by (auto simp: into_array_def)

lemma proper_into_array [simp]: "proper (into_array n e bs)"
  by (simp add: into_array_def)

lemma ser_err_eq_Ok [simp]: "ser_err x = Ok y \<longleftrightarrow> x = Some y"
  by (simp add: ser_err_def)

text \<open>The two packages at the end of a bundle.\<close>

definition read_packages where
  "read_packages L data pos mk =
     rbind (read_blob32 data pos) (\<lambda>(kb, pos). rbind (ser_err (kp_deserialize L kb)) (\<lambda>kp.
     rbind (read_blob32 data pos) (\<lambda>(pb, pos). rbind (ser_err (pk_deserialize L pb)) (\<lambda>pkp. Ok (mk kp pkp)))))"

lemma read_packages_iff:
  "read_packages L data pos mk = Ok b \<longleftrightarrow> (\<exists>kb pb kp pkp. fits32 kb \<and> fits32 pb \<and>
     kp_deserialize L kb = Some kp \<and> pk_deserialize L pb = Some pkp \<and> b = mk kp pkp \<and>
     holds_at data pos (blob32 kb @ blob32 pb))"
  by (auto simp: read_packages_def rbind_eq_Ok read_blob32_iff holds_at_append)

lemma tested_read_u32:
  "(if pos + 4 > length data then Err LIB_SERIALIZATION_ERROR else rbind (codec_read_u32 data pos) f)
     = rbind (codec_read_u32 data pos) f"
  by (simp add: codec_read_u32_eq read_bytes_eq)

lemma fromt_bundle_deserialize_eq:
  "fromt_bundle_deserialize L data =
     (if length data < 38 \<or> data ! 0 \<noteq> 1 \<and> data ! 0 \<noteq> 2 then Err LIB_SERIALIZATION_ERROR
      else if data ! 0 = 2 then rbind (bundle_read_u64 data 34) (\<lambda>(bday, pos).
             read_packages L data pos (\<lambda>kp pkp. \<lparr>fb_key_package = kp, fb_pub_key_package = pkp,
               fb_view_key = take 32 (drop 2 data), fb_network = data ! 1, fb_birthday = bday\<rparr>))
      else read_packages L data 34 (\<lambda>kp pkp. \<lparr>fb_key_package = kp, fb_pub_key_package = pkp,
               fb_view_key = take 32 (drop 2 data), fb_network = data ! 1, fb_birthday = 0\<rparr>))"
proof -
  have "\<not> (2 :: u8) \<le> 1" by (simp add: word_le_nat_alt)
  then show ?thesis
    by (auto simp: fromt_bundle_deserialize_def read_packages_def read_blob32_def rbind_assoc case_prod_unfold
        index_def slice_def into_array_def FROMT_BUNDLE_VERSION_def tested_read_u32)
qed

text \<open>The fixed part of a bundle before the birthday.\<close>

lemma bundle_head:
  "length vk = 32 \<Longrightarrow> holds_at data 0 (v # n # vk @ rest) \<longleftrightarrow>
     34 \<le> length data \<and> data ! 0 = v \<and> data ! 1 = n \<and> vk = take 32 (drop 2 data) \<and> holds_at data 34 rest"
proof -
  have "holds_at data 0 [v, n] \<longleftrightarrow> 2 \<le> length data \<and> data ! 0 = v \<and> data ! 1 = n"
    using take_Suc_Suc_drop [of 0 data] by (auto simp: holds_at_def numeral_2_eq_2)
  moreover have "holds_at data 2 vk \<longleftrightarrow> 34 \<le> length data \<and> vk = take 32 (drop 2 data)" if "length vk = 32"
    using that by (auto simp: holds_at_def)
  moreover have "holds_at data 0 (v # n # vk @ rest) \<longleftrightarrow>
      holds_at data 0 [v, n] \<and> holds_at data 2 vk \<and> holds_at data (2 + length vk) rest"
    using holds_at_append [of data 0 "[v, n]" "vk @ rest"] by (simp add: holds_at_append numeral_2_eq_2)
  ultimately show "length vk = 32 \<Longrightarrow> ?thesis" by auto
qed

lemma fromt_bundle_deserialize_iff:
  "fromt_bundle_deserialize L data = Ok b \<longleftrightarrow>
     length (fb_view_key b) = 32 \<and>
     (\<exists>kb pb. fits32 kb \<and> fits32 pb \<and>
        kp_deserialize L kb = Some (fb_key_package b) \<and> pk_deserialize L pb = Some (fb_pub_key_package b) \<and>
        (holds_at data 0 ([2, fb_network b] @ fb_view_key b @ u64_le (fb_birthday b) @ blob32 kb @ blob32 pb) \<or>
         fb_birthday b = 0 \<and> holds_at data 0 ([1, fb_network b] @ fb_view_key b @ blob32 kb @ blob32 pb)))"
    (is "?l = Ok b \<longleftrightarrow> ?r")
proof -
  have min: "38 \<le> length data" if "holds_at data pos (blob32 kb)" "34 \<le> pos" for pos kb
    using holds_at_bound [OF that(1)] that(2) by (simp add: blob32_def)
  show ?thesis
  proof (cases "length data < 38 \<or> data ! 0 \<noteq> 1 \<and> data ! 0 \<noteq> 2")
    case True
    have "\<not> ?r"
    proof
      assume ?r
      with True min [of 34] min [of 42] show False by (auto simp: bundle_head holds_at_append)
    qed
    moreover have "?l = Err LIB_SERIALIZATION_ERROR" using True by (simp add: fromt_bundle_deserialize_eq)
    ultimately show ?thesis by simp
  next
    case False
    then have len: "length (take 32 (drop 2 data)) = 32" "34 \<le> length data" by auto
    show ?thesis
    proof (cases "data ! 0 = 2")
      case True
      show ?thesis
        using False True len
        by (cases b) (auto simp: fromt_bundle_deserialize_eq rbind_eq_Ok read_u64_iff read_packages_iff bundle_head
            holds_at_append; blast)
    next
      case one: False
      show ?thesis
        using False one len
        by (cases b) (auto simp: fromt_bundle_deserialize_eq read_packages_iff bundle_head; blast)
    qed
  qed
qed

lemma proper_fromt_bundle [simp]: "proper (fromt_bundle_deserialize L data)"
  by (auto simp: fromt_bundle_deserialize_eq read_packages_def)

section \<open>Properties\<close>

text \<open>The bundle reader of the Monero library accepts exactly the current layout and the older one
  without a birthday: the version byte 2 or 1, the network, 32 bytes of view key, in version 2 the
  birthday (0 otherwise), and two length-prefixed packages that the library reads, followed by
  anything. On every other input it returns an error; it never panics.\<close>

theorem fromt_bundle_exact:
  "proper (fromt_bundle_deserialize L data) \<and>
   (fromt_bundle_deserialize L data = Ok b \<longleftrightarrow>
     length (fb_view_key b) = 32 \<and>
     (\<exists>kb pb post. fits32 kb \<and> fits32 pb \<and>
        kp_deserialize L kb = Some (fb_key_package b) \<and> pk_deserialize L pb = Some (fb_pub_key_package b) \<and>
        (data = ([2, fb_network b] @ fb_view_key b @ u64_le (fb_birthday b) @ blob32 kb @ blob32 pb) @ post \<or>
         fb_birthday b = 0 \<and> data = ([1, fb_network b] @ fb_view_key b @ blob32 kb @ blob32 pb) @ post)))"
proof -
  have "(\<exists>post. data = A @ post \<or> c \<and> data = B @ post) \<longleftrightarrow> holds_at data 0 A \<or> c \<and> holds_at data 0 B" for A B c
    by (auto simp: holds_at_0_iff)
  then show ?thesis
    by (simp only: fromt_bundle_deserialize_iff proper_fromt_bundle ex_simps simp_thms)
qed

end
