(* ===== verification/Fromt_Ceremonies.thy ===== *)
theory Fromt_Ceremonies
  imports Fromt_Keyshare
begin

text \<open>
  \<^verbatim>\<open>fromt-lib/src/ceremony\<close>: the round-based ceremonies of the Monero library. A DKG package carries a
  share of the view key behind the FROST package, and the view key of the wallet is the sum of the
  shares. Child key derivation and key images are two-round protocols among the signers, each of
  whom contributes its share weighted with its Lagrange coefficient. \<^verbatim>\<open>thread_rng()\<close> is called anew
  by the functions of \<^verbatim>\<open>frost-ceremony\<close>, so their generator is a separate argument.
\<close>

section \<open>dkg.rs\<close>

definition VK_SHARE_LEN :: nat where "VK_SHARE_LEN = 32"

record 's fromt_secret =
  frost_secret :: 's
  view_key_share :: bytes

definition split_fromt_package :: "bytes \<Rightarrow> (bytes \<times> bytes) res" where
  "split_fromt_package data =
     (if length data < VK_SHARE_LEN then Err LIB_SERIALIZATION_ERROR
      else
        let frost_len = length data - VK_SHARE_LEN in
        rbind (slice data 0 frost_len) (\<lambda>frost_data.
        rbind (slice data frost_len (length data)) (\<lambda>v.
        rbind (into_array VK_SHARE_LEN LIB_SERIALIZATION_ERROR v) (\<lambda>vk_data. Ok (frost_data, vk_data)))))"

text \<open>The loop over the decoded map.\<close>

primrec split_r1_entries where
  "split_r1_entries L [] frost_map vk_map = Ok (frost_map, vk_map)"
| "split_r1_entries L (e # es) frost_map vk_map =
     rbind (split_fromt_package (snd e)) (\<lambda>(frost_data, vk_bytes).
     rbind (ser_err (package1_deserialize L frost_data)) (\<lambda>frost_pkg.
       split_r1_entries L es (bt_insert (fst e) frost_pkg frost_map) (bt_insert (fst e) vk_bytes vk_map)))"

definition decode_r1_map_with_vk where
  "decode_r1_map_with_vk L data =
     rbind (decode_map (\<lambda>b. ser_err (id_deserialize L b)) Ok data) (\<lambda>raw_map. split_r1_entries L raw_map [] [])"

definition fromt_decode_r1_map where
  "fromt_decode_r1_map L data = rbind (decode_r1_map_with_vk L data) (\<lambda>(frost_map, _). Ok frost_map)"

text \<open>The loop that adds up the other shares.\<close>

primrec sum_vk_shares where
  "sum_vk_shares K [] acc = Ok acc"
| "sum_vk_shares K (e # es) acc =
     rbind (into_array 32 LIB_SERIALIZATION_ERROR (snd e)) (\<lambda>arr.
     rbind (ser_err (f_deserialize K arr)) (\<lambda>s. sum_vk_shares K es (acc + s)))"

definition aggregate_view_key_shares where
  "aggregate_view_key_shares K own_share other_shares =
     rbind (into_array 32 LIB_SERIALIZATION_ERROR own_share) (\<lambda>own_arr.
     rbind (ser_err (f_deserialize K own_arr)) (\<lambda>own.
     rbind (sum_vk_shares K other_shares own) (\<lambda>total.
       into_array 32 LIB_SERIALIZATION_ERROR (f_serialize K total))))"

definition monero_dkg_part1 where
  "monero_dkg_part1 L K rng rng2 i mx mn =
     (if mn < 2 \<or> mx < mn then Err LIB_DKG_ERROR
      else
        rbind (dkg_part1 L rng i mx mn) (\<lambda>(secret, pkg_bytes).
        let (vk_share, rng2) = random_scalar L rng2 in
        rbind (into_array 32 LIB_SERIALIZATION_ERROR (f_serialize K vk_share)) (\<lambda>vk_share_bytes.
          Ok (\<lparr>frost_secret = secret, view_key_share = vk_share_bytes\<rparr>, pkg_bytes @ vk_share_bytes))))"

definition monero_dkg_part2 where
  "monero_dkg_part2 L secret r1_data =
     rbind (fromt_decode_r1_map L r1_data) (\<lambda>r1_pkgs.
     rbind (or_blame L (dkg_core_part2 L (frost_secret secret) r1_pkgs) LIB_DKG_ERROR) (\<lambda>(secret2, r2_pkgs).
     rbind (encode_r2_map L r2_pkgs) (\<lambda>r2_bytes.
       Ok (\<lparr>frost_secret = secret2, view_key_share = view_key_share secret\<rparr>, r2_bytes))))"

definition monero_dkg_part3 where
  "monero_dkg_part3 L K secret r1_data r2_data network bday =
     rbind (decode_r1_map_with_vk L r1_data) (\<lambda>(r1_pkgs, vk_shares).
     rbind (decode_r2_map L r2_data) (\<lambda>r2_pkgs.
     rbind (or_blame L (dkg_core_part3 L (frost_secret secret) r1_pkgs r2_pkgs) LIB_DKG_ERROR) (\<lambda>(kp, pkp).
     rbind (aggregate_view_key_shares K (view_key_share secret) vk_shares) (\<lambda>vk_sum.
     rbind (fromt_bundle_serialize L \<lparr>fb_key_package = kp, fb_pub_key_package = pkp, fb_view_key = vk_sum,
              fb_network = network, fb_birthday = bday\<rparr>) (\<lambda>bundle_bytes.
     rbind (ser_err (vk_serialize L (pk_verifying_key L pkp))) (\<lambda>vk_bytes. Ok (bundle_bytes, vk_bytes)))))))"

section \<open>sign.rs\<close>

definition monero_sign_commit where
  "monero_sign_commit L S rng key_share_data =
     rbind (fromt_bundle_deserialize L key_share_data) (\<lambda>b. sign_commit L S rng (fb_key_package b))"

definition monero_sign where
  "monero_sign L S K signing_package_data nonces key_share_data =
     rbind (ser_err (fromt_sp_deserialize K signing_package_data)) (\<lambda>sp.
     rbind (fromt_bundle_deserialize L key_share_data) (\<lambda>b. sign L S sp nonces (fb_key_package b)))"

definition monero_sign_aggregate where
  "monero_sign_aggregate L S K signing_package_data shares_data key_share_data =
     rbind (ser_err (fromt_sp_deserialize K signing_package_data)) (\<lambda>sp.
     rbind (fromt_bundle_deserialize L key_share_data) (\<lambda>b.
       sign_aggregate L S sp shares_data (fb_pub_key_package b)))"

definition monero_verify_signature where
  "monero_verify_signature L K msg signature_data key_share_data =
     rbind (fromt_bundle_deserialize L key_share_data) (\<lambda>b.
     rbind (ser_err (fromt_sig_deserialize K signature_data)) (\<lambda>sig.
       guard (vk_verify K (pk_verifying_key L (fb_pub_key_package b)) msg sig) LIB_SIGNING_ERROR))"

section \<open>reshare.rs\<close>

definition zero32 :: bytes where "zero32 = replicate 32 0"

definition monero_reshare_part1 where
  "monero_reshare_part1 L rng i mx mn old_key_share old_ids_data =
     (if mn < 2 \<or> mx < mn then Err LIB_RESHARE_ERROR
      else
        rbind (case old_key_share of
            Some bundle_data \<Rightarrow>
              if bundle_data \<noteq> [] then
                rbind (fromt_bundle_deserialize L bundle_data) (\<lambda>b.
                rbind (ok_or old_ids_data LIB_NULL_PTR) (\<lambda>old_ids_bytes.
                rbind (decode_old_identifiers L old_ids_bytes) (\<lambda>old_ids.
                rbind (compute_additive_share L (fb_key_package b) old_ids mx) (\<lambda>additive_share.
                  Ok (additive_share, fb_view_key b)))))
              else Ok (1, zero32)
          | None \<Rightarrow> Ok (1, zero32)) (\<lambda>(additive_share, view_key_bytes).
        rbind (reshare_part1 L rng i mx mn additive_share) (\<lambda>(secret, pkg_bytes).
          Ok (\<lparr>frost_secret = secret, view_key_share = view_key_bytes\<rparr>, pkg_bytes @ view_key_bytes))))"

primrec first_nonzero :: "('i \<times> bytes) list \<Rightarrow> bytes option" where
  "first_nonzero [] = None"
| "first_nonzero (e # es) = (if snd e \<noteq> zero32 then Some (snd e) else first_nonzero es)"

definition aggregate_reshare_view_key where
  "aggregate_reshare_view_key own_share other_shares =
     (case first_nonzero other_shares of
        Some share \<Rightarrow> Ok share
      | None \<Rightarrow> if own_share \<noteq> zero32 then Ok own_share else Err LIB_RESHARE_ERROR)"

definition monero_reshare_part3 where
  "monero_reshare_part3 L secret r1_data r2_data vk network bday =
     rbind (decode_r1_map_with_vk L r1_data) (\<lambda>(r1_pkgs, vk_shares).
     rbind (decode_r2_map L r2_data) (\<lambda>r2_pkgs.
     rbind (or_blame L (dkg_core_part3 L (frost_secret secret) r1_pkgs r2_pkgs) LIB_DKG_ERROR) (\<lambda>(kp, pkp).
     rbind (ser_err (vk_serialize L (pk_verifying_key L pkp))) (\<lambda>vk_bytes.
     if vk_bytes \<noteq> vk then Err LIB_RESHARE_ERROR
     else
       rbind (aggregate_reshare_view_key (view_key_share secret) vk_shares) (\<lambda>view_key.
       rbind (fromt_bundle_serialize L \<lparr>fb_key_package = kp, fb_pub_key_package = pkp, fb_view_key = view_key,
                fb_network = network, fb_birthday = bday\<rparr>) (\<lambda>bundle_bytes. Ok (bundle_bytes, vk_bytes)))))))"

section \<open>key_import.rs\<close>

definition derive_keys_from_seed where
  "derive_keys_from_seed K seed =
     (let spend_key_bytes = to_bytes K (from_bytes_mod_order K seed);
          view_scalar = from_bytes_mod_order K (keccak256 K spend_key_bytes)
      in Ok (spend_key_bytes, to_bytes K view_scalar) :: (bytes \<times> bytes) res)"

definition spend_key_to_public where
  "spend_key_to_public L K spend_key =
     rbind (ser_err (f_deserialize K spend_key)) (\<lambda>scalar.
       ser_err (group_serialize K (mul_generator L scalar)))"

text \<open>The view key that the holder of a spend key contributes.\<close>

definition holder_shares where
  "holder_shares K sk_bytes mx =
     rbind (ser_err (f_deserialize K sk_bytes)) (\<lambda>sk_scalar.
       Ok (derive_constant_term sk_scalar mx,
           to_bytes K (from_bytes_mod_order K (keccak256 K sk_bytes))))"

definition monero_key_import_part1 where
  "monero_key_import_part1 L K rng i mx mn spend_key =
     (if mn < 2 \<or> mx < mn then Err LIB_KEY_IMPORT_ERROR
      else
        rbind (case spend_key of
            Some sk_bytes \<Rightarrow> holder_shares K sk_bytes mx
          | None \<Rightarrow> Ok (1, zero32)) (\<lambda>(constant_term, vk_share_bytes).
        rbind (key_import_part1 L rng i mx mn constant_term) (\<lambda>(secret, pkg_bytes).
          Ok (\<lparr>frost_secret = secret, view_key_share = vk_share_bytes\<rparr>, pkg_bytes @ vk_share_bytes))))"

primrec sum_import_shares where
  "sum_import_shares K [] acc = Ok acc"
| "sum_import_shares K (e # es) acc =
     rbind (ser_err (f_deserialize K (snd e))) (\<lambda>s. sum_import_shares K es (acc + s))"

definition aggregate_import_view_key where
  "aggregate_import_view_key K own_share other_shares =
     rbind (ser_err (f_deserialize K own_share)) (\<lambda>own.
     rbind (sum_import_shares K other_shares own) (\<lambda>total.
       into_array 32 LIB_SERIALIZATION_ERROR (f_serialize K total)))"

definition monero_key_import_part3 where
  "monero_key_import_part3 L K secret r1_data r2_data vk network bday =
     rbind (decode_r1_map_with_vk L r1_data) (\<lambda>(r1_pkgs, vk_shares).
     rbind (decode_r2_map L r2_data) (\<lambda>r2_pkgs.
     rbind (or_blame L (dkg_core_part3 L (frost_secret secret) r1_pkgs r2_pkgs) LIB_DKG_ERROR) (\<lambda>(kp, pkp).
     rbind (ser_err (vk_serialize L (pk_verifying_key L pkp))) (\<lambda>vk_bytes.
     if vk_bytes \<noteq> vk then Err LIB_KEY_IMPORT_ERROR
     else
       rbind (aggregate_import_view_key K (view_key_share secret) vk_shares) (\<lambda>view_key.
       rbind (fromt_bundle_serialize L \<lparr>fb_key_package = kp, fb_pub_key_package = pkp, fb_view_key = view_key,
                fb_network = network, fb_birthday = bday\<rparr>) (\<lambda>bundle_bytes. Ok (bundle_bytes, vk_bytes)))))))"

section \<open>ckd.rs\<close>

record 'f ckd_state =
  ck_key_share_data :: bytes
  ck_account :: u32
  ck_index :: u32
  ck_lambda_x :: 'f
  ck_partial_packages :: "(u16 \<times> bytes) list"

definition derive_path_point where
  "derive_path_point K acct idx =
     from_bytes_mod_order K (keccak256 K (str_bytes ''fromt/ckd'' @ u32_le acct @ u32_le idx))"

text \<open>
  The Lagrange coefficient that \<^verbatim>\<open>ckd_part1\<close> and \<^verbatim>\<open>key_image_part1\<close> both compute in line; a
  denominator without an inverse is an error of the ceremony.
\<close>

definition signer_weight where
  "signer_weight L e my_id all_ids =
     (let (num, den) = lagrange_loop L my_id all_ids 1 1 in
      rbind (ok_or (invert L den) e) (\<lambda>den_inv. Ok (num * den_inv)))"

definition ckd_part1 where
  "ckd_part1 L K key_share_data acct idx signer_ids =
     rbind (fromt_bundle_deserialize L key_share_data) (\<lambda>b.
     let my_id = kp_identifier L (fb_key_package b) in
     rbind (rmap (try_id L) signer_ids) (\<lambda>all_ids.
     rbind (signer_weight L LIB_CKD_ERROR my_id all_ids) (\<lambda>lambda.
     let lambda_x = lambda * kp_signing_share L (fb_key_package b);
         partial = lambda_x * derive_path_point K acct idx
     in Ok (\<lparr>ck_key_share_data = key_share_data, ck_account = acct, ck_index = idx, ck_lambda_x = lambda_x,
              ck_partial_packages = []\<rparr>, f_serialize K partial))))"

primrec sum_partials where
  "sum_partials K [] acc = Ok acc"
| "sum_partials K (e # es) acc =
     (if length (snd e) \<noteq> 32 then Err LIB_SERIALIZATION_ERROR
      else
        rbind (into_array 32 LIB_SERIALIZATION_ERROR (snd e)) (\<lambda>arr.
        rbind (ser_err (f_deserialize K arr)) (\<lambda>partial. sum_partials K es (acc + partial))))"

definition ckd_part2 where
  "ckd_part2 L K state (r1_packages :: (u16 \<times> bytes) list) =
     rbind (fromt_bundle_deserialize L (ck_key_share_data state)) (\<lambda>b.
     let h_path = derive_path_point K (ck_account state) (ck_index state) in
     rbind (sum_partials K r1_packages (ck_lambda_x state * h_path)) (\<lambda>total.
     let tweak = from_bytes_mod_order K
           (keccak256 K (f_serialize K total @ u32_le (ck_account state) @ u32_le (ck_index state)));
         child_share = kp_signing_share L (fb_key_package b) + tweak
     in Ok (f_serialize K child_share)))"

section \<open>key_image.rs\<close>

record key_image_output =
  output_key :: bytes
  key_offset :: bytes

record key_image_state =
  ki_outputs :: "key_image_output list"
  my_partials :: "bytes list"

definition decode_output_at :: "bytes \<Rightarrow> nat \<Rightarrow> (key_image_output \<times> nat) res" where
  "decode_output_at data pos =
     rbind (slice data pos (pos + 32)) (\<lambda>ok.
     rbind (slice data (pos + 32) (pos + 32 + 32)) (\<lambda>off.
       Ok (\<lparr>output_key = ok, key_offset = off\<rparr>, pos + 32 + 32)))"

definition decode_outputs :: "bytes \<Rightarrow> key_image_output list res" where
  "decode_outputs data =
     (if length data < 4 then Err LIB_SERIALIZATION_ERROR
      else
        rbind (slice data 0 4) (\<lambda>s. rbind (into_array 4 LIB_SERIALIZATION_ERROR s) (\<lambda>a.
        let count = unat (u32_of_le a); expected = 4 + count * 64 in
        if length data < expected then Err LIB_SERIALIZATION_ERROR
        else rbind (read_many count decode_output_at data 4) (\<lambda>(outs, _). Ok outs))))"

definition encode_outputs :: "key_image_output list \<Rightarrow> bytes" where
  "encode_outputs outs =
     u32_le (word_of_nat (length outs)) @ concat (map (\<lambda>o'. output_key o' @ key_offset o') outs)"

definition key_image_part1 where
  "key_image_part1 L K key_share_data outputs_bytes signer_ids =
     rbind (fromt_bundle_deserialize L key_share_data) (\<lambda>b.
     let my_id = kp_identifier L (fb_key_package b) in
     rbind (rmap (try_id L) signer_ids) (\<lambda>all_ids.
     rbind (signer_weight L LIB_UNKNOWN_ERROR my_id all_ids) (\<lambda>lambda.
     let lambda_x = lambda * kp_signing_share L (fb_key_package b) in
     rbind (decode_outputs outputs_bytes) (\<lambda>outs.
     if outs = [] then Err LIB_SERIALIZATION_ERROR
     else
       let partials = map (\<lambda>o'. compress K (point_mul K lambda_x (biased_hash K (output_key o')))) outs
       in Ok (\<lparr>ki_outputs = outs, my_partials = partials\<rparr>, concat partials)))))"

text \<open>Indexing a vector of points or outputs.\<close>

definition nth_res :: "'a list \<Rightarrow> nat \<Rightarrow> 'a res" where
  "nth_res xs i = (if i < length xs then Ok (xs ! i) else Panic)"

text \<open>The loop over \<open>i\<close> that adds the points of one package.\<close>

primrec add_points where
  "add_points K pkg_bytes 0 i tot = Ok tot"
| "add_points K pkg_bytes (Suc k) i tot =
     rbind (slice pkg_bytes (i * 32) ((i + 1) * 32)) (\<lambda>arr.
     rbind (ok_or (decompress K arr) LIB_SERIALIZATION_ERROR) (\<lambda>point.
     rbind (nth_res tot i) (\<lambda>s.
       add_points K pkg_bytes k (i + 1) (tot[i := s + point]))))"

primrec add_packages where
  "add_packages K cnt [] tot = Ok tot"
| "add_packages K cnt (e # es) tot =
     (if length (snd e) \<noteq> cnt * 32 then Err LIB_SERIALIZATION_ERROR
      else rbind (add_points K (snd e) cnt 0 tot) (add_packages K cnt es))"

primrec finish_images where
  "finish_images K outs [] i = Ok []"
| "finish_images K outs (s # tot) i =
     rbind (nth_res outs i) (\<lambda>o'.
     rbind (ok_or (from_canonical_bytes K (key_offset o')) LIB_SERIALIZATION_ERROR) (\<lambda>ko_scalar.
     let ki = s + point_mul K ko_scalar (biased_hash K (output_key o')) in
     rbind (finish_images K outs tot (i + 1)) (\<lambda>rest. Ok (compress K ki @ rest))))"

definition key_image_part2 where
  "key_image_part2 K state (r1_packages :: (u16 \<times> bytes) list) =
     rbind (rmap (\<lambda>p. ok_or (decompress K p) LIB_SERIALIZATION_ERROR) (my_partials state)) (\<lambda>tot.
     rbind (add_packages K (length (ki_outputs state)) r1_packages tot) (\<lambda>tot.
       finish_images K (ki_outputs state) tot 0))"

end
