(* ===== verification/Fromt_Session.thy ===== *)
theory Fromt_Session
  imports Fromt_Ceremonies
begin

text \<open>
  \<^verbatim>\<open>fromt-lib/src/session.rs\<close>: the message-driven ceremonies of the Monero library and the exported
  session functions. The generator of the view key share is the one that the first DKG round has
  advanced; its state after that round is the argument \<open>rng2\<close>.
\<close>

section \<open>The objects behind handles\<close>

datatype ('s1, 's2, 'n, 'f, 'kp, 'pk) fromt_obj =
    F_Round1_Secret "'s1 fromt_secret"
  | F_Round2_Secret "'s2 fromt_secret"
  | F_Sign_Nonces 'n
  | F_Ckd_State "'f ckd_state"
  | F_Key_Image_State key_image_state
  | F_Dkg_Session "bytes session_state"
  | F_Sign_Session "bytes session_state"
  | F_Reshare_Session "('kp \<times> 'pk) session_state"
  | F_Key_Import_Session "bytes session_state"
  | F_Key_Image_Session "bytes session_state"

text \<open>\<^verbatim>\<open>downcast::<T>()\<close> for the types of objects.\<close>

definition as_f_round1 where "as_f_round1 x = (case x of F_Round1_Secret s \<Rightarrow> Some s | _ \<Rightarrow> None)"
definition as_f_round2 where "as_f_round2 x = (case x of F_Round2_Secret s \<Rightarrow> Some s | _ \<Rightarrow> None)"
definition as_f_nonces where "as_f_nonces x = (case x of F_Sign_Nonces s \<Rightarrow> Some s | _ \<Rightarrow> None)"
definition as_f_ckd where "as_f_ckd x = (case x of F_Ckd_State s \<Rightarrow> Some s | _ \<Rightarrow> None)"
definition as_f_key_image_state where "as_f_key_image_state x = (case x of F_Key_Image_State s \<Rightarrow> Some s | _ \<Rightarrow> None)"
definition as_f_dkg where "as_f_dkg x = (case x of F_Dkg_Session s \<Rightarrow> Some s | _ \<Rightarrow> None)"
definition as_f_sign where "as_f_sign x = (case x of F_Sign_Session s \<Rightarrow> Some s | _ \<Rightarrow> None)"
definition as_f_reshare where "as_f_reshare x = (case x of F_Reshare_Session s \<Rightarrow> Some s | _ \<Rightarrow> None)"
definition as_f_key_import where "as_f_key_import x = (case x of F_Key_Import_Session s \<Rightarrow> Some s | _ \<Rightarrow> None)"
definition as_f_key_image where "as_f_key_image x = (case x of F_Key_Image_Session s \<Rightarrow> Some s | _ \<Rightarrow> None)"

lemma fromt_downcasts [simp]:
  "as_f_round1 (F_Round1_Secret x0) = Some x0"
  "as_f_round2 (F_Round2_Secret x1) = Some x1"
  "as_f_nonces (F_Sign_Nonces x2) = Some x2"
  "as_f_ckd (F_Ckd_State x3) = Some x3"
  "as_f_key_image_state (F_Key_Image_State x4) = Some x4"
  "as_f_dkg (F_Dkg_Session x5) = Some x5"
  "as_f_sign (F_Sign_Session x6) = Some x6"
  "as_f_reshare (F_Reshare_Session x7) = Some x7"
  "as_f_key_import (F_Key_Import_Session x8) = Some x8"
  "as_f_key_image (F_Key_Image_Session x9) = Some x9"
  by (simp_all add: as_f_round1_def as_f_round2_def as_f_nonces_def as_f_ckd_def as_f_key_image_state_def as_f_dkg_def as_f_sign_def as_f_reshare_def as_f_key_import_def as_f_key_image_def)

section \<open>Distributed key generation with a view key\<close>

text \<open>The body of the first receive loop; it splits the frame the way \<^verbatim>\<open>split_fromt_package\<close> does.\<close>

definition recv_r1_vk where
  "recv_r1_vk L m acc =
     rbind (try_id L (fst m)) (\<lambda>sender.
     rbind (split_fromt_package (snd m)) (\<lambda>(frost_data, vk_data).
     rbind (ser_err (package1_deserialize L frost_data)) (\<lambda>pkg.
       Ok (bt_insert sender pkg (fst acc), bt_insert sender vk_data (snd acc)))))"

definition fromt_dkg_run where
  "fromt_dkg_run L K rng rng2 my_id (mx :: u16) mn network bday =
     pbind (Ret (build_id_map L mx)) (\<lambda>id_map.
     pbind (Ret (try_id L my_id)) (\<lambda>ident.
     pbind (Ret (or_blame L (dkg_core_part1 L ident mx mn rng) LIB_DKG_ERROR)) (\<lambda>(secret1, package).
     pbind (Ret (ser_err (package1_serialize L package))) (\<lambda>r1_bytes.
     let (vk_share, rng2) = random_scalar L rng2 in
     pbind (Ret (into_array VK_SHARE_LEN LIB_SERIALIZATION_ERROR (f_serialize K vk_share))) (\<lambda>vk_share_bytes.
     pbind (broadcast (r1_bytes @ vk_share_bytes)) (\<lambda>_.
     let num_others = unat (mx - 1) in
     pbind (recv_loop num_others (recv_r1_vk L) ([], [])) (\<lambda>(r1_frost_map, vk_shares_map).
     pbind (Ret (or_blame L (dkg_core_part2 L secret1 r1_frost_map) LIB_DKG_ERROR)) (\<lambda>(secret2, r2_map).
     pbind (send_loop (prepare_r2 L id_map) r2_map) (\<lambda>_.
     pbind (recv_loop num_others (recv_insert L (package2_deserialize L)) []) (\<lambda>r2_received.
     pbind (Ret (or_blame L (dkg_core_part3 L secret2 r1_frost_map r2_received) LIB_DKG_ERROR)) (\<lambda>(kp, pkp).
     pbind (Ret (aggregate_view_key_shares K vk_share_bytes vk_shares_map)) (\<lambda>vk_sum.
       Ret (fromt_bundle_serialize L \<lparr>fb_key_package = kp, fb_pub_key_package = pkp, fb_view_key = vk_sum,
              fb_network = network, fb_birthday = bday\<rparr>)))))))))))))"

section \<open>Key import\<close>

definition fromt_key_import_run where
  "fromt_key_import_run L K rng my_id (mx :: u16) mn holder spend_key network bday =
     (let is_seed_holder = (my_id = holder) in
      pbind (Ret (build_id_map L mx)) (\<lambda>id_map.
      pbind (Ret (if is_seed_holder
                  then rbind (into_array 32 LIB_INVALID_BUFFER_SIZE spend_key) (\<lambda>sk_bytes. holder_shares K sk_bytes mx)
                  else Ok (1, zero32))) (\<lambda>(constant_term, vk_share_bytes).
      pbind (Ret (key_import_part1 L rng my_id mx mn constant_term)) (\<lambda>(secret1, r1_frost_bytes).
      pbind (broadcast (r1_frost_bytes @ vk_share_bytes)) (\<lambda>_.
      let num_others = unat (mx - 1) in
      pbind (recv_loop num_others (recv_r1_vk L) ([], [])) (\<lambda>(r1_frost_map, vk_shares_map).
      pbind (Ret (or_blame L (dkg_core_part2 L secret1 r1_frost_map) LIB_DKG_ERROR)) (\<lambda>(secret2, r2_map).
      pbind (send_loop (prepare_r2 L id_map) r2_map) (\<lambda>_.
      pbind (recv_loop num_others (recv_insert L (package2_deserialize L)) []) (\<lambda>r2_received.
      pbind (Ret (or_blame L (dkg_core_part3 L secret2 r1_frost_map r2_received) LIB_DKG_ERROR)) (\<lambda>(kp, pkp).
      pbind (if is_seed_holder
             then pbind (Ret (ser_err (vk_serialize L (pk_verifying_key L pkp)))) (\<lambda>expected. broadcast expected)
             else pbind recv (\<lambda>(sender, expected).
                  pbind (Ret (ser_err (vk_serialize L (pk_verifying_key L pkp)))) (\<lambda>actual.
                    Ret (if actual \<noteq> expected then Err LIB_KEY_IMPORT_ERROR else Ok ())))) (\<lambda>_.
      pbind (Ret (aggregate_view_key_shares K vk_share_bytes vk_shares_map)) (\<lambda>vk_sum.
        Ret (fromt_bundle_serialize L \<lparr>fb_key_package = kp, fb_pub_key_package = pkp, fb_view_key = vk_sum,
               fb_network = network, fb_birthday = bday\<rparr>)))))))))))))"

section \<open>Key images\<close>

definition key_image_session_run where
  "key_image_session_run L K key_share_data outputs_bytes signer_ids =
     pbind (Ret (key_image_part1 L K key_share_data outputs_bytes signer_ids)) (\<lambda>(state, partials).
     pbind (broadcast partials) (\<lambda>_.
     pbind (recv_loop (usize_pred (length signer_ids)) (\<lambda>m acc. Ok (acc @ [m])) []) (\<lambda>r1_packages.
       Ret (key_image_part2 K state r1_packages))))"

section \<open>Lists from the caller\<close>

definition fromt_decode_parties :: "bytes \<Rightarrow> party_entry list res" where
  "fromt_decode_parties data =
     (if length data < 2 then Err LIB_SERIALIZATION_ERROR
      else
        rbind (index data 0) (\<lambda>b0. rbind (index data 1) (\<lambda>b1.
        rbind (read_many (unat (u16_of_le [b0, b1])) decode_party_at data 2) (\<lambda>(ps, _). Ok ps))))"

definition fromt_decode_u16_list :: "bytes \<Rightarrow> u16 list res" where
  "fromt_decode_u16_list data =
     (if length data < 2 then Err LIB_SERIALIZATION_ERROR
      else
        rbind (index data 0) (\<lambda>b0. rbind (index data 1) (\<lambda>b1.
        rbind (read_many (unat (u16_of_le [b0, b1])) decode_u16_at data 2) (\<lambda>(xs, _). Ok xs))))"

section \<open>The exported functions\<close>

text \<open>The network and the birthday behind a setup message.\<close>

definition network_and_birthday :: "bytes \<Rightarrow> nat \<Rightarrow> (u8 \<times> u64) res" where
  "network_and_birthday data consumed =
     (if consumed + 1 + 8 > length data then Err LIB_SERIALIZATION_ERROR
      else
        rbind (index data consumed) (\<lambda>network.
        rbind (slice data (consumed + 1) (consumed + 9)) (\<lambda>s.
        rbind (into_array 8 LIB_SERIALIZATION_ERROR s) (\<lambda>a. Ok (network, u64_of_le a)))))"

definition fromt_dkg_setupmsg_new where
  "fromt_dkg_setupmsg_new mx mn parties_data network bday (out_setup :: unit option) =
     exported (cbind (nonnull parties_data) (\<lambda>pd. cbind (nonnull out_setup) (\<lambda>_.
       cret (rbind (fromt_decode_parties (as_slice pd)) (\<lambda>ps.
         Ok (setup_encode \<lparr>max_signers = mx, min_signers = mn, parties = ps\<rparr> @ [network] @ u64_le bday))))))"

definition fromt_dkg_session_from_setup where
  "fromt_dkg_session_from_setup L K rng rng2 setup_data my_party_name (out_handle :: unit option) =
     exported (cbind (nonnull setup_data) (\<lambda>sd. cbind (nonnull my_party_name) (\<lambda>nm.
       cbind (nonnull out_handle) (\<lambda>_.
       let data = as_slice sd in
       cbind (cret (
         rbind (setup_decode data) (\<lambda>(setup, consumed).
         rbind (network_and_birthday data consumed) (\<lambda>(network, bday).
         rbind (ok_or (frost_id_by_name setup (as_slice nm)) LIB_INVALID_IDENTIFIER) (\<lambda>my_id.
           Ok (setup, network, bday, my_id)))))) (\<lambda>(setup, network, bday, my_id).
         start_session F_Dkg_Session
           (fromt_dkg_run L K rng rng2 my_id (max_signers setup) (min_signers setup) network bday) setup my_id)))))"

definition fromt_dkg_session_feed where
  "fromt_dkg_session_feed session msg out_finished = exported (session_feed as_f_dkg F_Dkg_Session session msg out_finished)"

definition fromt_dkg_session_take_msg where
  "fromt_dkg_session_take_msg session out_message = exported (session_take_msg as_f_dkg F_Dkg_Session session out_message)"

definition fromt_dkg_session_msg_receiver where
  "fromt_dkg_session_msg_receiver session msg idx out_receiver =
     exported (session_msg_receiver as_f_dkg F_Dkg_Session session msg idx out_receiver)"

definition fromt_dkg_session_result where
  "fromt_dkg_session_result session (out :: unit option) =
     exported (cbind (nonnull out) (\<lambda>_. session_result as_f_dkg Ok session))"

definition fromt_dkg_session_free where
  "fromt_dkg_session_free session = exported (session_free as_f_dkg session)"

definition fromt_sign_setupmsg_new where
  "fromt_sign_setupmsg_new msg_to_sign parties_data (out_setup :: unit option) =
     exported (cbind (nonnull msg_to_sign) (\<lambda>msg. cbind (nonnull parties_data) (\<lambda>pd.
       cbind (nonnull out_setup) (\<lambda>_.
       cret (rbind (fromt_decode_parties (as_slice pd)) (\<lambda>ps.
         let num = word_of_nat (length ps) in
         Ok (sign_setup_encode \<lparr>ss_base = \<lparr>max_signers = num, min_signers = num, parties = ps\<rparr>,
               message = as_slice msg\<rparr>)))))))"

definition fromt_sign_session_from_setup where
  "fromt_sign_session_from_setup L S rng setup_data my_party_name kp_arg pkp_arg (out_handle :: unit option) =
     exported (cbind (nonnull setup_data) (\<lambda>sd. cbind (nonnull my_party_name) (\<lambda>nm.
       cbind (nonnull kp_arg) (\<lambda>kp_data. cbind (nonnull pkp_arg) (\<lambda>pkp_data. cbind (nonnull out_handle) (\<lambda>_.
       cbind (cret (
         rbind (sign_setup_decode (as_slice sd)) (\<lambda>sst.
         let setup = ss_base sst in
         rbind (ok_or (frost_id_by_name setup (as_slice nm)) LIB_INVALID_IDENTIFIER) (\<lambda>my_id.
         rbind (ser_err (kp_deserialize L (as_slice kp_data))) (\<lambda>kp.
         rbind (ser_err (pk_deserialize L (as_slice pkp_data))) (\<lambda>pkp.
           Ok (setup, message sst, my_id, kp, pkp))))))) (\<lambda>(setup, msg, my_id, kp, pkp).
         start_session F_Sign_Session (sign_run L S rng kp pkp msg (length (parties setup))) setup my_id)))))))"

definition fromt_sign_session_feed where
  "fromt_sign_session_feed session msg out_finished = exported (session_feed as_f_sign F_Sign_Session session msg out_finished)"

definition fromt_sign_session_take_msg where
  "fromt_sign_session_take_msg session out_message = exported (session_take_msg as_f_sign F_Sign_Session session out_message)"

definition fromt_sign_session_msg_receiver where
  "fromt_sign_session_msg_receiver session msg idx out_receiver =
     exported (session_msg_receiver as_f_sign F_Sign_Session session msg idx out_receiver)"

definition fromt_sign_session_result where
  "fromt_sign_session_result session (out :: unit option) =
     exported (cbind (nonnull out) (\<lambda>_. session_result as_f_sign Ok session))"

definition fromt_sign_session_free where
  "fromt_sign_session_free session = exported (session_free as_f_sign session)"

definition fromt_reshare_setupmsg_new where
  "fromt_reshare_setupmsg_new mx mn parties_data old_ids_arg vk_arg (out_setup :: unit option) =
     exported (cbind (nonnull parties_data) (\<lambda>pd. cbind (nonnull old_ids_arg) (\<lambda>oi.
       cbind (nonnull vk_arg) (\<lambda>vk. cbind (nonnull out_setup) (\<lambda>_.
       cret (rbind (fromt_decode_parties (as_slice pd)) (\<lambda>ps.
         rbind (fromt_decode_u16_list (as_slice oi)) (\<lambda>old_ids.
           Ok (reshare_setup_encode \<lparr>rs_base = \<lparr>max_signers = mx, min_signers = mn, parties = ps\<rparr>,
                 old_identifiers = old_ids, expected_vk = as_slice vk\<rparr>)))))))))"

definition fromt_reshare_session_from_setup where
  "fromt_reshare_session_from_setup L rng setup_data my_party_name old_kp_arg (out_handle :: unit option) =
     exported (cbind (nonnull setup_data) (\<lambda>sd. cbind (nonnull my_party_name) (\<lambda>nm.
       cbind (nonnull old_kp_arg) (\<lambda>okp. cbind (nonnull out_handle) (\<lambda>_.
       cbind (cret (
         rbind (reshare_setup_decode (as_slice sd)) (\<lambda>rst.
         let setup = rs_base rst in
         rbind (ok_or (frost_id_by_name setup (as_slice nm)) LIB_INVALID_IDENTIFIER) (\<lambda>my_id.
         rbind (ser_err (kp_deserialize L (as_slice okp))) (\<lambda>old_kp.
         rbind (rmap (try_id L) (old_identifiers rst)) (\<lambda>old_ids.
         rbind (compute_additive_share L old_kp old_ids (max_signers setup)) (\<lambda>additive_share.
           Ok (setup, my_id, additive_share, expected_vk rst)))))))) (\<lambda>(setup, my_id, additive_share, vk).
         start_session F_Reshare_Session
           (reshare_run L rng my_id (max_signers setup) (min_signers setup) additive_share vk) setup my_id))))))"

definition fromt_reshare_session_feed where
  "fromt_reshare_session_feed session msg out_finished = exported (session_feed as_f_reshare F_Reshare_Session session msg out_finished)"

definition fromt_reshare_session_take_msg where
  "fromt_reshare_session_take_msg session out_message = exported (session_take_msg as_f_reshare F_Reshare_Session session out_message)"

definition fromt_reshare_session_msg_receiver where
  "fromt_reshare_session_msg_receiver session msg idx out_receiver =
     exported (session_msg_receiver as_f_reshare F_Reshare_Session session msg idx out_receiver)"

definition fromt_reshare_session_result where
  "fromt_reshare_session_result L session (out_kp :: unit option) (out_pkp :: unit option) =
     exported (cbind (nonnull out_kp) (\<lambda>_. cbind (nonnull out_pkp) (\<lambda>_.
       session_result as_f_reshare (\<lambda>(kp, pkp).
         rbind (ser_err (kp_serialize L kp)) (\<lambda>kp_bytes.
         rbind (ser_err (pk_serialize L pkp)) (\<lambda>pkp_bytes. Ok (kp_bytes, pkp_bytes)))) session)))"

definition fromt_reshare_session_free where
  "fromt_reshare_session_free session = exported (session_free as_f_reshare session)"

definition fromt_key_import_setupmsg_new where
  "fromt_key_import_setupmsg_new mx mn parties_data network bday holder spend_key (out_setup :: unit option) =
     exported (cbind (nonnull parties_data) (\<lambda>pd. cbind (nonnull spend_key) (\<lambda>sk_data.
       cbind (nonnull out_setup) (\<lambda>_.
       cret (rbind (fromt_decode_parties (as_slice pd)) (\<lambda>ps.
         Ok (key_import_setup_encode \<lparr>ki_base = \<lparr>max_signers = mx, min_signers = mn, parties = ps\<rparr>,
               seed_holder_id = holder, secret_data = as_slice sk_data, account_index = 0\<rparr> @ [network] @ u64_le bday)))))))"

definition fromt_key_import_session_from_setup where
  "fromt_key_import_session_from_setup L K rng setup_data my_party_name (out_handle :: unit option) =
     exported (cbind (nonnull setup_data) (\<lambda>sd. cbind (nonnull my_party_name) (\<lambda>nm.
       cbind (nonnull out_handle) (\<lambda>_.
       let data = as_slice sd in
       cbind (cret (
         rbind (key_import_setup_decode data) (\<lambda>ki.
         rbind (network_and_birthday data (length (key_import_setup_encode ki))) (\<lambda>(network, bday).
         rbind (ok_or (frost_id_by_name (ki_base ki) (as_slice nm)) LIB_INVALID_IDENTIFIER) (\<lambda>my_id.
           Ok (ki, network, bday, my_id)))))) (\<lambda>(ki, network, bday, my_id).
         start_session F_Key_Import_Session
           (fromt_key_import_run L K rng my_id (max_signers (ki_base ki)) (min_signers (ki_base ki))
              (seed_holder_id ki) (secret_data ki) network bday) (ki_base ki) my_id)))))"

definition fromt_key_import_session_feed where
  "fromt_key_import_session_feed session msg out_finished = exported (session_feed as_f_key_import F_Key_Import_Session session msg out_finished)"

definition fromt_key_import_session_take_msg where
  "fromt_key_import_session_take_msg session out_message = exported (session_take_msg as_f_key_import F_Key_Import_Session session out_message)"

definition fromt_key_import_session_msg_receiver where
  "fromt_key_import_session_msg_receiver session msg idx out_receiver =
     exported (session_msg_receiver as_f_key_import F_Key_Import_Session session msg idx out_receiver)"

definition fromt_key_import_session_result where
  "fromt_key_import_session_result session (out :: unit option) =
     exported (cbind (nonnull out) (\<lambda>_. session_result as_f_key_import Ok session))"

definition fromt_key_import_session_free where
  "fromt_key_import_session_free session = exported (session_free as_f_key_import session)"

definition fromt_key_image_setupmsg_new where
  "fromt_key_image_setupmsg_new parties_data outputs_arg (out_setup :: unit option) =
     exported (cbind (nonnull parties_data) (\<lambda>pd. cbind (nonnull outputs_arg) (\<lambda>out_data.
       cbind (nonnull out_setup) (\<lambda>_.
       cret (rbind (fromt_decode_parties (as_slice pd)) (\<lambda>ps.
         let num = word_of_nat (length ps) in
         Ok (key_image_setup_encode \<lparr>kimg_base = \<lparr>max_signers = num, min_signers = num, parties = ps\<rparr>,
               outputs_data = as_slice out_data\<rparr>)))))))"

definition fromt_key_image_session_from_setup where
  "fromt_key_image_session_from_setup L K setup_data my_party_name key_share (out_handle :: unit option) =
     exported (cbind (nonnull setup_data) (\<lambda>sd. cbind (nonnull my_party_name) (\<lambda>nm.
       cbind (nonnull key_share) (\<lambda>ks. cbind (nonnull out_handle) (\<lambda>_.
       cbind (cret (
         rbind (key_image_setup_decode (as_slice sd)) (\<lambda>ki.
         rbind (ok_or (frost_id_by_name (kimg_base ki) (as_slice nm)) LIB_INVALID_IDENTIFIER) (\<lambda>my_id.
           Ok (ki, my_id))))) (\<lambda>(ki, my_id).
         start_session F_Key_Image_Session
           (key_image_session_run L K (as_slice ks) (outputs_data ki) (map frost_id (parties (kimg_base ki))))
           (kimg_base ki) my_id))))))"

definition fromt_key_image_session_feed where
  "fromt_key_image_session_feed session msg out_finished = exported (session_feed as_f_key_image F_Key_Image_Session session msg out_finished)"

definition fromt_key_image_session_take_msg where
  "fromt_key_image_session_take_msg session out_message = exported (session_take_msg as_f_key_image F_Key_Image_Session session out_message)"

definition fromt_key_image_session_msg_receiver where
  "fromt_key_image_session_msg_receiver session msg idx out_receiver =
     exported (session_msg_receiver as_f_key_image F_Key_Image_Session session msg idx out_receiver)"

definition fromt_key_image_session_result where
  "fromt_key_image_session_result session (out :: unit option) =
     exported (cbind (nonnull out) (\<lambda>_. session_result as_f_key_image Ok session))"

definition fromt_key_image_session_free where
  "fromt_key_image_session_free session = exported (session_free as_f_key_image session)"

definition fromt_handle_free where
  "fromt_handle_free h = handle_free_call h"

end
