(* ===== verification/Ceremony_Liveness.thy ===== *)
theory Ceremony_Liveness
  imports Ceremony_Properties Frozt_Session_Properties Fromt_Session
begin

text \<open>
  Every session comes to an end, and none by a panic: a bound on the number of messages that a task
  receives, derived from its structure, and with it the number of messages after which a session has an
  outcome; and the absence of panics in the ten tasks, whose decoders index and slice what they
  receive. Both hold whatever the messages are.
\<close>

section \<open>Tasks that receive a bounded number of messages\<close>

primrec receives :: "'a proc \<Rightarrow> nat \<Rightarrow> bool" where
  "receives (Ret r) n \<longleftrightarrow> True"
| "receives (Send m p) n \<longleftrightarrow> receives p n"
| "receives (Recv k) n \<longleftrightarrow> (case n of 0 \<Rightarrow> False | Suc n' \<Rightarrow> \<forall>m. receives (k m) n')"

named_theorems within_intros "tasks that receive a bounded number of messages"

lemma within_mono: "receives p n \<Longrightarrow> n \<le> n' \<Longrightarrow> receives p n'"
proof (induction p arbitrary: n n')
  case (Recv k)
  obtain a b where ab: "n = Suc a" "n' = Suc b" "a \<le> b" using Recv.prems by (cases n; cases n') auto
  with Recv.prems(1) have "receives (k m) a" for m by (cases m) simp
  then have "receives (k m) b" for m using Recv.IH [OF rangeI] ab(3) by blast
  with ab(2) show ?case by auto
qed simp_all

lemma within_bind: "receives p n \<Longrightarrow> (\<And>x. receives (f x) n') \<Longrightarrow> receives (pbind p f) (n + n')"
proof (induction p arbitrary: n)
  case (Ret r)
  have "receives (f x) (n + n')" for x using within_mono [OF Ret.prems(2)] by simp
  then show ?case by (cases r) simp_all
next
  case (Recv k)
  obtain a where a: "n = Suc a" using Recv.prems(1) by (cases n) auto
  with Recv.prems(1) have "receives (k m) a" for m by (cases m) simp
  then have "receives (pbind (k m) f) (a + n')" for m using Recv.IH [OF rangeI] Recv.prems(2) by blast
  with a show ?case by auto
qed simp

lemma within_local [within_intros]:
  "(\<And>x. receives (f x) n) \<Longrightarrow> receives (pbind (Ret r) f) n"
  "(\<And>x. receives (g x) n) \<Longrightarrow> receives (pbind (broadcast d) g) n"
  by (cases r) (auto simp: broadcast_def)

lemma within_recv [within_intros]: "(\<And>x. receives (f x) n) \<Longrightarrow> receives (pbind recv f) (Suc n)"
  by (simp add: recv_def)

lemma within_recv_loop: "receives (recv_loop n stp acc) n"
  by (induction n arbitrary: acc) (auto simp: recv_def split: res.splits)

lemma within_send_loop: "receives (send_loop prepare xs) 0"
  by (induction xs) (auto simp: send_to_def split: res.splits)

lemma within_loops [within_intros]:
  "(\<And>x. receives (f x) n') \<Longrightarrow> receives (pbind (recv_loop n stp acc) f) (n + n')"
  "(\<And>x. receives (f x) 0) \<Longrightarrow> receives (pbind (recv_loop n stp acc) f) n"
  "(\<And>x. receives (g x) n') \<Longrightarrow> receives (pbind (send_loop prepare xs) g) n'"
  "receives (Ret r) n"
  using within_bind [OF within_recv_loop, of f n' n] within_bind [OF within_recv_loop, of f 0 n]
    within_bind [OF within_send_loop, of g n'] by simp_all

lemma within_poll: "receives p (length ms) \<Longrightarrow> \<exists>r rest out. poll p ms outb = (Ret r, rest, out)"
proof (induction p arbitrary: ms outb)
  case (Recv k)
  then obtain f fs where "ms = f # fs" "receives (k (recv_frame f)) (length fs)"
    by (cases ms) (auto simp: recv_frame_def)
  with Recv.IH [of "k (recv_frame f)"] show ?case by auto
qed auto

text \<open>After that many messages a session whose task does not panic has an outcome.\<close>

lemma finishes:
  assumes "receives p n" "pall (\<lambda>r. r \<noteq> Panic) p" "n \<le> length (fed calls)"
  shows "outcome (snd (host_run p calls)) \<noteq> None"
proof -
  obtain r rest out where p: "poll p (fed calls) [] = (Ret r, rest, out)"
    using within_poll [OF within_mono [OF assms(1,3)]] by blast
  with assms(2) have "r \<noteq> Panic" by (rule pall_poll)
  with simulates_host_run [of p calls] p show ?thesis
    by (cases r) (auto simp: simulates_def outcome_of_def)
qed

section \<open>The ceremonies\<close>

lemma within_rounds: "receives (dkg_rounds L mx m s b) (2 * unat (mx - 1))"
  unfolding dkg_rounds_def Let_def case_prod_unfold mult_2
  by (rule within_intros)+

lemma within_ceremonies:
  "receives (dkg_run L rng my_id mx mn) (2 * unat (mx - 1))"
  "receives (key_import_run L rng my_id mx mn c) (2 * unat (mx - 1))"
  "receives (reshare_run L rng my_id mx mn c vk) (2 * unat (mx - 1))"
  unfolding dkg_run_eq key_import_run_eq reshare_run_eq case_prod_unfold
  by - (rule within_intros within_rounds within_bind [OF within_rounds, of _ 0, unfolded add_0_right])+

lemma within_sign: "receives (sign_run L S rng kp pkp msg n) (usize_pred n + usize_pred n)"
  unfolding sign_run_def Let_def case_prod_unfold by (rule within_intros)+

lemma within_one: "receives p 1 \<Longrightarrow> (\<And>x. receives (f x) n) \<Longrightarrow> receives (pbind p f) (Suc n)"
  using within_bind [of p 1 f n] by simp

lemma within_if: "receives a n \<Longrightarrow> receives b n \<Longrightarrow> receives (if c then a else b) n"
  by simp

lemma within_frozt_dkg:
  "receives (frozt_dkg_run L Z rng rng2 my_id mx mn bday c) (2 * unat (mx - 1) + Suc (unat (mx - 1)))"
proof -
  have "receives (if c then pbind (Ret (metadata_create Z rng2 bday)) (\<lambda>p. pbind (broadcast (snd p)) (\<lambda>_. Ret (Ok (snd p))))
      else pbind recv (\<lambda>p. Ret (Ok (snd p)))) 1"
    by (rule within_if; (rule within_intros | simp add: recv_def)+)
  then show ?thesis
    unfolding frozt_dkg_run_def case_prod_unfold
    by (intro within_bind [OF within_ceremonies(1)] within_one within_intros)
qed

lemma within_randomizer: "receives (sign_randomizer L S R rng pkp sp c alpha) 1"
  unfolding sign_randomizer_def case_prod_unfold One_nat_def
  by (rule within_if; (rule within_intros)+)

lemma within_frozt_sign:
  "receives (frozt_sign_run L S R rng rng2 kp pkp msg c n alpha) (usize_pred n + Suc (usize_pred n))"
  unfolding frozt_sign_run_def Let_def case_prod_unfold
  by (intro within_one [OF within_randomizer] within_intros)

lemma within_frozt_key_import:
  "receives (frozt_key_import_run L Z rng my_id mx mn holder seed acct bday)
     (2 * unat (mx - 1) + Suc (unat (mx - 1) + 1))"
proof -
  have blob: "receives (if c then pbind (Ret (derive_extras_from_seed Z seed acct)) (\<lambda>extras.
        pbind (Ret (metadata_create_with_extras extras bday)) (\<lambda>blob. pbind (broadcast blob) (\<lambda>_. Ret (Ok blob))))
      else pbind recv (\<lambda>p. Ret (Ok (snd p)))) 1" for c
    by (rule within_if; (rule within_intros | simp add: recv_def)+)
  have key: "receives (if c then pbind (Ret (derive_spending_key Z seed acct)) (\<lambda>sk.
        pbind (Ret (spending_key_to_vk L Z sk)) (\<lambda>expected_vk. broadcast expected_vk))
      else pbind recv (\<lambda>p. pbind (Ret (ser_err (vk_serialize L (pk_verifying_key L pkp)))) (\<lambda>actual_vk.
        Ret (if actual_vk \<noteq> snd p then Err LIB_KEY_IMPORT_ERROR else Ok ())))) 1" for c pkp
    by (rule within_if; (rule within_intros | simp add: recv_def broadcast_def split: res.splits)+)
  show ?thesis
    unfolding frozt_key_import_run_def Let_def case_prod_unfold
    by (intro within_intros within_bind [OF within_ceremonies(2)] within_one [OF blob] within_bind [OF key, of _ 0, unfolded add_0_right])
qed

lemma within_fromt_dkg: "receives (fromt_dkg_run L K rng rng2 my_id mx mn network bday) (2 * unat (mx - 1))"
  unfolding fromt_dkg_run_def Let_def case_prod_unfold mult_2 by (rule within_intros)+

lemma within_fromt_key_import:
  "receives (fromt_key_import_run L K rng my_id mx mn holder spend_key network bday) (unat (mx - 1) + (unat (mx - 1) + 1))"
proof -
  have key: "receives (if c then pbind (Ret (ser_err (vk_serialize L (pk_verifying_key L pkp)))) (\<lambda>expected. broadcast expected)
      else pbind recv (\<lambda>p. pbind (Ret (ser_err (vk_serialize L (pk_verifying_key L pkp)))) (\<lambda>actual.
        Ret (if actual \<noteq> snd p then Err LIB_KEY_IMPORT_ERROR else Ok ())))) 1" for c pkp
    by (rule within_if; (rule within_intros | simp add: recv_def broadcast_def split: res.splits)+)
  show ?thesis
    unfolding fromt_key_import_run_def Let_def case_prod_unfold
    by (intro within_intros within_bind [OF key, of _ 0, unfolded add_0_right])
qed

lemma within_key_images: "receives (key_image_session_run L K key_share outs ids) (usize_pred (length ids))"
  unfolding key_image_session_run_def case_prod_unfold by (rule within_intros)+

section \<open>No panics\<close>

text \<open>
  The partial operations of the Monero sessions: slices of a package, of the list of outputs and of the
  received points, and indexing of the running totals and outputs.
\<close>

lemma split_fromt_package_neq_Panic [simp]: "split_fromt_package d \<noteq> Panic"
  by (simp add: split_fromt_package_def Let_def slice_def into_array_def)

lemma recv_r1_vk_neq_Panic [simp]: "recv_r1_vk L m acc \<noteq> Panic"
  by (auto simp: recv_r1_vk_def rbind_eq_Panic split: prod.splits)

lemma fromt_keys_neq_Panic [simp]:
  "into_array n e d \<noteq> Panic" "holder_shares K sk mx \<noteq> Panic" "fromt_bundle_serialize L b \<noteq> Panic"
  by (simp_all add: into_array_def holder_shares_def fromt_bundle_serialize_def rbind_eq_Panic)

lemma sum_vk_shares_neq_Panic [simp]: "sum_vk_shares K es acc \<noteq> Panic"
  by (induction es arbitrary: acc) (auto simp: rbind_eq_Panic)

lemma aggregate_view_key_neq_Panic [simp]: "aggregate_view_key_shares K own others \<noteq> Panic"
  by (auto simp: aggregate_view_key_shares_def rbind_eq_Panic)

lemma sign_run_no_panic: "pall (\<lambda>r. r \<noteq> Panic) (sign_run L S rng kp pkp msg n)"
  unfolding sign_run_def case_prod_unfold Let_def
  by (intro no_panic_intros pall_no_panic_Ret; simp)

lemma fromt_dkg_run_no_panic: "pall (\<lambda>r. r \<noteq> Panic) (fromt_dkg_run L K rng rng2 my_id mx mn network bday)"
  unfolding fromt_dkg_run_def case_prod_unfold Let_def
  by (intro no_panic_intros pall_no_panic_Ret; simp)

lemma fromt_key_import_run_no_panic:
  "pall (\<lambda>r. r \<noteq> Panic) (fromt_key_import_run L K rng my_id mx mn holder spend_key network bday)"
  unfolding fromt_key_import_run_def case_prod_unfold Let_def
  by (cases "my_id = holder"; simp only: if_True if_False simp_thms)
     (intro no_panic_intros pall_no_panic_Ret pall_no_panic_comm; simp add: rbind_eq_Panic)+

text \<open>A list of outputs is read within the length that its header was tested against.\<close>

lemma read_outputs_Ok:
  "pos + n * 64 \<le> length d \<Longrightarrow> \<exists>os pos'. read_many n decode_output_at d pos = Ok (os, pos')"
proof (induction n arbitrary: pos)
  case (Suc n)
  obtain os pos' where "read_many n decode_output_at d (pos + 64) = Ok (os, pos')"
    using Suc.IH [of "pos + 64"] Suc.prems by auto
  moreover have "\<exists>out. decode_output_at d pos = Ok (out, pos + 64)"
    using Suc.prems by (simp add: decode_output_at_def slice_def)
  ultimately show ?case by auto
qed simp

lemma decode_outputs_neq_Panic [simp]: "decode_outputs d \<noteq> Panic"
  using read_outputs_Ok [of 4 "unat (u32_of_le (take 4 d))" d]
  by (auto simp: decode_outputs_def slice_def into_array_def Let_def)

text \<open>The totals stay as many as the outputs.\<close>

lemma add_points_safe:
  assumes "length pkg = length tot * 32" "i + k \<le> length tot"
  shows "add_points K pkg k i tot \<noteq> Panic \<and> (\<forall>t. add_points K pkg k i tot = Ok t \<longrightarrow> length t = length tot)"
  using assms
proof (induction k arbitrary: i tot)
  case (Suc k)
  have "i * 32 + 32 \<le> length pkg" "i < length tot" using Suc.prems by auto
  moreover have "add_points K pkg k (i + 1) (tot[i := x]) \<noteq> Panic \<and>
      (\<forall>t. add_points K pkg k (i + 1) (tot[i := x]) = Ok t \<longrightarrow> length t = length tot)" for x
    using Suc.IH [of "tot[i := x]" "i + 1"] Suc.prems by simp
  ultimately show ?case
    by (auto simp: slice_def nth_res_def rbind_eq_Panic elim!: rbind_OkE)
qed simp

lemma add_packages_safe:
  "length tot = cnt \<Longrightarrow> add_packages K cnt es tot \<noteq> Panic \<and>
     (\<forall>t. add_packages K cnt es tot = Ok t \<longrightarrow> length t = cnt)"
proof (induction es arbitrary: tot)
  case (Cons e es)
  have "add_points K (snd e) cnt 0 tot \<noteq> Panic \<and> (\<forall>t. add_points K (snd e) cnt 0 tot = Ok t \<longrightarrow> length t = cnt)"
    if "length (snd e) = cnt * 32"
    using add_points_safe [of "snd e" tot 0 cnt] that Cons.prems by simp
  then show ?case using Cons.IH by (auto simp: rbind_eq_Panic elim!: rbind_OkE)
qed simp

lemma finish_images_neq_Panic: "i + length tot \<le> length outs \<Longrightarrow> finish_images K outs tot i \<noteq> Panic"
  by (induction tot arbitrary: i) (auto simp: nth_res_def rbind_eq_Panic)

lemma length_rmap: "rmap f xs = Ok ys \<Longrightarrow> length ys = length xs"
  by (induction xs arbitrary: ys) (auto elim!: rbind_OkE)

lemma key_image_part2_neq_Panic:
  assumes "length (my_partials st) = length (ki_outputs st)"
  shows "key_image_part2 K st pkgs \<noteq> Panic"
proof -
  have "rmap (\<lambda>p. ok_or (decompress K p) LIB_SERIALIZATION_ERROR) xs \<noteq> Panic" for xs
    by (induction xs) (auto simp: rbind_eq_Panic)
  then show ?thesis
    using add_packages_safe [of _ "length (ki_outputs st)" K pkgs] assms
    by (auto simp: key_image_part2_def rbind_eq_Panic dest!: length_rmap)
       (metis add_0 finish_images_neq_Panic order_refl)
qed

lemma key_image_part1_safe:
  "key_image_part1 L K ks outs ids \<noteq> Panic \<and>
   (\<forall>st p. key_image_part1 L K ks outs ids = Ok (st, p) \<longrightarrow> length (my_partials st) = length (ki_outputs st))"
proof -
  have "rmap (try_id L) xs \<noteq> Panic" for xs by (induction xs) (auto simp: rbind_eq_Panic)
  then show ?thesis
    using proper_neq_Panic [OF proper_fromt_bundle [of L ks]]
    by (auto simp: key_image_part1_def signer_weight_def rbind_eq_Panic Let_def split: prod.splits if_splits elim!: rbind_OkE)
qed

lemma key_image_run_no_panic: "pall (\<lambda>r. r \<noteq> Panic) (key_image_session_run L K ks outs ids)"
proof (cases "key_image_part1 L K ks outs ids")
  case (Ok sp)
  then obtain st p where sp: "key_image_part1 L K ks outs ids = Ok (st, p)" by (cases sp) auto
  then have "length (my_partials st) = length (ki_outputs st)" using key_image_part1_safe by blast
  then have "pall (\<lambda>r. r \<noteq> Panic) (pbind (broadcast p) (\<lambda>_.
      pbind (recv_loop (usize_pred (length ids)) (\<lambda>m acc. Ok (acc @ [m])) []) (\<lambda>pkgs. Ret (key_image_part2 K st pkgs))))"
    by (intro no_panic_intros pall_no_panic_Ret key_image_part2_neq_Panic pall_no_panic_comm) simp_all
  with sp show ?thesis by (simp add: key_image_session_run_def)
qed (use key_image_part1_safe [of L K ks outs ids] in \<open>simp_all add: key_image_session_run_def\<close>)

text \<open>A session whose task cannot return a panic never panics, neither at its start nor at a feed.\<close>

definition never_panics :: "'a proc \<Rightarrow> bool" where
  "never_panics p \<longleftrightarrow> fst (start p) \<noteq> Panic \<and> (\<forall>calls msg. fst (feed msg (snd (host_run p calls))) \<noteq> Panic)"

lemma never_panicsI:
  assumes "pall (\<lambda>r. r \<noteq> Panic) p"
  shows "never_panics p"
proof -
  have "feed_answer (fst (poll p fs [])) \<noteq> Panic" for fs
    using pall_poll [OF assms, of fs "[]"] by (cases "poll p fs []") (auto simp: feed_answer_def split: proc.splits)
  then show ?thesis by (simp add: never_panics_def start_answer feed_host_run)
qed

section \<open>Properties\<close>

text \<open>C28: No message can make a ceremony session panic. Reading a frame, the decoders of the ceremonies and
  the sums of the Monero key images index and slice bytes that come from other parties, which panics out
  of range; yet for each of the ten tasks, for all libraries and under every sequence of host calls,
  malformed and truncated frames included, neither the start of the session nor any feed panics. The only
  assumption is that the diversifiable full viewing key of the Zcash crate has its 128 bytes.\<close>

theorem sessions_never_panic:
  assumes "zcash_ok Z"
  shows "never_panics (dkg_run L rng my_id mx mn) \<and>
    never_panics (key_import_run L rng my_id mx mn term) \<and>
    never_panics (reshare_run L rng my_id mx mn share vk) \<and>
    never_panics (sign_run L S rng kp pkp msg n) \<and>
    never_panics (frozt_dkg_run L Z rng rng2 my_id mx mn bday coordinator) \<and>
    never_panics (frozt_sign_run L S R rng rng2 kp pkp msg coordinator n alpha) \<and>
    never_panics (frozt_key_import_run L Z rng my_id mx mn holder seed acct bday) \<and>
    never_panics (fromt_dkg_run L K rng rng2 my_id mx mn network bday) \<and>
    never_panics (fromt_key_import_run L K rng my_id mx mn holder spend_key network bday) \<and>
    never_panics (key_image_session_run L K key_share outs ids)"
  by (intro conjI never_panicsI ceremonies_no_panic sign_run_no_panic frozt_dkg_run_no_panic frozt_sign_run_no_panic
      frozt_key_import_run_no_panic [OF assms] fromt_dkg_run_no_panic fromt_key_import_run_no_panic key_image_run_no_panic)

text \<open>The holder of a seed starts an import.\<close>

theorem sessions_never_panic_witness:
  "never_panics (frozt_key_import_run demo demo_zcash 3 1 2 2 1 [7] 0 9)"
  by (rule sessions_never_panic [OF zcash_ok_demo, THEN conjunct2, THEN conjunct2, THEN conjunct2,
      THEN conjunct2, THEN conjunct2, THEN conjunct2, THEN conjunct1])

text \<open>C36: Every session ends. Whatever the host feeds and in whatever order it feeds and takes messages, a
  session has an outcome as soon as it was fed two messages for each other party (key generation, key
  import, resharing and signing, and the key generation of Monero); the Zcash key generation needs one
  more round of messages and the metadata, the Zcash key import these and the key, the Zcash signing one
  more message, the Monero key import the key, and the key images of Monero one message for each other
  signer. No message, however malformed, keeps a session waiting longer.\<close>

theorem sessions_finish:
  fixes mx :: u16 and n :: nat
  defines "others \<equiv> unat (mx - 1)" and "signers \<equiv> usize_pred n"
  assumes "zcash_ok Z"
  shows "(2 * others \<le> length (fed calls) \<longrightarrow>
      outcome (snd (host_run (dkg_run L rng my_id mx mn) calls)) \<noteq> None \<and>
      outcome (snd (host_run (key_import_run L rng my_id mx mn term) calls)) \<noteq> None \<and>
      outcome (snd (host_run (reshare_run L rng my_id mx mn share vk) calls)) \<noteq> None \<and>
      outcome (snd (host_run (fromt_dkg_run L K rng rng2 my_id mx mn network bday) calls)) \<noteq> None) \<and>
    (3 * others + 1 \<le> length (fed calls) \<longrightarrow>
      outcome (snd (host_run (frozt_dkg_run L Z rng rng2 my_id mx mn bday coordinator) calls)) \<noteq> None) \<and>
    (3 * others + 2 \<le> length (fed calls) \<longrightarrow>
      outcome (snd (host_run (frozt_key_import_run L Z rng my_id mx mn holder seed acct bday) calls)) \<noteq> None) \<and>
    (2 * others + 1 \<le> length (fed calls) \<longrightarrow>
      outcome (snd (host_run (fromt_key_import_run L K rng my_id mx mn holder spend_key network bday) calls)) \<noteq> None) \<and>
    (2 * signers \<le> length (fed calls) \<longrightarrow>
      outcome (snd (host_run (sign_run L S rng kp pkp msg n) calls)) \<noteq> None) \<and>
    (2 * signers + 1 \<le> length (fed calls) \<longrightarrow>
      outcome (snd (host_run (frozt_sign_run L S R rng rng2 kp pkp msg coordinator n alpha) calls)) \<noteq> None) \<and>
    (usize_pred (length ids) \<le> length (fed calls) \<longrightarrow>
      outcome (snd (host_run (key_image_session_run L K key_share outs ids) calls)) \<noteq> None)"
  unfolding others_def signers_def
  by (intro conjI impI finishes [OF within_ceremonies(1) ceremonies_no_panic(1)]
      finishes [OF within_ceremonies(2) ceremonies_no_panic(2)] finishes [OF within_ceremonies(3) ceremonies_no_panic(3)]
      finishes [OF within_fromt_dkg fromt_dkg_run_no_panic]
      finishes [OF within_frozt_dkg frozt_dkg_run_no_panic]
      finishes [OF within_frozt_key_import frozt_key_import_run_no_panic [OF assms(3)]]
      finishes [OF within_fromt_key_import fromt_key_import_run_no_panic]
      finishes [OF within_sign sign_run_no_panic] finishes [OF within_frozt_sign frozt_sign_run_no_panic]
      finishes [OF within_key_images key_image_run_no_panic]) simp_all

text \<open>The other party of two in a Zcash key import that is fed five frames of rubbish.\<close>

theorem sessions_finish_witness:
  "outcome (snd (host_run (frozt_key_import_run demo demo_zcash 3 2 2 2 1 [7] 0 9)
      [Feed [], Take_msg, Feed [0xff, 7, 9], Feed [], Feed [1], Feed []])) \<noteq> None"
proof -
  let ?calls = "[Feed [], Take_msg, Feed [0xff, 7, 9], Feed [], Feed [1], Feed []]"
  have "3 * unat ((2 :: u16) - 1) + 2 \<le> length (fed ?calls)" by (simp add: eval_nat_numeral)
  then show ?thesis
    by (rule sessions_finish [OF zcash_ok_demo, THEN conjunct2, THEN conjunct2, THEN conjunct1, THEN mp])
qed

end
