(* ===== verification/Fromt_Rounds.thy ===== *)
theory Fromt_Rounds
  imports Fromt_Session
begin

text \<open>
  The round-based functions that \<^verbatim>\<open>fromt-lib\<close> exports (\<^verbatim>\<open>ffi/dkg.rs\<close>, \<^verbatim>\<open>ffi/reshare.rs\<close>, \<^verbatim>\<open>ffi/sign.rs\<close>,
  \<^verbatim>\<open>ffi/ckd.rs\<close>, \<^verbatim>\<open>ffi/key_image.rs\<close>). Secrets, nonces and the states of the two-round ceremonies stay
  behind handles between the rounds, and each is taken out of the table when it is used.
\<close>

section \<open>ffi/dkg.rs\<close>

definition fromt_dkg_part1 where
  "fromt_dkg_part1 L K rng rng2 i mx mn (out_secret :: unit option) (out_package :: unit option) =
     exported (cbind (nonnull out_secret) (\<lambda>_. cbind (nonnull out_package) (\<lambda>_.
       cbind (cret (monero_dkg_part1 L K rng rng2 i mx mn)) (\<lambda>(secret, pkg_bytes).
       cbind (h_allocate (F_Round1_Secret secret)) (\<lambda>h. cret (Ok (h, pkg_bytes)))))))"

definition fromt_dkg_part2 where
  "fromt_dkg_part2 L secret round1_packages (out_secret :: unit option) (out_packages :: unit option) =
     exported (cbind (nonnull round1_packages) (\<lambda>r1_data. cbind (nonnull out_secret) (\<lambda>_.
       cbind (nonnull out_packages) (\<lambda>_.
       cbind (h_take as_f_round1 secret) (\<lambda>secret_pkg.
       cbind (cret (monero_dkg_part2 L secret_pkg (as_slice r1_data))) (\<lambda>(secret2, r2_bytes).
       cbind (h_allocate (F_Round2_Secret secret2)) (\<lambda>h. cret (Ok (h, r2_bytes)))))))))"

definition fromt_dkg_part3 where
  "fromt_dkg_part3 L K secret round1_packages round2_packages network bday (out_ks :: unit option) (out_pk :: unit option) =
     exported (cbind (nonnull round1_packages) (\<lambda>r1_data. cbind (nonnull round2_packages) (\<lambda>r2_data.
       cbind (nonnull out_ks) (\<lambda>_. cbind (nonnull out_pk) (\<lambda>_.
       cbind (h_take as_f_round2 secret) (\<lambda>secret_pkg.
         cret (monero_dkg_part3 L K secret_pkg (as_slice r1_data) (as_slice r2_data) network bday)))))))"

text \<open>The optional spend key: absent or empty means a party without the key.\<close>

definition optional_key :: "go_slice option \<Rightarrow> bytes option res" where
  "optional_key spend_key =
     (case spend_key of
        Some sk \<Rightarrow>
          if \<not> go_slice_is_empty sk
          then rbind (into_array 32 LIB_INVALID_BUFFER_SIZE (as_slice sk)) (\<lambda>arr. Ok (Some arr))
          else Ok None
      | None \<Rightarrow> Ok None)"

definition fromt_key_import_part1 where
  "fromt_key_import_part1 L K rng i mx mn spend_key (out_secret :: unit option) (out_package :: unit option) =
     exported (cbind (nonnull out_secret) (\<lambda>_. cbind (nonnull out_package) (\<lambda>_.
       cbind (cret (rbind (optional_key spend_key) (monero_key_import_part1 L K rng i mx mn))) (\<lambda>(secret, pkg_bytes).
       cbind (h_allocate (F_Round1_Secret secret)) (\<lambda>h. cret (Ok (h, pkg_bytes)))))))"

definition fromt_key_import_part3 where
  "fromt_key_import_part3 L K secret round1_packages round2_packages vk_arg network bday
       (out_ks :: unit option) (out_pk :: unit option) =
     exported (cbind (nonnull round1_packages) (\<lambda>r1_data. cbind (nonnull round2_packages) (\<lambda>r2_data.
       cbind (nonnull vk_arg) (\<lambda>vk_data. cbind (nonnull out_ks) (\<lambda>_. cbind (nonnull out_pk) (\<lambda>_.
       cbind (h_take as_f_round2 secret) (\<lambda>secret_pkg.
         cret (monero_key_import_part3 L K secret_pkg (as_slice r1_data) (as_slice r2_data) (as_slice vk_data)
                 network bday))))))))"

definition fromt_derive_keys_from_seed where
  "fromt_derive_keys_from_seed K seed (out_sk :: unit option) (out_vk :: unit option) =
     exported (cbind (nonnull seed) (\<lambda>seed_data. cbind (nonnull out_sk) (\<lambda>_. cbind (nonnull out_vk) (\<lambda>_.
       cret (rbind (into_array 32 LIB_INVALID_BUFFER_SIZE (as_slice seed_data)) (derive_keys_from_seed K))))))"

definition fromt_spend_key_to_public where
  "fromt_spend_key_to_public L K spend_key (out_pub_key :: unit option) =
     exported (cbind (nonnull spend_key) (\<lambda>sk_data. cbind (nonnull out_pub_key) (\<lambda>_.
       cret (rbind (into_array 32 LIB_INVALID_BUFFER_SIZE (as_slice sk_data)) (spend_key_to_public L K)))))"

section \<open>ffi/reshare.rs\<close>

definition fromt_reshare_part1 where
  "fromt_reshare_part1 L rng i mx mn old_key_share old_ids_arg (out_secret :: unit option) (out_package :: unit option) =
     exported (cbind (nonnull out_secret) (\<lambda>_. cbind (nonnull out_package) (\<lambda>_.
       cbind (cret (monero_reshare_part1 L rng i mx mn (map_option as_slice old_key_share)
                (map_option as_slice old_ids_arg))) (\<lambda>(secret, pkg_bytes).
       cbind (h_allocate (F_Round1_Secret secret)) (\<lambda>h. cret (Ok (h, pkg_bytes)))))))"

definition fromt_reshare_part3 where
  "fromt_reshare_part3 L secret round1_packages round2_packages vk_arg network bday
       (out_ks :: unit option) (out_pk :: unit option) =
     exported (cbind (nonnull round1_packages) (\<lambda>r1_data. cbind (nonnull round2_packages) (\<lambda>r2_data.
       cbind (nonnull vk_arg) (\<lambda>vk_data. cbind (nonnull out_ks) (\<lambda>_. cbind (nonnull out_pk) (\<lambda>_.
       cbind (h_take as_f_round2 secret) (\<lambda>secret_pkg.
         cret (monero_reshare_part3 L secret_pkg (as_slice r1_data) (as_slice r2_data) (as_slice vk_data)
                 network bday))))))))"

section \<open>ffi/sign.rs\<close>

definition fromt_sign_commit where
  "fromt_sign_commit L S rng key_share (out_nonces :: unit option) (out_commitments :: unit option) =
     exported (cbind (nonnull key_share) (\<lambda>ks_data. cbind (nonnull out_nonces) (\<lambda>_.
       cbind (nonnull out_commitments) (\<lambda>_.
       cbind (cret (monero_sign_commit L S rng (as_slice ks_data))) (\<lambda>(nonces, commitments_bytes).
       cbind (h_allocate (F_Sign_Nonces nonces)) (\<lambda>h. cret (Ok (h, commitments_bytes))))))))"

definition fromt_sign_create_package where
  "fromt_sign_create_package L S msg_arg commitments_map (out_sp :: unit option) =
     exported (cbind (nonnull msg_arg) (\<lambda>msg. cbind (nonnull commitments_map) (\<lambda>cm_data.
       cbind (nonnull out_sp) (\<lambda>_.
       cret (sign_create_package L S (as_slice msg) (as_slice cm_data))))))"

definition fromt_sign where
  "fromt_sign L S K signing_package nonces key_share (out_share :: unit option) =
     exported (cbind (nonnull signing_package) (\<lambda>sp_data. cbind (nonnull key_share) (\<lambda>ks_data.
       cbind (nonnull out_share) (\<lambda>_.
       cbind (h_take as_f_nonces nonces) (\<lambda>nonces_obj.
         cret (monero_sign L S K (as_slice sp_data) nonces_obj (as_slice ks_data)))))))"

definition fromt_sign_aggregate where
  "fromt_sign_aggregate L S K signing_package shares_map key_share (out_sig :: unit option) =
     exported (cbind (nonnull signing_package) (\<lambda>sp_data. cbind (nonnull shares_map) (\<lambda>sm_data.
       cbind (nonnull key_share) (\<lambda>ks_data. cbind (nonnull out_sig) (\<lambda>_.
         cret (monero_sign_aggregate L S K (as_slice sp_data) (as_slice sm_data) (as_slice ks_data)))))))"

definition fromt_verify_signature where
  "fromt_verify_signature L K msg_arg signature key_share =
     exported (cbind (nonnull msg_arg) (\<lambda>msg. cbind (nonnull signature) (\<lambda>sig_data.
       cbind (nonnull key_share) (\<lambda>ks_data.
         cret (monero_verify_signature L K (as_slice msg) (as_slice sig_data) (as_slice ks_data))))))"

section \<open>ffi/ckd.rs and ffi/key_image.rs\<close>

primrec signer_ids_from :: "bytes \<Rightarrow> nat \<Rightarrow> nat \<Rightarrow> u16 list res" where
  "signer_ids_from data 0 i = Ok []"
| "signer_ids_from data (Suc n) i =
     rbind (index data (i * 2)) (\<lambda>b0.
     rbind (index data (i * 2 + 1)) (\<lambda>b1.
     rbind (signer_ids_from data n (i + 1)) (\<lambda>ids. Ok (u16_of_le [b0, b1] # ids))))"

definition decode_signer_ids :: "bytes \<Rightarrow> u16 list res" where
  "decode_signer_ids data =
     (if length data mod 2 \<noteq> 0 then Err LIB_SERIALIZATION_ERROR
      else signer_ids_from data (length data div 2) 0)"

definition decode_ckd_entry :: "bytes \<Rightarrow> nat \<Rightarrow> ((u16 \<times> bytes) \<times> nat) res" where
  "decode_ckd_entry data pos =
     rbind (decode_u16_at data pos) (\<lambda>(i, pos).
     rbind (codec_read_u32 data pos) (\<lambda>(vlen, pos).
     rbind (read_bytes (unat vlen) data pos) (\<lambda>(v, pos). Ok ((i, v), pos))))"

definition decode_ckd_packages :: "bytes \<Rightarrow> (u16 \<times> bytes) list res" where
  "decode_ckd_packages data =
     (if length data < 4 then Err LIB_SERIALIZATION_ERROR
      else
        rbind (slice data 0 4) (\<lambda>s. rbind (to_array 4 s) (\<lambda>a.
        rbind (read_many (unat (u32_of_le a)) decode_ckd_entry data 4) (\<lambda>(entries, _). Ok entries))))"

definition fromt_ckd_part1 where
  "fromt_ckd_part1 L K key_share acct idx signer_ids (out_state :: unit option) (out_package :: unit option) =
     exported (cbind (nonnull key_share) (\<lambda>ks_data. cbind (nonnull signer_ids) (\<lambda>ids_data.
       cbind (nonnull out_state) (\<lambda>_. cbind (nonnull out_package) (\<lambda>_.
       cbind (cret (rbind (decode_signer_ids (as_slice ids_data)) (ckd_part1 L K (as_slice ks_data) acct idx))) (\<lambda>(state, pkg_bytes).
       cbind (h_allocate (F_Ckd_State state)) (\<lambda>h. cret (Ok (h, pkg_bytes)))))))))"

definition fromt_ckd_part2 where
  "fromt_ckd_part2 L K state r1_packages (out_child_key_share :: unit option) =
     exported (cbind (nonnull r1_packages) (\<lambda>r1_data. cbind (nonnull out_child_key_share) (\<lambda>_.
       cbind (h_take as_f_ckd state) (\<lambda>state_obj.
         cret (rbind (decode_ckd_packages (as_slice r1_data)) (ckd_part2 L K state_obj))))))"

definition fromt_key_image_part1 where
  "fromt_key_image_part1 L K key_share outputs_arg signer_ids (out_state :: unit option) (out_partials :: unit option) =
     exported (cbind (nonnull key_share) (\<lambda>ks_data. cbind (nonnull outputs_arg) (\<lambda>out_data.
       cbind (nonnull signer_ids) (\<lambda>ids_data. cbind (nonnull out_state) (\<lambda>_. cbind (nonnull out_partials) (\<lambda>_.
       cbind (cret (rbind (decode_signer_ids (as_slice ids_data))
                (key_image_part1 L K (as_slice ks_data) (as_slice out_data)))) (\<lambda>(state, partials_bytes).
       cbind (h_allocate (F_Key_Image_State state)) (\<lambda>h. cret (Ok (h, partials_bytes))))))))))"

definition fromt_key_image_part2 where
  "fromt_key_image_part2 K state r1_packages (out_key_images :: unit option) =
     exported (cbind (nonnull r1_packages) (\<lambda>r1_data. cbind (nonnull out_key_images) (\<lambda>_.
       cbind (h_take as_f_key_image_state state) (\<lambda>state_obj.
         cret (rbind (decode_ckd_packages (as_slice r1_data)) (key_image_part2 K state_obj))))))"

end
