(* ===== verification/Demo_Field.thy ===== *)
theory Demo_Field
  imports Main
begin

text \<open>
  The field with seven elements. Scalars of the Monero ceremonies are serialized to 32 bytes without
  loss, so the concrete instances of the theorems about them need a finite field.
\<close>

typedef gf7 = "{0 ..< 7 :: int}" morphisms rep_gf7 abs_gf7
  by (rule exI [of _ 0]) simp

setup_lifting type_definition_gf7

instantiation gf7 :: field
begin

lift_definition zero_gf7 :: gf7 is 0 by simp
lift_definition one_gf7 :: gf7 is 1 by simp
lift_definition plus_gf7 :: "gf7 \<Rightarrow> gf7 \<Rightarrow> gf7" is "\<lambda>x y. (x + y) mod 7" by simp
lift_definition minus_gf7 :: "gf7 \<Rightarrow> gf7 \<Rightarrow> gf7" is "\<lambda>x y. (x - y) mod 7" by simp
lift_definition uminus_gf7 :: "gf7 \<Rightarrow> gf7" is "\<lambda>x. (- x) mod 7" by simp
lift_definition times_gf7 :: "gf7 \<Rightarrow> gf7 \<Rightarrow> gf7" is "\<lambda>x y. (x * y) mod 7" by simp
lift_definition inverse_gf7 :: "gf7 \<Rightarrow> gf7" is "\<lambda>x. (x ^ 5) mod 7" by simp

definition divide_gf7 :: "gf7 \<Rightarrow> gf7 \<Rightarrow> gf7" where "divide_gf7 x y = x * inverse y"

instance
proof
  fix a b c :: gf7
  show "a * b * c = a * (b * c)" by transfer (simp add: mod_simps ac_simps)
  show "a * b = b * a" by transfer (simp add: ac_simps)
  show "1 * a = a" by transfer simp
  show "a + b + c = a + (b + c)" by transfer (simp add: mod_simps ac_simps)
  show "a + b = b + a" by transfer (simp add: ac_simps)
  show "0 + a = a" by transfer simp
  show "- a + a = 0" by transfer (simp add: mod_simps)
  show "a - b = a + - b" by transfer (simp add: mod_simps)
  show "(a + b) * c = a * c + b * c" by transfer (simp add: mod_simps distrib_right)
  show "(0 :: gf7) \<noteq> 1" by transfer simp
  show "inverse a * a = 1" if "a \<noteq> 0"
    using that
  proof transfer
    fix x :: int assume "x \<in> {0 ..< 7}" "x \<noteq> 0"
    then have "x \<in> {1, 2, 3, 4, 5, 6}" by auto
    then show "x ^ 5 mod 7 * x mod 7 = 1" by auto
  qed
  show "a div b = a * inverse b" by (simp add: divide_gf7_def)
  show "inverse (0 :: gf7) = 0" by transfer simp
qed

end

instantiation gf7 :: equal
begin

definition equal_gf7 :: "gf7 \<Rightarrow> gf7 \<Rightarrow> bool" where "equal_gf7 x y \<longleftrightarrow> rep_gf7 x = rep_gf7 y"

instance
  by standard (simp add: equal_gf7_def rep_gf7_inject)

end

lemma rep_gf7_range: "0 \<le> rep_gf7 x" "rep_gf7 x < 7"
  using rep_gf7 [of x] by auto

lemma abs_rep_gf7 [simp]: "abs_gf7 (rep_gf7 x) = x"
  by (rule rep_gf7_inverse)

end
