(* ===== verification/Fromt_Ceremony_Properties.thy ===== *)
theory Fromt_Ceremony_Properties
  imports Fromt_Ceremonies Demo_Field
begin

text \<open>
  What the Monero ceremonies compute together: the children of a key derivation are shares of one
  key, the key images are those of the undivided key, and all parties get the same view key.
\<close>

section \<open>Documented behaviour of the crates\<close>

text \<open>Scalars are serialized to 32 bytes and read back; the two interfaces to them agree.\<close>

definition scalar_ok :: "('f, 'g, 'sig, 'sp, 'pt) monero \<Rightarrow> bool" where
  "scalar_ok K \<longleftrightarrow> (\<forall>x. length (f_serialize K x) = 32 \<and> f_deserialize K (f_serialize K x) = Some x \<and>
     to_bytes K x = f_serialize K x)"

text \<open>
  Points likewise. Multiplication is additive in the scalar on the points that \<^verbatim>\<open>Point::biased_hash\<close>
  gives: these are multiples of the cofactor and so lie in the subgroup whose order is that of the
  scalar field. On the other points of the curve, those with a torsion component, scalars modulo the order
  of the subgroup do not act additively, and nothing is assumed of them.
\<close>

definition point_ok :: "('f::field, 'g, 'sig, 'sp, 'pt::ab_group_add) monero \<Rightarrow> bool" where
  "point_ok K \<longleftrightarrow> (\<forall>p. length (compress K p) = 32 \<and> decompress K (compress K p) = Some p) \<and>
     (\<forall>a b d. point_mul K (a + b) (biased_hash K d) = point_mul K a (biased_hash K d) + point_mul K b (biased_hash K d))"

text \<open>The key shares \<open>data\<close> are those of the parties \<open>ids\<close> for the polynomial \<open>cs\<close>.\<close>

definition holds_shares where
  "holds_shares L cs ids data \<longleftrightarrow>
     list_all2 (\<lambda>d i. \<exists>b. fromt_bundle_deserialize L d = Ok b \<and> kp_identifier L (fb_key_package b) = i \<and>
       kp_signing_share L (fb_key_package b) = eval_poly cs (id_scalar L i)) data ids"

section \<open>Lemmas\<close>

lemma add_mset_eq_diff: "add_mset x M = N \<Longrightarrow> M = N - {#x#}"
  by auto

lemma mset_map_lift: "mset ys = mset (map f xs) \<Longrightarrow> \<exists>zs. ys = map f zs \<and> mset zs = mset xs"
proof (induction ys arbitrary: xs)
  case (Cons y ys)
  then have "y \<in> set (map f xs)" by (metis list.set_intros(1) set_mset_mset)
  then obtain x where x: "x \<in> set xs" "y = f x" by auto
  have "mset ys = mset (map f (remove1 x xs))" using Cons.prems x by (simp add: image_mset_Diff add_mset_eq_diff)
  from Cons.IH [OF this] obtain zs where "ys = map f zs" "mset zs = mset (remove1 x xs)" by blast
  with x show ?case by (intro exI [of _ "x # zs"]) simp
qed simp

text \<open>The packages of the other parties, in whatever order they come, are those of a permutation.\<close>

lemma others_perm:
  assumes "mset (f i # ys) = mset (map f ids)" "i \<in> set ids"
  obtains js where "ys = map f js" "mset (i # js) = mset ids"
proof -
  have "mset ys = mset (map f (remove1 i ids))" using assms by (simp add: image_mset_Diff add_mset_eq_diff)
  from mset_map_lift [OF this] obtain js where "ys = map f js" "mset js = mset (remove1 i ids)" by blast
  with assms(2) that show thesis by simp
qed

lemma sum_list_mset: "mset xs = mset ys \<Longrightarrow> sum_list (map g xs) = sum_list (map (g :: _ \<Rightarrow> 'a::comm_monoid_add) ys)"
  by (metis mset_map sum_mset_sum_list)

lemma signer_weight_eq:
  assumes "invert_ok L" "inj_on (id_scalar L) (set ids)" "i \<in> set ids"
  shows "signer_weight L e i ids = Ok (basis (map (id_scalar L) ids) (id_scalar L i) 0)"
proof (cases "invert L (snd (lagrange_loop L i ids 1 1))")
  case None
  with lagrange_coeff_eq [OF assms] show ?thesis by (simp add: lagrange_coeff_def case_prod_unfold)
next
  case (Some d)
  with lagrange_coeff_eq [OF assms] show ?thesis
    by (simp add: lagrange_coeff_def signer_weight_def case_prod_unfold)
qed

lemma sum_partials_eq:
  assumes "scalar_ok K" "map snd others = map (f_serialize K) xs"
  shows "sum_partials K others acc = Ok (acc + sum_list xs)"
  using assms(2)
proof (induction others arbitrary: xs acc)
  case (Cons e others)
  then obtain x xs' where "xs = x # xs'" by (cases xs) auto
  with Cons assms(1) show ?case by (simp add: scalar_ok_def into_array_def ser_err_def add.assoc)
qed simp

text \<open>The weighted shares add up to the secret.\<close>

lemma weighted_shares:
  assumes "distinct ids" "inj_on (id_scalar L) (set ids)" "length cs \<le> length ids"
  shows "(\<Sum>i \<leftarrow> ids. basis (map (id_scalar L) ids) (id_scalar L i) 0 * eval_poly cs (id_scalar L i)) = eval_poly cs 0"
  using lagrange_interpolation [of "map (id_scalar L) ids" cs 0] assms
  by (simp add: distinct_map o_def mult.commute)

lemma rmap_list_all2:
  "list_all2 (\<lambda>d i. f d = Ok (g d i)) data ids \<Longrightarrow> rmap f data = Ok (map2 g data ids)"
  by (induction rule: list_all2_induct) simp_all

lemma map2_snd: "length xs = length ys \<Longrightarrow> map (\<lambda>x. f (snd x)) (zip xs ys) = map f ys"
  by (induction rule: list_induct2) simp_all

text \<open>
  The common shape of the two-round ceremonies: the parties \<open>ids\<close> run the first round on their key
  shares, and a party finishes with the packages of the others in any order.
\<close>

lemma two_rounds:
  assumes "list_all2 (\<lambda>d i. f d = Ok (st d i, pkg i)) data ids"
    and "\<And>k others. k < length ids \<Longrightarrow> mset (pkg (ids ! k) # map snd others) = mset (map pkg ids) \<Longrightarrow>
      P k (st (data ! k) (ids ! k)) others"
  shows "\<exists>res. rmap f data = Ok res \<and> length res = length ids \<and>
    (\<forall>k < length ids. \<forall>others. mset (snd (res ! k) # map snd others) = mset (map snd res) \<longrightarrow> P k (fst (res ! k)) others)"
proof -
  let ?res = "map2 (\<lambda>d i. (st d i, pkg i)) data ids"
  have len: "length data = length ids" using assms(1) by (rule list_all2_lengthD)
  have "map snd ?res = map pkg ids" using len by (simp add: o_def split_def map2_snd del: mset_map)
  moreover have "?res ! k = (st (data ! k) (ids ! k), pkg (ids ! k))" if "k < length ids" for k
    using that len by simp
  ultimately show ?thesis
    using assms(2) len rmap_list_all2 [where g = "\<lambda>d i. (st d i, pkg i)", OF assms(1)]
    by (intro exI [of _ ?res]) (simp del: mset_map map_map mset.simps)
qed

section \<open>A concrete instance\<close>

text \<open>
  Secret sharing over the field with seven elements, which also serves as the group, without
  zero-knowledge proofs; a key package is its identifier and its share.
\<close>

definition demo7 :: "(nat, gf7, gf7, unit, nat option, nat, nat \<times> gf7 list, gf7 list,
    nat \<times> gf7 list, gf7, nat \<times> gf7, gf7) frost" where
  "demo7 = \<lparr>
     id_try_from = (\<lambda>n. if n = 0 then None else Some (unat n)),
     id_serialize = (\<lambda>i. replicate i 0), id_deserialize = (\<lambda>b. Some (length b)), id_scalar = of_nat,
     culprit = (\<lambda>e. e), random_scalar = (\<lambda>r. (of_nat r, r + 1)),
     invert = (\<lambda>x. if x = 0 then None else Some (inverse x)), mul_generator = (\<lambda>x. x),
     dkg_core_part1 = (\<lambda>i mx mn r. let cs = map (\<lambda>k. of_nat (r + k)) [0..<unat mn] in Inr ((i, cs), cs)),
     dkg_core_part2 = (\<lambda>(i, cs) r1. Inr ((i, cs), map (\<lambda>(j, _). (j, eval_poly cs (of_nat j))) r1)),
     dkg_core_part3 = (\<lambda>(i, cs) r1 r2.
       Inr ((i, eval_poly cs (of_nat i) + sum_list (map snd r2)), hd cs + sum_list (map (hd \<circ> snd) r1))),
     compute_proof_of_knowledge = (\<lambda>i cs cm r. Inr ()),
     secret1_new = (\<lambda>i cs cm mn mx. (i, cs)), package1_new = (\<lambda>cm s. cm),
     package1_serialize = (\<lambda>p. Some (map (\<lambda>x. word_of_int (rep_gf7 x)) p)),
     package1_deserialize = (\<lambda>b. if b = [] then None else Some (map (\<lambda>x. of_nat (unat x)) b)),
     package2_serialize = (\<lambda>x. Some [word_of_int (rep_gf7 x)]),
     package2_deserialize = (\<lambda>b. case b of [x] \<Rightarrow> Some (of_nat (unat x)) | _ \<Rightarrow> None),
     kp_identifier = fst, kp_signing_share = snd,
     kp_serialize = (\<lambda>(i, x). Some [word_of_nat i, word_of_int (rep_gf7 x)]),
     kp_deserialize = (\<lambda>b. case b of [i, x] \<Rightarrow> Some (unat i, of_nat (unat x)) | _ \<Rightarrow> None),
     pk_serialize = (\<lambda>x. Some [word_of_int (rep_gf7 x)]),
     pk_deserialize = (\<lambda>b. case b of [x] \<Rightarrow> Some (of_nat (unat x)) | _ \<Rightarrow> None),
     pk_verifying_key = (\<lambda>x. x), vk_serialize = (\<lambda>x. Some [word_of_int (rep_gf7 x)])\<rparr>"

definition gf7_bytes :: "gf7 \<Rightarrow> bytes" where
  "gf7_bytes x = word_of_int (rep_gf7 x) # replicate 31 0"

definition gf7_of_bytes :: "bytes \<Rightarrow> gf7 option" where
  "gf7_of_bytes b = (case b of [] \<Rightarrow> None | x # _ \<Rightarrow> Some (of_nat (unat x)))"

definition demo_monero :: "(gf7, gf7, unit, unit, gf7) monero" where
  "demo_monero = \<lparr>
     keccak256 = (\<lambda>b. take 32 (b @ replicate 32 0)),
     f_serialize = gf7_bytes, f_deserialize = gf7_of_bytes, to_bytes = gf7_bytes,
     from_bytes_mod_order = (\<lambda>b. of_nat (le_nat b)), from_canonical_bytes = gf7_of_bytes,
     group_serialize = (\<lambda>x. Some (gf7_bytes x)),
     fromt_sp_deserialize = (\<lambda>b. Some ()), fromt_sig_deserialize = (\<lambda>b. Some ()), vk_verify = (\<lambda>g m s. True),
     biased_hash = (\<lambda>b. of_nat (1 + le_nat b)), point_mul = (*), basepoint_mul = (\<lambda>x. x),
     compress = gf7_bytes, decompress = gf7_of_bytes\<rparr>"

lemma rep_of_nat: "rep_gf7 (of_nat n) = int n mod 7"
  by (induction n) (simp_all add: zero_gf7.rep_eq one_gf7.rep_eq plus_gf7.rep_eq mod_simps add.commute)

lemma gf7_bytes_inverse [simp]: "gf7_of_bytes (gf7_bytes x) = Some x"
proof -
  have "rep_gf7 (of_nat (nat (rep_gf7 x))) = rep_gf7 x"
    using rep_gf7_range [of x] by (subst rep_of_nat) simp
  then have "of_nat (nat (rep_gf7 x)) = x" by (simp add: rep_gf7_inject)
  moreover have "unat (word_of_int (rep_gf7 x) :: u8) = nat (rep_gf7 x)"
    using rep_gf7_range [of x] by (simp add: unat_eq_nat_uint uint_word_of_int)
  ultimately show ?thesis by (simp add: gf7_of_bytes_def gf7_bytes_def)
qed

lemma demo7_ok: "invert_ok demo7" "scalar_ok demo_monero" "point_ok demo_monero"
  by (simp_all add: invert_ok_def demo7_def scalar_ok_def point_ok_def demo_monero_def gf7_bytes_def [of "_ :: gf7"] distrib_right
      del: gf7_bytes_inverse) (simp_all flip: gf7_bytes_def)

text \<open>A version 2 bundle with the given key package.\<close>

definition demo_share :: "u8 \<Rightarrow> u8 \<Rightarrow> bytes" where
  "demo_share i x = [2, 0] @ replicate 32 9 @ u64_le 0 @ blob32 [i, x] @ blob32 [1]"

lemma demo_share_ok:
  "\<exists>b. fromt_bundle_deserialize demo7 (demo_share i x) = Ok b \<and> fb_key_package b = (unat i, of_nat (unat x))"
proof (intro exI conjI)
  show "fromt_bundle_deserialize demo7 (demo_share i x) =
     Ok \<lparr>fb_key_package = (unat i, of_nat (unat x)), fb_pub_key_package = 1, fb_view_key = replicate 32 9,
          fb_network = 0, fb_birthday = 0\<rparr>"
    unfolding fromt_bundle_deserialize_iff demo_share_def
    by (rule conjI, simp, rule exI [of _ "[i, x]"], rule exI [of _ "[1]"]) (simp add: demo7_def fits32_def)
qed simp

lemma ids_ok_demo7: "ids_ok demo7"
  by (auto simp: ids_ok_def demo7_def inj_def word_unat_eq_iff split: if_splits)

lemma demo7_simps: "id_scalar demo7 = of_nat" "kp_identifier demo7 = fst" "kp_signing_share demo7 = snd"
  by (simp_all add: demo7_def fun_eq_iff)

lemma demo_holds_shares: "holds_shares demo7 [3, 2] [1, 2] [demo_share 1 5, demo_share 2 7]"
  using demo_share_ok [of 1 5] demo_share_ok [of 2 7]
  by (auto simp: holds_shares_def demo7_simps)

lemma demo7_ids:
  "rmap (try_id demo7) [1, 2] = Ok [1, 2]" "inj_on (id_scalar demo7) (set [1, 2])"
proof -
  have "rep_gf7 (of_nat 1) \<noteq> rep_gf7 (of_nat 2)" by (simp only: rep_of_nat) simp
  then have "(of_nat 1 :: gf7) \<noteq> of_nat 2" by metis
  then show "inj_on (id_scalar demo7) (set [1, 2])" by (simp add: demo7_simps)
qed (simp add: try_id_def demo7_def)

section \<open>Child key derivation\<close>

definition ckd_tweak where
  "ckd_tweak K acct idx secret =
     from_bytes_mod_order K (keccak256 K
       (f_serialize K (secret * derive_path_point K acct idx) @ u32_le acct @ u32_le idx))"

text \<open>C10: Child key derivation is consistent. When all signers of a threshold set run the first round,
  and each finishes with the packages of the others in any order, every one of them adds the same
  tweak, which depends only on the shared secret and the path, to its share. So the children are
  the shares of the polynomial shifted by the tweak: together they hold the secret plus the tweak.\<close>

theorem ckd_children_share_key:
  assumes "invert_ok L" "scalar_ok K" "distinct ids" "inj_on (id_scalar L) (set ids)" "length cs \<le> length ids"
    and "rmap (try_id L) signer_ids = Ok ids" "holds_shares L cs ids data"
  shows "\<exists>res. rmap (\<lambda>d. ckd_part1 L K d acct idx signer_ids) data = Ok res \<and> length res = length ids \<and>
    (\<forall>k < length ids. \<forall>others. mset (snd (res ! k) # map snd others) = mset (map snd res) \<longrightarrow>
       ckd_part2 L K (fst (res ! k)) others =
         Ok (f_serialize K (eval_poly cs (id_scalar L (ids ! k)) + ckd_tweak K acct idx (eval_poly cs 0))))"
proof -
  let ?w = "\<lambda>i. basis (map (id_scalar L) ids) (id_scalar L i) 0 * eval_poly cs (id_scalar L i)"
  let ?h = "derive_path_point K acct idx"
  define st where "st d i = \<lparr>ck_key_share_data = d, ck_account = acct, ck_index = idx, ck_lambda_x = ?w i,
    ck_partial_packages = []\<rparr>" for d i
  let ?pkg = "\<lambda>i. f_serialize K (?w i * ?h)"
  show ?thesis
  proof (rule two_rounds [where st = st and pkg = ?pkg])
    show "list_all2 (\<lambda>d i. ckd_part1 L K d acct idx signer_ids = Ok (st d i, ?pkg i)) data ids"
      using assms(7) unfolding holds_shares_def list_all2_conv_all_nth
      by (auto simp: ckd_part1_def assms(6) signer_weight_eq [OF assms(1,4)] st_def Let_def)
  next
    fix k and others :: "(u16 \<times> bytes) list"
    assume k: "k < length ids" and ms: "mset (?pkg (ids ! k) # map snd others) = mset (map ?pkg ids)"
    obtain js where js: "map snd others = map ?pkg js" "mset (ids ! k # js) = mset ids"
      using others_perm [OF ms] k by auto
    have "?w (ids ! k) * ?h + sum_list (map (\<lambda>i. ?w i * ?h) js) = sum_list (map (\<lambda>i. ?w i * ?h) ids)"
      using sum_list_mset [OF js(2), of "\<lambda>i. ?w i * ?h"] by simp
    also have "... = eval_poly cs 0 * ?h"
      by (simp add: sum_list_mult_const weighted_shares [OF assms(3,4,5)])
    finally have "sum_partials K others (?w (ids ! k) * ?h) = Ok (eval_poly cs 0 * ?h)"
      using sum_partials_eq [OF assms(2), of others "map (\<lambda>i. ?w i * ?h) js"] js(1) by (simp add: o_def)
    moreover obtain b where "fromt_bundle_deserialize L (data ! k) = Ok b"
      "kp_signing_share L (fb_key_package b) = eval_poly cs (id_scalar L (ids ! k))"
      using assms(7) k unfolding holds_shares_def list_all2_conv_all_nth by auto
    ultimately show "ckd_part2 L K (st (data ! k) (ids ! k)) others =
        Ok (f_serialize K (eval_poly cs (id_scalar L (ids ! k)) + ckd_tweak K acct idx (eval_poly cs 0)))"
      by (simp add: ckd_part2_def st_def Let_def ckd_tweak_def)
  qed
qed

theorem ckd_children_share_key_witness:
  "\<exists>res. rmap (\<lambda>d. ckd_part1 demo7 demo_monero d 0 5 [1, 2]) [demo_share 1 5, demo_share 2 7] = Ok res \<and>
    length res = length [1 :: nat, 2] \<and>
    (\<forall>k < length [1 :: nat, 2]. \<forall>others. mset (snd (res ! k) # map snd others) = mset (map snd res) \<longrightarrow>
       ckd_part2 demo7 demo_monero (fst (res ! k)) others =
         Ok (f_serialize demo_monero (eval_poly [3, 2] (id_scalar demo7 ([1, 2] ! k)) +
           ckd_tweak demo_monero 0 5 (eval_poly [3, 2] 0))))"
  by (rule ckd_children_share_key [OF demo7_ok(1,2) _ demo7_ids(2) _ demo7_ids(1) demo_holds_shares]) simp_all

section \<open>Key images\<close>

text \<open>The list of outputs: behind the test of the total length, reading an output cannot run off the end.\<close>

definition output_wf :: "key_image_output \<Rightarrow> bool" where
  "output_wf o' \<longleftrightarrow> length (output_key o') = 32 \<and> length (key_offset o') = 32"

definition read_output :: "bytes \<Rightarrow> nat \<Rightarrow> (key_image_output \<times> nat) res" where
  "read_output data pos =
     rbind (read_bytes 32 data pos) (\<lambda>(ok, pos). rbind (read_bytes 32 data pos) (\<lambda>(off, pos).
       Ok (\<lparr>output_key = ok, key_offset = off\<rparr>, pos)))"

interpretation output_wire: wire_format read_output "\<lambda>o'. output_key o' @ key_offset o'" output_wf
proof
  show "proper (read_output data pos)" for data pos by (auto simp: read_output_def)
  show "read_output data pos = Ok (x, pos') \<longleftrightarrow> output_wf x \<and> holds_at data pos (output_key x @ key_offset x) \<and>
      pos' = pos + length (output_key x @ key_offset x)" for data pos x pos'
    by (cases x) (auto simp: read_output_def rbind_eq_Ok read_bytes_iff output_wf_def holds_at_append)
qed

lemma read_outputs_guarded:
  "pos + n * 64 \<le> length data \<Longrightarrow> read_many n decode_output_at data pos = read_many n read_output data pos"
proof (induction n arbitrary: pos)
  case (Suc n)
  then have "decode_output_at data pos = read_output data pos" "read_output data pos = Ok (x, p) \<Longrightarrow> p = pos + 64" for x p
    by (auto simp: decode_output_at_def read_output_def read_bytes_eq slice_def add.assoc)
  then show ?case using Suc by (cases "read_output data pos") auto
qed simp

lemma concat_outputs_length: "\<forall>x \<in> set outs. output_wf x \<Longrightarrow>
    length (concat (map (\<lambda>o'. output_key o' @ key_offset o') outs)) = length outs * 64"
  by (induction outs) (auto simp: output_wf_def)

lemma decode_outputs_iff:
  "decode_outputs data = Ok outs \<longleftrightarrow>
     length outs < 2 ^ 32 \<and> (\<forall>x \<in> set outs. output_wf x) \<and> holds_at data 0 (encode_outputs outs)"
proof (cases "length data < 4")
  case True
  then show ?thesis by (auto simp: decode_outputs_def encode_outputs_def holds_at_def)
next
  case False
  define n where "n = unat (u32_of_le (take 4 data))"
  have n: "holds_at data 0 (u32_le (word_of_nat k)) \<and> k < 2 ^ 32 \<longleftrightarrow> k = n" for k
    using False u32_le_of_le [of "take 4 data"] unsigned_less [of "u32_of_le (take 4 data)", where ?'a = nat]
    by (auto simp: n_def holds_at_def unat_u32_le_iff)
  have eq: "decode_outputs data = (if length data < 4 + n * 64 then Err LIB_SERIALIZATION_ERROR
      else rbind (read_many n read_output data 4) (\<lambda>(outs, _). Ok outs))"
    using False by (simp add: decode_outputs_def slice_def into_array_def n_def Let_def read_outputs_guarded)
  show ?thesis
  proof (cases "length data < 4 + n * 64")
    case True
    then have "\<not> holds_at data 4 (concat (map (\<lambda>o'. output_key o' @ key_offset o') outs))"
      if "length outs = n" "\<forall>x \<in> set outs. output_wf x"
      using holds_at_bound concat_outputs_length [OF that(2)] that(1) by fastforce
    then show ?thesis using True n [of "length outs"] by (auto simp: eq encode_outputs_def holds_at_append)
  next
    case len: False
    then show ?thesis
      using output_wire.many_iff [of 4 data n outs] n [of "length outs"] False
      by (auto simp: eq encode_outputs_def holds_at_append rbind_eq_Ok)
  qed
qed

lemma slice_block:
  "(\<forall>x \<in> set xs. length x = 32) \<Longrightarrow> i < length xs \<Longrightarrow> slice (concat xs) (i * 32) ((i + 1) * 32) = Ok (xs ! i)"
proof (induction xs arbitrary: i)
  case (Cons x xs)
  show ?case
  proof (cases i)
    case (Suc n)
    with Cons.IH [of n] Cons.prems show ?thesis by (simp add: slice_def split: if_splits)
  qed (use Cons.prems in \<open>simp add: slice_def\<close>)
qed simp

lemma nth_res_Ok [simp]: "i < length xs \<Longrightarrow> nth_res xs i = Ok (xs ! i)"
  by (simp add: nth_res_def)

lemma add_points_eq:
  assumes "point_ok K" "length ps = i + k" "length tot = i + k"
  shows "add_points K (concat (map (compress K) ps)) k i tot = Ok (take i tot @ map2 (+) (drop i tot) (drop i ps))"
  using assms(2,3)
proof (induction k arbitrary: i tot)
  case (Suc k)
  have "slice (concat (map (compress K) ps)) (i * 32) ((i + 1) * 32) = Ok (compress K (ps ! i))"
    using slice_block [of "map (compress K) ps" i] Suc.prems assms(1) by (simp add: point_ok_def)
  moreover have "drop i tot = tot ! i # drop (i + 1) tot" "drop i ps = ps ! i # drop (i + 1) ps"
    using Suc.prems by (simp_all add: Cons_nth_drop_Suc)
  moreover have "take (i + 1) (tot[i := tot ! i + ps ! i]) = take i tot @ [tot ! i + ps ! i]"
    using Suc.prems by (simp add: take_Suc_conv_app_nth)
  ultimately show ?case
    using Suc assms(1) by (simp add: point_ok_def)
qed simp

lemma add_packages_eq:
  assumes "point_ok K" "map snd others = map (\<lambda>j. concat (map (\<lambda>o'. compress K (q j o')) outs)) js"
  shows "add_packages K (length outs) others (map t outs) = Ok (map (\<lambda>o'. t o' + sum_list (map (\<lambda>j. q j o') js)) outs)"
  using assms(2)
proof (induction others arbitrary: js t)
  case (Cons e others)
  then obtain j js' where js: "js = j # js'" and e: "snd e = concat (map (compress K) (map (q j) outs))"
    by (cases js) (auto simp: o_def)
  have "length (snd e) = length outs * 32"
    using assms(1) by (simp add: e point_ok_def length_concat o_def sum_list_triv)
  moreover have "add_points K (snd e) (length outs) 0 (map t outs) = Ok (map (\<lambda>o'. t o' + q j o') outs)"
    unfolding e using add_points_eq [OF assms(1), of "map (q j) outs" 0 "length outs" "map t outs"]
    by (simp add: zip_map1 zip_map2 zip_same_conv_map)
  ultimately show ?case
    using Cons.IH [of js' "\<lambda>o'. t o' + q j o'"] Cons.prems js by (simp add: add.assoc)
qed simp

lemma finish_images_eq:
  assumes "\<forall>o' \<in> set outs. from_canonical_bytes K (key_offset o') = Some (ko o')"
  shows "finish_images K (pre @ outs) (map t outs) (length pre) =
    Ok (concat (map (\<lambda>o'. compress K (t o' + point_mul K (ko o') (biased_hash K (output_key o')))) outs))"
  using assms
proof (induction outs arbitrary: pre)
  case (Cons o' outs)
  then show ?case using Cons.IH [of "pre @ [o']"] by (simp add: nth_res_def)
qed simp

lemma point_mul_sum:
  assumes "point_ok K"
  shows "(\<Sum>i \<leftarrow> ids. point_mul K (w i) (biased_hash K d)) = point_mul K (\<Sum>i \<leftarrow> ids. w i) (biased_hash K d)"
proof -
  let ?p = "biased_hash K d"
  have "point_mul K (0 + 0) ?p = point_mul K 0 ?p + point_mul K 0 ?p" using assms by (simp only: point_ok_def)
  then have "point_mul K 0 ?p = 0" by simp
  then show ?thesis using assms by (induction ids) (simp_all add: point_ok_def)
qed

lemma shared_key_images:
  assumes "invert_ok L" "point_ok K" "distinct ids" "inj_on (id_scalar L) (set ids)" "length cs \<le> length ids"
    and "rmap (try_id L) signer_ids = Ok ids" "holds_shares L cs ids data"
    and "outs \<noteq> []" "length outs < 2 ^ 32" "\<forall>o' \<in> set outs. output_wf o'"
    and "\<forall>o' \<in> set outs. from_canonical_bytes K (key_offset o') = Some (ko o')"
  shows "\<exists>res. rmap (\<lambda>d. key_image_part1 L K d (encode_outputs outs) signer_ids) data = Ok res \<and> length res = length ids \<and>
    (\<forall>k < length ids. \<forall>others. mset (snd (res ! k) # map snd others) = mset (map snd res) \<longrightarrow>
       key_image_part2 K (fst (res ! k)) others =
         Ok (concat (map (\<lambda>o'. compress K (point_mul K (eval_poly cs 0 + ko o') (biased_hash K (output_key o')))) outs)))"
proof -
  let ?w = "\<lambda>i. basis (map (id_scalar L) ids) (id_scalar L i) 0 * eval_poly cs (id_scalar L i)"
  let ?hp = "\<lambda>o'. biased_hash K (output_key o')"
  let ?q = "\<lambda>i o'. point_mul K (?w i) (?hp o')"
  let ?parts = "\<lambda>i. map (\<lambda>o'. compress K (?q i o')) outs"
  let ?pkg = "\<lambda>i. concat (?parts i)"
  define st where "st (d :: bytes) i = \<lparr>ki_outputs = outs, my_partials = ?parts i\<rparr>" for d i
  have dec: "decode_outputs (encode_outputs outs) = Ok outs" using assms(9,10) by (simp add: decode_outputs_iff)
  show ?thesis
  proof (rule two_rounds [where st = st and pkg = ?pkg])
    show "list_all2 (\<lambda>d i. key_image_part1 L K d (encode_outputs outs) signer_ids = Ok (st d i, ?pkg i)) data ids"
      using assms(7) unfolding holds_shares_def list_all2_conv_all_nth
      by (auto simp: key_image_part1_def assms(6,8) dec signer_weight_eq [OF assms(1,4)] st_def Let_def)
  next
    fix k and others :: "(u16 \<times> bytes) list"
    assume k: "k < length ids" and ms: "mset (?pkg (ids ! k) # map snd others) = mset (map ?pkg ids)"
    obtain js where js: "map snd others = map ?pkg js" "mset (ids ! k # js) = mset ids"
      using others_perm [OF ms] k by auto
    have total: "?q (ids ! k) o' + (\<Sum>j \<leftarrow> js. ?q j o') = point_mul K (eval_poly cs 0) (?hp o')" for o'
      using sum_list_mset [OF js(2), of "\<lambda>i. ?q i o'"] point_mul_sum [OF assms(2), of ?w "output_key o'" ids]
      by (simp add: weighted_shares [OF assms(3,4,5)])
    have "rmap (\<lambda>p. ok_or (decompress K p) LIB_SERIALIZATION_ERROR) (?parts (ids ! k)) = Ok (map (?q (ids ! k)) outs)"
      using assms(2) rmap_Ok_map [of "?parts (ids ! k)" _ "the \<circ> decompress K"] by (simp add: point_ok_def o_def)
    moreover have "add_packages K (length outs) others (map (?q (ids ! k)) outs) =
        Ok (map (\<lambda>o'. point_mul K (eval_poly cs 0) (?hp o')) outs)"
      using add_packages_eq [OF assms(2) js(1)] by (simp add: total)
    ultimately show "key_image_part2 K (st (data ! k) (ids ! k)) others =
         Ok (concat (map (\<lambda>o'. compress K (point_mul K (eval_poly cs 0 + ko o') (?hp o'))) outs))"
      using finish_images_eq [OF assms(11), of "[]"] assms(2)
      by (simp add: key_image_part2_def st_def point_ok_def)
  qed
qed

text \<open>C11: The key images of the threshold wallet are those of the undivided key. When the signers of a
  threshold set run the first round on the same outputs, each of them that finishes with the packages
  of the others, in any order, gets for every output the point \<open>(x + offset) * Hp(output_key)\<close> with
  \<open>x\<close> the shared secret. Scalars are assumed to act additively on hash points only, which have no
  torsion component.\<close>

theorem key_images_of_shared_key:
  assumes "invert_ok L" "point_ok K" "distinct ids" "inj_on (id_scalar L) (set ids)" "length cs \<le> length ids"
    and "rmap (try_id L) signer_ids = Ok ids" "holds_shares L cs ids data"
    and "outs \<noteq> []" "length outs < 2 ^ 32" "\<forall>o' \<in> set outs. output_wf o'"
    and "\<forall>o' \<in> set outs. from_canonical_bytes K (key_offset o') = Some (ko o')"
  shows "\<exists>res. rmap (\<lambda>d. key_image_part1 L K d (encode_outputs outs) signer_ids) data = Ok res \<and> length res = length ids \<and>
    (\<forall>k < length ids. \<forall>others. mset (snd (res ! k) # map snd others) = mset (map snd res) \<longrightarrow>
       key_image_part2 K (fst (res ! k)) others =
         Ok (concat (map (\<lambda>o'. compress K (point_mul K (eval_poly cs 0 + ko o') (biased_hash K (output_key o')))) outs)))"
  using assms by (rule shared_key_images)

theorem key_images_of_shared_key_witness:
  "\<exists>res. rmap (\<lambda>d. key_image_part1 demo7 demo_monero d
        (encode_outputs [\<lparr>output_key = replicate 32 1, key_offset = gf7_bytes 4\<rparr>]) [1, 2])
      [demo_share 1 5, demo_share 2 7] = Ok res \<and> length res = length [1 :: nat, 2] \<and>
    (\<forall>k < length [1 :: nat, 2]. \<forall>others. mset (snd (res ! k) # map snd others) = mset (map snd res) \<longrightarrow>
       key_image_part2 demo_monero (fst (res ! k)) others =
         Ok (concat (map (\<lambda>o'. compress demo_monero
               (point_mul demo_monero (eval_poly [3, 2] 0 + (\<lambda>_. 4) o') (biased_hash demo_monero (output_key o'))))
             [\<lparr>output_key = replicate 32 1, key_offset = gf7_bytes 4\<rparr>])))"
  by (rule key_images_of_shared_key [OF demo7_ok(1,3) _ demo7_ids(2) _ demo7_ids(1) demo_holds_shares])
     (simp_all add: output_wf_def demo_monero_def, simp add: gf7_bytes_def)

end
