(* ===== verification/Fromt_Session_Properties.thy ===== *)
theory Fromt_Session_Properties
  imports Fromt_Session Fromt_Ceremony_Properties
begin

text \<open>
  Properties of the Monero sessions: the DKG session is the common DKG with a view key share behind
  each package, and the view key that the parties store.
\<close>

section \<open>Tasks\<close>

text \<open>What follows the first receive loop of every key generating session.\<close>

definition dkg_tail where
  "dkg_tail L (mx :: u16) id_map secret1 r1_map =
     pbind (Ret (or_blame L (dkg_core_part2 L secret1 r1_map) LIB_DKG_ERROR)) (\<lambda>(secret2, r2_map).
     pbind (send_loop (prepare_r2 L id_map) r2_map) (\<lambda>_.
     pbind (recv_loop (unat (mx - 1)) (recv_insert L (package2_deserialize L)) []) (\<lambda>r2_received.
       Ret (or_blame L (dkg_core_part3 L secret2 r1_map r2_received) LIB_DKG_ERROR))))"

lemma dkg_rounds_tail:
  "dkg_rounds L mx id_map secret1 r1_bytes =
     pbind (broadcast r1_bytes) (\<lambda>_.
     pbind (recv_loop (unat (mx - 1)) (recv_insert L (package1_deserialize L)) []) (dkg_tail L mx id_map secret1))"
  unfolding dkg_rounds_def dkg_tail_def [abs_def] ..

lemma fromt_dkg_run_tail:
  "fromt_dkg_run L K rng rng2 my_id mx mn network bday =
     pbind (Ret (build_id_map L mx)) (\<lambda>id_map.
     pbind (Ret (try_id L my_id)) (\<lambda>ident.
     pbind (Ret (or_blame L (dkg_core_part1 L ident mx mn rng) LIB_DKG_ERROR)) (\<lambda>(secret1, package).
     pbind (Ret (ser_err (package1_serialize L package))) (\<lambda>r1_bytes.
     pbind (Ret (into_array 32 LIB_SERIALIZATION_ERROR (f_serialize K (fst (random_scalar L rng2))))) (\<lambda>vk.
     pbind (broadcast (r1_bytes @ vk)) (\<lambda>_.
     pbind (recv_loop (unat (mx - 1)) (recv_r1_vk L) ([], [])) (\<lambda>(fm, vm).
     pbind (dkg_tail L mx id_map secret1 fm) (\<lambda>(kp, pkp).
     pbind (Ret (aggregate_view_key_shares K vk vm)) (\<lambda>vk_sum.
       Ret (fromt_bundle_serialize L \<lparr>fb_key_package = kp, fb_pub_key_package = pkp, fb_view_key = vk_sum,
              fb_network = network, fb_birthday = bday\<rparr>))))))))))"
  unfolding fromt_dkg_run_def dkg_tail_def VK_SHARE_LEN_def Let_def case_prod_unfold
  by (simp only: pbind_assoc)

lemma poll_recv_loop_not_Ok:
  assumes "\<forall>x. rfold stp (map recv_frame fs) acc \<noteq> Ok x"
  shows "\<exists>r rest'. poll (recv_loop (length fs) stp acc) (fs @ rest) outb = (Ret r, rest', outb) \<and> (\<forall>x. r \<noteq> Ok x)"
  using assms
proof (induction fs arbitrary: acc)
  case (Cons f fs)
  then show ?case by (cases "stp (recv_frame f) acc") (auto simp: poll_recv_loop_Cons simp del: recv_loop.simps)
qed simp

lemma poll_pbind_Ok:
  assumes "poll (pbind (Ret r) f) inb outb = (Ret (Ok y), rest, o')"
  obtains x where "r = Ok x" "poll (f x) inb outb = (Ret (Ok y), rest, o')"
  using assms by (cases r) auto

lemma poll_recv_loop_bind_Ok:
  assumes "poll (pbind (recv_loop (length fs) stp acc) f) (fs @ rest) outb = (Ret (Ok y), rest', o')"
  obtains a where "rfold stp (map recv_frame fs) acc = Ok a" "poll (f a) rest outb = (Ret (Ok y), rest', o')"
proof (cases "\<exists>a. rfold stp (map recv_frame fs) acc = Ok a")
  case True
  then obtain a where a: "rfold stp (map recv_frame fs) acc = Ok a" by blast
  with assms poll_recv_loop_Ok [OF a, of rest outb] that [OF a] show thesis by (simp add: poll_pbind)
next
  case False
  from poll_recv_loop_not_Ok [of stp fs acc rest outb] False
  obtain r rest1 where "poll (recv_loop (length fs) stp acc) (fs @ rest) outb = (Ret r, rest1, outb)" "\<forall>x. r \<noteq> Ok x"
    by blast
  with assms show thesis by (cases r) (simp_all add: poll_pbind)
qed

section \<open>View key shares\<close>

text \<open>The first loop keeps the packages and the shares apart.\<close>

lemma split_package: "length vk = 32 \<Longrightarrow> split_fromt_package (b @ vk) = Ok (b, vk)"
  by (simp add: split_fromt_package_def VK_SHARE_LEN_def slice_def into_array_def)

lemma rfold_recv_r1_vk:
  assumes "rfold (recv_insert L (package1_deserialize L)) (map (\<lambda>(n, b, s). (n, b)) r1) fm = Ok fm'"
    and "\<forall>(n, b, s) \<in> set r1. length s = 32"
  shows "rfold (recv_r1_vk L) (map (\<lambda>(n, b, s). (n, b @ s)) r1) (fm, vm) =
    Ok (fm', fold (\<lambda>(n, b, s). bt_insert (the (id_try_from L n)) s) r1 vm)"
  using assms
proof (induction r1 arbitrary: fm vm)
  case (Cons e r1)
  obtain n b s where e: "e = (n, b, s)" by (cases e)
  from Cons.prems(1) obtain a where "recv_insert L (package1_deserialize L) (n, b) fm = Ok a"
    and rest: "rfold (recv_insert L (package1_deserialize L)) (map (\<lambda>(n, b, s). (n, b)) r1) a = Ok fm'"
    by (auto simp: e elim: rbind_OkE)
  then obtain i p where ip: "id_try_from L n = Some i" "package1_deserialize L b = Some p" "a = bt_insert i p fm"
    by (auto simp: recv_insert_def try_id_def elim!: rbind_OkE)
  have "length s = 32" using Cons.prems(2) by (simp add: e)
  with ip Cons.IH [OF rest, of "bt_insert i s vm"] Cons.prems(2) show ?case
    by (simp add: e recv_r1_vk_def try_id_def split_package ser_err_def)
qed simp

lemma mset_bt_insert_new: "k \<notin> fst ` set m \<Longrightarrow> mset (bt_insert k v m) = add_mset (k, v) (mset m)"
  by (induction k v m rule: bt_insert.induct) auto

lemma rfold_recv_ids:
  "rfold (recv_insert L de) ms acc = Ok a \<Longrightarrow> m \<in> set ms \<Longrightarrow> \<exists>i. id_try_from L (fst m) = Some i"
proof (induction ms arbitrary: acc)
  case (Cons x ms)
  then obtain b where b: "recv_insert L de x acc = Ok b" "rfold (recv_insert L de) ms b = Ok a" by (auto elim: rbind_OkE)
  then have "\<exists>i. id_try_from L (fst x) = Some i" by (auto simp: recv_insert_def try_id_def elim!: rbind_OkE)
  with Cons.IH [OF b(2)] Cons.prems(2) show ?case by auto
qed simp

lemma mset_fold_shares:
  assumes "ids_ok L" "distinct (map fst r1)" "\<forall>e \<in> set r1. \<exists>i. id_try_from L (fst e) = Some i"
    and "\<forall>e \<in> set r1. the (id_try_from L (fst e)) \<notin> fst ` set vm"
  shows "mset (map snd (fold (\<lambda>(n, b, s). bt_insert (the (id_try_from L n)) s) r1 vm)) =
    mset (map (\<lambda>(n, b, s). s) r1) + mset (map snd vm)"
  using assms(2,3,4)
proof (induction r1 arbitrary: vm)
  case (Cons e r1)
  obtain n b s where e: "e = (n, b, s)" by (cases e)
  obtain i where i: "id_try_from L n = Some i" using Cons.prems(2) by (auto simp: e)
  have "the (id_try_from L (fst d)) \<noteq> i" if d: "d \<in> set r1" for d
  proof
    assume "the (id_try_from L (fst d)) = i"
    moreover obtain j where "id_try_from L (fst d) = Some j" using Cons.prems(2) d by (meson list.set_intros(2))
    ultimately have "fst d = n" using ids_ok_try_from_inj [OF assms(1) _ i] by simp
    then show False using Cons.prems(1) d by (auto simp: e)
  qed
  then have "\<forall>d \<in> set r1. the (id_try_from L (fst d)) \<notin> fst ` set (bt_insert i s vm)"
    using Cons.prems(3) by (auto simp: set_bt_insert_keys)
  moreover have "mset (map snd (bt_insert i s vm)) = add_mset s (mset (map snd vm))"
    using Cons.prems(3) i mset_bt_insert_new [of i vm s] by (simp add: e)
  ultimately show ?case
    using Cons.IH [of "bt_insert i s vm"] Cons.prems i by (simp add: e)
qed simp

lemma sum_vk_shares_eq:
  assumes "scalar_ok K" "map snd vm = map (f_serialize K) xs"
  shows "sum_vk_shares K vm acc = Ok (acc + sum_list xs)"
  using assms(2)
proof (induction vm arbitrary: xs acc)
  case (Cons e vm)
  then obtain x xs' where "xs = x # xs'" by (cases xs) auto
  with Cons assms(1) show ?case by (simp add: scalar_ok_def into_array_def ser_err_def add.assoc)
qed simp

lemma sum_import_shares_eq:
  assumes "scalar_ok K" "map snd vm = map (f_serialize K) xs"
  shows "sum_import_shares K vm acc = Ok (acc + sum_list xs)"
  using assms(2)
proof (induction vm arbitrary: xs acc)
  case (Cons e vm)
  then obtain x xs' where "xs = x # xs'" by (cases xs) auto
  with Cons assms(1) show ?case by (simp add: scalar_ok_def ser_err_def add.assoc)
qed simp

text \<open>The aggregate does not depend on the order of the shares.\<close>

lemma aggregate_view_key_eq:
  fixes K :: "('f::field, 'g, 'sig, 'sp, 'pt) monero"
  assumes "scalar_ok K" "mset (map snd vm) = mset (map (f_serialize K) xs)"
  shows "aggregate_view_key_shares K (f_serialize K x) vm = Ok (f_serialize K (x + sum_list xs))"
proof -
  from mset_map_lift [OF assms(2)] obtain zs where zs: "map snd vm = map (f_serialize K) zs" "mset zs = mset xs" by blast
  have "sum_list zs = sum_list xs" using sum_list_mset [OF zs(2), of "\<lambda>x. x"] by simp
  with sum_vk_shares_eq [OF assms(1) zs(1)] assms(1) show ?thesis
    by (simp add: aggregate_view_key_shares_def scalar_ok_def into_array_def ser_err_def)
qed

section \<open>Properties\<close>

text \<open>C12: The Monero DKG session is the common DKG session with a view key on top. If the common session
  succeeds on some frames, then the Monero session, with a view key share of each sender behind its
  round-one package, sends the same messages (the first with its own share behind it) and ends with
  the bundle of the same key packages, whose view key is the sum of all shares.\<close>

theorem fromt_dkg_carries_view_key:
  fixes K :: "('f::field, 'g, 'sig, 'sp, 'pt) monero" and r1 :: "(u16 \<times> bytes \<times> 'f) list"
  assumes "ids_ok L" "scalar_ok K" "length r1 = unat (mx - 1)" "distinct (map fst r1)"
    and "poll (dkg_run L rng my_id mx mn) (map (\<lambda>(n, b, s). wrap_sender n b) r1 @ r2) [] = (Ret (Ok (kp, pkp)), rest, out)"
  shows "\<exists>r1_bytes msgs. out = wrap_sender 0 r1_bytes # msgs \<and>
    poll (fromt_dkg_run L K rng rng2 my_id mx mn network bday)
       (map (\<lambda>(n, b, s). wrap_sender n (b @ f_serialize K s)) r1 @ r2) [] =
     (Ret (fromt_bundle_serialize L \<lparr>fb_key_package = kp, fb_pub_key_package = pkp,
         fb_view_key = f_serialize K (fst (random_scalar L rng2) + (\<Sum>(n, b, s) \<leftarrow> r1. s)),
         fb_network = network, fb_birthday = bday\<rparr>), rest,
      wrap_sender 0 (r1_bytes @ f_serialize K (fst (random_scalar L rng2))) # msgs)"
proof -
  let ?fs = "map (\<lambda>(n, b, s). wrap_sender n b) r1" and ?x = "fst (random_scalar L rng2)"
  let ?r1 = "map (\<lambda>(n, b, s). (n, b, f_serialize K s)) r1"
  let ?fs' = "map (\<lambda>(n, b, s). wrap_sender n (b @ s)) ?r1"
  from assms(5) obtain idm ident secret1 package r1_bytes where run: "build_id_map L mx = Ok idm" "try_id L my_id = Ok ident"
      "or_blame L (dkg_core_part1 L ident mx mn rng) LIB_DKG_ERROR = Ok (secret1, package)"
      "ser_err (package1_serialize L package) = Ok r1_bytes"
    and rounds: "poll (dkg_rounds L mx idm secret1 r1_bytes) (?fs @ r2) [] = (Ret (Ok (kp, pkp)), rest, out)"
    unfolding dkg_run_eq by (auto split: res.splits prod.splits)
  have "poll (pbind (recv_loop (length ?fs) (recv_insert L (package1_deserialize L)) []) (dkg_tail L mx idm secret1))
      (?fs @ r2) [wrap_sender 0 r1_bytes] = (Ret (Ok (kp, pkp)), rest, out)"
    using rounds assms(3) by (simp add: dkg_rounds_tail poll_pbind broadcast_def wrap_sender_def)
  then obtain fm where fm: "rfold (recv_insert L (package1_deserialize L)) (map recv_frame ?fs) [] = Ok fm"
    and tl: "poll (dkg_tail L mx idm secret1 fm) r2 [wrap_sender 0 r1_bytes] = (Ret (Ok (kp, pkp)), rest, out)"
    by (rule poll_recv_loop_bind_Ok)
  obtain msgs where msgs: "poll (dkg_tail L mx idm secret1 fm) r2 [] = (Ret (Ok (kp, pkp)), rest, msgs)"
    "out = wrap_sender 0 r1_bytes # msgs"
    using tl poll_outbox [of "dkg_tail L mx idm secret1 fm" r2 "[wrap_sender 0 r1_bytes]"] by (auto split: prod.splits)
  define vm where "vm = fold (\<lambda>(n, b, s). bt_insert (the (id_try_from L n)) s) ?r1 []"
  have "rfold (recv_r1_vk L) (map recv_frame ?fs') ([], []) = Ok (fm, vm)"
    using rfold_recv_r1_vk [of L ?r1 "[]" fm "[]"] fm assms(2)
    by (simp add: vm_def scalar_ok_def o_def case_prod_unfold)
  note loop = poll_recv_loop_Ok [OF this, of r2]
  have ids: "\<exists>i. id_try_from L (fst e) = Some i" if "e \<in> set ?r1" for e
    using rfold_recv_ids [OF fm, of "(fst e, fst (snd e))"] that by (force simp: case_prod_unfold)
  have "mset (map snd vm) = mset (map (f_serialize K) (map (\<lambda>(n, b, s). s) r1))"
    using mset_fold_shares [of L ?r1 "[]", OF assms(1)] assms(4) ids
    by (simp add: vm_def o_def case_prod_unfold)
  from aggregate_view_key_eq [OF assms(2) this] assms(2)
  have agg: "aggregate_view_key_shares K (f_serialize K ?x) vm = Ok (f_serialize K (?x + (\<Sum>(n, b, s) \<leftarrow> r1. s)))" by simp
  have "poll (fromt_dkg_run L K rng rng2 my_id mx mn network bday) (?fs' @ r2) [] =
      poll (pbind (dkg_tail L mx idm secret1 fm) (\<lambda>(kp, pkp). pbind (Ret (aggregate_view_key_shares K (f_serialize K ?x) vm)) (\<lambda>vk_sum.
       Ret (fromt_bundle_serialize L \<lparr>fb_key_package = kp, fb_pub_key_package = pkp, fb_view_key = vk_sum,
              fb_network = network, fb_birthday = bday\<rparr>)))) r2 [wrap_sender 0 (r1_bytes @ f_serialize K ?x)]"
    using loop assms(2,3)
    by (simp add: fromt_dkg_run_tail run poll_pbind broadcast_def wrap_sender_def scalar_ok_def into_array_def)
  then show ?thesis
    using msgs poll_outbox [of "dkg_tail L mx idm secret1 fm" r2 "[wrap_sender 0 (r1_bytes @ f_serialize K ?x)]"]
    by (intro exI [of _ r1_bytes] exI [of _ msgs]) (simp add: poll_pbind agg o_def case_prod_unfold)
qed

theorem fromt_dkg_carries_view_key_witness:
  "\<exists>r1_bytes msgs. [[0, 0, 3, 4], [2, 0, 4]] = wrap_sender 0 r1_bytes # msgs \<and>
    poll (fromt_dkg_run demo7 demo_monero 3 5 1 2 2 0 9)
       (map (\<lambda>(n, b, s). wrap_sender n (b @ f_serialize demo_monero s)) [(2, [5, 6], 4)] @ [wrap_sender 2 [1]]) [] =
     (Ret (fromt_bundle_serialize demo7 \<lparr>fb_key_package = (1, of_nat 1), fb_pub_key_package = of_nat 1,
         fb_view_key = f_serialize demo_monero (fst (random_scalar demo7 5) + (\<Sum>(n, b, s) \<leftarrow> [(2 :: u16, [5, 6 :: u8], 4)]. s)),
         fb_network = 0, fb_birthday = 9\<rparr>), [],
      wrap_sender 0 (r1_bytes @ f_serialize demo_monero (fst (random_scalar demo7 5))) # msgs)"
proof (rule fromt_dkg_carries_view_key [OF ids_ok_demo7 demo7_ok(2)])
  show "poll (dkg_run demo7 3 1 2 2) (map (\<lambda>(n, b, s). wrap_sender n b) [(2, [5, 6], 4)] @ [wrap_sender 2 [1]]) [] =
      (Ret (Ok ((1, of_nat 1), of_nat 1)), [], [[0, 0, 3, 4], [2, 0, 4]])"
    by (rule returned_Some) code_simp
qed simp_all

text \<open>C24: Key import gives every party the view key of the imported wallet. Let a seed determine the spend key
  and the view key; the party that holds the spend key contributes a constant term, which with the
  ones of the other parties adds up to the spend key, and the view key as its share, the others
  contribute zero shares. Then each party, whichever of these shares is its own and in whatever order
  the others come, aggregates them to that view key, in the session as in the round-based version.\<close>

theorem import_view_key:
  fixes K :: "('f::field, 'g, 'sig, 'sp, 'pt) monero"
  assumes "scalar_ok K" "f_serialize K 0 = zero32" "mx \<noteq> 0" "derive_keys_from_seed K seed = Ok (sk, vk)"
    and "mset (own # map snd others) = mset (vk # replicate n zero32)"
  shows "(\<exists>ct. holder_shares K sk mx = Ok (ct, vk) \<and> ct + of_nat (unat mx - 1) = from_bytes_mod_order K seed) \<and>
    aggregate_view_key_shares K own others = Ok vk \<and> aggregate_import_view_key K own others = Ok vk"
proof -
  define v where "v = from_bytes_mod_order K (keccak256 K sk)"
  have sk: "sk = f_serialize K (from_bytes_mod_order K seed)" and vk: "vk = f_serialize K v"
    using assms(1,4) by (auto simp: derive_keys_from_seed_def scalar_ok_def v_def Let_def)
  have "unat (mx - 1) = unat mx - 1" using assms(3) by (simp add: unat_minus_one)
  then have holder: "\<exists>ct. holder_shares K sk mx = Ok (ct, vk) \<and> ct + of_nat (unat mx - 1) = from_bytes_mod_order K seed"
    using assms(1) by (auto simp: holder_shares_def sk scalar_ok_def vk v_def derive_constant_term_def minus_ones_eq ser_err_def)
  have "mset (own # map snd others) = mset (map (f_serialize K) (v # replicate n 0))"
    using assms(2,5) vk by (simp add: map_replicate_const)
  from mset_map_lift [OF this] obtain z zs where zs: "own = f_serialize K z" "map snd others = map (f_serialize K) zs"
    "mset (z # zs) = mset (v # replicate n 0)" by (auto simp: Cons_eq_map_conv)
  have total: "z + sum_list zs = v" using sum_list_mset [OF zs(3), of "\<lambda>x. x"] by (simp add: sum_list_replicate)
  have "sum_import_shares K others acc = Ok (acc + sum_list zs)" for acc
    using sum_import_shares_eq [OF assms(1) zs(2)] .
  then have "aggregate_import_view_key K own others = Ok vk"
    using assms(1) total by (simp add: aggregate_import_view_key_def zs(1) scalar_ok_def ser_err_def into_array_def vk)
  moreover have "aggregate_view_key_shares K own others = Ok vk"
    using aggregate_view_key_eq [OF assms(1), of others zs z] zs(2) total by (simp add: zs(1) vk flip: mset_map)
  ultimately show ?thesis using holder by blast
qed

theorem import_view_key_witness:
  "(\<exists>ct. holder_shares demo_monero (gf7_bytes (of_nat 3)) 3 = Ok (ct, gf7_bytes (of_nat 3)) \<and>
      ct + of_nat (unat (3 :: u16) - 1) = from_bytes_mod_order demo_monero [3]) \<and>
    aggregate_view_key_shares demo_monero zero32 [(1 :: nat, zero32), (2, gf7_bytes (of_nat 3))] = Ok (gf7_bytes (of_nat 3)) \<and>
    aggregate_import_view_key demo_monero zero32 [(1 :: nat, zero32), (2, gf7_bytes (of_nat 3))] = Ok (gf7_bytes (of_nat 3))"
proof (rule import_view_key [OF demo7_ok(2), where n = 2])
  show "derive_keys_from_seed demo_monero [3] = Ok (gf7_bytes (of_nat 3), gf7_bytes (of_nat 3))"
    by code_simp
  show "f_serialize demo_monero 0 = zero32" by code_simp
  show "mset (zero32 # map snd [(1, zero32), (2, gf7_bytes (of_nat 3))]) = mset (gf7_bytes (of_nat 3) # replicate 2 zero32)"
    by (simp add: numeral_2_eq_2)
qed simp

end
