(* ===== verification/Monero_Address.thy ===== *)
theory Monero_Address
  imports Fromt_Ceremony_Properties
begin

text \<open>
  \<^verbatim>\<open>fromt-lib/src/monero/address.rs\<close> and \<^verbatim>\<open>subaddress.rs\<close>: the base58 of Monero, which encodes blocks of
  eight bytes to eleven characters, and the addresses built from it. A string is the list of its
  ASCII bytes; the block value is a \<^verbatim>\<open>u128\<close>, a word of 128 bits.
\<close>

section \<open>Base58\<close>

definition BASE58_ALPHABET :: bytes where
  "BASE58_ALPHABET = str_bytes ''123456789ABCDEFGHJKLMNPQRSTUVWXYZabcdefghijkmnopqrstuvwxyz''"

definition ENCODED_BLOCK_SIZES :: "nat list" where
  "ENCODED_BLOCK_SIZES = [0, 2, 3, 5, 6, 7, 9, 10, 11]"

definition FULL_BLOCK_SIZE :: nat where "FULL_BLOCK_SIZE = 8"
definition FULL_ENCODED_SIZE :: nat where "FULL_ENCODED_SIZE = 11"

text \<open>The loop that folds the bytes of a block into a number, and the loop that fills the characters from the last one.\<close>

primrec block_value :: "bytes \<Rightarrow> 128 word \<Rightarrow> 128 word" where
  "block_value [] num = num"
| "block_value (b # bs) num = block_value bs (num * 256 + ucast b)"

primrec block_chars :: "nat \<Rightarrow> 128 word \<Rightarrow> bytes" where
  "block_chars 0 num = []"
| "block_chars (Suc i) num = block_chars i (num div 58) @ [BASE58_ALPHABET ! unat (num mod 58)]"

definition encode_block :: "bytes \<Rightarrow> nat \<Rightarrow> bytes" where
  "encode_block data encoded_size = block_chars encoded_size (block_value data 0)"

definition monero_base58_encode :: "bytes \<Rightarrow> bytes res" where
  "monero_base58_encode data =
     (let full_blocks = length data div FULL_BLOCK_SIZE; remainder = length data mod FULL_BLOCK_SIZE in
      rbind (rmap (\<lambda>i. rbind (slice data (i * FULL_BLOCK_SIZE) ((i + 1) * FULL_BLOCK_SIZE)) (\<lambda>block.
               Ok (encode_block block FULL_ENCODED_SIZE))) [0..<full_blocks]) (\<lambda>chunks.
      if remainder > 0 then
        rbind (slice data (full_blocks * FULL_BLOCK_SIZE) (length data)) (\<lambda>block.
          Ok (concat chunks @ encode_block block (ENCODED_BLOCK_SIZES ! remainder)))
      else Ok (concat chunks)))"

section \<open>Addresses\<close>

definition MAINNET_STANDARD :: u8 where "MAINNET_STANDARD = 18"

definition network_prefix :: "u8 \<Rightarrow> u8 res" where
  "network_prefix network = (if network = 0 then Ok MAINNET_STANDARD else Err LIB_ADDRESS_ERROR)"

definition derive_address where
  "derive_address K spend_pub_key view_key network =
     rbind (network_prefix network) (\<lambda>prefix.
     let view_pub = compress K (basepoint_mul K (from_bytes_mod_order K view_key));
         data = [prefix] @ spend_pub_key @ view_pub
     in rbind (slice (keccak256 K data) 0 4) (\<lambda>checksum. monero_base58_encode (data @ checksum)))"

definition derive_subaddress where
  "derive_subaddress K spend_pub_key view_key (acct :: u32) (idx :: u32) network =
     (if acct = 0 \<and> idx = 0 then derive_address K spend_pub_key view_key network
      else
        rbind (into_array 32 LIB_ADDRESS_ERROR spend_pub_key) (\<lambda>arr.
        rbind (ok_or (decompress K arr) LIB_ADDRESS_ERROR) (\<lambda>spend_point.
        let view_scalar = from_bytes_mod_order K view_key;
            hash = keccak256 K (str_bytes ''SubAddr'' @ [0] @ view_key @ u32_le acct @ u32_le idx);
            sub_spend = compress K (spend_point + basepoint_mul K (from_bytes_mod_order K hash))
        in
        rbind (ok_or (decompress K sub_spend) LIB_ADDRESS_ERROR) (\<lambda>sub_spend_point.
        let sub_view = compress K (point_mul K view_scalar sub_spend_point) in
        rbind (if network = 0 then Ok 42 else Err LIB_ADDRESS_ERROR) (\<lambda>prefix.
        let data = [prefix] @ sub_spend @ sub_view in
        rbind (slice (keccak256 K data) 0 4) (\<lambda>checksum. monero_base58_encode (data @ checksum))))))) "

section \<open>ffi/address.rs\<close>

definition fromt_derive_address where
  "fromt_derive_address L K key_share (out_address :: unit option) =
     exported (cbind (nonnull key_share) (\<lambda>ks_data. cbind (nonnull out_address) (\<lambda>_.
       cret (
         rbind (fromt_bundle_deserialize L (as_slice ks_data)) (\<lambda>b.
         rbind (verifying_key_bytes L b) (\<lambda>pub_key_bytes.
         rbind (into_array 32 LIB_SERIALIZATION_ERROR pub_key_bytes) (\<lambda>pub_key_arr.
           derive_address K pub_key_arr (fb_view_key b) (fb_network b))))))))"

definition fromt_derive_subaddress where
  "fromt_derive_subaddress L K key_share acct idx (out_address :: unit option) =
     exported (cbind (nonnull key_share) (\<lambda>ks_data. cbind (nonnull out_address) (\<lambda>_.
       cret (
         rbind (fromt_bundle_deserialize L (as_slice ks_data)) (\<lambda>b.
         rbind (verifying_key_bytes L b) (\<lambda>pub_key_bytes.
         rbind (into_array 32 LIB_SERIALIZATION_ERROR pub_key_bytes) (\<lambda>pub_key_arr.
           derive_subaddress K pub_key_arr (fb_view_key b) acct idx (fb_network b))))))))"

section \<open>Lemmas\<close>

lemma length_alphabet: "length BASE58_ALPHABET = 58"
  by (simp add: BASE58_ALPHABET_def str_bytes_def)

lemma distinct_alphabet: "distinct BASE58_ALPHABET"
  by code_simp

lemma alphabet_inj: "i < 58 \<Longrightarrow> j < 58 \<Longrightarrow> BASE58_ALPHABET ! i = BASE58_ALPHABET ! j \<longleftrightarrow> i = j"
  using nth_eq_iff_index_eq [OF distinct_alphabet] by (simp add: length_alphabet)

lemma length_block_chars [simp]: "length (block_chars n num) = n"
  by (induction n arbitrary: num) simp_all

text \<open>The characters determine the number as long as it has that many digits.\<close>

lemma block_chars_inj:
  "unat a < 58 ^ n \<Longrightarrow> unat b < 58 ^ n \<Longrightarrow> block_chars n a = block_chars n b \<Longrightarrow> a = b"
proof (induction n arbitrary: a b)
  case 0
  then show ?case by (simp add: unat_eq_zero)
next
  case (Suc n)
  have "unat (a div 58) < 58 ^ n" "unat (b div 58) < 58 ^ n"
    using Suc.prems(1,2) by (simp_all add: unat_div less_mult_imp_div_less mult.commute)
  moreover have "block_chars n (a div 58) = block_chars n (b div 58)"
    and last: "BASE58_ALPHABET ! unat (a mod 58) = BASE58_ALPHABET ! unat (b mod 58)"
    using Suc.prems(3) by simp_all
  ultimately have "a div 58 = b div 58" using Suc.IH by blast
  moreover have "unat (a mod 58) = unat (b mod 58)"
    using last by (simp add: alphabet_inj unat_mod)
  then have "a mod 58 = b mod 58" by (simp add: word_unat_eq_iff)
  ultimately show ?case by (metis word_mod_div_equality)
qed

text \<open>The number of a block in big-endian order.\<close>

fun be_nat :: "bytes \<Rightarrow> nat \<Rightarrow> nat" where
  "be_nat [] n = n"
| "be_nat (b # bs) n = be_nat bs (n * 256 + unat b)"

lemma be_nat_split: "be_nat bs n = n * 256 ^ length bs + be_nat bs 0"
proof (induction bs arbitrary: n)
  case (Cons b bs)
  show ?case
    using Cons.IH [of "n * 256 + unat b"] Cons.IH [of "unat b"] by (simp add: algebra_simps)
qed simp

lemma be_nat_bound: "be_nat bs 0 < 256 ^ length bs"
proof (induction bs)
  case (Cons b bs)
  have "unat b < 256" using unsigned_less [of b, where ?'a = nat] by simp
  then have "(unat b + 1) * 256 ^ length bs \<le> 256 * 256 ^ length bs" by (intro mult_right_mono) simp_all
  then have "unat b * 256 ^ length bs + 256 ^ length bs \<le> 256 ^ length (b # bs)" by (simp add: algebra_simps)
  moreover have "be_nat (b # bs) 0 = unat b * 256 ^ length bs + be_nat bs 0" using be_nat_split [of bs "unat b"] by simp
  ultimately show ?case using Cons by linarith
qed simp

lemma digit_unique: "r < P \<Longrightarrow> s < P \<Longrightarrow> a * P + r = b * P + s \<Longrightarrow> a = b \<and> r = s" for a b r s P :: nat
proof -
  assume less: "r < P" "s < P" and eq: "a * P + r = b * P + s"
  have d: "(c * P + q) div P = c" if "q < P" for c q using that by simp
  have "a = b" using d [OF less(1), of a] d [OF less(2), of b] eq by metis
  with eq show "a = b \<and> r = s" by simp
qed

lemma be_nat_inj: "length xs = length ys \<Longrightarrow> be_nat xs 0 = be_nat ys 0 \<Longrightarrow> xs = ys"
proof (induction rule: list_induct2)
  case (Cons x xs y ys)
  have "be_nat xs 0 < 256 ^ length xs" "be_nat ys 0 < 256 ^ length xs"
    using be_nat_bound [of xs] be_nat_bound [of ys] Cons.hyps by simp_all
  moreover have "unat x * 256 ^ length xs + be_nat xs 0 = unat y * 256 ^ length xs + be_nat ys 0"
    using Cons.prems Cons.hyps be_nat_split [of xs "unat x"] be_nat_split [of ys "unat y"] by simp
  ultimately have "unat x = unat y \<and> be_nat xs 0 = be_nat ys 0"
    by (rule digit_unique)
  then show ?case using Cons.IH by (simp add: word_unat_eq_iff)
qed simp

lemma block_value_eq:
  "unat num = n \<Longrightarrow> (n + 1) * 256 ^ length bs \<le> 2 ^ 128 \<Longrightarrow> unat (block_value bs num) = be_nat bs n"
proof (induction bs arbitrary: num n)
  case (Cons b bs)
  have b: "unat b < 256" using unsigned_less [of b, where ?'a = nat] by simp
  have "(n * 256 + unat b + 1) * 256 ^ length bs \<le> (n + 1) * 256 * 256 ^ length bs"
    using b by (intro mult_right_mono) simp_all
  also have "... \<le> 2 ^ 128" using Cons.prems(2) by (simp add: algebra_simps)
  finally have bound: "(n * 256 + unat b + 1) * 256 ^ length bs \<le> 2 ^ 128" .
  have "(n * 256 + unat b + 1) * 1 \<le> (n * 256 + unat b + 1) * 256 ^ length bs" by (rule mult_le_mono2) simp
  from order.trans [OF this bound] have "n * 256 + unat b < 2 ^ 128" by (simp only: mult_1_right Suc_eq_plus1 [symmetric] Suc_le_eq)
  then have "unat (num * 256 + ucast b) = n * 256 + unat b"
    using Cons.prems(1) b by (simp add: unat_word_ariths unsigned_ucast_eq take_bit_nat_eq_self)
  from Cons.IH [OF this bound] show ?case by simp
qed simp

lemma block_sizes: "n \<le> 8 \<Longrightarrow> 256 ^ n \<le> (58 :: nat) ^ (ENCODED_BLOCK_SIZES ! n)"
proof -
  assume "n \<le> 8"
  then have "n \<in> {0, 1, 2, 3, 4, 5, 6, 7, 8}" by auto
  then show ?thesis by (auto simp: ENCODED_BLOCK_SIZES_def)
qed

lemma encode_block_inj:
  assumes "length x \<le> 8" "length x = length y"
    and "encode_block x (ENCODED_BLOCK_SIZES ! length x) = encode_block y (ENCODED_BLOCK_SIZES ! length x)"
  shows "x = y"
proof -
  let ?n = "ENCODED_BLOCK_SIZES ! length x"
  have small: "(256 :: nat) ^ length x \<le> 2 ^ 128"
    using power_increasing [OF assms(1), of "256 :: nat"] by simp
  have v: "unat (block_value x 0) = be_nat x 0" "unat (block_value y 0) = be_nat y 0"
    using block_value_eq [of 0 0] small assms(2) by simp_all
  have "be_nat x 0 < 58 ^ ?n" "be_nat y 0 < 58 ^ ?n"
    using be_nat_bound [of x] be_nat_bound [of y] block_sizes [OF assms(1)] assms(2) by simp_all
  then have "block_value x 0 = block_value y 0"
    using block_chars_inj [of "block_value x 0" ?n "block_value y 0"] assms(3) v by (simp add: encode_block_def)
  then have "be_nat x 0 = be_nat y 0" using v by simp
  then show ?thesis using be_nat_inj assms(2) by blast
qed

text \<open>The encoder as a recursion over blocks.\<close>

fun base58_blocks :: "bytes \<Rightarrow> bytes" where
  "base58_blocks data =
     (if length data < 8 then encode_block data (ENCODED_BLOCK_SIZES ! length data)
      else encode_block (take 8 data) 11 @ base58_blocks (drop 8 data))"

declare base58_blocks.simps [simp del]

lemma base58_blocks_loop:
  "length data div 8 = n \<Longrightarrow> base58_blocks data =
     concat (map (\<lambda>i. encode_block (take 8 (drop (i * 8) data)) 11) [0..<n]) @
     encode_block (drop (n * 8) data) (ENCODED_BLOCK_SIZES ! (length data mod 8))"
proof (induction n arbitrary: data)
  case 0
  then have "length data < 8" by (simp add: div_eq_0_iff)
  then show ?case by (simp add: base58_blocks.simps [of data])
next
  case (Suc n)
  then have len: "8 \<le> length data" by (metis div_less nat.distinct(1) not_le)
  then have "length (drop 8 data) div 8 = n" "length (drop 8 data) mod 8 = length data mod 8"
    using Suc.prems by (simp_all add: le_div_geq le_mod_geq)
  with Suc.IH [of "drop 8 data"] len show ?case
    by (simp add: base58_blocks.simps [of data] upt_conv_Cons map_Suc_upt [symmetric] o_def add.commute del: upt_Suc)
qed

lemma monero_base58_encode_eq: "monero_base58_encode data = Ok (base58_blocks data)"
proof -
  let ?n = "length data div 8"
  have n: "?n * 8 \<le> length data" by simp
  have "rmap (\<lambda>i. rbind (slice data (i * 8) ((i + 1) * 8)) (\<lambda>block. Ok (encode_block block 11))) [0..<?n]
      = Ok (map (\<lambda>i. encode_block (take 8 (drop (i * 8) data)) 11) [0..<?n])"
  proof (rule rmap_Ok_map, rule ballI)
    fix i assume "i \<in> set [0..<?n]"
    then have "(i + 1) * 8 \<le> ?n * 8" by simp
    with n have "(i + 1) * 8 \<le> length data" by linarith
    then show "rbind (slice data (i * 8) ((i + 1) * 8)) (\<lambda>block. Ok (encode_block block 11)) =
        Ok (encode_block (take 8 (drop (i * 8) data)) 11)" by (simp add: slice_def)
  qed
  moreover have "drop (?n * 8) data = []" if "length data mod 8 = 0"
    using that by (simp add: mod_eq_0_iff_dvd)
  ultimately show ?thesis
    using n base58_blocks_loop [of data, OF refl]
    by (auto simp: monero_base58_encode_def FULL_BLOCK_SIZE_def FULL_ENCODED_SIZE_def Let_def slice_def
        ENCODED_BLOCK_SIZES_def encode_block_def)
qed

lemma length_base58_blocks:
  "length (base58_blocks data) = 11 * (length data div 8) + ENCODED_BLOCK_SIZES ! (length data mod 8)"
proof (induction data rule: base58_blocks.induct)
  case (1 data)
  show ?case
  proof (cases "length data < 8")
    case False
    with 1 show ?thesis by (simp add: base58_blocks.simps [of data] encode_block_def le_div_geq le_mod_geq)
  qed (simp add: base58_blocks.simps [of data] encode_block_def)
qed

lemma block_sizes_inj: "r < 8 \<Longrightarrow> s < 8 \<Longrightarrow> ENCODED_BLOCK_SIZES ! r < 11 \<and>
    (ENCODED_BLOCK_SIZES ! r = ENCODED_BLOCK_SIZES ! s \<longleftrightarrow> r = s)"
proof -
  assume rs: "r < 8" "s < 8"
  have "distinct ENCODED_BLOCK_SIZES" by (simp add: ENCODED_BLOCK_SIZES_def)
  from nth_eq_iff_index_eq [OF this, of r s] rs
  have "ENCODED_BLOCK_SIZES ! r = ENCODED_BLOCK_SIZES ! s \<longleftrightarrow> r = s" by (simp add: ENCODED_BLOCK_SIZES_def)
  moreover have "r \<in> {0, 1, 2, 3, 4, 5, 6, 7}" using rs by auto
  then have "ENCODED_BLOCK_SIZES ! r < 11" by (auto simp: ENCODED_BLOCK_SIZES_def)
  ultimately show ?thesis by blast
qed

lemma base58_same_length:
  assumes "base58_blocks x = base58_blocks y"
  shows "length x = length y"
proof -
  let ?s = "\<lambda>d :: bytes. ENCODED_BLOCK_SIZES ! (length d mod 8)"
  have "length x div 8 * 11 + ?s x = length y div 8 * 11 + ?s y"
    using assms length_base58_blocks [of x] length_base58_blocks [of y] by simp
  moreover have "?s x < 11" "?s y < 11" using block_sizes_inj [of "length x mod 8" "length y mod 8"]
      block_sizes_inj [of "length y mod 8" "length x mod 8"] by simp_all
  ultimately have "length x div 8 = length y div 8" "?s x = ?s y" using digit_unique by blast+
  then have "length x div 8 = length y div 8" "length x mod 8 = length y mod 8"
    using block_sizes_inj [of "length x mod 8" "length y mod 8"] by simp_all
  then show ?thesis by (metis div_mult_mod_eq)
qed

lemma base58_blocks_inj: "base58_blocks x = base58_blocks y \<Longrightarrow> x = y"
proof (induction x arbitrary: y rule: base58_blocks.induct)
  case (1 x)
  note len = base58_same_length [OF 1(2)]
  show ?case
  proof (cases "length x < 8")
    case True
    then show ?thesis
      using 1(2) len encode_block_inj [of x y] by (simp add: base58_blocks.simps [of x] base58_blocks.simps [of y])
  next
    case False
    then have "encode_block (take 8 x) 11 @ base58_blocks (drop 8 x) = encode_block (take 8 y) 11 @ base58_blocks (drop 8 y)"
      using 1(2) len by (simp add: base58_blocks.simps [of x] base58_blocks.simps [of y])
    then have eq: "encode_block (take 8 x) 11 = encode_block (take 8 y) 11" "base58_blocks (drop 8 x) = base58_blocks (drop 8 y)"
      by (simp_all add: encode_block_def)
    have "take 8 x = take 8 y"
      using encode_block_inj [of "take 8 x" "take 8 y"] eq(1) False len by (simp add: ENCODED_BLOCK_SIZES_def)
    moreover have "drop 8 x = drop 8 y" using 1(1) [OF False eq(2)] .
    ultimately show ?thesis by (metis append_take_drop_id)
  qed
qed

lemma base58_injective: "monero_base58_encode x = monero_base58_encode y \<longleftrightarrow> x = y"
  using base58_blocks_inj [of x y] by (auto simp: monero_base58_encode_eq)

section \<open>Properties\<close>

text \<open>C26: An address stands for its keys. On the main network every pair of keys has a standard address,
  of 95 characters; two standard addresses are equal only if the public spend keys and the public
  view keys are; and no subaddress other than the one with index zero is a standard address.\<close>

theorem address_determines_keys:
  assumes "\<forall>x. length (keccak256 K x) = 32" "\<forall>p. length (compress K p) = 32" "length sp = 32" "length sp' = 32"
  shows "(\<exists>a. derive_address K sp vk 0 = Ok a \<and> length a = 95) \<and>
    (derive_address K sp vk 0 = derive_address K sp' vk' 0 \<longrightarrow>
       sp = sp' \<and> compress K (basepoint_mul K (from_bytes_mod_order K vk)) =
                 compress K (basepoint_mul K (from_bytes_mod_order K vk'))) \<and>
    ((acct, idx) \<noteq> (0, 0) \<longrightarrow> derive_subaddress K sp' vk' acct idx 0 \<noteq> derive_address K sp vk 0)"
proof -
  define pub where "pub v = compress K (basepoint_mul K (from_bytes_mod_order K v))" for v
  define payload where "payload s v = 18 # s @ pub v @ take 4 (keccak256 K (18 # s @ pub v))" for s v
  have std: "derive_address K s v 0 = Ok (base58_blocks (payload s v))" for s v
    using assms(1) by (simp add: derive_address_def network_prefix_def MAINNET_STANDARD_def Let_def slice_def
        monero_base58_encode_eq payload_def pub_def)
  have "length (payload sp vk) = 69" using assms by (simp add: payload_def pub_def)
  then have "length (base58_blocks (payload sp vk)) = 95"
    by (simp add: length_base58_blocks ENCODED_BLOCK_SIZES_def)
  moreover have "sp = sp' \<and> pub vk = pub vk'" if "payload sp vk = payload sp' vk'"
    using that assms(2,3,4) by (simp add: payload_def pub_def)
  moreover have "derive_subaddress K sp' vk' acct idx 0 \<noteq> Ok (base58_blocks (payload sp vk))" if "(acct, idx) \<noteq> (0, 0)"
    using that by (auto simp: derive_subaddress_def rbind_eq_Ok monero_base58_encode_eq Let_def payload_def
        dest!: base58_blocks_inj)
  ultimately show ?thesis
    unfolding std pub_def [symmetric] using base58_blocks_inj [of "payload sp vk" "payload sp' vk'"] by blast
qed

theorem address_determines_keys_witness:
  "(\<exists>a. derive_address demo_monero (replicate 32 1) [3] 0 = Ok a \<and> length a = 95) \<and>
    derive_address demo_monero (replicate 32 1) [3] 0 \<noteq> derive_address demo_monero (replicate 32 2) [3] 0 \<and>
    derive_subaddress demo_monero (replicate 32 2) [3] 0 1 0 \<noteq> derive_address demo_monero (replicate 32 1) [3] 0"
proof -
  have "\<forall>x. length (keccak256 demo_monero x) = 32" "\<forall>p. length (compress demo_monero p) = 32"
    by (auto simp: demo_monero_def gf7_bytes_def)
  from address_determines_keys [OF this, of "replicate 32 1" "replicate 32 2" "[3]" "[3]" 0 1]
  show ?thesis by auto
qed

end
