(* ===== verification/Tx_Context.thy ===== *)
theory Tx_Context
  imports Wire
begin

text \<open>
  \<^verbatim>\<open>fromt-lib/src/monero/tx_context.rs\<close>: the byte format of an unsigned transaction. The readers of the
  file have the text of those of the other crates and are shared with them; a test of 32 bytes with
  the slice after it is \<open>read_bytes 32\<close>.
\<close>

record tx_input =
  ti_amount :: u64
  key_offset_index :: nat
  ring :: "bytes list"
  pseudo_output_commitment :: bytes

record tx_output =
  to_amount :: u64
  target_key :: bytes

record unsigned_tx_context =
  tx_prefix_hash :: bytes
  inputs :: "tx_input list"
  outputs :: "tx_output list"
  fee :: u64

definition serialize_input :: "tx_input \<Rightarrow> bytes" where
  "serialize_input i =
     u64_le (ti_amount i) @ u32_le (word_of_nat (key_offset_index i)) @ u32_le (word_of_nat (length (ring i))) @
     concat (ring i) @ pseudo_output_commitment i"

definition serialize_output :: "tx_output \<Rightarrow> bytes" where
  "serialize_output o' = u64_le (to_amount o') @ target_key o'"

definition tx_serialize :: "unsigned_tx_context \<Rightarrow> bytes" where
  "tx_serialize c =
     tx_prefix_hash c @ u32_le (word_of_nat (length (inputs c))) @ concat (map serialize_input (inputs c)) @
     u32_le (word_of_nat (length (outputs c))) @ concat (map serialize_output (outputs c)) @ u64_le (fee c)"

definition deserialize_input :: "bytes \<Rightarrow> nat \<Rightarrow> (tx_input \<times> nat) res" where
  "deserialize_input data pos =
     rbind (bundle_read_u64 data pos) (\<lambda>(amount, pos).
     rbind (codec_read_u32 data pos) (\<lambda>(off, pos).
     rbind (codec_read_u32 data pos) (\<lambda>(ring_len, pos).
     rbind (read_many (unat ring_len) (read_bytes 32) data pos) (\<lambda>(members, pos).
     rbind (read_bytes 32 data pos) (\<lambda>(commitment, pos).
       Ok (\<lparr>ti_amount = amount, key_offset_index = unat off, ring = members,
             pseudo_output_commitment = commitment\<rparr>, pos))))))"

definition deserialize_output :: "bytes \<Rightarrow> nat \<Rightarrow> (tx_output \<times> nat) res" where
  "deserialize_output data pos =
     rbind (bundle_read_u64 data pos) (\<lambda>(amount, pos).
     rbind (read_bytes 32 data pos) (\<lambda>(key, pos). Ok (\<lparr>to_amount = amount, target_key = key\<rparr>, pos)))"

definition tx_deserialize :: "bytes \<Rightarrow> unsigned_tx_context res" where
  "tx_deserialize data =
     (if length data < 32 + 4 then Err LIB_SERIALIZATION_ERROR
      else
        rbind (slice data 0 32) (\<lambda>prefix_hash.
        rbind (codec_read_u32 data 32) (\<lambda>(input_count, pos).
        rbind (read_many (unat input_count) deserialize_input data pos) (\<lambda>(ins, pos).
        rbind (codec_read_u32 data pos) (\<lambda>(output_count, pos).
        rbind (read_many (unat output_count) deserialize_output data pos) (\<lambda>(outs, pos).
        rbind (bundle_read_u64 data pos) (\<lambda>(f, pos).
          Ok \<lparr>tx_prefix_hash = prefix_hash, inputs = ins, outputs = outs, fee = f\<rparr>)))))))"

section \<open>Well-formed contexts\<close>

definition input_wf :: "tx_input \<Rightarrow> bool" where
  "input_wf i \<longleftrightarrow> key_offset_index i < 2 ^ 32 \<and> length (ring i) < 2 ^ 32 \<and> (\<forall>m \<in> set (ring i). length m = 32) \<and>
     length (pseudo_output_commitment i) = 32"

definition txout_wf :: "tx_output \<Rightarrow> bool" where
  "txout_wf o' \<longleftrightarrow> length (target_key o') = 32"

definition tx_wf :: "unsigned_tx_context \<Rightarrow> bool" where
  "tx_wf c \<longleftrightarrow> length (tx_prefix_hash c) = 32 \<and> length (inputs c) < 2 ^ 32 \<and> (\<forall>i \<in> set (inputs c). input_wf i) \<and>
     length (outputs c) < 2 ^ 32 \<and> (\<forall>o' \<in> set (outputs c). txout_wf o')"

section \<open>The parts satisfy the contract of a wire format\<close>

interpretation arr32_wire: wire_format "read_bytes 32" "\<lambda>b. b" "\<lambda>b. length b = 32"
  by unfold_locales (auto simp: read_bytes_iff)

interpretation txout_wire: wire_format deserialize_output serialize_output txout_wf
proof
  show "proper (deserialize_output data pos)" for data pos by (auto simp: deserialize_output_def)
  show "deserialize_output data pos = Ok (x, pos') \<longleftrightarrow> txout_wf x \<and> holds_at data pos (serialize_output x) \<and>
      pos' = pos + length (serialize_output x)" for data pos x pos'
    by (cases x) (auto simp: deserialize_output_def serialize_output_def rbind_eq_Ok read_u64_iff read_bytes_iff
        txout_wf_def holds_at_append)
qed

lemma read_ring_iff:
  "holds_at data pos pre \<Longrightarrow> read_many n (read_bytes 32) data (pos + length pre) = Ok (xs, p) \<longleftrightarrow>
     length xs = n \<and> (\<forall>x \<in> set xs. length x = 32) \<and> holds_at data (pos + length pre) (concat xs) \<and>
     p = pos + length pre + length (concat xs)"
  using arr32_wire.many_iff [of "pos + length pre" data n xs p] holds_at_bound [of data pos pre] by simp

interpretation txin_wire: wire_format deserialize_input serialize_input input_wf
proof
  show "proper (deserialize_input data pos)" for data pos
    by (auto simp: deserialize_input_def arr32_wire.many_proper)
  show "deserialize_input data pos = Ok (x, pos') \<longleftrightarrow> input_wf x \<and> holds_at data pos (serialize_input x) \<and>
      pos' = pos + length (serialize_input x)" for data pos x pos'
  proof (cases x)
    case (fields a off rng com)
    have ring: "read_many n (read_bytes 32) data (pos + 16) = Ok (xs, p) \<longleftrightarrow> length xs = n \<and>
        (\<forall>x \<in> set xs. length x = 32) \<and> holds_at data (pos + 16) (concat xs) \<and> p = pos + 16 + length (concat xs)"
      if "holds_at data (pos + 12) (u32_le r)" for n xs p r
      using read_ring_iff [OF that, of n xs p] by (simp add: add.assoc)
    show ?thesis
      unfolding fields deserialize_input_def serialize_input_def input_wf_def
      by (auto simp: rbind_eq_Ok read_u64_iff read_u32_iff read_bytes_iff holds_at_append ring add.assoc
          unat_u32_le_iff eq_commute [of "length _" "unat _"])
  qed
qed

section \<open>Properties\<close>

text \<open>The decoder of transaction contexts accepts exactly the byte strings that start with the encoding
  of a well-formed context (counts and ring indices below \<open>2 ^ 32\<close>, keys of 32 bytes), returns that
  context, and returns an error on everything else, without a panic.\<close>

theorem tx_context_exact:
  "proper (tx_deserialize data) \<and>
   (tx_deserialize data = Ok c \<longleftrightarrow> tx_wf c \<and> (\<exists>post. data = tx_serialize c @ post))"
proof
  show "proper (tx_deserialize data)"
    by (auto simp: tx_deserialize_def slice_def txin_wire.many_proper txout_wire.many_proper)
  show "tx_deserialize data = Ok c \<longleftrightarrow> tx_wf c \<and> (\<exists>post. data = tx_serialize c @ post)"
  proof (cases "length data < 36")
    case True
    then show ?thesis by (auto simp: tx_deserialize_def tx_serialize_def tx_wf_def)
  next
    case False
    have head: "slice data 0 32 = Ok b \<longleftrightarrow> length b = 32 \<and> holds_at data 0 b" for b
      using False by (auto simp: slice_def holds_at_def)
    have ins: "read_many n deserialize_input data 36 = Ok (xs, p) \<longleftrightarrow> length xs = n \<and> (\<forall>x \<in> set xs. input_wf x) \<and>
        holds_at data 36 (concat (map serialize_input xs)) \<and> p = 36 + length (concat (map serialize_input xs))" for n xs p
      using txin_wire.many_iff [of 36 data n xs p] False by simp
    have outs: "read_many n deserialize_output data (40 + k) = Ok (xs, p) \<longleftrightarrow> length xs = n \<and> (\<forall>x \<in> set xs. txout_wf x) \<and>
        holds_at data (40 + k) (concat (map serialize_output xs)) \<and> p = 40 + k + length (concat (map serialize_output xs))"
      if "holds_at data (36 + k) (u32_le r)" for n xs p k r
      using txout_wire.many_iff [of "40 + k" data n xs p] holds_at_bound [OF that] by simp
    show ?thesis
      unfolding holds_at_0_iff [symmetric]
      using False
      by (cases c) (auto simp: tx_deserialize_def tx_serialize_def tx_wf_def rbind_eq_Ok head ins outs read_u64_iff read_u32_iff
          holds_at_append unat_u32_le_iff eq_commute [of "length _" "unat _"] cong: conj_cong)
  qed
qed

end
