(* ===== verification/Buffers.thy ===== *)
theory Buffers
  imports Prelude
begin

text \<open>
  \<^verbatim>\<open>frost-ffi/src/bytes.rs\<close>: the buffers that the exported functions hand to the host. A buffer is a raw
  pointer to a boxed slice, so its life is modelled over an explicit heap of boxes: an address with a
  box on it, or nothing. Address 0 is the null pointer. The box of an empty slice has no memory, and
  its pointer is dangling, but not null. Reading or freeing memory through a pointer without a box of
  exactly that length is undefined behaviour, the value \<open>None\<close>.
\<close>

section \<open>The heap and the buffers\<close>

record heap =
  boxes :: "nat \<rightharpoonup> bytes"
  next_addr :: nat

record tss_buffer =
  tb_ptr :: nat
  tb_len :: nat

definition null_ptr :: nat where "null_ptr = 0"
definition dangling_ptr :: nat where "dangling_ptr = 1"

text \<open>\<^verbatim>\<open>Box::into_raw\<close> of a new boxed slice, and \<^verbatim>\<open>Box::from_raw\<close>, which takes the box back.\<close>

definition box_into_raw :: "bytes \<Rightarrow> heap \<Rightarrow> nat \<times> heap" where
  "box_into_raw v h =
     (if v = [] then (dangling_ptr, h)
      else (next_addr h, h\<lparr>boxes := (boxes h)(next_addr h \<mapsto> v), next_addr := Suc (next_addr h)\<rparr>))"

definition slice_from_raw :: "nat \<Rightarrow> nat \<Rightarrow> heap \<Rightarrow> bytes option" where
  "slice_from_raw p n h =
     (case boxes h p of None \<Rightarrow> None | Some v \<Rightarrow> if length v = n then Some v else None)"

definition box_from_raw :: "nat \<Rightarrow> nat \<Rightarrow> heap \<Rightarrow> (bytes \<times> heap) option" where
  "box_from_raw p n h =
     (case slice_from_raw p n h of None \<Rightarrow> None | Some v \<Rightarrow> Some (v, h\<lparr>boxes := (boxes h)(p := None)\<rparr>))"

definition tss_buffer_empty :: tss_buffer where
  "tss_buffer_empty = \<lparr>tb_ptr = null_ptr, tb_len = 0\<rparr>"

definition tss_buffer_is_empty :: "tss_buffer \<Rightarrow> bool" where
  "tss_buffer_is_empty b \<longleftrightarrow> tb_ptr b = null_ptr \<or> tb_len b = 0"

definition tss_buffer_from_vec :: "bytes \<Rightarrow> heap \<Rightarrow> tss_buffer \<times> heap" where
  "tss_buffer_from_vec vec h =
     (let len = length vec; (p, h) = box_into_raw vec h in (\<lparr>tb_ptr = p, tb_len = len\<rparr>, h))"

definition tss_buffer_as_slice :: "tss_buffer \<Rightarrow> heap \<Rightarrow> bytes option" where
  "tss_buffer_as_slice b h = (if tss_buffer_is_empty b then Some [] else slice_from_raw (tb_ptr b) (tb_len b) h)"

definition tss_buffer_into_vec :: "tss_buffer \<Rightarrow> heap \<Rightarrow> (bytes \<times> heap) option" where
  "tss_buffer_into_vec b h =
     (if tss_buffer_is_empty b then Some ([], h) else box_from_raw (tb_ptr b) (tb_len b) h)"

text \<open>The exported \<^verbatim>\<open>tss_buffer_free\<close>: the buffer is cleared before its memory is given back.\<close>

definition tss_buffer_free :: "tss_buffer option \<Rightarrow> heap \<Rightarrow> (tss_buffer option \<times> heap) option" where
  "tss_buffer_free buf h =
     (case buf of
        None \<Rightarrow> Some (None, h)
      | Some b \<Rightarrow>
          if \<not> tss_buffer_is_empty b then
            (let p = tb_ptr b; b = b\<lparr>tb_ptr := null_ptr\<rparr>; len = tb_len b; b = b\<lparr>tb_len := 0\<rparr> in
             case box_from_raw p len h of None \<Rightarrow> None | Some (_, h) \<Rightarrow> Some (Some b, h))
          else Some (Some b, h))"

section \<open>The host\<close>

text \<open>
  The host owns a list of buffers. An exported function that returns bytes writes a new buffer; the
  host frees a buffer through a pointer to it, as often as it likes.
\<close>

inductive buf_step :: "heap \<times> tss_buffer list \<Rightarrow> heap \<times> tss_buffer list \<Rightarrow> bool" where
  step_write: "tss_buffer_from_vec v h = (b, h') \<Longrightarrow> buf_step (h, bs) (h', bs @ [b])"
| step_free: "i < length bs \<Longrightarrow> tss_buffer_free (Some (bs ! i)) h = Some (Some b, h') \<Longrightarrow>
    buf_step (h, bs) (h', bs[i := b])"

inductive_cases buf_stepE: "buf_step s s'"

definition empty_heap :: heap where "empty_heap = \<lparr>boxes = Map.empty, next_addr = 2\<rparr>"

definition live :: "tss_buffer list \<Rightarrow> nat list" where
  "live bs = map tb_ptr (filter (\<lambda>b. \<not> tss_buffer_is_empty b) bs)"

text \<open>Every box belongs to exactly one buffer that is not empty, and has its length.\<close>

definition buffers_ok :: "heap \<times> tss_buffer list \<Rightarrow> bool" where
  "buffers_ok s \<longleftrightarrow> (case s of (h, bs) \<Rightarrow>
     distinct (live bs) \<and> dom (boxes h) = set (live bs) \<and> (\<forall>p \<in> dom (boxes h). 0 < p \<and> p < next_addr h) \<and>
     0 < next_addr h \<and>
     (\<forall>b \<in> set bs. \<not> tss_buffer_is_empty b \<longrightarrow> (\<exists>v. boxes h (tb_ptr b) = Some v \<and> length v = tb_len b)))"

section \<open>Lemmas\<close>

lemma live_append: "live (xs @ ys) = live xs @ live ys"
  by (simp add: live_def)

lemma live_Cons: "live (b # bs) = (if tss_buffer_is_empty b then live bs else tb_ptr b # live bs)"
  by (simp add: live_def)

lemma live_Nil [simp]: "live [] = []"
  by (simp add: live_def)

lemma free_ok:
  assumes "buffers_ok (h, bs)" "b \<in> set bs"
  shows "tss_buffer_free (Some b) h = Some (Some (if tss_buffer_is_empty b then b else tss_buffer_empty),
    if tss_buffer_is_empty b then h else h\<lparr>boxes := (boxes h)(tb_ptr b := None)\<rparr>)"
proof (cases "tss_buffer_is_empty b")
  case False
  with assms obtain v where "boxes h (tb_ptr b) = Some v" "length v = tb_len b" by (auto simp: buffers_ok_def)
  with False show ?thesis
    by (simp add: tss_buffer_free_def box_from_raw_def slice_from_raw_def Let_def tss_buffer_empty_def)
qed (simp add: tss_buffer_free_def)

lemma buffers_ok_write:
  assumes "buffers_ok (h, bs)" "tss_buffer_from_vec v h = (b, h')"
  shows "buffers_ok (h', bs @ [b])"
proof (cases "v = []")
  case True
  with assms show ?thesis
    by (auto simp: buffers_ok_def tss_buffer_from_vec_def box_into_raw_def live_append live_Cons tss_buffer_is_empty_def)
next
  case False
  have new: "next_addr h \<notin> set (live bs)" using assms(1) by (auto simp: buffers_ok_def)
  have b: "b = \<lparr>tb_ptr = next_addr h, tb_len = length v\<rparr>"
    and h': "h' = h\<lparr>boxes := (boxes h)(next_addr h \<mapsto> v), next_addr := Suc (next_addr h)\<rparr>"
    using assms(2) False by (auto simp: tss_buffer_from_vec_def box_into_raw_def)
  have "tb_ptr c \<noteq> next_addr h" if "c \<in> set bs" "\<not> tss_buffer_is_empty c" for c
    using new that by (force simp: live_def)
  with assms(1) new False show ?thesis
    by (auto simp: buffers_ok_def b h' live_append live_Cons tss_buffer_is_empty_def null_ptr_def less_Suc_eq)
qed

lemma buffers_ok_free:
  assumes "buffers_ok (h, bs)" "i < length bs" "tss_buffer_free (Some (bs ! i)) h = Some (Some b, h')"
  shows "buffers_ok (h', bs[i := b])"
proof (cases "tss_buffer_is_empty (bs ! i)")
  case True
  with assms free_ok [OF assms(1), of "bs ! i"] have "bs ! i = b" "h' = h" by simp_all
  then show ?thesis using assms(1) by (simp flip: \<open>bs ! i = b\<close>)
next
  case False
  define xs ys c where "xs = take i bs" and "ys = drop (Suc i) bs" and "c = bs ! i"
  have bs: "bs = xs @ c # ys" using assms(2) by (simp add: xs_def ys_def c_def id_take_nth_drop)
  have upd: "bs[i := b] = xs @ b # ys" using assms(2) by (simp add: xs_def ys_def upd_conv_take_nth_drop)
  have b: "b = tss_buffer_empty" and h': "h' = h\<lparr>boxes := (boxes h)(tb_ptr c := None)\<rparr>"
    using assms free_ok [OF assms(1), of c] False by (auto simp: c_def)
  have e: "tss_buffer_is_empty tss_buffer_empty" by (simp add: tss_buffer_is_empty_def tss_buffer_empty_def)
  have c: "\<not> tss_buffer_is_empty c" using False by (simp add: c_def)
  have dist: "distinct (live xs @ tb_ptr c # live ys)" "dom (boxes h) = set (live xs @ tb_ptr c # live ys)"
    using assms(1) c by (simp_all add: buffers_ok_def bs live_append live_Cons)
  have other: "tb_ptr d \<noteq> tb_ptr c" if "d \<in> set xs \<union> set ys" "\<not> tss_buffer_is_empty d" for d
  proof -
    have "tb_ptr d \<in> set (live xs) \<union> set (live ys)" using that by (auto simp: live_def)
    with dist(1) show ?thesis by auto
  qed
  have live: "live (xs @ b # ys) = live xs @ live ys" by (simp add: b e live_append live_Cons)
  have "dom (boxes h') = set (live (xs @ b # ys))" using dist by (auto simp: h' live)
  moreover have "\<forall>p \<in> dom (boxes h'). 0 < p \<and> p < next_addr h'" "0 < next_addr h'"
    using assms(1) by (auto simp: buffers_ok_def h')
  moreover have "\<exists>v. boxes h' (tb_ptr d) = Some v \<and> length v = tb_len d"
    if "d \<in> set (xs @ b # ys)" "\<not> tss_buffer_is_empty d" for d
    using assms(1) that other [of d] e by (auto simp: buffers_ok_def h' b bs)
  moreover have "distinct (live (xs @ b # ys))" using dist(1) by (simp add: live)
  ultimately show ?thesis by (simp add: buffers_ok_def upd)
qed

lemma buffers_ok_step: "buf_step s s' \<Longrightarrow> buffers_ok s \<Longrightarrow> buffers_ok s'"
  by (erule buf_stepE) (auto intro: buffers_ok_write buffers_ok_free)

lemma reachable_buffers_ok: "buf_step\<^sup>*\<^sup>* (empty_heap, []) s \<Longrightarrow> buffers_ok s"
proof (induction rule: rtranclp_induct)
  case base
  show ?case by (simp add: buffers_ok_def empty_heap_def)
qed (rule buffers_ok_step)

section \<open>Properties\<close>

text \<open>C25: The memory of the buffers is managed safely. Along every sequence of writes and frees, each
  buffer that the host owns can be freed without undefined behaviour, freeing it again does nothing,
  and no memory is leaked: the boxes on the heap are exactly those of the buffers that are not empty.\<close>

theorem buffers_safe:
  assumes "buf_step\<^sup>*\<^sup>* (empty_heap, []) (h, bs)"
  shows "(\<forall>b \<in> set bs. \<exists>b' h'. tss_buffer_free (Some b) h = Some (Some b', h') \<and> tss_buffer_is_empty b' \<and>
           tss_buffer_free (Some b') h' = Some (Some b', h')) \<and>
    dom (boxes h) = tb_ptr ` {b \<in> set bs. \<not> tss_buffer_is_empty b} \<and>
    (\<forall>v. \<exists>b h'. tss_buffer_from_vec v h = (b, h') \<and> tss_buffer_as_slice b h' = Some v \<and>
           (\<exists>h''. tss_buffer_into_vec b h' = Some (v, h'')))"
proof (intro conjI ballI allI)
  note ok = reachable_buffers_ok [OF assms]
  fix b assume "b \<in> set bs"
  from free_ok [OF ok this] show "\<exists>b' h'. tss_buffer_free (Some b) h = Some (Some b', h') \<and> tss_buffer_is_empty b' \<and>
           tss_buffer_free (Some b') h' = Some (Some b', h')"
    by (auto simp: tss_buffer_is_empty_def tss_buffer_empty_def tss_buffer_free_def)
next
  show "dom (boxes h) = tb_ptr ` {b \<in> set bs. \<not> tss_buffer_is_empty b}"
    using reachable_buffers_ok [OF assms] by (auto simp: buffers_ok_def live_def)
next
  fix v
  have "0 < next_addr h" using reachable_buffers_ok [OF assms] by (simp add: buffers_ok_def)
  then show "\<exists>b h'. tss_buffer_from_vec v h = (b, h') \<and> tss_buffer_as_slice b h' = Some v \<and>
           (\<exists>h''. tss_buffer_into_vec b h' = Some (v, h''))"
    by (auto simp: tss_buffer_from_vec_def box_into_raw_def tss_buffer_as_slice_def tss_buffer_into_vec_def
        tss_buffer_is_empty_def null_ptr_def slice_from_raw_def box_from_raw_def)
qed

theorem buffers_safe_witness:
  "\<exists>b' h'. tss_buffer_free (Some \<lparr>tb_ptr = 2, tb_len = 1\<rparr>) \<lparr>boxes = [2 \<mapsto> [7]], next_addr = 3\<rparr> = Some (Some b', h') \<and>
     tss_buffer_is_empty b' \<and> tss_buffer_free (Some b') h' = Some (Some b', h')"
proof -
  have "buf_step (empty_heap, []) (\<lparr>boxes = [2 \<mapsto> [7]], next_addr = 3\<rparr>, [] @ [\<lparr>tb_ptr = 2, tb_len = 1\<rparr>])"
    by (rule step_write [of "[7]"]) (simp add: tss_buffer_from_vec_def box_into_raw_def empty_heap_def)
  then have "buf_step\<^sup>*\<^sup>* (empty_heap, []) (\<lparr>boxes = [2 \<mapsto> [7]], next_addr = 3\<rparr>, [\<lparr>tb_ptr = 2, tb_len = 1\<rparr>])" by simp
  from buffers_safe [OF this] show ?thesis by simp
qed

end
