(* ===== verification/Byte_Streams.thy ===== *)
theory Byte_Streams
  imports Wire
begin

text \<open>
  Readers over \<^verbatim>\<open>std::io::Read\<close> as \<^verbatim>\<open>frozt-lib/src/tree.rs\<close> uses them, and the Zcash
  \<^verbatim>\<open>CompactSize\<close> integers, which \<^verbatim>\<open>tree.rs\<close>, \<^verbatim>\<open>tx.rs\<close> and \<^verbatim>\<open>shielding_tx.rs\<close> each write with a
  function of their own. A reader takes the bytes and the position of the cursor; \<open>None\<close> is any
  \<^verbatim>\<open>io::Error\<close>, whose kind no caller looks at. A writer into a \<^verbatim>\<open>Vec<u8>\<close>, which never fails, is the
  bytes that it appends. Readers of this kind accept more than what the writers produce, so their
  contract, the locale \<open>stream_codec\<close>, is one-sided. The theory also has \<^verbatim>\<open>str::from_utf8\<close>.
\<close>

section \<open>Readers\<close>

type_synonym 'a io = "bytes \<Rightarrow> nat \<Rightarrow> ('a \<times> nat) option"

definition io_bind :: "('a \<times> nat) option \<Rightarrow> ('a \<Rightarrow> nat \<Rightarrow> 'b option) \<Rightarrow> 'b option" where
  "io_bind m f = (case m of None \<Rightarrow> None | Some (x, pos) \<Rightarrow> f x pos)"

definition read_exact :: "nat \<Rightarrow> bytes io" where
  "read_exact n data pos =
     (if pos + n \<le> length data then Some (take n (drop pos data), pos + n) else None)"

definition read_u8 :: "u8 io" where
  "read_u8 data pos = (if pos < length data then Some (data ! pos, pos + 1) else None)"

definition read_u16_le :: "u16 io" where
  "read_u16_le data pos = io_bind (read_exact 2 data pos) (\<lambda>b pos. Some (u16_of_le b, pos))"

definition read_u32_le :: "u32 io" where
  "read_u32_le data pos = io_bind (read_exact 4 data pos) (\<lambda>b pos. Some (u32_of_le b, pos))"

definition read_u64_le :: "u64 io" where
  "read_u64_le data pos = io_bind (read_exact 8 data pos) (\<lambda>b pos. Some (u64_of_le b, pos))"

text \<open>\<^verbatim>\<open>for _ in 0..n { v.push(read(&mut reader)?); }\<close>\<close>

primrec io_many :: "nat \<Rightarrow> 'a io \<Rightarrow> 'a list io" where
  "io_many 0 rd data pos = Some ([], pos)"
| "io_many (Suc n) rd data pos =
     io_bind (rd data pos) (\<lambda>x pos. io_bind (io_many n rd data pos) (\<lambda>xs pos. Some (x # xs, pos)))"

section \<open>CompactSize\<close>

definition read_compact_size :: "nat io" where
  "read_compact_size data pos =
     io_bind (read_u8 data pos) (\<lambda>b1 pos.
       if b1 \<le> 252 then Some (unat b1, pos)
       else if b1 = 253 then io_bind (read_u16_le data pos) (\<lambda>v pos. Some (unat v, pos))
       else if b1 = 254 then io_bind (read_u32_le data pos) (\<lambda>v pos. Some (unat v, pos))
       else io_bind (read_u64_le data pos) (\<lambda>v pos. Some (unat v, pos)))"

definition write_compact_size :: "nat \<Rightarrow> bytes" where
  "write_compact_size val =
     (if val < 253 then [word_of_nat val]
      else if val \<le> 0xFFFF then 253 # u16_le (word_of_nat val)
      else if val \<le> 0xFFFFFFFF then 254 # u32_le (word_of_nat val)
      else 255 # u64_le (word_of_nat val))"

definition write_compactsize :: "u64 \<Rightarrow> bytes" where
  "write_compactsize n =
     (if n < 253 then [ucast n]
      else if n \<le> 0xFFFF then 253 # u16_le (ucast n)
      else if n \<le> 0xFFFFFFFF then 254 # u32_le (ucast n)
      else 255 # u64_le n)"

definition write_compactsize_raw :: "u64 \<Rightarrow> bytes" where
  "write_compactsize_raw n =
     (if n < 253 then [ucast n]
      else if n \<le> 0xFFFF then [253] @ u16_le (ucast n)
      else if n \<le> 0xFFFFFFFF then [254] @ u32_le (ucast n)
      else [255] @ u64_le n)"

section \<open>UTF-8\<close>

text \<open>
  The byte sequences that \<^verbatim>\<open>str::from_utf8\<close> accepts: no overlong forms, no surrogates, nothing
  above U+10FFFF. A \<^verbatim>\<open>&str\<close> is its bytes.
\<close>

definition utf8_cont :: "u8 \<Rightarrow> bool" where
  "utf8_cont b \<longleftrightarrow> 0x80 \<le> b \<and> b \<le> 0xBF"

fun utf8_valid :: "bytes \<Rightarrow> bool" where
  "utf8_valid [] = True"
| "utf8_valid (b # bs) =
     (if b \<le> 0x7F then utf8_valid bs
      else if 0xC2 \<le> b \<and> b \<le> 0xDF then
        (case bs of c1 # r \<Rightarrow> utf8_cont c1 \<and> utf8_valid r | _ \<Rightarrow> False)
      else if 0xE0 \<le> b \<and> b \<le> 0xEF then
        (case bs of c1 # c2 # r \<Rightarrow>
           (if b = 0xE0 then 0xA0 \<le> c1 \<and> c1 \<le> 0xBF
            else if b = 0xED then 0x80 \<le> c1 \<and> c1 \<le> 0x9F
            else utf8_cont c1) \<and> utf8_cont c2 \<and> utf8_valid r
         | _ \<Rightarrow> False)
      else if 0xF0 \<le> b \<and> b \<le> 0xF4 then
        (case bs of c1 # c2 # c3 # r \<Rightarrow>
           (if b = 0xF0 then 0x90 \<le> c1 \<and> c1 \<le> 0xBF
            else if b = 0xF4 then 0x80 \<le> c1 \<and> c1 \<le> 0x8F
            else utf8_cont c1) \<and> utf8_cont c2 \<and> utf8_cont c3 \<and> utf8_valid r
         | _ \<Rightarrow> False)
      else False)"

definition from_utf8 :: "bytes \<Rightarrow> bytes option" where
  "from_utf8 bs = (if utf8_valid bs then Some bs else None)"

section \<open>Lemmas on readers\<close>

named_theorems io_simps "rewrite rules of io readers"

lemma io_bind_simps [simp, io_simps]: "io_bind None f = None" "io_bind (Some (x, p)) f = f x p"
  by (simp_all add: io_bind_def)

lemma io_bind_eq_Some: "io_bind m f = Some y \<longleftrightarrow> (\<exists>x p. m = Some (x, p) \<and> f x p = Some y)"
  by (cases m) auto

lemma read_exact_holds [io_simps]:
  "holds_at data pos bs \<Longrightarrow> length bs = n \<Longrightarrow> read_exact n data pos = Some (bs, pos + n)"
  by (auto simp: read_exact_def holds_at_def)

lemma holds_at_Cons: "holds_at data pos (b # bs) \<longleftrightarrow> pos < length data \<and> data ! pos = b \<and> holds_at data (pos + 1) bs"
proof -
  have "holds_at data pos [b] \<longleftrightarrow> pos < length data \<and> data ! pos = b"
    by (auto simp: holds_at_def take_Suc_conv_app_nth hd_drop_conv_nth take_Suc)
  with holds_at_append [of data pos "[b]" bs] show ?thesis by simp
qed

lemma read_u8_holds [io_simps]: "holds_at data pos (b # bs) \<Longrightarrow> read_u8 data pos = Some (b, pos + 1)"
  by (simp add: holds_at_Cons read_u8_def)

lemma read_uN_holds [io_simps]:
  "holds_at data pos (u16_le a) \<Longrightarrow> read_u16_le data pos = Some (a, pos + 2)"
  "holds_at data pos (u32_le b) \<Longrightarrow> read_u32_le data pos = Some (b, pos + 4)"
  "holds_at data pos (u64_le c) \<Longrightarrow> read_u64_le data pos = Some (c, pos + 8)"
  by (simp_all add: read_u16_le_def read_u32_le_def read_u64_le_def read_exact_holds)

lemma read_exact_bound: "read_exact n data pos = Some (b, pos') \<Longrightarrow> pos' = pos + n \<and> pos' \<le> length data \<and> length b = n"
  by (auto simp: read_exact_def split: if_splits)

lemma read_u8_bound: "read_u8 data pos = Some (b, pos') \<Longrightarrow> pos' = pos + 1 \<and> pos' \<le> length data"
  by (auto simp: read_u8_def split: if_splits)

lemma unat_bounds: "unat (a :: u16) < 65536" "unat (b :: u32) < 4294967296" "unat (c :: u64) < 18446744073709551616"
  using unsigned_less [of a, where ?'a = nat] unsigned_less [of b, where ?'a = nat]
    unsigned_less [of c, where ?'a = nat] by simp_all

lemma read_uN_bound:
  "read_u16_le data pos = Some (a, pos') \<Longrightarrow> pos' = pos + 2 \<and> pos' \<le> length data \<and> unat a < 65536"
  "read_u32_le data pos = Some (b, pos') \<Longrightarrow> pos' = pos + 4 \<and> pos' \<le> length data \<and> unat b < 4294967296"
  "read_u64_le data pos = Some (c, pos') \<Longrightarrow>
     pos' = pos + 8 \<and> pos' \<le> length data \<and> unat c < 18446744073709551616"
  by (auto simp: read_u16_le_def read_u32_le_def read_u64_le_def io_bind_eq_Some unat_bounds dest: read_exact_bound)

section \<open>The contract of a stream codec\<close>

text \<open>
  \<open>dec\<close> reads back what \<open>enc\<close> wrote for a value in \<open>wf\<close>, wherever it stands, and every successful
  read moves the cursor forward and leaves it inside the data.
\<close>

locale stream_codec =
  fixes dec :: "'a io" and enc :: "'a \<Rightarrow> bytes" and wf :: "'a \<Rightarrow> bool"
  assumes reads: "holds_at data pos (enc x) \<Longrightarrow> wf x \<Longrightarrow> dec data pos = Some (x, pos + length (enc x))"
    and forward: "dec data pos = Some (x, pos') \<Longrightarrow> pos < pos' \<and> pos' \<le> length data"
begin

lemma enc_nonempty: "wf x \<Longrightarrow> enc x \<noteq> []"
  using reads [of "enc x" 0 x] forward [of "enc x" 0 x] by force

lemma stream_prefix_free:
  assumes "wf x" "wf y" "enc x @ p = enc y @ q"
  shows "x = y \<and> p = q"
proof -
  have "holds_at (enc x @ p) 0 (enc x)" "holds_at (enc x @ p) 0 (enc y)"
    by (simp, simp add: assms(3))
  from reads [OF this(1) assms(1)] reads [OF this(2) assms(2)] have "x = y" by simp
  with assms(3) show ?thesis by simp
qed

lemma many_reads:
  assumes "holds_at data pos (concat (map enc xs))" "\<forall>x \<in> set xs. wf x"
  shows "io_many (length xs) dec data pos = Some (xs, pos + length (concat (map enc xs)))"
  using assms
  by (induction xs arbitrary: pos) (auto simp: holds_at_append reads add.assoc)

lemma many_forward:
  assumes "io_many n dec data pos = Some (xs, pos')" "pos \<le> length data"
  shows "length xs = n \<and> pos + n \<le> pos' \<and> pos' \<le> length data"
  using assms
  by (induction n arbitrary: pos xs) (fastforce simp: io_bind_eq_Some dest: forward)+

text \<open>Sequences of the same length are told apart by their encodings, whatever follows.\<close>

lemma many_prefix_free:
  assumes "\<forall>x \<in> set xs. wf x" "\<forall>y \<in> set ys. wf y" "length xs = length ys"
    and "concat (map enc xs) @ p = concat (map enc ys) @ q"
  shows "xs = ys \<and> p = q"
  using assms(3,1,2,4)
proof (induction xs ys rule: list_induct2)
  case (Cons x xs y ys)
  have w: "wf x" "wf y" using Cons.prems(1,2) by auto
  have "enc x @ (concat (map enc xs) @ p) = enc y @ (concat (map enc ys) @ q)"
    using Cons.prems(3) by simp
  from stream_prefix_free [OF w this] have "x = y" "concat (map enc xs) @ p = concat (map enc ys) @ q"
    by blast+
  with Cons.IH Cons.prems(1,2) show ?case by simp
qed simp

end

section \<open>CompactSize satisfies the contract\<close>

lemma write_compactsize_eq: "write_compactsize n = write_compact_size (unat n)"
proof -
  have "word_of_nat (unat n) = (ucast n :: 'a::len word)" by simp
  then show ?thesis
    by (simp add: write_compactsize_def write_compact_size_def word_less_nat_alt word_le_nat_alt)
qed

lemma write_compactsize_raw_eq: "write_compactsize_raw n = write_compact_size (unat n)"
  by (simp add: write_compactsize_raw_def write_compactsize_eq [symmetric] write_compactsize_def)

lemma read_compact_size_reads:
  assumes "val < 2 ^ 64" "holds_at data pos (write_compact_size val)"
  shows "read_compact_size data pos = Some (val, pos + length (write_compact_size val))"
proof -
  consider (1) "val < 253" | (2) "253 \<le> val" "val \<le> 0xFFFF" | (3) "0xFFFF < val" "val \<le> 0xFFFFFFFF"
    | (4) "0xFFFFFFFF < val" by linarith
  then show ?thesis
  proof cases
    case 1
    then have "word_of_nat val \<le> (252 :: u8)" "unat (word_of_nat val :: u8) = val"
      by (simp_all add: word_le_nat_alt unat_of_nat)
    with 1 assms(2) show ?thesis by (simp add: read_compact_size_def write_compact_size_def io_simps)
  next
    case 2
    with assms(2) show ?thesis
      by (auto simp: read_compact_size_def write_compact_size_def holds_at_Cons read_u8_def io_simps)
  next
    case 3
    with assms(2) show ?thesis
      by (auto simp: read_compact_size_def write_compact_size_def holds_at_Cons read_u8_def io_simps)
  next
    case 4
    with assms show ?thesis
      by (auto simp: read_compact_size_def write_compact_size_def holds_at_Cons read_u8_def io_simps unat_of_nat)
  qed
qed

lemma read_compact_size_forward:
  "read_compact_size data pos = Some (v, pos') \<Longrightarrow> pos < pos' \<and> pos' \<le> length data"
  unfolding read_compact_size_def
  by (auto simp: io_bind_eq_Some split: if_splits dest!: read_u8_bound read_uN_bound)

interpretation compact_size: stream_codec read_compact_size write_compact_size "\<lambda>n. n < 2 ^ 64"
  by unfold_locales (auto simp: read_compact_size_reads dest: read_compact_size_forward)

section \<open>Properties\<close>

lemma read_compact_size_shortest:
  assumes "read_compact_size data pos = Some (n, pos')"
  shows "n < 2 ^ 64 \<and> pos + length (write_compact_size n) \<le> pos'"
  using assms unfolding read_compact_size_def
  by (auto simp: io_bind_eq_Some write_compact_size_def word_le_nat_alt split: if_splits
      dest!: read_u8_bound read_uN_bound)

text \<open>C32: Whatever bytes a \<^verbatim>\<open>CompactSize\<close> was read from, its value is below \<open>2 ^ 64\<close>; writing the value
  and reading it again gives the same value and consumes what was written; what was written is at
  most as long as the bytes that were read (the reader also takes longer forms, the writer always
  produces the shortest); and the three writers of the library produce the same bytes.\<close>

theorem compact_size_canonical:
  assumes "read_compact_size data pos = Some (n, pos')"
  shows "n < 2 ^ 64 \<and> length (write_compact_size n) \<le> pos' - pos \<and>
    read_compact_size (write_compact_size n @ post) 0 = Some (n, length (write_compact_size n)) \<and>
    write_compactsize (word_of_nat n) = write_compact_size n \<and>
    write_compactsize_raw (word_of_nat n) = write_compact_size n"
  using read_compact_size_shortest [OF assms] read_compact_size_reads [of n "write_compact_size n @ post" 0]
  by (auto simp: write_compactsize_eq write_compactsize_raw_eq unat_of_nat)

theorem compact_size_canonical_witness:
  "read_compact_size [7, 254, 3, 0, 0, 0] 1 = Some (3, 6) \<and> length (write_compact_size 3) \<le> 5 \<and>
   write_compactsize_raw (word_of_nat 3) = write_compact_size 3"
proof -
  have "read_compact_size [7, 254, 3, 0, 0, 0] 1 = Some (3, 6)" by code_simp
  from this compact_size_canonical [OF this] show ?thesis by simp
qed

end
