(* ===== verification/Sapling_Keys.thy ===== *)
theory Sapling_Keys
  imports Frozt_Keyshare Byte_Streams
begin

text \<open>
  The Sapling keys and notes of \<^verbatim>\<open>frozt-lib/src/sapling.rs\<close>: the full viewing key of a shared key,
  the derived address and viewing keys, trial decryption of outputs, the 51-byte form in which a
  decrypted note is handed to the caller, and nullifiers. The crates \<^verbatim>\<open>sapling-crypto\<close>, \<^verbatim>\<open>jubjub\<close>,
  \<^verbatim>\<open>zcash_note_encryption\<close> and \<^verbatim>\<open>bech32\<close> are the argument \<open>Y\<close>. Fixed-size arrays are byte strings.
\<close>

datatype zip212_enforcement = Off | GracePeriod | On

datatype 'fr rseed = BeforeZip212 'fr | AfterZip212 bytes

record ('fr, 'dfvk, 'fvk, 'addr, 'note, 'cmu) sapling =
  fr_from_repr :: "bytes \<Rightarrow> 'fr option"
  fr_to_repr :: "'fr \<Rightarrow> bytes"
  mul_proof_generator :: "'fr \<Rightarrow> bytes"
  dfvk_from_bytes :: "bytes \<Rightarrow> 'dfvk option"
  dfvk_default_address :: "'dfvk \<Rightarrow> 'addr"
  dfvk_fvk :: "'dfvk \<Rightarrow> 'fvk"
  fvk_ivk_repr :: "'fvk \<Rightarrow> bytes"
  fvk_ovk :: "'fvk \<Rightarrow> bytes"
  fvk_payment_address :: "'fvk \<Rightarrow> bytes \<Rightarrow> 'addr option"
  addr_to_bytes :: "'addr \<Rightarrow> bytes"
  addr_from_bytes :: "bytes \<Rightarrow> 'addr option"
  addr_diversifier :: "'addr \<Rightarrow> bytes"
  bech32_encode :: "bytes \<Rightarrow> bytes \<Rightarrow> bytes option"
  bech32_decode :: "bytes \<Rightarrow> (bytes \<times> bytes) option"
  cmu_from_bytes :: "bytes \<Rightarrow> 'cmu option"
  cmu_to_bytes :: "'cmu \<Rightarrow> bytes"
  note_from_parts :: "'addr \<Rightarrow> u64 \<Rightarrow> 'fr rseed \<Rightarrow> 'note"
  note_value :: "'note \<Rightarrow> u64"
  note_rseed :: "'note \<Rightarrow> 'fr rseed"
  note_nf :: "'note \<Rightarrow> 'fvk \<Rightarrow> u64 \<Rightarrow> bytes"
  compact_note_decryption :: "'fr \<Rightarrow> bytes \<Rightarrow> 'cmu \<Rightarrow> bytes \<Rightarrow> zip212_enforcement \<Rightarrow> ('note \<times> 'addr) option"
  note_decryption ::
    "'fr \<Rightarrow> 'cmu \<Rightarrow> bytes \<Rightarrow> bytes \<Rightarrow> zip212_enforcement \<Rightarrow> ('note \<times> 'addr \<times> bytes) option"

definition COMPACT_NOTE_SIZE :: nat where "COMPACT_NOTE_SIZE = 52"
definition ENC_CIPHERTEXT_SIZE :: nat where "ENC_CIPHERTEXT_SIZE = 580"

section \<open>Viewing keys\<close>

text \<open>\<^verbatim>\<open>copy_from_slice\<close> into 32 bytes panics for any other length.\<close>

definition build_dfvk_raw where
  "build_dfvk_raw L Y pkp_data extras =
     (if length extras \<noteq> EXTRAS_LEN then Err LIB_INVALID_BUFFER_SIZE
      else
        rbind (ser_err (pk_deserialize L pkp_data)) (\<lambda>pkp.
        rbind (ser_err (vk_serialize L (pk_verifying_key L pkp))) (\<lambda>ak_serialized.
        rbind (slice extras 0 32) (\<lambda>s. rbind (to_array 32 s) (\<lambda>nsk_bytes.
        rbind (ok_or (fr_from_repr Y nsk_bytes) LIB_SAPLING_ERROR) (\<lambda>nsk.
        rbind (to_array 32 ak_serialized) (\<lambda>ak.
        rbind (slice extras 32 64) (\<lambda>ovk.
        rbind (slice extras 64 96) (\<lambda>dk.
          Ok (ak @ mul_proof_generator Y nsk @ ovk @ dk))))))))))"

definition frozt_sapling_build_dfvk where
  "frozt_sapling_build_dfvk L Y pkp_arg extras_arg (out_dfvk :: unit option) =
     exported (cbind (nonnull pkp_arg) (\<lambda>pkp_data. cbind (nonnull extras_arg) (\<lambda>extras_data.
       cbind (nonnull out_dfvk) (\<lambda>_.
         cret (build_dfvk_raw L Y (as_slice pkp_data) (as_slice extras_data))))))"

definition derive_keys where
  "derive_keys L Y pkp_data extras_data =
     rbind (build_dfvk_raw L Y pkp_data extras_data) (\<lambda>dfvk_raw.
     rbind (ok_or (dfvk_from_bytes Y dfvk_raw) LIB_SAPLING_ERROR) (\<lambda>dfvk.
     rbind (ok_or (bech32_encode Y (str_bytes ''zs'') (addr_to_bytes Y (dfvk_default_address Y dfvk)))
              LIB_SERIALIZATION_ERROR) (\<lambda>encoded.
       if length extras_data \<noteq> EXTRAS_LEN then Err LIB_INVALID_BUFFER_SIZE
       else
         rbind (slice extras_data 0 32) (\<lambda>s. rbind (to_array 32 s) (\<lambda>nsk_bytes.
         rbind (ok_or (fr_from_repr Y nsk_bytes) LIB_SAPLING_ERROR) (\<lambda>nsk.
           Ok (encoded, fvk_ivk_repr Y (dfvk_fvk Y dfvk), mul_proof_generator Y nsk)))))))"

definition frozt_sapling_derive_keys where
  "frozt_sapling_derive_keys L Y pkp_arg extras_arg
      (out_address :: unit option) (out_ivk :: unit option) (out_nk :: unit option) =
     exported (cbind (nonnull pkp_arg) (\<lambda>pkp_data. cbind (nonnull extras_arg) (\<lambda>extras_data.
       cbind (nonnull out_address) (\<lambda>_. cbind (nonnull out_ivk) (\<lambda>_. cbind (nonnull out_nk) (\<lambda>_.
         cret (derive_keys L Y (as_slice pkp_data) (as_slice extras_data))))))))"

section \<open>Notes\<close>

definition zip212_for_height :: "u64 \<Rightarrow> zip212_enforcement" where
  "zip212_for_height height =
     (if height \<ge> 1687104 then On
      else if height \<ge> 903000 then GracePeriod
      else Off)"

text \<open>The checks and conversions that both decryption functions begin with.\<close>

definition decryption_inputs where
  "decryption_inputs Y ct_size ivk_data cmu_data epk_data ct_data =
     (if length ivk_data \<noteq> 32 \<or> length cmu_data \<noteq> 32 \<or> length epk_data \<noteq> 32 then Err LIB_INVALID_BUFFER_SIZE
      else if length ct_data \<noteq> ct_size then Err LIB_INVALID_BUFFER_SIZE
      else
        rbind (slice ivk_data 0 32) (\<lambda>s. rbind (to_array 32 s) (\<lambda>ivk_bytes.
        rbind (ok_or (fr_from_repr Y ivk_bytes) LIB_SAPLING_ERROR) (\<lambda>ivk_scalar.
        rbind (slice cmu_data 0 32) (\<lambda>s. rbind (to_array 32 s) (\<lambda>cmu_bytes.
        rbind (ok_or (cmu_from_bytes Y cmu_bytes) LIB_SAPLING_ERROR) (\<lambda>extracted_cmu.
        rbind (slice epk_data 0 32) (\<lambda>s. rbind (to_array 32 s) (\<lambda>epk_bytes.
        rbind (slice ct_data 0 ct_size) (\<lambda>enc_ct.
          Ok (ivk_scalar, extracted_cmu, epk_bytes, enc_ct)))))))))))"

definition try_decrypt_compact where
  "try_decrypt_compact Y ivk_data cmu_data epk_data ct_data height =
     rbind (decryption_inputs Y COMPACT_NOTE_SIZE ivk_data cmu_data epk_data ct_data) (\<lambda>(ivk, cmu, epk, ct).
       case compact_note_decryption Y ivk epk cmu ct (zip212_for_height height) of
         Some (note, addr) \<Rightarrow> Ok (note_value Y note)
       | None \<Rightarrow> Err LIB_SAPLING_ERROR)"

definition frozt_sapling_try_decrypt_compact where
  "frozt_sapling_try_decrypt_compact Y ivk cmu ephemeral_key ciphertext height (out_value :: unit option) =
     exported (cbind (nonnull ivk) (\<lambda>ivk_data. cbind (nonnull cmu) (\<lambda>cmu_data.
       cbind (nonnull ephemeral_key) (\<lambda>epk_data. cbind (nonnull ciphertext) (\<lambda>ct_data.
       cbind (nonnull out_value) (\<lambda>_.
         cret (try_decrypt_compact Y (as_slice ivk_data) (as_slice cmu_data) (as_slice epk_data)
                 (as_slice ct_data) height)))))))"

definition note_data_of where
  "note_data_of Y note addr =
     addr_diversifier Y addr @ u64_le (note_value Y note) @
     (case note_rseed Y note of BeforeZip212 rcm \<Rightarrow> fr_to_repr Y rcm | AfterZip212 b \<Rightarrow> b)"

definition decrypt_note_full where
  "decrypt_note_full Y ivk_data cmu_data epk_data ct_data height =
     rbind (decryption_inputs Y ENC_CIPHERTEXT_SIZE ivk_data cmu_data epk_data ct_data) (\<lambda>(ivk, cmu, epk, ct).
       case note_decryption Y ivk cmu epk ct (zip212_for_height height) of
         Some (note, addr, memo) \<Rightarrow> Ok (note_data_of Y note addr)
       | None \<Rightarrow> Err LIB_SAPLING_ERROR)"

definition frozt_sapling_decrypt_note_full where
  "frozt_sapling_decrypt_note_full Y ivk cmu ephemeral_key enc_ciphertext height (out_note_data :: unit option) =
     exported (cbind (nonnull ivk) (\<lambda>ivk_data. cbind (nonnull cmu) (\<lambda>cmu_data.
       cbind (nonnull ephemeral_key) (\<lambda>epk_data. cbind (nonnull enc_ciphertext) (\<lambda>ct_data.
       cbind (nonnull out_note_data) (\<lambda>_.
         cret (decrypt_note_full Y (as_slice ivk_data) (as_slice cmu_data) (as_slice epk_data)
                 (as_slice ct_data) height)))))))"

definition nullifier_rseed where
  "nullifier_rseed Y zip212 rseed_bytes =
     (case zip212 of
        Off \<Rightarrow> rbind (ok_or (fr_from_repr Y rseed_bytes) LIB_SAPLING_ERROR) (\<lambda>rcm. Ok (BeforeZip212 rcm))
      | _ \<Rightarrow> Ok (AfterZip212 rseed_bytes))"

definition compute_nullifier where
  "compute_nullifier L Y pkp_data extras_data nd position height =
     (if length nd \<noteq> 51 then Err LIB_INVALID_BUFFER_SIZE
      else
        rbind (build_dfvk_raw L Y pkp_data extras_data) (\<lambda>dfvk_arr.
        rbind (ok_or (dfvk_from_bytes Y dfvk_arr) LIB_SAPLING_ERROR) (\<lambda>dfvk.
        rbind (slice nd 0 11) (\<lambda>s. rbind (to_array 11 s) (\<lambda>diversifier.
        rbind (slice nd 11 19) (\<lambda>s. rbind (to_array 8 s) (\<lambda>value_bytes.
        rbind (slice nd 19 51) (\<lambda>s. rbind (to_array 32 s) (\<lambda>rseed_bytes.
        rbind (nullifier_rseed Y (zip212_for_height height) rseed_bytes) (\<lambda>rseed.
        rbind (ok_or (fvk_payment_address Y (dfvk_fvk Y dfvk) diversifier) LIB_SAPLING_ERROR) (\<lambda>recipient.
          Ok (note_nf Y (note_from_parts Y recipient (u64_of_le value_bytes) rseed) (dfvk_fvk Y dfvk)
                position))))))))))))"

definition frozt_sapling_compute_nullifier where
  "frozt_sapling_compute_nullifier L Y pkp_bytes extras_bytes note_data position height
      (out_nullifier :: unit option) =
     exported (cbind (nonnull pkp_bytes) (\<lambda>pkp_data. cbind (nonnull extras_bytes) (\<lambda>extras_data.
       cbind (nonnull note_data) (\<lambda>nd. cbind (nonnull out_nullifier) (\<lambda>_.
         cret (compute_nullifier L Y (as_slice pkp_data) (as_slice extras_data) (as_slice nd) position height))))))"

section \<open>Lemmas\<close>

text \<open>
  What is relied on: scalars have 32 bytes and are read back; a note that was decrypted is made of
  the address, the value and the seed that it shows; its address is the one the viewing key has for
  the diversifier; and the seed is of the kind that the height admits.
\<close>

definition scalars_ok :: "('fr, 'dfvk, 'fvk, 'addr, 'note, 'cmu, 'z) sapling_scheme \<Rightarrow> bool" where
  "scalars_ok Y \<longleftrightarrow> (\<forall>x. length (fr_to_repr Y x) = 32 \<and> fr_from_repr Y (fr_to_repr Y x) = Some x)"

definition own_note where
  "own_note Y fvk note addr \<longleftrightarrow>
     length (addr_diversifier Y addr) = 11 \<and> fvk_payment_address Y fvk (addr_diversifier Y addr) = Some addr \<and>
     note_from_parts Y addr (note_value Y note) (note_rseed Y note) = note"

fun seed_admitted :: "zip212_enforcement \<Rightarrow> 'fr rseed \<Rightarrow> bool" where
  "seed_admitted Off (BeforeZip212 r) = True"
| "seed_admitted Off (AfterZip212 b) = False"
| "seed_admitted On (BeforeZip212 r) = False"
| "seed_admitted z (AfterZip212 b) = (length b = 32)"
| "seed_admitted GracePeriod (BeforeZip212 r) = True"

fun seed_bytes where
  "seed_bytes Y (BeforeZip212 rcm) = fr_to_repr Y rcm"
| "seed_bytes Y (AfterZip212 b) = b"

lemma note_data_of_eq:
  "note_data_of Y note addr = addr_diversifier Y addr @ u64_le (note_value Y note) @ seed_bytes Y (note_rseed Y note)"
  by (cases "note_rseed Y note") (simp_all add: note_data_of_def)

lemma length_seed_bytes: "scalars_ok Y \<Longrightarrow> seed_admitted z r \<Longrightarrow> length (seed_bytes Y r) = 32"
  by (cases "(z, r)" rule: seed_admitted.cases) (auto simp: scalars_ok_def)

lemma nullifier_rseed_admitted:
  assumes "scalars_ok Y" "seed_admitted z r"
  shows "nullifier_rseed Y z (seed_bytes Y r) = Ok (if z = GracePeriod then AfterZip212 (seed_bytes Y r) else r)"
  using assms by (cases "(z, r)" rule: seed_admitted.cases) (auto simp: scalars_ok_def nullifier_rseed_def)

lemma length_note_data:
  assumes "scalars_ok Y" "own_note Y fvk note addr" "seed_admitted z (note_rseed Y note)"
  shows "length (note_data_of Y note addr) = 51"
  using assms length_seed_bytes [OF assms(1,3)] by (simp add: note_data_of_eq own_note_def)

lemma note_data_slices:
  assumes "scalars_ok Y" "own_note Y fvk note addr" "seed_admitted z (note_rseed Y note)"
  shows "slice (note_data_of Y note addr) 0 11 = Ok (addr_diversifier Y addr)"
    and "slice (note_data_of Y note addr) 11 19 = Ok (u64_le (note_value Y note))"
    and "slice (note_data_of Y note addr) 19 51 = Ok (seed_bytes Y (note_rseed Y note))"
  using assms length_seed_bytes [OF assms(1,3)] length_note_data [OF assms]
  by (simp_all add: slice_def note_data_of_eq own_note_def)

section \<open>Properties\<close>

text \<open>C18: The 51 bytes into which a decrypted note is packed give the right nullifier back: for a note
  of the viewing key that was decrypted at a height, \<^verbatim>\<open>frozt_sapling_decrypt_note_full\<close> returns 51
  bytes, and the nullifier computed from them at that height is the nullifier of the note, except in
  the ZIP-212 grace period, where the seed is always taken as a new-style one, so that the result is
  right only if the note has one.\<close>

theorem nullifier_of_decrypted_note:
  assumes "scalars_ok Y"
    and "decryption_inputs Y ENC_CIPHERTEXT_SIZE ivk_d cmu_d epk_d ct_d = Ok (ivk, cmu, epk, ct)"
    and "note_decryption Y ivk cmu epk ct (zip212_for_height height) = Some (note, addr, memo)"
    and "build_dfvk_raw L Y pkp_data extras = Ok raw" "dfvk_from_bytes Y raw = Some dfvk"
    and "own_note Y (dfvk_fvk Y dfvk) note addr" "seed_admitted (zip212_for_height height) (note_rseed Y note)"
  shows "\<exists>nd. decrypt_note_full Y ivk_d cmu_d epk_d ct_d height = Ok nd \<and> length nd = 51 \<and>
    compute_nullifier L Y pkp_data extras nd position height =
      Ok (note_nf Y
           (if zip212_for_height height = GracePeriod
            then note_from_parts Y addr (note_value Y note) (AfterZip212 (seed_bytes Y (note_rseed Y note)))
            else note) (dfvk_fvk Y dfvk) position)"
proof -
  let ?nd = "note_data_of Y note addr"
  note sl = note_data_slices [OF assms(1,6,7)]
  have l: "length ?nd = 51" by (rule length_note_data [OF assms(1,6,7)])
  have seed: "length (seed_bytes Y (note_rseed Y note)) = 32" by (rule length_seed_bytes [OF assms(1,7)])
  have addr: "length (addr_diversifier Y addr) = 11"
    "fvk_payment_address Y (dfvk_fvk Y dfvk) (addr_diversifier Y addr) = Some addr"
    "note_from_parts Y addr (note_value Y note) (note_rseed Y note) = note"
    using assms(6) by (simp_all add: own_note_def)
  have "decrypt_note_full Y ivk_d cmu_d epk_d ct_d height = Ok ?nd"
    by (simp add: decrypt_note_full_def assms(2,3))
  moreover have "compute_nullifier L Y pkp_data extras ?nd position height =
      Ok (note_nf Y
           (if zip212_for_height height = GracePeriod
            then note_from_parts Y addr (note_value Y note) (AfterZip212 (seed_bytes Y (note_rseed Y note)))
            else note) (dfvk_fvk Y dfvk) position)"
    by (simp add: compute_nullifier_def l assms(4,5) sl to_array_def addr seed
        nullifier_rseed_admitted [OF assms(1,7)])
  ultimately show ?thesis using l by blast
qed

text \<open>A concrete key and note crate: scalars, addresses and commitments are single bytes.\<close>

definition demo_sapling :: "(u8, bytes, bytes, u8, u8 \<times> u64 \<times> u8 rseed, u8) sapling" where
  "demo_sapling =
     \<lparr>fr_from_repr = (\<lambda>b. if length b = 32 \<and> tl b = replicate 31 0 then Some (hd b) else None),
      fr_to_repr = (\<lambda>x. x # replicate 31 0),
      mul_proof_generator = (\<lambda>x. replicate 32 x),
      dfvk_from_bytes = (\<lambda>b. if length b = 128 then Some b else None),
      dfvk_default_address = hd, dfvk_fvk = (\<lambda>d. take 96 d),
      fvk_ivk_repr = (\<lambda>f. take 32 f), fvk_ovk = (\<lambda>f. drop 64 f),
      fvk_payment_address = (\<lambda>f d. Some (hd d)),
      addr_to_bytes = (\<lambda>a. replicate 43 a),
      addr_from_bytes = (\<lambda>b. if b = replicate 43 (hd b) then Some (hd b) else None),
      addr_diversifier = (\<lambda>a. a # replicate 10 0),
      bech32_encode = (\<lambda>h d. Some (h @ d)),
      bech32_decode = (\<lambda>b. Some (take 2 b, drop 2 b)),
      cmu_from_bytes = (\<lambda>b. Some (hd b)), cmu_to_bytes = (\<lambda>c. replicate 32 c),
      note_from_parts = (\<lambda>a v r. (a, v, r)),
      note_value = (\<lambda>n. fst (snd n)), note_rseed = (\<lambda>n. snd (snd n)),
      note_nf = (\<lambda>n f pos. fst n # u64_le (fst (snd n) + pos)),
      compact_note_decryption = (\<lambda>ivk epk cmu ct z. Some ((cmu, 5, BeforeZip212 ivk), cmu)),
      note_decryption = (\<lambda>ivk cmu epk ct z.
         Some ((cmu, 5, (case z of On \<Rightarrow> AfterZip212 epk | _ \<Rightarrow> BeforeZip212 ivk)), cmu, []))\<rparr>"

definition demo32 where
  "demo32 = demo\<lparr>vk_serialize := (\<lambda>x. map_option (\<lambda>b. b # replicate 31 0) (small_rat x))\<rparr>"

lemma demo_sapling_ok:
  "scalars_ok demo_sapling" "own_note demo_sapling f (a, v, r) a"
  by (simp_all add: scalars_ok_def own_note_def demo_sapling_def)

lemma demo_dfvk:
  "build_dfvk_raw demo32 demo_sapling [3] (1 # replicate 95 0) = Ok (3 # replicate 31 0 @ replicate 32 1 @ replicate 64 0)"
  by code_simp

theorem nullifier_of_decrypted_note_witness:
  "\<exists>nd. decrypt_note_full demo_sapling (2 # replicate 31 0) (replicate 32 6) (replicate 32 8) (replicate 580 0)
          2000000 = Ok nd \<and> length nd = 51 \<and>
     compute_nullifier demo32 demo_sapling [3] (1 # replicate 95 0) nd 10 2000000 = Ok (6 # u64_le 15)"
proof -
  let ?e = "replicate 32 (8 :: u8)" and ?ct = "replicate 580 (0 :: u8)"
  have z: "zip212_for_height 2000000 = On" by (simp add: zip212_for_height_def)
  have i: "decryption_inputs demo_sapling ENC_CIPHERTEXT_SIZE (2 # replicate 31 0) (replicate 32 6) ?e ?ct
      = Ok (2, 6, ?e, ?ct)"
    by (simp add: decryption_inputs_def ENC_CIPHERTEXT_SIZE_def slice_def to_array_def demo_sapling_def)
  have d: "note_decryption demo_sapling 2 6 ?e ?ct (zip212_for_height 2000000)
      = Some ((6, 5, AfterZip212 ?e), 6, [])" by (simp add: z demo_sapling_def)
  have k: "dfvk_from_bytes demo_sapling (3 # replicate 31 0 @ replicate 32 1 @ replicate 64 0)
      = Some (3 # replicate 31 0 @ replicate 32 1 @ replicate 64 0)" by (simp add: demo_sapling_def)
  have s: "seed_admitted (zip212_for_height 2000000) (note_rseed demo_sapling (6, 5, AfterZip212 ?e))"
    by (simp add: z demo_sapling_def)
  have nf: "note_nf demo_sapling (6, 5, AfterZip212 ?e) f 10 = 6 # u64_le 15" for f
    by (simp add: demo_sapling_def)
  show ?thesis
    using nullifier_of_decrypted_note [OF demo_sapling_ok(1) i d demo_dfvk k demo_sapling_ok(2) s, of 10]
    by (simp add: z nf)
qed

end
