(* ===== verification/Commitment_Tree.thy ===== *)
theory Commitment_Tree
  imports Byte_Streams Ffi_Calls
begin

text \<open>
  The Sapling note commitment tree (\<^verbatim>\<open>frozt-lib/src/tree.rs\<close>): the readers and writers of trees and
  witnesses and the exported functions. The tree itself (the crates \<^verbatim>\<open>incrementalmerkletree\<close> and
  \<^verbatim>\<open>sapling-crypto\<close>) and hexadecimal decoding (\<^verbatim>\<open>hex\<close>) are the argument \<open>T\<close>; an \<^verbatim>\<open>append\<close> changes its
  object in place and reports whether it succeeded. Objects in the handle table are reached with
  the downcast and the injection of their type.
\<close>

definition NOTE_COMMITMENT_TREE_DEPTH :: nat where "NOTE_COMMITMENT_TREE_DEPTH = 32"

record ('node, 'tree, 'wit) merkle =
  node_from_bytes :: "bytes \<Rightarrow> 'node option"
  node_to_bytes :: "'node \<Rightarrow> bytes"
  tree_from_parts :: "'node option \<Rightarrow> 'node option \<Rightarrow> 'node option list \<Rightarrow> 'tree option"
  tree_left :: "'tree \<Rightarrow> 'node option"
  tree_right :: "'tree \<Rightarrow> 'node option"
  tree_parents :: "'tree \<Rightarrow> 'node option list"
  tree_append :: "'node \<Rightarrow> 'tree \<Rightarrow> bool \<times> 'tree"
  tree_size :: "'tree \<Rightarrow> nat"
  wit_from_tree :: "'tree \<Rightarrow> 'wit option"
  wit_from_parts :: "'tree \<Rightarrow> 'node list \<Rightarrow> 'tree option \<Rightarrow> 'wit option"
  wit_tree :: "'wit \<Rightarrow> 'tree"
  wit_filled :: "'wit \<Rightarrow> 'node list"
  wit_cursor :: "'wit \<Rightarrow> 'tree option"
  wit_append :: "'node \<Rightarrow> 'wit \<Rightarrow> bool \<times> 'wit"
  wit_root :: "'wit \<Rightarrow> 'node"
  anchor_to_bytes :: "'node \<Rightarrow> bytes"
  hex_decode :: "bytes \<Rightarrow> bytes option"

section \<open>Trees as bytes\<close>

definition read_node :: "('node, 'tree, 'wit) merkle \<Rightarrow> 'node io" where
  "read_node T data pos =
     io_bind (read_exact 32 data pos) (\<lambda>buf pos.
       case node_from_bytes T buf of None \<Rightarrow> None | Some n \<Rightarrow> Some (n, pos))"

definition read_optional_node :: "('node, 'tree, 'wit) merkle \<Rightarrow> 'node option io" where
  "read_optional_node T data pos =
     io_bind (read_u8 data pos) (\<lambda>flag pos.
       if flag = 0 then Some (None, pos)
       else io_bind (read_node T data pos) (\<lambda>n pos. Some (Some n, pos)))"

definition write_optional_node :: "('node, 'tree, 'wit) merkle \<Rightarrow> 'node option \<Rightarrow> bytes" where
  "write_optional_node T node =
     (case node of Some n \<Rightarrow> [1] @ node_to_bytes T n | None \<Rightarrow> [0])"

definition read_commitment_tree_data :: "('node, 'tree, 'wit) merkle \<Rightarrow> 'tree io" where
  "read_commitment_tree_data T data pos =
     io_bind (read_optional_node T data pos) (\<lambda>left pos.
     io_bind (read_optional_node T data pos) (\<lambda>right pos.
     io_bind (read_compact_size data pos) (\<lambda>parent_count pos.
       if parent_count > NOTE_COMMITMENT_TREE_DEPTH then None
       else
         io_bind (io_many parent_count (read_optional_node T) data pos) (\<lambda>ps pos.
           case tree_from_parts T left right ps of None \<Rightarrow> None | Some t \<Rightarrow> Some (t, pos)))))"

definition write_commitment_tree_data :: "('node, 'tree, 'wit) merkle \<Rightarrow> 'tree \<Rightarrow> bytes" where
  "write_commitment_tree_data T t =
     write_optional_node T (tree_left T t) @ write_optional_node T (tree_right T t) @
     write_compact_size (length (tree_parents T t)) @
     concat (map (write_optional_node T) (tree_parents T t))"

definition parse_cmu :: "('node, 'tree, 'wit) merkle \<Rightarrow> bytes \<Rightarrow> 'node res" where
  "parse_cmu T data =
     (if length data \<noteq> 32 then Err LIB_INVALID_BUFFER_SIZE
      else rbind (slice data 0 32) (\<lambda>s. rbind (to_array 32 s) (\<lambda>b.
             ok_or (node_from_bytes T b) LIB_SAPLING_ERROR)))"

definition serialize_witness :: "('node, 'tree, 'wit) merkle \<Rightarrow> 'wit \<Rightarrow> bytes res" where
  "serialize_witness T w =
     Ok (write_commitment_tree_data T (wit_tree T w) @
         write_compact_size (length (wit_filled T w)) @
         concat (map (node_to_bytes T) (wit_filled T w)) @
         (case wit_cursor T w of
            Some c \<Rightarrow> [1] @ write_commitment_tree_data T c
          | None \<Rightarrow> [0]))"

text \<open>\<open>at_eof\<close> turns an \<^verbatim>\<open>io::Error\<close> into \<^verbatim>\<open>LIB_SAPLING_ERROR\<close>.\<close>

definition at_eof :: "'a option \<Rightarrow> 'a res" where
  "at_eof x = ok_or x LIB_SAPLING_ERROR"

definition deserialize_witness :: "('node, 'tree, 'wit) merkle \<Rightarrow> bytes \<Rightarrow> 'wit res" where
  "deserialize_witness T data =
     rbind (at_eof (read_commitment_tree_data T data 0)) (\<lambda>(t, pos).
     rbind (at_eof (read_compact_size data pos)) (\<lambda>(filled_count, pos).
       if filled_count > NOTE_COMMITMENT_TREE_DEPTH then Err LIB_SAPLING_ERROR
       else
         rbind (at_eof (io_many filled_count (read_node T) data pos)) (\<lambda>(filled, pos).
         rbind (at_eof (read_u8 data pos)) (\<lambda>(cursor_flag, pos).
         rbind (if cursor_flag \<noteq> 0
                then rbind (at_eof (read_commitment_tree_data T data pos)) (\<lambda>(c, pos). Ok (Some c))
                else Ok None) (\<lambda>cursor.
           ok_or (wit_from_parts T t filled cursor) LIB_SAPLING_ERROR)))))"

section \<open>Exported functions\<close>

text \<open>The hexadecimal text of a tree state, as \<^verbatim>\<open>tree_from_state\<close> and \<^verbatim>\<open>tree_size\<close> read it.\<close>

definition tree_of_hex :: "('node, 'tree, 'wit) merkle \<Rightarrow> bytes \<Rightarrow> 'tree res" where
  "tree_of_hex T text =
     rbind (ok_or (from_utf8 text) LIB_SERIALIZATION_ERROR) (\<lambda>hex_str.
     rbind (ok_or (hex_decode T hex_str) LIB_SERIALIZATION_ERROR) (\<lambda>b.
     rbind (at_eof (read_commitment_tree_data T b 0)) (\<lambda>(t, pos). Ok t)))"

definition frozt_sapling_tree_from_state where
  "frozt_sapling_tree_from_state T up_tree tree_state_hex (out_tree :: unit option) =
     exported (cbind (nonnull tree_state_hex) (\<lambda>hex_data. cbind (nonnull out_tree) (\<lambda>_.
       cbind (cret (tree_of_hex T (as_slice hex_data))) (\<lambda>t. h_allocate (up_tree t)))))"

definition frozt_sapling_tree_append where
  "frozt_sapling_tree_append T down_tree up_tree tree_h cmu =
     exported (cbind (nonnull cmu) (\<lambda>cmu_data.
       cbind (cret (parse_cmu T (as_slice cmu_data))) (\<lambda>node.
       cbind (h_get down_tree tree_h) (\<lambda>t.
         let (good, t') = tree_append T node t in
         cbind (h_put tree_h (up_tree t')) (\<lambda>_. cret (guard good LIB_SAPLING_ERROR))))))"

definition frozt_sapling_tree_witness where
  "frozt_sapling_tree_witness T down_tree up_tree up_wit tree_h (out_witness :: unit option) =
     exported (cbind (nonnull out_witness) (\<lambda>_.
       cbind (h_get down_tree tree_h) (\<lambda>t st.
         (case wit_from_tree T t of
            None \<Rightarrow> (Err LIB_SAPLING_ERROR, st\<lparr>table := put tree_h (up_tree t) (table st)\<rparr>)
          | Some w \<Rightarrow>
              (case h_allocate (up_wit w) st of (r, st') \<Rightarrow>
                 (r, st'\<lparr>table := put tree_h (up_tree t) (table st')\<rparr>))))))"

definition frozt_sapling_witness_append where
  "frozt_sapling_witness_append T down_wit up_wit wit_h cmu =
     exported (cbind (nonnull cmu) (\<lambda>cmu_data.
       cbind (cret (parse_cmu T (as_slice cmu_data))) (\<lambda>node.
       cbind (h_get down_wit wit_h) (\<lambda>w.
         let (good, w') = wit_append T node w in
         cbind (h_put wit_h (up_wit w')) (\<lambda>_. cret (guard good LIB_SAPLING_ERROR))))))"

definition frozt_sapling_witness_root where
  "frozt_sapling_witness_root T down_wit up_wit wit_h (out_anchor :: unit option) =
     exported (cbind (nonnull out_anchor) (\<lambda>_.
       cbind (h_get down_wit wit_h) (\<lambda>w.
       cbind (h_put wit_h (up_wit w)) (\<lambda>_. cret (Ok (anchor_to_bytes T (wit_root T w)))))))"

definition frozt_sapling_witness_serialize where
  "frozt_sapling_witness_serialize T down_wit up_wit wit_h (out_data :: unit option) =
     exported (cbind (nonnull out_data) (\<lambda>_.
       cbind (h_get down_wit wit_h) (\<lambda>w.
       cbind (h_put wit_h (up_wit w)) (\<lambda>_. cret (serialize_witness T w)))))"

definition frozt_sapling_witness_deserialize where
  "frozt_sapling_witness_deserialize T up_wit data (out_witness :: unit option) =
     exported (cbind (nonnull data) (\<lambda>wit_data. cbind (nonnull out_witness) (\<lambda>_.
       cbind (cret (deserialize_witness T (as_slice wit_data))) (\<lambda>w. h_allocate (up_wit w)))))"

definition frozt_sapling_tree_size where
  "frozt_sapling_tree_size T tree_state_hex (out_size :: unit option) =
     exported (cbind (nonnull tree_state_hex) (\<lambda>hex_data. cbind (nonnull out_size) (\<lambda>_.
       cret (rbind (tree_of_hex T (as_slice hex_data)) (\<lambda>t.
         Ok (word_of_nat (tree_size T t) :: u64))))))"

section \<open>Lemmas\<close>

text \<open>
  What the readers rely on: nodes have 32 bytes and are read back; a tree, or a witness, that the
  crate has produced is rebuilt from its parts, and the tree has 32 levels.
\<close>

definition node_ok :: "('node, 'tree, 'wit) merkle \<Rightarrow> bool" where
  "node_ok T \<longleftrightarrow> (\<forall>n. length (node_to_bytes T n) = 32 \<and> node_from_bytes T (node_to_bytes T n) = Some n)"

definition tree_ok :: "('node, 'tree, 'wit) merkle \<Rightarrow> 'tree \<Rightarrow> bool" where
  "tree_ok T t \<longleftrightarrow>
     tree_from_parts T (tree_left T t) (tree_right T t) (tree_parents T t) = Some t \<and>
     length (tree_parents T t) \<le> NOTE_COMMITMENT_TREE_DEPTH"

definition wit_ok :: "('node, 'tree, 'wit) merkle \<Rightarrow> 'wit \<Rightarrow> bool" where
  "wit_ok T w \<longleftrightarrow>
     tree_ok T (wit_tree T w) \<and> length (wit_filled T w) \<le> NOTE_COMMITMENT_TREE_DEPTH \<and>
     pred_option (tree_ok T) (wit_cursor T w) \<and>
     wit_from_parts T (wit_tree T w) (wit_filled T w) (wit_cursor T w) = Some w"

lemma node_codec:
  assumes "node_ok T"
  shows "stream_codec (read_node T) (node_to_bytes T) (\<lambda>_. True)"
  by unfold_locales
     (use assms in \<open>auto simp: node_ok_def read_node_def io_simps io_bind_eq_Some split: option.splits
       dest!: read_exact_bound\<close>)

lemma optional_node_codec:
  assumes "node_ok T"
  shows "stream_codec (read_optional_node T) (write_optional_node T) (\<lambda>_. True)"
proof
  fix x data pos
  assume "holds_at data pos (write_optional_node T x)"
  then show "read_optional_node T data pos = Some (x, pos + length (write_optional_node T x))"
    using stream_codec.reads [OF node_codec [OF assms]]
    by (cases x) (auto simp: read_optional_node_def write_optional_node_def holds_at_Cons read_u8_def)
next
  fix data pos x pos'
  assume "read_optional_node T data pos = Some (x, pos')"
  then show "pos < pos' \<and> pos' \<le> length data"
    using stream_codec.forward [OF node_codec [OF assms]]
    by (auto simp: read_optional_node_def io_bind_eq_Some split: if_splits dest!: read_u8_bound)
       (metis Suc_lessD)
qed

lemma tree_codec:
  assumes "node_ok T"
  shows "stream_codec (read_commitment_tree_data T) (write_commitment_tree_data T) (tree_ok T)"
proof
  note o = optional_node_codec [OF assms]
  fix t data pos
  assume "tree_ok T t" "holds_at data pos (write_commitment_tree_data T t)"
  then show "read_commitment_tree_data T data pos = Some (t, pos + length (write_commitment_tree_data T t))"
    by (clarsimp simp: read_commitment_tree_data_def write_commitment_tree_data_def holds_at_append tree_ok_def
        NOTE_COMMITMENT_TREE_DEPTH_def add.assoc stream_codec.reads [OF o] stream_codec.many_reads [OF o]
        compact_size.reads simp del: length_concat)
next
  note o = optional_node_codec [OF assms]
  fix data pos t pos'
  assume "read_commitment_tree_data T data pos = Some (t, pos')"
  then show "pos < pos' \<and> pos' \<le> length data"
    by (auto simp: read_commitment_tree_data_def io_bind_eq_Some split: if_splits option.splits
        dest!: stream_codec.forward [OF o] stream_codec.many_forward [OF o] compact_size.forward)
qed

lemma serialize_deserialize:
  assumes "node_ok T" "wit_ok T w" "serialize_witness T w = Ok bs"
  shows "deserialize_witness T (bs @ post) = Ok w"
proof -
  note tr = stream_codec.reads [OF tree_codec [OF assms(1)]]
  note nm = stream_codec.many_reads [OF node_codec [OF assms(1)]]
  from assms(3) have "holds_at (bs @ post) 0 (write_commitment_tree_data T (wit_tree T w) @
         write_compact_size (length (wit_filled T w)) @
         concat (map (node_to_bytes T) (wit_filled T w)) @
         (case wit_cursor T w of Some c \<Rightarrow> [1] @ write_commitment_tree_data T c | None \<Rightarrow> [0]))"
    by (auto simp: serialize_witness_def)
  with assms(2) show ?thesis
    by (cases "wit_cursor T w")
       (clarsimp simp: deserialize_witness_def holds_at_append tr nm compact_size.reads wit_ok_def at_eof_def
         NOTE_COMMITMENT_TREE_DEPTH_def add.assoc holds_at_Cons read_u8_def)+
qed

lemma proper_at_eof [simp]: "proper (at_eof x)"
  by (simp add: at_eof_def)

lemma proper_deserialize_witness [simp]: "proper (deserialize_witness T data)"
  by (auto simp: deserialize_witness_def)

lemma parse_cmu_eq: "parse_cmu T data =
    (if length data \<noteq> 32 then Err LIB_INVALID_BUFFER_SIZE else ok_or (node_from_bytes T data) LIB_SAPLING_ERROR)"
  by (simp add: parse_cmu_def slice_def to_array_def)

section \<open>Properties\<close>

text \<open>C20: Exporting a witness and importing the bytes, with anything appended to them, gives a new handle
  under which the same witness is found; the exported witness and every other object of the table
  stay what they were. The hypotheses are that the Merkle tree crate reads back its nodes and
  rebuilds the tree and the witness from their parts.\<close>

theorem witness_export_import:
  assumes "node_ok T" "wit_ok T w" "has_session down up h w st" "length (hmap (table st)) < MAX_HANDLES"
  shows "\<exists>bs st1 h' st2.
    frozt_sapling_witness_serialize T down up h (Some ()) st = (LIB_OK, Some bs, st1) \<and>
    frozt_sapling_witness_deserialize T up (Some (go_slice_of (bs @ post))) (Some ()) st1 = (LIB_OK, Some h', st2) \<and>
    h' \<noteq> h \<and> h' \<noteq> 0 \<and>
    map_of (hmap (table st2)) = (map_of (hmap (table st)))(h' \<mapsto> Some (up w))"
proof -
  obtain bs where bs: "serialize_witness T w = Ok bs" by (simp add: serialize_witness_def)
  obtain t where t: "h_get down h st = (Ok w, st\<lparr>table := t\<rparr>)" "table_wf (put h (up w) t)"
    "entries (put h (up w) t) = (entries (table st))(h \<mapsto> Some (up w))"
    "length (hmap (put h (up w) t)) = length (hmap (table st))"
    using h_get_put [OF assms(3)] by blast
  let ?st1 = "st\<lparr>table := put h (up w) t\<rparr>"
  have here: "entries (table st) h = Some (Some (up w))" using assms(3) by (simp add: has_session_def)
  have 1: "frozt_sapling_witness_serialize T down up h (Some ()) st = (LIB_OK, Some bs, ?st1)"
    unfolding frozt_sapling_witness_serialize_def
    by (rule exported_Ok) (simp add: cbind_def [of "h_get _ _"] cbind_def [of "h_put _ _"] t(1) h_put_def bs cret_def)
  obtain h' t' where h': "h_allocate (up w) ?st1 = (Ok h', ?st1\<lparr>table := t'\<rparr>)" "h' \<noteq> 0"
    "entries (table ?st1) h' = None" "entries t' = (entries (table ?st1))(h' \<mapsto> Some (up w))"
    using h_allocate_ok [of ?st1 "up w"] t assms(4) by auto
  have 2: "frozt_sapling_witness_deserialize T up (Some (go_slice_of (bs @ post))) (Some ()) ?st1
      = (LIB_OK, Some h', ?st1\<lparr>table := t'\<rparr>)"
    unfolding frozt_sapling_witness_deserialize_def
    by (rule exported_Ok) (simp add: serialize_deserialize [OF assms(1,2) bs] h'(1))
  from h' t(3) here have "h' \<noteq> h" "entries t' = (entries (table st))(h' \<mapsto> Some (up w))"
    by (auto simp: fun_upd_idem)
  with 1 2 h'(2) show ?thesis by auto
qed

text \<open>A concrete tree crate: a node is a byte, a tree its parts, and at most two leaves fit.\<close>

definition demo_merkle ::
  "(u8, u8 option \<times> u8 option \<times> u8 option list,
    (u8 option \<times> u8 option \<times> u8 option list) \<times> u8 list \<times> (u8 option \<times> u8 option \<times> u8 option list) option) merkle" where
  "demo_merkle =
     \<lparr>node_from_bytes = (\<lambda>b. if length b = 32 \<and> tl b = replicate 31 0 then Some (hd b) else None),
      node_to_bytes = (\<lambda>n. n # replicate 31 0),
      tree_from_parts = (\<lambda>l r ps. Some (l, r, ps)),
      tree_left = fst, tree_right = (\<lambda>t. fst (snd t)), tree_parents = (\<lambda>t. snd (snd t)),
      tree_append = (\<lambda>n (l, r, ps). if l = None then (True, (Some n, r, ps))
                       else if r = None then (True, (l, Some n, ps)) else (False, (l, r, ps))),
      tree_size = (\<lambda>(l, r, ps). length (filter (\<lambda>x. x \<noteq> None) [l, r])),
      wit_from_tree = (\<lambda>t. if fst t = None then None else Some (t, [], None)),
      wit_from_parts = (\<lambda>t f c. Some (t, f, c)),
      wit_tree = fst, wit_filled = (\<lambda>w. fst (snd w)), wit_cursor = (\<lambda>w. snd (snd w)),
      wit_append = (\<lambda>n (t, f, c). (True, (t, f @ [n], c))),
      wit_root = (\<lambda>w. 0), anchor_to_bytes = (\<lambda>n. n # replicate 31 0),
      hex_decode = (\<lambda>b. Some b)\<rparr>"

theorem witness_export_import_witness:
  "\<exists>bs st1 h' st2.
    frozt_sapling_witness_serialize demo_merkle Some id 1 (Some ())
      \<lparr>table = \<lparr>last_handle = 3, hmap = [(1, Some ((Some 7, None, [Some 9]), [4, 5], Some (Some 1, None, [])))]\<rparr>,
       blamed = 0\<rparr> = (LIB_OK, Some bs, st1) \<and>
    frozt_sapling_witness_deserialize demo_merkle id (Some (go_slice_of (bs @ [1, 2]))) (Some ()) st1
      = (LIB_OK, Some h', st2) \<and> h' \<noteq> 1 \<and> h' \<noteq> 0 \<and>
    map_of (hmap (table st2)) =
      (map_of [(1, Some ((Some 7, None, [Some 9]), [4, 5], Some (Some 1, None, [])))])
        (h' \<mapsto> Some ((Some 7, None, [Some 9]), [4, 5], Some (Some 1, None, [])))"
proof -
  let ?w = "((Some 7, None, [Some 9]), [4, 5], Some (Some 1, None, []))"
  let ?st = "\<lparr>table = \<lparr>last_handle = 3, hmap = [(1, Some ?w)]\<rparr>, blamed = 0\<rparr>"
  have "node_ok demo_merkle" "wit_ok demo_merkle ?w"
    by (simp_all add: node_ok_def wit_ok_def tree_ok_def demo_merkle_def NOTE_COMMITMENT_TREE_DEPTH_def)
  moreover have "has_session Some id 1 ?w ?st" "length (hmap (table ?st)) < MAX_HANDLES"
    by (simp_all add: has_session_def table_wf_def MAX_HANDLES_def)
  ultimately show ?thesis
    using witness_export_import [of demo_merkle ?w Some id 1 ?st "[1, 2]"] by simp
qed

end
