(* ===== verification/Zcash_Tx.thy ===== *)
theory Zcash_Tx
  imports Sapling_Keys Commitment_Tree
begin

text \<open>
  The builder of shielded transactions (\<^verbatim>\<open>frozt-lib/src/tx.rs\<close>): payment addresses, spends and
  outputs, the signature hash and the serialization of version 5 transactions, the binding
  signature key, and the exported builder functions. What the file calls of \<^verbatim>\<open>sapling-crypto\<close>,
  \<^verbatim>\<open>redjubjub\<close>, \<^verbatim>\<open>zcash_address\<close> and \<^verbatim>\<open>bls12_381\<close>, beyond the argument \<open>Y\<close> of the keys, is the argument
  \<open>X\<close>; BLAKE2b is in \<open>Z\<close>, the Merkle tree in \<open>T\<close>. The proving parameters, which the library loads
  from files, are optional fields of \<open>X\<close>: a loaded parameter set is the prover it provides. Every
  call of \<^verbatim>\<open>thread_rng()\<close> is an argument of its own. \<^verbatim>\<open>i64\<close> values are words read as signed.
\<close>

datatype network_type = Main_Network | Test_Network | Regtest_Network

datatype receiver = Sapling_Receiver bytes | Other_Receiver

record ('fr, 'fvk, 'addr, 'note, 'cmu, 'ak, 'rcv, 'cv, 'path, 'sc, 'circ, 'ne, 'rng, 'wit, 'ts, 'bsk) sapling_tx =
  fvk_ak :: "'fvk \<Rightarrow> 'ak"
  ak_randomize :: "'ak \<Rightarrow> 'fr \<Rightarrow> bytes"
  fr_random :: "'rng \<Rightarrow> 'fr \<times> 'rng"
  rand_bytes32 :: "'rng \<Rightarrow> bytes \<times> 'rng"
  rcv_random :: "'rng \<Rightarrow> 'rcv \<times> 'rng"
  cv_derive :: "u64 \<Rightarrow> 'rcv \<Rightarrow> 'cv"
  cv_to_bytes :: "'cv \<Rightarrow> bytes"
  note_cmu :: "'note \<Rightarrow> 'cmu"
  note_diversifier :: "'note \<Rightarrow> bytes"
  wit_path :: "'wit \<Rightarrow> 'path option"
  path_position :: "'path \<Rightarrow> u64"
  path_root :: "'path \<Rightarrow> 'cmu \<Rightarrow> bytes"
  anchor_from_repr :: "bytes \<Rightarrow> 'sc option"
  anchor_to_repr :: "'sc \<Rightarrow> bytes"
  prepare_spend_circuit ::
    "'ak \<times> 'fr \<Rightarrow> bytes \<Rightarrow> 'fr rseed \<Rightarrow> u64 \<Rightarrow> 'fr \<Rightarrow> 'rcv \<Rightarrow> 'sc \<Rightarrow> 'path \<Rightarrow> 'circ option"
  SPEND_PARAMS :: "('circ \<Rightarrow> 'rng \<Rightarrow> bytes \<times> 'rng) option"
  note_encryption :: "bytes option \<Rightarrow> 'note \<Rightarrow> bytes \<Rightarrow> 'rng \<Rightarrow> 'ne \<times> 'rng"
  ne_epk_bytes :: "'ne \<Rightarrow> bytes"
  encrypt_note_plaintext :: "'ne \<Rightarrow> bytes"
  encrypt_outgoing_plaintext :: "'ne \<Rightarrow> 'cv \<Rightarrow> 'cmu \<Rightarrow> 'rng \<Rightarrow> bytes \<times> 'rng"
  OUTPUT_PARAMS :: "('ne \<Rightarrow> 'addr \<Rightarrow> 'note \<Rightarrow> u64 \<Rightarrow> 'rcv \<Rightarrow> 'rng \<Rightarrow> bytes \<times> 'rng) option"
  trapdoor_sum :: "'rcv list \<Rightarrow> 'ts"
  trapdoor_minus :: "'ts \<Rightarrow> 'ts \<Rightarrow> 'ts"
  into_bsk :: "'ts \<Rightarrow> 'bsk"
  bsk_sign :: "'bsk \<Rightarrow> bytes \<Rightarrow> 'rng \<Rightarrow> bytes \<times> 'rng"
  unified_decode :: "bytes \<Rightarrow> (network_type \<times> receiver list) option"

definition MAX_FEE_ZATOSHIS :: u64 where "MAX_FEE_ZATOSHIS = 1000000"

section \<open>Data\<close>

record ('cv, 'sc, 'rcv) spend_parts =
  sp_cv :: 'cv
  sp_anchor :: 'sc
  sp_nullifier :: bytes
  sp_rk :: bytes
  sp_zkproof :: bytes
  sp_rcv :: 'rcv

record ('cv, 'cmu, 'rcv) output_parts =
  op_cv :: 'cv
  op_cmu :: 'cmu
  op_ephemeral_key :: bytes
  op_enc_ciphertext :: bytes
  op_out_ciphertext :: bytes
  op_zkproof :: bytes
  op_rcv :: 'rcv

record ('cv, 'sc, 'cmu, 'rcv) tx_build_state =
  bs_spends :: "('cv, 'sc, 'rcv) spend_parts list"
  bs_outputs :: "('cv, 'cmu, 'rcv) output_parts list"
  bs_value_balance :: u64
  bs_consensus_branch_id :: u32
  bs_expiry_height :: u32
  bs_sighash :: bytes

record ('fr, 'fvk, 'ak, 'cv, 'sc, 'cmu, 'rcv) tx_builder =
  tb_fvk :: 'fvk
  tb_pgk :: "'ak \<times> 'fr"
  tb_ovk :: bytes
  tb_target_height :: u32
  tb_zip212 :: zip212_enforcement
  tb_spends :: "('cv, 'sc, 'rcv) spend_parts list"
  tb_outputs :: "('cv, 'cmu, 'rcv) output_parts list"
  tb_alphas :: "bytes list"
  tb_total_input :: u64
  tb_total_output :: u64
  tb_finished :: "('cv, 'sc, 'cmu, 'rcv) tx_build_state option"

section \<open>Construction\<close>

definition build_tx_builder where
  "build_tx_builder L Y X pkp_data extras_data target_height =
     rbind (build_dfvk_raw L Y pkp_data extras_data) (\<lambda>dfvk_raw.
     rbind (ok_or (dfvk_from_bytes Y dfvk_raw) LIB_SAPLING_ERROR) (\<lambda>dfvk.
     let fvk = dfvk_fvk Y dfvk in
     rbind (slice extras_data 0 32) (\<lambda>s. rbind (to_array 32 s) (\<lambda>nsk_arr.
     rbind (ok_or (fr_from_repr Y nsk_arr) LIB_SAPLING_ERROR) (\<lambda>nsk.
       Ok \<lparr>tb_fvk = fvk, tb_pgk = (fvk_ak X fvk, nsk), tb_ovk = fvk_ovk Y fvk,
           tb_target_height = target_height, tb_zip212 = zip212_for_height (ucast target_height),
           tb_spends = [], tb_outputs = [], tb_alphas = [], tb_total_input = 0, tb_total_output = 0,
           tb_finished = None\<rparr>)))))"

definition starts_with :: "string \<Rightarrow> bytes \<Rightarrow> bool" where
  "starts_with p s \<longleftrightarrow> take (length p) s = str_bytes p"

text \<open>The loop returns at the first Sapling receiver.\<close>

fun first_sapling where
  "first_sapling Y [] = Err LIB_SAPLING_ERROR"
| "first_sapling Y (Sapling_Receiver b # rs) = ok_or (addr_from_bytes Y b) LIB_SAPLING_ERROR"
| "first_sapling Y (Other_Receiver # rs) = first_sapling Y rs"

definition parse_unified_address where
  "parse_unified_address Y X addr_str =
     rbind (ok_or (unified_decode X addr_str) LIB_SAPLING_ERROR) (\<lambda>(network, items).
       if network \<noteq> Main_Network then Err LIB_SAPLING_ERROR else first_sapling Y items)"

definition parse_payment_address where
  "parse_payment_address Y X addr_str =
     (if starts_with ''u1'' addr_str then parse_unified_address Y X addr_str
      else
        rbind (ok_or (bech32_decode Y addr_str) LIB_SAPLING_ERROR) (\<lambda>(hrp, data).
          if hrp \<noteq> str_bytes ''zs'' then Err LIB_SAPLING_ERROR
          else if length data \<noteq> 43 then Err LIB_SAPLING_ERROR
          else rbind (slice data 0 43) (\<lambda>s. rbind (to_array 43 s) (\<lambda>addr_bytes.
                 ok_or (addr_from_bytes Y addr_bytes) LIB_SAPLING_ERROR))))"

definition branch_id_for_height :: "u32 \<Rightarrow> u32" where
  "branch_id_for_height height =
     (if height \<ge> 3146400 then 0x4dec4df0
      else if height \<ge> 2726400 then 0xc8e71055
      else 0xc2d6d0b4)"

definition get_spend_params where
  "get_spend_params X = ok_or (SPEND_PARAMS X) LIB_SAPLING_ERROR"

definition get_output_params where
  "get_output_params X = ok_or (OUTPUT_PARAMS X) LIB_SAPLING_ERROR"

definition make_spend where
  "make_spend Y X pgk fvk note merkle_path alpha spend_params rng =
     (let (rcv, rng) = rcv_random X rng;
          cv = cv_derive X (note_value Y note) rcv;
          rk = ak_randomize X (fvk_ak X fvk) alpha;
          nullifier = note_nf Y note fvk (path_position X merkle_path);
          anchor_bytes = path_root X merkle_path (note_cmu X note)
      in rbind (ok_or (anchor_from_repr X anchor_bytes) LIB_SAPLING_ERROR) (\<lambda>anchor.
         rbind (ok_or (prepare_spend_circuit X pgk (note_diversifier X note) (note_rseed Y note)
                         (note_value Y note) alpha rcv anchor merkle_path) LIB_SAPLING_ERROR) (\<lambda>circuit.
           Ok \<lparr>sp_cv = cv, sp_anchor = anchor, sp_nullifier = nullifier, sp_rk = rk,
               sp_zkproof = fst (spend_params circuit rng), sp_rcv = rcv\<rparr>)))"

definition make_output where
  "make_output Y X ovk to val memo zip212 output_params rng =
     (let (seed, rng) =
            (case zip212 of
               On \<Rightarrow> (let (b, rng) = rand_bytes32 X rng in (AfterZip212 b, rng))
             | _ \<Rightarrow> (let (r, rng) = fr_random X rng in (BeforeZip212 r, rng)));
          note = note_from_parts Y to val seed;
          (rcv, rng) = rcv_random X rng;
          cv = cv_derive X val rcv;
          cmu = note_cmu X note;
          (ne, rng) = note_encryption X ovk note memo rng;
          (out_ct, rng) = encrypt_outgoing_plaintext X ne cv cmu rng;
          (proof', rng) = output_params ne to note val rcv rng
      in Ok \<lparr>op_cv = cv, op_cmu = cmu, op_ephemeral_key = ne_epk_bytes X ne,
             op_enc_ciphertext = encrypt_note_plaintext X ne, op_out_ciphertext = out_ct,
             op_zkproof = proof', op_rcv = rcv\<rparr>)"

definition compute_bsk where
  "compute_bsk X spend_rcvs output_rcvs =
     into_bsk X (trapdoor_minus X (trapdoor_sum X spend_rcvs) (trapdoor_sum X output_rcvs))"

section \<open>The signature hash\<close>

text \<open>A hash state that was updated with several byte strings has hashed their concatenation.\<close>

definition V5_HEADER :: u32 where "V5_HEADER = 0x80000005"
definition V5_VERSION_GROUP :: u32 where "V5_VERSION_GROUP = 0x26A7270A"

definition hash_header where
  "hash_header Z consensus_branch_id expiry_height =
     blake2b Z (str_bytes ''ZTxIdHeadersHash'')
       (u32_le V5_HEADER @ u32_le V5_VERSION_GROUP @ u32_le consensus_branch_id @ u32_le 0 @
        u32_le expiry_height)"

definition hash_empty_transparent where
  "hash_empty_transparent Z = blake2b Z (str_bytes ''ZTxIdTranspaHash'') []"

definition hash_sapling where
  "hash_sapling Z Y X spends outputs value_balance =
     (if spends = [] \<and> outputs = [] then blake2b Z (str_bytes ''ZTxIdSaplingHash'') []
      else
        (let spends_compact_digest =
               blake2b Z (str_bytes ''ZTxIdSSpendCHash'') (concat (map sp_nullifier spends));
             spends_noncompact_digest =
               blake2b Z (str_bytes ''ZTxIdSSpendNHash'')
                 (concat (map (\<lambda>s. cv_to_bytes X (sp_cv s) @ anchor_to_repr X (sp_anchor s) @ sp_rk s) spends));
             spends_digest =
               blake2b Z (str_bytes ''ZTxIdSSpendsHash'') (spends_compact_digest @ spends_noncompact_digest);
             outputs_compact_digest =
               blake2b Z (str_bytes ''ZTxIdSOutC__Hash'')
                 (concat (map (\<lambda>x. cmu_to_bytes Y (op_cmu x) @ op_ephemeral_key x @
                                    take 52 (op_enc_ciphertext x)) outputs));
             outputs_memos_digest =
               blake2b Z (str_bytes ''ZTxIdSOutM__Hash'')
                 (concat (map (\<lambda>x. take 512 (drop 52 (op_enc_ciphertext x))) outputs));
             outputs_noncompact_digest =
               blake2b Z (str_bytes ''ZTxIdSOutN__Hash'')
                 (concat (map (\<lambda>x. cv_to_bytes X (op_cv x) @ drop 564 (op_enc_ciphertext x) @
                                    op_out_ciphertext x) outputs));
             outputs_digest =
               blake2b Z (str_bytes ''ZTxIdSOutputHash'')
                 (outputs_compact_digest @ outputs_memos_digest @ outputs_noncompact_digest)
         in blake2b Z (str_bytes ''ZTxIdSaplingHash'')
              (spends_digest @ outputs_digest @ u64_le value_balance)))"

definition hash_empty_orchard where
  "hash_empty_orchard Z = blake2b Z (str_bytes ''ZTxIdOrchardHash'') []"

definition compute_v5_sighash where
  "compute_v5_sighash Z Y X spends outputs value_balance consensus_branch_id expiry_height =
     blake2b Z (str_bytes ''ZcashTxHash_'' @ u32_le consensus_branch_id)
       (hash_header Z consensus_branch_id expiry_height @ hash_empty_transparent Z @
        hash_sapling Z Y X spends outputs value_balance @ hash_empty_orchard Z)"

section \<open>Serialization\<close>

text \<open>The lengths of vectors are \<^verbatim>\<open>usize\<close>, written \<^verbatim>\<open>as u64\<close>.\<close>

definition len64 :: "'a list \<Rightarrow> u64" where "len64 xs = word_of_nat (length xs)"

definition v5_header :: "u32 \<Rightarrow> u32 \<Rightarrow> bytes" where
  "v5_header consensus_branch_id expiry_height =
     u32_le V5_HEADER @ u32_le V5_VERSION_GROUP @ u32_le consensus_branch_id @ u32_le 0 @ u32_le expiry_height"

definition spend_entry where
  "spend_entry X s = cv_to_bytes X (sp_cv s) @ sp_nullifier s @ sp_rk s"

definition output_entry where
  "output_entry Y X x =
     cv_to_bytes X (op_cv x) @ cmu_to_bytes Y (op_cmu x) @ op_ephemeral_key x @ op_enc_ciphertext x @
     op_out_ciphertext x"

definition serialize_v5_tx where
  "serialize_v5_tx Y X spends outputs value_balance spend_auth_sigs binding_sig consensus_branch_id expiry_height =
     (if length spend_auth_sigs \<noteq> length spends then Err LIB_INVALID_BUFFER_SIZE
      else
        Ok (v5_header consensus_branch_id expiry_height @
            write_compactsize 0 @ write_compactsize 0 @
            write_compactsize (len64 spends) @ concat (map (spend_entry X) spends) @
            write_compactsize (len64 outputs) @ concat (map (output_entry Y X) outputs) @
            (if spends \<noteq> [] \<or> outputs \<noteq> [] then u64_le value_balance else []) @
            (case spends of s # _ \<Rightarrow> anchor_to_repr X (sp_anchor s) | [] \<Rightarrow> []) @
            concat (map sp_zkproof spends) @
            concat spend_auth_sigs @
            concat (map op_zkproof outputs) @
            (if spends \<noteq> [] \<or> outputs \<noteq> [] then binding_sig else []) @
            write_compactsize 0))"

section \<open>The builder\<close>

definition spend_rseed where
  "spend_rseed Y zip212 rseed_bytes =
     (case zip212 of
        On \<Rightarrow> Ok (AfterZip212 rseed_bytes)
      | _ \<Rightarrow> rbind (ok_or (fr_from_repr Y rseed_bytes) LIB_SAPLING_ERROR) (\<lambda>rcm. Ok (BeforeZip212 rcm)))"

definition tx_add_spend where
  "tx_add_spend Y X T note_d wit_data alpha_rng rng b =
     rbind (slice note_d 0 11) (\<lambda>s. rbind (to_array 11 s) (\<lambda>diversifier.
     rbind (slice note_d 11 19) (\<lambda>s. rbind (to_array 8 s) (\<lambda>value_bytes.
     rbind (slice note_d 19 51) (\<lambda>s. rbind (to_array 32 s) (\<lambda>rseed_bytes.
     let val = u64_of_le value_bytes in
     rbind (spend_rseed Y (tb_zip212 b) rseed_bytes) (\<lambda>seed.
     rbind (ok_or (fvk_payment_address Y (tb_fvk b) diversifier) LIB_SAPLING_ERROR) (\<lambda>pk_d.
     let note = note_from_parts Y pk_d val seed in
     rbind (deserialize_witness T wit_data) (\<lambda>w.
     rbind (ok_or (wit_path X w) LIB_SAPLING_ERROR) (\<lambda>merkle_path.
     rbind (get_spend_params X) (\<lambda>spend_params.
     let alpha = fst (fr_random X alpha_rng) in
     rbind (make_spend Y X (tb_pgk b) (tb_fvk b) note merkle_path alpha spend_params rng) (\<lambda>spend.
       Ok (fr_to_repr Y alpha,
           b\<lparr>tb_total_input := tb_total_input b + val,
             tb_spends := tb_spends b @ [spend],
             tb_alphas := tb_alphas b @ [fr_to_repr Y alpha]\<rparr>)))))))))))))"

definition tx_add_output where
  "tx_add_output Y X addr_data amount rng b =
     rbind (ok_or (from_utf8 addr_data) LIB_SERIALIZATION_ERROR) (\<lambda>addr_str.
     rbind (parse_payment_address Y X addr_str) (\<lambda>addr.
     rbind (get_output_params X) (\<lambda>output_params.
     rbind (make_output Y X (Some (tb_ovk b)) addr amount (replicate 512 0) (tb_zip212 b) output_params rng) (\<lambda>out.
       Ok ((), b\<lparr>tb_total_output := tb_total_output b + amount, tb_outputs := tb_outputs b @ [out]\<rparr>)))))"

definition tx_build where
  "tx_build Z Y X b =
     (if tb_spends b = [] then Err LIB_SAPLING_ERROR
      else if tb_total_output b > tb_total_input b then Err LIB_SAPLING_ERROR
      else
        (let fee = tb_total_input b - tb_total_output b in
         if fee > MAX_FEE_ZATOSHIS then Err LIB_SAPLING_ERROR
         else
           (let branch = branch_id_for_height (tb_target_height b);
                expiry = tb_target_height b + 100;
                sighash = compute_v5_sighash Z Y X (tb_spends b) (tb_outputs b) fee branch expiry
            in Ok (sighash,
                   b\<lparr>tb_spends := [], tb_outputs := [],
                     tb_finished := Some \<lparr>bs_spends = tb_spends b, bs_outputs = tb_outputs b,
                       bs_value_balance = fee, bs_consensus_branch_id = branch, bs_expiry_height = expiry,
                       bs_sighash = sighash\<rparr>\<rparr>))))"

text \<open>\<^verbatim>\<open>for i in 0..n\<close>: the i-th signature is the i-th 64 bytes.\<close>

definition chunk :: "nat \<Rightarrow> bytes \<Rightarrow> nat \<Rightarrow> bytes res" where
  "chunk k data i = rbind (slice data (i * k) ((i + 1) * k)) (to_array k)"

definition tx_complete where
  "tx_complete Y X sig_data rng b =
     rbind (ok_or (tb_finished b) LIB_SAPLING_ERROR) (\<lambda>state.
     let n_spends = length (bs_spends state) in
     if length sig_data \<noteq> 64 * n_spends then Err LIB_INVALID_BUFFER_SIZE
     else
       rbind (rmap (chunk 64 sig_data) [0..<n_spends]) (\<lambda>spend_sigs.
       let bsk = compute_bsk X (map sp_rcv (bs_spends state)) (map op_rcv (bs_outputs state));
           binding_sig = fst (bsk_sign X bsk (bs_sighash state) rng)
       in serialize_v5_tx Y X (bs_spends state) (bs_outputs state) (bs_value_balance state)
            spend_sigs binding_sig (bs_consensus_branch_id state) (bs_expiry_height state)))"

section \<open>Exported functions\<close>

text \<open>
  A function that works on a borrowed object and changes it only when it succeeds. The guard gives
  the object back in every case.
\<close>

definition with_guard ::
  "('o \<Rightarrow> 'a option) \<Rightarrow> ('a \<Rightarrow> 'o) \<Rightarrow> int \<Rightarrow> ('a \<Rightarrow> ('b \<times> 'a) res) \<Rightarrow> ('o, 'b) call" where
  "with_guard down up h f =
     cbind (h_get down h) (\<lambda>x. case f x of
         Ok (y, x') \<Rightarrow> cbind (h_put h (up x')) (\<lambda>_. cret (Ok y))
       | Err e \<Rightarrow> cbind (h_put h (up x)) (\<lambda>_. cret (Err e))
       | Blamed i \<Rightarrow> cbind (h_put h (up x)) (\<lambda>_. cret (Blamed i))
       | Panic \<Rightarrow> cbind (h_put h (up x)) (\<lambda>_. cret Panic))"

definition frozt_tx_builder_new where
  "frozt_tx_builder_new L Y X up_tb pkp_bytes extras_bytes target_height (out_handle :: unit option) =
     exported (cbind (nonnull pkp_bytes) (\<lambda>pkp_data. cbind (nonnull extras_bytes) (\<lambda>extras_data.
       cbind (nonnull out_handle) (\<lambda>_.
       cbind (cret (build_tx_builder L Y X (as_slice pkp_data) (as_slice extras_data) target_height)) (\<lambda>b.
         h_allocate (up_tb b))))))"

definition frozt_tx_builder_add_spend where
  "frozt_tx_builder_add_spend Y X T down_tb up_tb alpha_rng rng builder_handle note_data witness_data
      (out_alpha :: unit option) =
     exported (cbind (nonnull note_data) (\<lambda>note_d. cbind (nonnull witness_data) (\<lambda>wit_data.
       cbind (nonnull out_alpha) (\<lambda>_.
         if length (as_slice note_d) \<noteq> 51 then cret (Err LIB_INVALID_BUFFER_SIZE)
         else with_guard down_tb up_tb builder_handle
                (tx_add_spend Y X T (as_slice note_d) (as_slice wit_data) alpha_rng rng)))))"

definition frozt_tx_builder_add_output where
  "frozt_tx_builder_add_output Y X down_tb up_tb rng builder_handle address amount =
     exported (cbind (nonnull address) (\<lambda>addr_data.
       with_guard down_tb up_tb builder_handle (tx_add_output Y X (as_slice addr_data) amount rng)))"

definition frozt_tx_builder_build where
  "frozt_tx_builder_build Z Y X down_tb up_tb builder_handle (out_sighash :: unit option) =
     exported (cbind (nonnull out_sighash) (\<lambda>_. with_guard down_tb up_tb builder_handle (tx_build Z Y X)))"

definition frozt_tx_builder_complete where
  "frozt_tx_builder_complete Y X down_tb rng builder_handle spend_auth_sigs (out_raw_tx :: unit option) =
     exported (cbind (nonnull spend_auth_sigs) (\<lambda>sig_data. cbind (nonnull out_raw_tx) (\<lambda>_.
       cbind (h_take down_tb builder_handle) (\<lambda>b. cret (tx_complete Y X (as_slice sig_data) rng b)))))"

end
