(* ===== verification/Zcash_Tx_Properties.thy ===== *)
theory Zcash_Tx_Properties
  imports Zcash_Tx
begin

text \<open>
  Correctness of the transaction builder: what the builder has recorded after any sequence of
  successful additions, the value balance and the binding signature key of the transaction that is
  built from it, the bounds on the fee, the layout of the serialized transaction, and what failing
  calls leave behind.
\<close>

section \<open>Histories of a builder\<close>

text \<open>
  \<open>tx_history L Y X T b vs ws\<close>: \<open>b\<close> is reached from a new builder by successful additions of spends
  of the values \<open>vs\<close> and of outputs of the amounts \<open>ws\<close>, in any order.
\<close>

definition note_data_value :: "bytes \<Rightarrow> u64" where
  "note_data_value nd = u64_of_le (take 8 (drop 11 nd))"

inductive tx_history for L Y X T where
  new_builder: "build_tx_builder L Y X pkp_data extras target_height = Ok b \<Longrightarrow> tx_history L Y X T b [] []"
| add_spend: "tx_history L Y X T b vs ws \<Longrightarrow> length nd = 51 \<Longrightarrow>
    tx_add_spend Y X T nd wd alpha_rng rng b = Ok (alpha, b') \<Longrightarrow>
    tx_history L Y X T b' (vs @ [note_data_value nd]) ws"
| add_output: "tx_history L Y X T b vs ws \<Longrightarrow> tx_add_output Y X ad amount rng b = Ok ((), b') \<Longrightarrow>
    tx_history L Y X T b' vs (ws @ [amount])"

section \<open>Documented behaviour\<close>

text \<open>
  A value commitment is the value times one generator plus the trapdoor times another: \<open>vl\<close> is the
  multiple of the value generator, \<open>rd\<close> and \<open>td\<close> the multiples of the randomness generator for a
  trapdoor and for a sum of trapdoors, \<open>pub\<close> the verification key of a binding signature key.
\<close>

definition commitments_ok where
  "commitments_ok X (vl :: int \<Rightarrow> 'cv::ab_group_add) rd td pub \<longleftrightarrow>
     (\<forall>v r. cv_derive X v r = vl (uint v) + rd r) \<and>
     (\<forall>a b :: int. vl (a + b) = vl a + vl b) \<and>
     (\<forall>rs. td (trapdoor_sum X rs) = sum_list (map rd rs)) \<and>
     (\<forall>s t. td (trapdoor_minus X s t) = td s - td t) \<and>
     (\<forall>t. pub (into_bsk X t) = td t)"

definition note_parts_ok :: "('fr, 'dfvk, 'fvk, 'addr, 'note, 'cmu, 'z) sapling_scheme \<Rightarrow> bool" where
  "note_parts_ok Y \<longleftrightarrow> (\<forall>a v r. note_value Y (note_from_parts Y a v r) = v)"

section \<open>Lemmas on the operations\<close>

lemma make_spend_cv:
  "make_spend Y X pgk fvk note path alpha params rng = Ok s \<Longrightarrow> sp_cv s = cv_derive X (note_value Y note) (sp_rcv s)"
  by (auto simp: make_spend_def Let_def split: prod.splits elim!: rbind_OkE)

lemma make_output_cv:
  "make_output Y X ovk to v memo z params rng = Ok x \<Longrightarrow> op_cv x = cv_derive X v (op_rcv x)"
  by (auto simp: make_output_def Let_def split: prod.splits)

lemma tx_add_spend_eq:
  assumes "length nd = 51"
  shows "tx_add_spend Y X T nd wd alpha_rng rng b =
     rbind (spend_rseed Y (tb_zip212 b) (drop 19 nd)) (\<lambda>seed.
     rbind (ok_or (fvk_payment_address Y (tb_fvk b) (take 11 nd)) LIB_SAPLING_ERROR) (\<lambda>pk_d.
     rbind (deserialize_witness T wd) (\<lambda>w.
     rbind (ok_or (wit_path X w) LIB_SAPLING_ERROR) (\<lambda>path.
     rbind (get_spend_params X) (\<lambda>params.
     rbind (make_spend Y X (tb_pgk b) (tb_fvk b) (note_from_parts Y pk_d (note_data_value nd) seed) path
              (fst (fr_random X alpha_rng)) params rng) (\<lambda>s.
       Ok (fr_to_repr Y (fst (fr_random X alpha_rng)),
           b\<lparr>tb_total_input := tb_total_input b + note_data_value nd, tb_spends := tb_spends b @ [s],
             tb_alphas := tb_alphas b @ [fr_to_repr Y (fst (fr_random X alpha_rng))]\<rparr>)))))))"
  using assms by (simp add: tx_add_spend_def slice_def to_array_def note_data_value_def Let_def)

lemma tx_add_spend_OkE:
  assumes "tx_add_spend Y X T nd wd alpha_rng rng b = Ok (alpha, b')" "length nd = 51" "note_parts_ok Y"
  obtains s where "b' = b\<lparr>tb_total_input := tb_total_input b + note_data_value nd,
      tb_spends := tb_spends b @ [s], tb_alphas := tb_alphas b @ [alpha]\<rparr>"
    and "sp_cv s = cv_derive X (note_data_value nd) (sp_rcv s)"
  using assms(1) unfolding tx_add_spend_eq [OF assms(2)]
  by (elim rbind_OkE) (use assms(3) in \<open>auto simp: note_parts_ok_def intro!: that dest!: make_spend_cv\<close>)

lemma tx_add_output_OkE:
  assumes "tx_add_output Y X ad amount rng b = Ok ((), b')"
  obtains x where "b' = b\<lparr>tb_total_output := tb_total_output b + amount, tb_outputs := tb_outputs b @ [x]\<rparr>"
    and "op_cv x = cv_derive X amount (op_rcv x)"
  using assms by (auto simp: tx_add_output_def elim!: rbind_OkE intro: that dest: make_output_cv)

lemma build_tx_builder_fresh:
  "build_tx_builder L Y X pkp_data extras h = Ok b \<Longrightarrow>
     tb_spends b = [] \<and> tb_outputs b = [] \<and> tb_total_input b = 0 \<and> tb_total_output b = 0 \<and> tb_finished b = None"
  by (auto simp: build_tx_builder_def Let_def elim!: rbind_OkE)

text \<open>The invariant of a history: the totals are the sums, the commitments those of the values.\<close>

lemma tx_history_totals:
  assumes "tx_history L Y X T b vs ws" "note_parts_ok Y"
  shows "tb_total_input b = sum_list vs \<and> tb_total_output b = sum_list ws \<and> tb_finished b = None \<and>
    map sp_cv (tb_spends b) = map2 (cv_derive X) vs (map sp_rcv (tb_spends b)) \<and>
    map op_cv (tb_outputs b) = map2 (cv_derive X) ws (map op_rcv (tb_outputs b)) \<and>
    length (tb_spends b) = length vs \<and> length (tb_outputs b) = length ws"
  using assms
proof (induction rule: tx_history.induct)
  case (add_spend b vs ws nd wd alpha_rng rng alpha b')
  from add_spend.hyps(3,2) add_spend.prems show ?case
    by (rule tx_add_spend_OkE) (use add_spend in \<open>simp add: zip_append\<close>)
next
  case (add_output b vs ws ad amount rng b')
  from add_output.hyps(2) show ?case
    by (rule tx_add_output_OkE) (use add_output in \<open>simp add: zip_append\<close>)
qed (simp add: build_tx_builder_fresh)

text \<open>Sums of words that stay below the modulus, and sums of commitments.\<close>

lemma uint_sum_list:
  assumes "sum_list (map unat vs) < 2 ^ 64"
  shows "uint (sum_list (vs :: u64 list)) = sum_list (map uint vs)"
proof -
  note unat_sum_list [OF assms]
  moreover have "int (sum_list (map unat vs)) = sum_list (map uint vs)" by (induction vs) simp_all
  ultimately show ?thesis by (metis uint_nat)
qed

lemma vl_0:
  assumes "commitments_ok X vl rd td pub"
  shows "vl 0 = 0"
proof -
  have "vl (0 + 0) = vl 0 + vl 0" using assms unfolding commitments_ok_def by blast
  then show ?thesis by simp
qed

lemma vl_diff:
  assumes "commitments_ok X vl rd td pub"
  shows "vl (a - b) = vl a - vl b"
proof -
  have "vl ((a - b) + b) = vl (a - b) + vl b" using assms unfolding commitments_ok_def by blast
  then show ?thesis by simp
qed

lemma compute_bsk_pub:
  assumes "commitments_ok X vl rd td pub"
  shows "pub (compute_bsk X rs ss) = sum_list (map rd rs) - sum_list (map rd ss)"
  using assms by (simp add: compute_bsk_def commitments_ok_def)

lemma sum_commitments:
  assumes "commitments_ok X vl rd td pub" "length vs = length rs"
  shows "sum_list (map2 (cv_derive X) vs rs) = vl (sum_list (map uint vs)) + sum_list (map rd rs)"
  using assms(2)
proof (induction vs rs rule: list_induct2)
  case (Cons v vs r rs)
  then show ?case using assms(1) by (simp add: commitments_ok_def algebra_simps)
qed (simp add: vl_0 [OF assms(1)])

lemma tx_build_Ok_iff:
  "tx_build Z Y X b = Ok (sighash, b') \<longleftrightarrow>
     tb_spends b \<noteq> [] \<and> tb_total_output b \<le> tb_total_input b \<and>
     tb_total_input b - tb_total_output b \<le> MAX_FEE_ZATOSHIS \<and>
     sighash = compute_v5_sighash Z Y X (tb_spends b) (tb_outputs b) (tb_total_input b - tb_total_output b)
       (branch_id_for_height (tb_target_height b)) (tb_target_height b + 100) \<and>
     b' = b\<lparr>tb_spends := [], tb_outputs := [],
            tb_finished := Some \<lparr>bs_spends = tb_spends b, bs_outputs = tb_outputs b,
              bs_value_balance = tb_total_input b - tb_total_output b,
              bs_consensus_branch_id = branch_id_for_height (tb_target_height b),
              bs_expiry_height = tb_target_height b + 100, bs_sighash = sighash\<rparr>\<rparr>"
  by (auto simp: tx_build_def Let_def)

section \<open>Properties\<close>

text \<open>C13: The transaction that is built after any sequence of successful additions of spends and
  outputs (whose values do not overflow 64 bits) is balanced: its value balance is the sum of the
  spent values minus the sum of the output values, lies between 0 and the maximal fee of a million
  zatoshis, and the key with which \<^verbatim>\<open>complete\<close> makes the binding signature is the one the network
  verifies it with: its verification key is the sum of the value commitments of the spends minus
  that of the outputs minus the commitment to the value balance.\<close>

theorem built_tx_balanced:
  assumes "tx_history L Y X T b vs ws" "note_parts_ok Y" "commitments_ok X vl rd td pub"
    and "sum_list (map unat vs) < 2 ^ 64" "sum_list (map unat ws) < 2 ^ 64"
    and "tx_build Z Y X b = Ok (sighash, b')" "tb_finished b' = Some s"
  shows "uint (bs_value_balance s) = sum_list (map uint vs) - sum_list (map uint ws) \<and>
    0 \<le> uint (bs_value_balance s) \<and> uint (bs_value_balance s) \<le> 1000000 \<and>
    pub (compute_bsk X (map sp_rcv (bs_spends s)) (map op_rcv (bs_outputs s))) =
      sum_list (map sp_cv (bs_spends s)) - sum_list (map op_cv (bs_outputs s)) - vl (uint (bs_value_balance s))"
proof -
  note h = tx_history_totals [OF assms(1,2)]
  let ?in = "tb_total_input b" and ?out = "tb_total_output b"
  have s: "bs_spends s = tb_spends b" "bs_outputs s = tb_outputs b" "bs_value_balance s = ?in - ?out"
    and le: "?out \<le> ?in" "?in - ?out \<le> MAX_FEE_ZATOSHIS"
    using assms(6,7) by (auto simp: tx_build_Ok_iff)
  have bal: "uint (bs_value_balance s) = sum_list (map uint vs) - sum_list (map uint ws)"
    using le(1) h uint_sum_list [OF assms(4)] uint_sum_list [OF assms(5)]
    by (simp add: s(3) uint_sub_lem [THEN iffD1] word_le_def)
  have fee: "uint (bs_value_balance s) \<le> 1000000"
    using le(2) by (simp add: s(3) MAX_FEE_ZATOSHIS_def word_le_def)
  have "pub (compute_bsk X (map sp_rcv (bs_spends s)) (map op_rcv (bs_outputs s)))
      = sum_list (map rd (map sp_rcv (tb_spends b))) - sum_list (map rd (map op_rcv (tb_outputs b)))"
    by (simp only: compute_bsk_pub [OF assms(3)] s)
  also have "\<dots> = sum_list (map sp_cv (bs_spends s)) - sum_list (map op_cv (bs_outputs s))
      - vl (uint (bs_value_balance s))"
    using h sum_commitments [OF assms(3), of vs "map sp_rcv (tb_spends b)"]
      sum_commitments [OF assms(3), of ws "map op_rcv (tb_outputs b)"]
    by (simp add: s(1,2) bal vl_diff [OF assms(3)] algebra_simps)
  finally have key: "pub (compute_bsk X (map sp_rcv (bs_spends s)) (map op_rcv (bs_outputs s))) =
      sum_list (map sp_cv (bs_spends s)) - sum_list (map op_cv (bs_outputs s)) - vl (uint (bs_value_balance s))" .
  show ?thesis by (intro conjI bal fee key) simp
qed

text \<open>C33: A builder that has been built must not be reused: \<^verbatim>\<open>build\<close> hands over the spends and the outputs
  but leaves the totals, so when another spend is added and the builder is built again, the value
  balance of the second transaction, which has only the new spend, still counts what was spent and
  received by the first.\<close>

theorem rebuilt_tx_counts_first_build:
  assumes "note_parts_ok Y" "length nd = 51" "tx_build Z Y X b = Ok (sighash1, b1)"
    and "tx_add_spend Y X T nd wd alpha_rng rng b1 = Ok (alpha, b2)" "tx_build Z Y X b2 = Ok (sighash2, b3)"
  shows "\<exists>s st. tb_finished b3 = Some st \<and> bs_spends st = [s] \<and> bs_outputs st = [] \<and>
    sp_cv s = cv_derive X (note_data_value nd) (sp_rcv s) \<and>
    bs_value_balance st = tb_total_input b - tb_total_output b + note_data_value nd"
  using assms(4,2,1)
proof (rule tx_add_spend_OkE)
  fix s
  assume "b2 = b1\<lparr>tb_total_input := tb_total_input b1 + note_data_value nd,
      tb_spends := tb_spends b1 @ [s], tb_alphas := tb_alphas b1 @ [alpha]\<rparr>"
    "sp_cv s = cv_derive X (note_data_value nd) (sp_rcv s)"
  with assms(3,5) show ?thesis by (auto simp: tx_build_Ok_iff algebra_simps)
qed

text \<open>From the same 51 bytes of a note, spending and computing the nullifier reconstruct the same
  note seed (or fail alike) at all heights except in the ZIP-212 grace period, where they always
  differ: the one takes the bytes as an old-style commitment trapdoor, the other as a new-style seed.\<close>

theorem spend_and_nullifier_seeds:
  "spend_rseed Y z b = nullifier_rseed Y z b \<longleftrightarrow> z \<noteq> GracePeriod"
  by (cases z; cases "fr_from_repr Y b") (simp_all add: spend_rseed_def nullifier_rseed_def)

section \<open>The bytes of a transaction\<close>

definition spend_wf where
  "spend_wf X s \<longleftrightarrow>
     length (cv_to_bytes X (sp_cv s)) = 32 \<and> length (sp_nullifier s) = 32 \<and> length (sp_rk s) = 32 \<and>
     length (anchor_to_repr X (sp_anchor s)) = 32 \<and> length (sp_zkproof s) = 192"

definition shielded_output_wf where
  "shielded_output_wf Y X x \<longleftrightarrow>
     length (cv_to_bytes X (op_cv x)) = 32 \<and> length (cmu_to_bytes Y (op_cmu x)) = 32 \<and>
     length (op_ephemeral_key x) = 32 \<and> length (op_enc_ciphertext x) = 580 \<and>
     length (op_out_ciphertext x) = 80 \<and> length (op_zkproof x) = 192"

lemma length_entries:
  "spend_wf X s \<Longrightarrow> length (spend_entry X s) = 96" "shielded_output_wf Y X x \<Longrightarrow> length (output_entry Y X x) = 756"
  by (simp_all add: spend_wf_def spend_entry_def shielded_output_wf_def output_entry_def)

lemma concat_chunks_eq:
  assumes "length xs = length ys" "\<forall>x \<in> set xs. length x = k" "\<forall>y \<in> set ys. length y = k"
    and "concat xs @ p = concat ys @ q"
  shows "xs = ys \<and> p = q"
  using assms by (induction xs ys rule: list_induct2) auto

lemma append_eq_same_length: "xs @ p = ys @ q \<Longrightarrow> length xs = length ys \<Longrightarrow> xs = ys \<and> p = q"
  by simp

lemma u32_le_inj: "u32_le a = u32_le b \<Longrightarrow> a = b"
  using u32_of_le_le by metis

lemma u64_le_inj: "u64_le a = u64_le b \<Longrightarrow> a = b"
  using u64_of_le_le by metis

lemma compactsize_prefix_free:
  assumes "write_compactsize (len64 xs) @ p = write_compactsize (len64 ys) @ q"
    "length xs < 2 ^ 64" "length ys < 2 ^ 64"
  shows "length xs = length ys \<and> p = q"
  using compact_size.stream_prefix_free [of "length xs" "length ys" p q] assms
  by (simp add: write_compactsize_eq len64_def unat_of_nat)

definition tx_wf where
  "tx_wf Y X spends outputs sigs binding_sig \<longleftrightarrow>
     spends \<noteq> [] \<and> list_all (spend_wf X) spends \<and> list_all (shielded_output_wf Y X) outputs \<and>
     list_all (\<lambda>g. length g = 64) sigs \<and> length binding_sig = 64 \<and>
     length spends < 2 ^ 64 \<and> length outputs < 2 ^ 64"

lemma serialize_v5_tx_Ok:
  assumes "spends \<noteq> []" "serialize_v5_tx Y X spends outputs bal sigs bsig branch expiry = Ok bs"
  shows "length sigs = length spends"
    and "bs = v5_header branch expiry @ [0, 0] @
       write_compactsize (len64 spends) @ concat (map (spend_entry X) spends) @
       write_compactsize (len64 outputs) @ concat (map (output_entry Y X) outputs) @
       u64_le bal @ anchor_to_repr X (sp_anchor (hd spends)) @ concat (map sp_zkproof spends) @
       concat sigs @ concat (map op_zkproof outputs) @ bsig @ [0]"
  using assms by (cases spends; simp add: serialize_v5_tx_def write_compactsize_def split: if_splits)+

lemma counted_section_eq:
  assumes "write_compactsize (len64 xs) @ concat (map f xs) @ p = write_compactsize (len64 ys) @ concat (map f ys) @ q"
    and "length xs < 2 ^ 64" "length ys < 2 ^ 64" "\<forall>x \<in> set xs \<union> set ys. length (f x) = k"
  shows "length xs = length ys \<and> map f xs = map f ys \<and> p = q"
proof -
  from compactsize_prefix_free [OF assms(1-3)]
  have "length xs = length ys" and c: "concat (map f xs) @ p = concat (map f ys) @ q" by blast+
  then show ?thesis using concat_chunks_eq [OF _ _ _ c, of k] assms(4) by simp
qed

lemma v5_tail_eq:
  assumes "u64_le bal @ anchor @ concat ps @ concat sigs @ concat os @ bsig @ [0] =
       u64_le bal' @ anchor' @ concat ps' @ concat sigs' @ concat os' @ bsig' @ [0]"
    and "length anchor = length anchor'" "length ps = length ps'" "length sigs = length sigs'" "length os = length os'"
    and "\<forall>x \<in> set ps \<union> set ps' \<union> set os \<union> set os'. length x = 192" "\<forall>x \<in> set sigs \<union> set sigs'. length x = 64"
  shows "bal = bal' \<and> anchor = anchor' \<and> ps = ps' \<and> sigs = sigs' \<and> os = os' \<and> bsig = bsig'"
proof -
  have 1: "bal = bal'" "anchor = anchor'"
    and c: "concat ps @ concat sigs @ concat os @ bsig @ [0] = concat ps' @ concat sigs' @ concat os' @ bsig' @ [0]"
    using assms(1,2) by (auto dest: u64_le_inj)
  have 2: "ps = ps' \<and> concat sigs @ concat os @ bsig @ [0] = concat sigs' @ concat os' @ bsig' @ [0]"
    by (rule concat_chunks_eq [OF assms(3) _ _ c, of 192]) (use assms(6) in auto)
  have 3: "sigs = sigs' \<and> concat os @ bsig @ [0] = concat os' @ bsig' @ [0]"
    by (rule concat_chunks_eq [OF assms(4) _ _ conjunct2 [OF 2], of 64]) (use assms(7) in auto)
  have 4: "os = os' \<and> bsig @ [0] = bsig' @ [0]"
    by (rule concat_chunks_eq [OF assms(5) _ _ conjunct2 [OF 3], of 192]) (use assms(6) in auto)
  show ?thesis using 1 2 3 4 by simp
qed

lemma v5_header_eq:
  assumes "v5_header a b @ p = v5_header a' b' @ q"
  shows "a = a' \<and> b = b' \<and> p = q"
  using assms by (auto simp: v5_header_def dest: u32_le_inj)

text \<open>C30: The bytes of a transaction with at least one spend determine the transaction: two well-formed
  transactions with the same serialization have the same branch and expiry height, the same spends
  and outputs (commitments, nullifiers, keys, ciphertexts), value balance, anchor, proofs,
  authorizing signatures and binding signature.\<close>

theorem tx_bytes_determine_tx:
  fixes spends spends' :: "('cv, 'sc, 'rcv) spend_parts list"
    and outputs outputs' :: "('cv, 'cmu, 'rcv) output_parts list"
  assumes "tx_wf Y X spends outputs sigs bsig" "tx_wf Y X spends' outputs' sigs' bsig'"
    and "serialize_v5_tx Y X spends outputs bal sigs bsig branch expiry = Ok bs"
    and "serialize_v5_tx Y X spends' outputs' bal' sigs' bsig' branch' expiry' = Ok bs"
  shows "branch = branch' \<and> expiry = expiry' \<and> map (spend_entry X) spends = map (spend_entry X) spends' \<and>
    map (output_entry Y X) outputs = map (output_entry Y X) outputs' \<and> bal = bal' \<and>
    anchor_to_repr X (sp_anchor (hd spends)) = anchor_to_repr X (sp_anchor (hd spends')) \<and>
    map sp_zkproof spends = map sp_zkproof spends' \<and> sigs = sigs' \<and>
    map op_zkproof outputs = map op_zkproof outputs' \<and> bsig = bsig'"
proof -
  have ne: "spends \<noteq> []" "spends' \<noteq> []" and small: "length spends < 2 ^ 64" "length spends' < 2 ^ 64"
    "length outputs < 2 ^ 64" "length outputs' < 2 ^ 64"
    and sw: "list_all (spend_wf X) spends" "list_all (spend_wf X) spends'"
    and ow: "list_all (shielded_output_wf Y X) outputs" "list_all (shielded_output_wf Y X) outputs'"
    and gw: "list_all (\<lambda>g. length g = 64) sigs" "list_all (\<lambda>g. length g = 64) sigs'"
    using assms(1,2) by (simp_all add: tx_wf_def)
  note ser = serialize_v5_tx_Ok [OF ne(1) assms(3)] serialize_v5_tx_Ok [OF ne(2) assms(4)]
  have hd: "branch = branch'" "expiry = expiry'"
    and body: "write_compactsize (len64 spends) @ concat (map (spend_entry X) spends) @
       write_compactsize (len64 outputs) @ concat (map (output_entry Y X) outputs) @
       u64_le bal @ anchor_to_repr X (sp_anchor (hd spends)) @ concat (map sp_zkproof spends) @
       concat sigs @ concat (map op_zkproof outputs) @ bsig @ [0] =
       write_compactsize (len64 spends') @ concat (map (spend_entry X) spends') @
       write_compactsize (len64 outputs') @ concat (map (output_entry Y X) outputs') @
       u64_le bal' @ anchor_to_repr X (sp_anchor (hd spends')) @ concat (map sp_zkproof spends') @
       concat sigs' @ concat (map op_zkproof outputs') @ bsig' @ [0]"
    using v5_header_eq [OF trans [OF ser(2) [symmetric] ser(4)]] by simp_all
  note ss = counted_section_eq [OF body small(1,2), of 96]
  have "\<forall>x \<in> set spends \<union> set spends'. length (spend_entry X x) = 96"
    using sw by (auto simp: list_all_iff length_entries)
  note ss = ss [OF this]
  note os = counted_section_eq [OF conjunct2 [OF conjunct2 [OF ss]] small(3,4), of 756]
  have "\<forall>x \<in> set outputs \<union> set outputs'. length (output_entry Y X x) = 756"
    using ow by (auto simp: list_all_iff length_entries)
  note os = os [OF this]
  have anchors: "length (anchor_to_repr X (sp_anchor (hd spends))) = length (anchor_to_repr X (sp_anchor (hd spends')))"
    using ne sw by (cases spends; cases spends'; simp add: spend_wf_def)
  have "bal = bal' \<and> anchor_to_repr X (sp_anchor (hd spends)) = anchor_to_repr X (sp_anchor (hd spends')) \<and>
    map sp_zkproof spends = map sp_zkproof spends' \<and> sigs = sigs' \<and>
    map op_zkproof outputs = map op_zkproof outputs' \<and> bsig = bsig'"
    by (rule v5_tail_eq [OF conjunct2 [OF conjunct2 [OF os]] anchors])
       (use ss os sw ow gw ser(1,3) in \<open>auto simp: list_all_iff spend_wf_def shielded_output_wf_def\<close>)
  then show ?thesis using hd ss os by blast
qed

section \<open>Failing calls\<close>

lemma with_guard_failed:
  assumes "has_session down up h x st" "exported (with_guard down up h f) st = (code, y, st')" "code \<noteq> LIB_OK"
  shows "map_of (hmap (table st')) = map_of (hmap (table st))"
proof -
  obtain t where t: "h_get down h st = (Ok x, st\<lparr>table := t\<rparr>)"
    "entries (put h (up x) t) = (entries (table st))(h \<mapsto> Some (up x))"
    using h_get_put [OF assms(1)] by blast
  have here: "entries (table st) h = Some (Some (up x))" using assms(1) by (simp add: has_session_def)
  show ?thesis
    using assms(2,3) t here
    by (cases "f x")
       (auto simp: with_guard_def cbind_def [of "h_get _ _"] cbind_def [of "h_put _ _"] h_put_def cret_def
         exported_def with_error_handler_def fun_upd_idem split: prod.splits)
qed

text \<open>The error code of an exported call and the state it leaves.\<close>

definition effect_of :: "lib_error \<times> 'a option \<times> 'o ffi \<Rightarrow> lib_error \<times> 'o ffi" where
  "effect_of r = (fst r, snd (snd r))"

lemma effect_of_failed:
  assumes "has_session down up h x st" "(code, st') = effect_of (exported (with_guard down up h f) st)"
    and "code \<noteq> LIB_OK"
  shows "map_of (hmap (table st')) = map_of (hmap (table st))"
  using with_guard_failed [OF assms(1) _ assms(3), of f "fst (snd (exported (with_guard down up h f) st))"] assms(2)
  by (simp add: effect_of_def)

text \<open>A call of the transaction builder that fails, for whatever reason, leaves every object of the
  handle table as it was: a spend or an output is added entirely or not at all, and a builder that
  cannot be built is not consumed.\<close>

theorem failed_builder_calls_change_nothing:
  assumes "has_session down up h b st"
    and "(code, st') = effect_of (frozt_tx_builder_add_spend Y X T down up alpha_rng rng h (Some nd) (Some wd) (Some ()) st) \<or>
      (code, st') = effect_of (frozt_tx_builder_add_output Y X down up rng h (Some ad) amount st) \<or>
      (code, st') = effect_of (frozt_tx_builder_build Z Y X down up h (Some ()) st)"
    and "code \<noteq> LIB_OK"
  shows "map_of (hmap (table st')) = map_of (hmap (table st))"
proof -
  have bad: "effect_of (exported (cret (Err e)) st) = (e, st)" for e
    by (simp add: effect_of_def exported_def cret_def with_error_handler_def)
  show ?thesis
    using assms(2)
    by (cases "length (as_slice nd) = 51")
       (auto simp: frozt_tx_builder_add_spend_def frozt_tx_builder_add_output_def
         frozt_tx_builder_build_def exported_nonnull bad simp del: nonnull_simps
         dest: effect_of_failed [OF assms(1) _ assms(3)])
qed

section \<open>Concrete instances\<close>

text \<open>
  A concrete transaction crate: commitments are rationals with 100 as the value generator and 1 as
  the randomness generator, random trapdoors count up, proofs and ciphertexts are constant.
\<close>

definition demo_sapling_tx ::
  "(u8, bytes, u8, u8 \<times> u64 \<times> u8 rseed, u8, bytes, rat, rat, u8, u8, unit, unit, nat,
    (u8 option \<times> u8 option \<times> u8 option list) \<times> u8 list \<times> (u8 option \<times> u8 option \<times> u8 option list) option,
    rat, rat) sapling_tx" where
  "demo_sapling_tx =
     \<lparr>fvk_ak = take 32, ak_randomize = (\<lambda>ak a. replicate 32 a), fr_random = (\<lambda>r. (word_of_nat r, r + 1)),
      rand_bytes32 = (\<lambda>r. (replicate 32 (word_of_nat r), r + 1)), rcv_random = (\<lambda>r. (of_nat r, r + 1)),
      cv_derive = (\<lambda>v r. 100 * of_int (uint v) + r), cv_to_bytes = (\<lambda>c. replicate 32 0),
      note_cmu = fst, note_diversifier = (\<lambda>n. fst n # replicate 10 0),
      wit_path = (\<lambda>w. Some 7), path_position = ucast, path_root = (\<lambda>p c. replicate 32 c),
      anchor_from_repr = (\<lambda>b. Some (hd b)), anchor_to_repr = (\<lambda>s. replicate 32 s),
      prepare_spend_circuit = (\<lambda>pgk d rs v a rcv anchor path. Some ()),
      SPEND_PARAMS = Some (\<lambda>c r. (replicate 192 1, r)),
      note_encryption = (\<lambda>ovk n memo r. ((), r)), ne_epk_bytes = (\<lambda>e. replicate 32 2),
      encrypt_note_plaintext = (\<lambda>e. replicate 580 3),
      encrypt_outgoing_plaintext = (\<lambda>e cv cmu r. (replicate 80 4, r)),
      OUTPUT_PARAMS = Some (\<lambda>ne a n v rcv r. (replicate 192 5, r)),
      trapdoor_sum = sum_list, trapdoor_minus = (-), into_bsk = id,
      bsk_sign = (\<lambda>k m r. (replicate 64 6, r)),
      unified_decode = (\<lambda>s. None)\<rparr>"

definition demo_hash :: "(nat, rat, unit) zcash" where
  "demo_hash =
     \<lparr>blake2b = (\<lambda>p d. take 32 (d @ p)), fr_random_repr = (\<lambda>r. (replicate 32 0, r)),
      fill_bytes = (\<lambda>n r. (replicate n 0, r)), xsk_master = (\<lambda>s. ()), xsk_from_path = (\<lambda>x p. ()),
      xsk_ask = (\<lambda>x. []), xsk_nsk = (\<lambda>x. []), xsk_ovk = (\<lambda>x. []), xsk_dfvk = (\<lambda>x. []),
      scalar_deserialize = (\<lambda>b. None)\<rparr>"

lemma demo_tx_ok:
  "note_parts_ok demo_sapling" "commitments_ok demo_sapling_tx (\<lambda>v. 100 * of_int v) (\<lambda>r. r) (\<lambda>t. t) (\<lambda>k. k)"
  by (simp_all add: note_parts_ok_def commitments_ok_def demo_sapling_def demo_sapling_tx_def algebra_simps)

text \<open>A note of a value, a witness, an address; the builder after one spend and one output.\<close>

definition demo_note :: "u64 \<Rightarrow> bytes" where
  "demo_note v = 9 # replicate 10 0 @ u64_le v @ replicate 32 0"

definition demo_witness :: bytes where
  "demo_witness = [1, 7] @ replicate 31 0 @ [0, 0, 0, 0]"

definition demo_address :: bytes where
  "demo_address = str_bytes ''zs'' @ replicate 43 8"

lemma demo_sapling_simps:
  "fr_from_repr demo_sapling b = (if length b = 32 \<and> tl b = replicate 31 0 then Some (hd b) else None)"
  "dfvk_from_bytes demo_sapling b = (if length b = 128 then Some b else None)"
  "fvk_payment_address demo_sapling f d = Some (hd d)"
  "bech32_decode demo_sapling b = Some (take 2 b, drop 2 b)"
  "addr_from_bytes demo_sapling b = (if b = replicate 43 (hd b) then Some (hd b) else None)"
  by (simp_all add: demo_sapling_def)

lemma demo_sapling_tx_simps:
  "wit_path demo_sapling_tx w = Some 7" "anchor_from_repr demo_sapling_tx b = Some (hd b)"
  "prepare_spend_circuit demo_sapling_tx g d r v a t c q = Some ()"
  "\<exists>f. SPEND_PARAMS demo_sapling_tx = Some f" "\<exists>f. OUTPUT_PARAMS demo_sapling_tx = Some f"
  by (simp_all add: demo_sapling_tx_def)

lemma demo_witness_reads: "deserialize_witness demo_merkle demo_witness = Ok ((Some 7, None, []), [], None)"
  by code_simp

lemma demo_address_utf8: "from_utf8 demo_address = Some demo_address"
  by code_simp

lemma demo_new: "\<exists>b. build_tx_builder demo32 demo_sapling demo_sapling_tx [3] (1 # replicate 95 0) 2800000 = Ok b"
  by (simp add: build_tx_builder_def demo_dfvk slice_def to_array_def demo_sapling_simps Let_def)

lemma demo_spend:
  "\<exists>a b'. tx_add_spend demo_sapling demo_sapling_tx demo_merkle (demo_note v) demo_witness r1 r2 b = Ok (a, b')"
proof -
  have "length (demo_note v) = 51" by (simp add: demo_note_def)
  then show ?thesis
    using demo_sapling_tx_simps(4)
    by (cases "tb_zip212 b")
       (auto simp: tx_add_spend_eq spend_rseed_def demo_note_def demo_sapling_simps demo_witness_reads get_spend_params_def
         demo_sapling_tx_simps(1-3) make_spend_def Let_def split: prod.splits)
qed

lemma demo_output:
  "\<exists>b'. tx_add_output demo_sapling demo_sapling_tx demo_address v r b = Ok ((), b')"
proof -
  have "parse_payment_address demo_sapling demo_sapling_tx demo_address = Ok 8"
    by (simp add: parse_payment_address_def starts_with_def demo_address_def str_bytes_def demo_sapling_simps
        slice_def to_array_def)
  then show ?thesis
    using demo_sapling_tx_simps(5)
    by (auto simp: tx_add_output_def demo_address_utf8 get_output_params_def make_output_def Let_def
        split: prod.splits zip212_enforcement.splits)
qed

lemma demo_history:
  "\<exists>b. tx_history demo32 demo_sapling demo_sapling_tx demo_merkle b [5000] [4000]"
proof -
  note new = demo_new
  then obtain b0 where "tx_history demo32 demo_sapling demo_sapling_tx demo_merkle b0 [] []"
    by (blast intro: new_builder)
  moreover obtain a b1 where "tx_add_spend demo_sapling demo_sapling_tx demo_merkle (demo_note 5000) demo_witness 1 11 b0
      = Ok (a, b1)" using demo_spend by blast
  moreover have "length (demo_note 5000) = 51" "note_data_value (demo_note 5000) = 5000"
    by (simp_all add: demo_note_def note_data_value_def)
  ultimately have "tx_history demo32 demo_sapling demo_sapling_tx demo_merkle b1 ([] @ [5000]) []"
    using add_spend by metis
  moreover obtain b2 where "tx_add_output demo_sapling demo_sapling_tx demo_address 4000 30 b1 = Ok ((), b2)"
    using demo_output by blast
  ultimately have "tx_history demo32 demo_sapling demo_sapling_tx demo_merkle b2 ([] @ [5000]) ([] @ [4000])"
    by (rule add_output)
  then show ?thesis by auto
qed

theorem built_tx_balanced_witness:
  "\<exists>b sighash b' s. tx_history demo32 demo_sapling demo_sapling_tx demo_merkle b [5000] [4000] \<and>
     tx_build demo_hash demo_sapling demo_sapling_tx b = Ok (sighash, b') \<and> tb_finished b' = Some s \<and>
     uint (bs_value_balance s) = 1000 \<and>
     compute_bsk demo_sapling_tx (map sp_rcv (bs_spends s)) (map op_rcv (bs_outputs s)) =
       sum_list (map sp_cv (bs_spends s)) - sum_list (map op_cv (bs_outputs s)) - 100000"
proof -
  obtain b where b: "tx_history demo32 demo_sapling demo_sapling_tx demo_merkle b [5000] [4000]"
    using demo_history by blast
  note h = tx_history_totals [OF b demo_tx_ok(1)]
  then have "tb_spends b \<noteq> []" by auto
  with h obtain sighash b' s where build: "tx_build demo_hash demo_sapling demo_sapling_tx b = Ok (sighash, b')"
    "tb_finished b' = Some s" by (auto simp: tx_build_Ok_iff MAX_FEE_ZATOSHIS_def)
  note bal = built_tx_balanced [OF b demo_tx_ok _ _ build]
  from bal have "uint (bs_value_balance s) = 1000" by simp
  moreover from this have "bs_value_balance s = 1000" by (simp add: word_uint_eq_iff)
  ultimately show ?thesis using bal b build by (intro exI [of _ b] exI [of _ sighash] exI [of _ b'] exI [of _ s]) simp
qed

theorem rebuilt_tx_counts_first_build_witness:
  "\<exists>(b :: (u8, bytes, bytes, rat, u8, u8, rat) tx_builder) sh1 b1 a b2 sh2 b3 s st. tx_build demo_hash demo_sapling demo_sapling_tx b = Ok (sh1, b1) \<and>
     tx_add_spend demo_sapling demo_sapling_tx demo_merkle (demo_note 7000) demo_witness 2 12 b1 = Ok (a, b2) \<and>
     tx_build demo_hash demo_sapling demo_sapling_tx b2 = Ok (sh2, b3) \<and>
     tb_finished b3 = Some st \<and> bs_spends st = [s] \<and> bs_outputs st = [] \<and> bs_value_balance st = 8000"
proof -
  obtain b where b: "tx_history demo32 demo_sapling demo_sapling_tx demo_merkle b [5000] [4000]"
    using demo_history by blast
  note h = tx_history_totals [OF b demo_tx_ok(1)]
  then have ne: "tb_spends b \<noteq> []" by auto
  with h obtain sh1 b1 where b1: "tx_build demo_hash demo_sapling demo_sapling_tx b = Ok (sh1, b1)"
    by (auto simp: tx_build_Ok_iff MAX_FEE_ZATOSHIS_def)
  obtain a b2 where b2: "tx_add_spend demo_sapling demo_sapling_tx demo_merkle (demo_note 7000) demo_witness 2 12 b1
      = Ok (a, b2)" using demo_spend by blast
  have v: "length (demo_note 7000) = 51" "note_data_value (demo_note 7000) = 7000"
    by (simp_all add: demo_note_def note_data_value_def)
  obtain s where s: "b2 = b1\<lparr>tb_total_input := tb_total_input b1 + 7000,
      tb_spends := tb_spends b1 @ [s], tb_alphas := tb_alphas b1 @ [a]\<rparr>"
    using tx_add_spend_OkE [OF b2 v(1) demo_tx_ok(1)] v(2) by metis
  obtain sh2 b3 where b3: "tx_build demo_hash demo_sapling demo_sapling_tx b2 = Ok (sh2, b3)"
    using h b1 by (auto simp: s tx_build_Ok_iff MAX_FEE_ZATOSHIS_def)
  obtain s' st where "tb_finished b3 = Some st" "bs_spends st = [s']" "bs_outputs st = []" "bs_value_balance st = 8000"
    using rebuilt_tx_counts_first_build [OF demo_tx_ok(1) v(1) b1 b2 b3] h v(2) by auto
  with b1 b2 b3 show ?thesis by blast
qed

text \<open>Two transactions that differ in the value balance only have different bytes.\<close>

definition demo_spend_parts :: "(rat, u8, rat) spend_parts" where
  "demo_spend_parts = \<lparr>sp_cv = 1, sp_anchor = 2, sp_nullifier = replicate 32 3, sp_rk = replicate 32 4,
     sp_zkproof = replicate 192 5, sp_rcv = 1\<rparr>"

definition demo_outputs :: "(rat, u8, rat) output_parts list" where "demo_outputs = []"

theorem tx_bytes_determine_tx_witness:
  "serialize_v5_tx demo_sapling demo_sapling_tx [demo_spend_parts] demo_outputs 1000 [replicate 64 0] (replicate 64 1) 7 8 \<noteq>
   serialize_v5_tx demo_sapling demo_sapling_tx [demo_spend_parts] demo_outputs 2000 [replicate 64 0] (replicate 64 1) 7 8"
  (is "?a \<noteq> ?b")
proof
  have wf: "tx_wf demo_sapling demo_sapling_tx [demo_spend_parts] demo_outputs [replicate 64 0] (replicate 64 1)"
    by (simp add: tx_wf_def spend_wf_def demo_spend_parts_def demo_outputs_def demo_sapling_tx_def)
  obtain bs where bs: "?a = Ok bs" by (simp add: serialize_v5_tx_def)
  assume "?a = ?b"
  with bs have "?b = Ok bs" by simp
  from tx_bytes_determine_tx [OF wf wf bs this] show False by simp
qed

definition demo_empty_builder :: "(u8, bytes, bytes, rat, u8, u8, rat) tx_builder" where
  "demo_empty_builder = \<lparr>tb_fvk = [], tb_pgk = ([], 0), tb_ovk = [], tb_target_height = 0,
          tb_zip212 = On, tb_spends = [], tb_outputs = [], tb_alphas = [], tb_total_input = 0, tb_total_output = 0,
          tb_finished = None\<rparr>"

theorem failed_builder_calls_change_nothing_witness:
  "\<exists>code st'. (code, st') = effect_of (frozt_tx_builder_build demo_hash demo_sapling demo_sapling_tx Some id 1 (Some ())
       \<lparr>table = \<lparr>last_handle = 3, hmap = [(1, Some demo_empty_builder)]\<rparr>, blamed = 0\<rparr>) \<and> code = LIB_SAPLING_ERROR \<and>
     map_of (hmap (table st')) = [1 \<mapsto> Some demo_empty_builder]"
proof -
  let ?st = "\<lparr>table = \<lparr>last_handle = 3, hmap = [(1, Some demo_empty_builder)]\<rparr>, blamed = 0\<rparr>"
  have s: "has_session Some id 1 demo_empty_builder ?st" by (simp add: has_session_def table_wf_def MAX_HANDLES_def)
  obtain code st' where e: "(code, st') =
      effect_of (frozt_tx_builder_build demo_hash demo_sapling demo_sapling_tx Some id 1 (Some ()) ?st)"
    by (metis surj_pair)
  have code: "code = LIB_SAPLING_ERROR"
    using e by (simp add: effect_of_def frozt_tx_builder_build_def exported_def with_guard_def h_get_def lift_handle_def
        handle_get_def cbind_def cret_def h_put_def tx_build_def with_error_handler_def demo_empty_builder_def)
  then have "map_of (hmap (table st')) = [1 \<mapsto> Some demo_empty_builder]"
    using failed_builder_calls_change_nothing [OF s disjI2 [OF disjI2 [OF e]]] by simp
  with e code show ?thesis by blast
qed

end
