(* ===== verification/Shielding_Tx.thy ===== *)
theory Shielding_Tx
  imports Zcash_Tx_Properties
begin

text \<open>
  The builder of shielding transactions (\<^verbatim>\<open>frozt-lib/src/shielding_tx.rs\<close>), which move transparent
  funds into the shielded pool: transparent inputs and outputs, their signature hashes and scripts,
  the builder and its exported functions. The shielded outputs, the header and Sapling hashes, the
  binding signature key and the library arguments are those of \<^verbatim>\<open>tx.rs\<close>; Base58Check decoding
  (\<^verbatim>\<open>bs58\<close>) is the argument \<open>bs58\<close>.
\<close>

definition SEQUENCE :: u32 where "SEQUENCE = 0xFFFFFFFE"

record transparent_input =
  ti_prev_txid :: bytes
  ti_vout :: u32
  ti_value :: u64
  ti_script_pubkey :: bytes

record transparent_output =
  to_value :: u64
  to_script_pubkey :: bytes

record ('cv, 'cmu, 'rcv) shielding_build_state =
  sb_inputs :: "transparent_input list"
  sb_transparent_outputs :: "transparent_output list"
  sb_sapling_outputs :: "('cv, 'cmu, 'rcv) output_parts list"
  sb_value_balance :: u64
  sb_consensus_branch_id :: u32
  sb_expiry_height :: u32
  sb_txid_sighash :: bytes

record ('cv, 'cmu, 'rcv) shielding_tx_builder =
  sh_ovk :: bytes
  sh_target_height :: u32
  sh_zip212 :: zip212_enforcement
  sh_inputs :: "transparent_input list"
  sh_transparent_outputs :: "transparent_output list"
  sh_sapling_outputs :: "('cv, 'cmu, 'rcv) output_parts list"
  sh_total_input :: u64
  sh_total_sapling_output :: u64
  sh_total_transparent_output :: u64
  sh_finished :: "('cv, 'cmu, 'rcv) shielding_build_state option"

section \<open>Signature hashes\<close>

definition hash_prevouts where
  "hash_prevouts Z inputs =
     blake2b Z (str_bytes ''ZTxIdPrevoutHash'')
       (concat (map (\<lambda>i. ti_prev_txid i @ u32_le (ti_vout i)) inputs))"

definition hash_amounts where
  "hash_amounts Z inputs =
     blake2b Z (str_bytes ''ZTxIdAmountsHash'') (concat (map (\<lambda>i. u64_le (ti_value i)) inputs))"

definition hash_script_pubkeys where
  "hash_script_pubkeys Z inputs =
     blake2b Z (str_bytes ''ZTxIdScriptsHash'')
       (concat (map (\<lambda>i. write_compactsize_raw (len64 (ti_script_pubkey i)) @ ti_script_pubkey i) inputs))"

definition hash_sequences where
  "hash_sequences Z inputs =
     blake2b Z (str_bytes ''ZTxIdSequencHash'') (concat (map (\<lambda>_. u32_le SEQUENCE) inputs))"

definition hash_transparent_outputs where
  "hash_transparent_outputs Z t_outputs =
     blake2b Z (str_bytes ''ZTxIdTOutputHash'')
       (concat (map (\<lambda>x. u64_le (to_value x) @ write_compactsize_raw (len64 (to_script_pubkey x)) @
                         to_script_pubkey x) t_outputs))"

definition hash_transparent_txid_digest where
  "hash_transparent_txid_digest Z inputs t_outputs =
     blake2b Z (str_bytes ''ZTxIdTranspaHash'')
       (hash_prevouts Z inputs @ hash_amounts Z inputs @ hash_script_pubkeys Z inputs @
        hash_sequences Z inputs @ hash_transparent_outputs Z t_outputs)"

definition hash_transparent_sig_digest where
  "hash_transparent_sig_digest Z inputs t_outputs idx =
     (if idx < length inputs then
        (let inp = inputs ! idx in
         Ok (blake2b Z (str_bytes ''ZTxIdTranspaHash'')
              ([0x01] @ hash_prevouts Z inputs @ hash_amounts Z inputs @ hash_script_pubkeys Z inputs @
               hash_sequences Z inputs @ hash_transparent_outputs Z t_outputs @
               ti_prev_txid inp @ u32_le (ti_vout inp) @ u64_le (ti_value inp) @
               write_compactsize_raw (len64 (ti_script_pubkey inp)) @ ti_script_pubkey inp @ u32_le SEQUENCE)))
      else Panic)"

definition compute_shielding_sighash where
  "compute_shielding_sighash Z Y X inputs t_outputs sapling_outputs value_balance consensus_branch_id expiry_height
      input_index =
     rbind (case input_index of
              None \<Rightarrow> Ok (hash_transparent_txid_digest Z inputs t_outputs)
            | Some idx \<Rightarrow> hash_transparent_sig_digest Z inputs t_outputs idx) (\<lambda>transparent_digest.
       Ok (blake2b Z (str_bytes ''ZcashTxHash_'' @ u32_le consensus_branch_id)
            (hash_header Z consensus_branch_id expiry_height @ transparent_digest @
             hash_sapling Z Y X ([] :: ('cv, 'sc, unit) spend_parts list) sapling_outputs value_balance @
             hash_empty_orchard Z)))"

section \<open>Addresses and scripts\<close>

definition parse_transparent_address :: "(bytes \<Rightarrow> bytes option) \<Rightarrow> bytes \<Rightarrow> bytes res" where
  "parse_transparent_address bs58 addr_str =
     rbind (ok_or (bs58 addr_str) LIB_ADDRESS_ERROR) (\<lambda>decoded.
       if length decoded \<noteq> 22 then Err LIB_ADDRESS_ERROR
       else
         rbind (index decoded 0) (\<lambda>b0. rbind (index decoded 1) (\<lambda>b1.
           if b0 \<noteq> 0x1C \<or> b1 \<noteq> 0xB8 then Err LIB_ADDRESS_ERROR
           else slice decoded 2 22)))"

definition build_p2pkh_script_pubkey :: "bytes \<Rightarrow> bytes" where
  "build_p2pkh_script_pubkey pubkey_hash = [0x76, 0xa9, 0x14] @ pubkey_hash @ [0x88, 0xac]"

definition build_p2pkh_script_sig :: "bytes \<Rightarrow> bytes \<Rightarrow> bytes" where
  "build_p2pkh_script_sig der_sig pubkey =
     [word_of_nat (length der_sig + 1)] @ der_sig @ [0x01] @ [word_of_nat (length pubkey)] @ pubkey"

section \<open>Serialization\<close>

definition input_entry :: "transparent_input \<times> bytes \<Rightarrow> bytes" where
  "input_entry p = (case p of (inp, script_sig) \<Rightarrow>
     ti_prev_txid inp @ u32_le (ti_vout inp) @ write_compactsize (len64 script_sig) @ script_sig @ u32_le SEQUENCE)"

definition transparent_output_entry :: "transparent_output \<Rightarrow> bytes" where
  "transparent_output_entry x =
     u64_le (to_value x) @ write_compactsize (len64 (to_script_pubkey x)) @ to_script_pubkey x"

definition serialize_shielding_v5_tx where
  "serialize_shielding_v5_tx Y X inputs script_sigs t_outputs sapling_outputs value_balance binding_sig
      consensus_branch_id expiry_height =
     (Ok (v5_header consensus_branch_id expiry_height @
          write_compactsize (len64 inputs) @ concat (map input_entry (zip inputs script_sigs)) @
          write_compactsize (len64 t_outputs) @ concat (map transparent_output_entry t_outputs) @
          write_compactsize 0 @
          write_compactsize (len64 sapling_outputs) @ concat (map (output_entry Y X) sapling_outputs) @
          u64_le value_balance @
          concat (map op_zkproof sapling_outputs) @
          binding_sig @
          write_compactsize 0) :: bytes res)"

definition parse_transparent_input :: "bytes \<Rightarrow> transparent_input res" where
  "parse_transparent_input data =
     (if length data < 46 then Err LIB_INVALID_BUFFER_SIZE
      else
        rbind (slice data 0 32) (\<lambda>s. rbind (to_array 32 s) (\<lambda>prev_txid.
        rbind (slice data 32 36) (\<lambda>s. rbind (to_array 4 s) (\<lambda>vout.
        rbind (slice data 36 44) (\<lambda>s. rbind (to_array 8 s) (\<lambda>val.
        rbind (slice data 44 46) (\<lambda>s. rbind (to_array 2 s) (\<lambda>l.
        let spk_len = unat (u16_of_le l) in
        if length data < 46 + spk_len then Err LIB_INVALID_BUFFER_SIZE
        else
          rbind (slice data 46 (46 + spk_len)) (\<lambda>script_pubkey.
            Ok \<lparr>ti_prev_txid = prev_txid, ti_vout = u32_of_le vout, ti_value = u64_of_le val,
                ti_script_pubkey = script_pubkey\<rparr>))))))))))"

section \<open>The builder\<close>

definition checked_add :: "u64 \<Rightarrow> u64 \<Rightarrow> u64 option" where
  "checked_add a b = (if unat a + unat b < 2 ^ 64 then Some (a + b) else None)"

definition shielding_new :: "bytes \<Rightarrow> u32 \<Rightarrow> ('cv, 'cmu, 'rcv) shielding_tx_builder res" where
  "shielding_new extras_data target_height =
     (if length extras_data < 96 then Err LIB_INVALID_BUFFER_SIZE
      else
        rbind (slice extras_data 32 64) (\<lambda>ovk.
          Ok \<lparr>sh_ovk = ovk, sh_target_height = target_height,
              sh_zip212 = zip212_for_height (ucast target_height), sh_inputs = [], sh_transparent_outputs = [],
              sh_sapling_outputs = [], sh_total_input = 0, sh_total_sapling_output = 0,
              sh_total_transparent_output = 0, sh_finished = None\<rparr>))"

definition shielding_add_input where
  "shielding_add_input inp b =
     rbind (ok_or (checked_add (sh_total_input b) (ti_value inp)) LIB_SAPLING_ERROR) (\<lambda>total.
       Ok ((), b\<lparr>sh_total_input := total, sh_inputs := sh_inputs b @ [inp]\<rparr>))"

definition shielding_add_output where
  "shielding_add_output Y X to output_params amount rng b =
     rbind (make_output Y X (Some (sh_ovk b)) to amount (replicate 512 0) (sh_zip212 b) output_params rng) (\<lambda>out.
     rbind (ok_or (checked_add (sh_total_sapling_output b) amount) LIB_SAPLING_ERROR) (\<lambda>total.
       Ok ((), b\<lparr>sh_total_sapling_output := total, sh_sapling_outputs := sh_sapling_outputs b @ [out]\<rparr>)))"

definition shielding_add_transparent_output where
  "shielding_add_transparent_output script_pubkey amount b =
     rbind (ok_or (checked_add (sh_total_transparent_output b) amount) LIB_SAPLING_ERROR) (\<lambda>total.
       Ok ((), b\<lparr>sh_total_transparent_output := total,
                 sh_transparent_outputs :=
                   sh_transparent_outputs b @ [\<lparr>to_value = amount, to_script_pubkey = script_pubkey\<rparr>]\<rparr>))"

text \<open>The negation of a \<^verbatim>\<open>u64 as i64\<close> is the negation of the word.\<close>

definition shielding_build where
  "shielding_build Z Y X b =
     (if sh_inputs b = [] \<or> sh_sapling_outputs b = [] then Err LIB_SAPLING_ERROR
      else
        rbind (ok_or (checked_add (sh_total_sapling_output b) (sh_total_transparent_output b)) LIB_SAPLING_ERROR)
          (\<lambda>total_out.
        if sh_total_input b \<le> total_out then Err LIB_SAPLING_ERROR
        else
          (let value_balance = - sh_total_sapling_output b;
               branch = branch_id_for_height (sh_target_height b);
               expiry = sh_target_height b + 40;
               n = length (sh_inputs b);
               sighash = compute_shielding_sighash Z Y X (sh_inputs b) (sh_transparent_outputs b)
                           (sh_sapling_outputs b) value_balance branch expiry
           in rbind (rmap (\<lambda>i. sighash (Some i)) [0..<n]) (\<lambda>per_input_sighashes.
              rbind (sighash None) (\<lambda>txid_sighash.
                Ok ((concat per_input_sighashes, word_of_nat n :: u32),
                    b\<lparr>sh_inputs := [], sh_transparent_outputs := [], sh_sapling_outputs := [],
                      sh_finished := Some \<lparr>sb_inputs = sh_inputs b,
                        sb_transparent_outputs = sh_transparent_outputs b,
                        sb_sapling_outputs = sh_sapling_outputs b, sb_value_balance = value_balance,
                        sb_consensus_branch_id = branch, sb_expiry_height = expiry,
                        sb_txid_sighash = txid_sighash\<rparr>\<rparr>))))))"

definition read_der_sig :: "bytes \<Rightarrow> nat \<Rightarrow> (bytes \<times> nat) res" where
  "read_der_sig sig_bytes offset =
     (if offset + 2 > length sig_bytes then Err LIB_INVALID_BUFFER_SIZE
      else
        rbind (slice sig_bytes offset (offset + 2)) (\<lambda>s. rbind (to_array 2 s) (\<lambda>l.
        let sig_len = unat (u16_of_le l); offset = offset + 2 in
        if offset + sig_len > length sig_bytes then Err LIB_INVALID_BUFFER_SIZE
        else rbind (slice sig_bytes offset (offset + sig_len)) (\<lambda>b. Ok (b, offset + sig_len)))))"

definition shielding_complete where
  "shielding_complete Y X sig_bytes pk_bytes rng b =
     rbind (ok_or (sh_finished b) LIB_SAPLING_ERROR) (\<lambda>state.
     let n = length (sb_inputs state) in
     if length pk_bytes \<noteq> n * 33 then Err LIB_INVALID_BUFFER_SIZE
     else
       rbind (read_many n read_der_sig sig_bytes 0) (\<lambda>(sigs, offset).
       rbind (rmap (\<lambda>i. rbind (slice pk_bytes (i * 33) ((i + 1) * 33)) (\<lambda>pk.
                     if i < length sigs then Ok (build_p2pkh_script_sig (sigs ! i) pk) else Panic)) [0..<n])
         (\<lambda>script_sigs.
       let bsk = compute_bsk X [] (map op_rcv (sb_sapling_outputs state));
           binding_sig = fst (bsk_sign X bsk (sb_txid_sighash state) rng)
       in serialize_shielding_v5_tx Y X (sb_inputs state) script_sigs (sb_transparent_outputs state)
            (sb_sapling_outputs state) (sb_value_balance state) binding_sig
            (sb_consensus_branch_id state) (sb_expiry_height state))))"

section \<open>Exported functions\<close>

definition frozt_shielding_tx_builder_new where
  "frozt_shielding_tx_builder_new up_sh (pkp_bytes :: go_slice option) extras_bytes target_height
      (out_handle :: unit option) =
     exported (cbind (nonnull pkp_bytes) (\<lambda>_. cbind (nonnull extras_bytes) (\<lambda>extras.
       cbind (nonnull out_handle) (\<lambda>_.
       cbind (cret (shielding_new (as_slice extras) target_height)) (\<lambda>b. h_allocate (up_sh b))))))"

definition frozt_shielding_tx_builder_add_input where
  "frozt_shielding_tx_builder_add_input down_sh up_sh builder_handle input_data =
     exported (cbind (nonnull input_data) (\<lambda>data.
       cbind (cret (parse_transparent_input (as_slice data))) (\<lambda>inp.
         with_guard down_sh up_sh builder_handle (shielding_add_input inp))))"

definition frozt_shielding_tx_builder_add_output where
  "frozt_shielding_tx_builder_add_output Y X down_sh up_sh rng builder_handle address amount =
     exported (cbind (nonnull address) (\<lambda>addr_slice.
       cbind (cret (rbind (ok_or (from_utf8 (as_slice addr_slice)) LIB_SAPLING_ERROR) (\<lambda>addr_str.
                    rbind (parse_payment_address Y X addr_str) (\<lambda>to.
                    rbind (get_output_params X) (\<lambda>params. Ok (to, params)))))) (\<lambda>(to, params).
         with_guard down_sh up_sh builder_handle (shielding_add_output Y X to params amount rng))))"

definition frozt_shielding_tx_builder_add_transparent_output where
  "frozt_shielding_tx_builder_add_transparent_output bs58 down_sh up_sh builder_handle address amount =
     exported (cbind (nonnull address) (\<lambda>addr_slice.
       cbind (cret (rbind (ok_or (from_utf8 (as_slice addr_slice)) LIB_ADDRESS_ERROR) (\<lambda>addr_str.
                      parse_transparent_address bs58 addr_str))) (\<lambda>pubkey_hash.
         with_guard down_sh up_sh builder_handle
           (shielding_add_transparent_output (build_p2pkh_script_pubkey pubkey_hash) amount))))"

definition frozt_shielding_tx_builder_build where
  "frozt_shielding_tx_builder_build Z Y X down_sh up_sh builder_handle
      (out_sighashes :: unit option) (out_count :: unit option) =
     exported (cbind (nonnull out_sighashes) (\<lambda>_. cbind (nonnull out_count) (\<lambda>_.
       with_guard down_sh up_sh builder_handle (shielding_build Z Y X))))"

definition frozt_shielding_tx_builder_complete where
  "frozt_shielding_tx_builder_complete Y X down_sh rng builder_handle ecdsa_sigs pubkeys
      (out_raw_tx :: unit option) =
     exported (cbind (nonnull ecdsa_sigs) (\<lambda>sig_data. cbind (nonnull pubkeys) (\<lambda>pk_data.
       cbind (nonnull out_raw_tx) (\<lambda>_.
       cbind (h_take down_sh builder_handle) (\<lambda>b.
         cret (shielding_complete Y X (as_slice sig_data) (as_slice pk_data) rng b))))))"

end
