(* ===== verification/Shielding_Properties.thy ===== *)
theory Shielding_Properties
  imports Shielding_Tx
begin

text \<open>
  Correctness of shielding transactions: the totals of a builder are the exact sums of what was
  added, the built transaction pays a positive fee and its value balance and binding signature key
  belong to its outputs, and completing it gives every input the script of its own signature and
  public key.
\<close>

section \<open>Histories\<close>

inductive shielding_history for Y X where
  new_shielding: "shielding_new extras target_height = Ok b \<Longrightarrow> shielding_history Y X b [] [] []"
| add_input: "shielding_history Y X b ins outs touts \<Longrightarrow> shielding_add_input inp b = Ok ((), b') \<Longrightarrow>
    shielding_history Y X b' (ins @ [ti_value inp]) outs touts"
| add_sapling: "shielding_history Y X b ins outs touts \<Longrightarrow> get_output_params X = Ok params \<Longrightarrow>
    shielding_add_output Y X to params amount rng b = Ok ((), b') \<Longrightarrow>
    shielding_history Y X b' ins (outs @ [amount]) touts"
| add_transparent: "shielding_history Y X b ins outs touts \<Longrightarrow>
    shielding_add_transparent_output script amount b = Ok ((), b') \<Longrightarrow>
    shielding_history Y X b' ins outs (touts @ [amount])"

lemma sint_neg_le:
  assumes "uint (w :: u64) \<le> 2 ^ 63"
  shows "sint (- w) = - uint w"
proof -
  have "- w = word_of_int (- uint w)" by (simp add: wi_hom_neg [symmetric])
  then have "sint (- w) = signed_take_bit 63 (- uint w)" by (simp only: signed_of_int) simp
  also have "\<dots> = - uint w"
    using assms by (intro signed_take_bit_int_eq_self order.strict_trans1 [of "- uint w" 0]) simp_all
  finally show ?thesis .
qed

lemma checked_add_Some: "checked_add a b = Some c \<longleftrightarrow> uint c = uint a + uint b"
proof -
  have "checked_add a b = Some c \<longleftrightarrow> unat c = unat a + unat b"
  proof (cases "unat a + unat b < 2 ^ 64")
    case True
    then have "unat (a + b) = unat a + unat b" by (simp add: unat_word_ariths)
    with True show ?thesis by (auto simp: checked_add_def word_unat_eq_iff)
  next
    case False
    then show ?thesis using unat_bounds(3) [of c] by (simp add: checked_add_def)
  qed
  also have "\<dots> \<longleftrightarrow> int (unat c) = int (unat a) + int (unat b)" by linarith
  finally show ?thesis by (simp only: uint_nat)
qed

text \<open>The invariant: exact totals and matching commitments.\<close>

definition shielding_inv where
  "shielding_inv X b ins outs touts \<longleftrightarrow>
     uint (sh_total_input b) = sum_list (map uint ins) \<and>
     uint (sh_total_sapling_output b) = sum_list (map uint outs) \<and>
     uint (sh_total_transparent_output b) = sum_list (map uint touts) \<and>
     map ti_value (sh_inputs b) = ins \<and> map to_value (sh_transparent_outputs b) = touts \<and>
     map op_cv (sh_sapling_outputs b) = map2 (cv_derive X) outs (map op_rcv (sh_sapling_outputs b)) \<and>
     length (sh_sapling_outputs b) = length outs"

lemma shielding_history_inv: "shielding_history Y X b ins outs touts \<Longrightarrow> shielding_inv X b ins outs touts"
proof (induction rule: shielding_history.induct)
  case (add_sapling b ins outs touts params to amount rng b')
  then show ?case
    by (auto simp: shielding_inv_def shielding_add_output_def checked_add_Some zip_append dest: make_output_cv
        elim!: rbind_OkE)
qed (auto simp: shielding_inv_def shielding_new_def shielding_add_input_def shielding_add_transparent_output_def
       checked_add_Some elim!: rbind_OkE split: if_splits)

lemma shielding_build_Ok:
  assumes "shielding_build Z Y X b = Ok (r, b')" "sh_finished b' = Some s"
  shows "sh_inputs b \<noteq> []" "sh_sapling_outputs b \<noteq> []"
    and "uint (sh_total_input b) > uint (sh_total_sapling_output b) + uint (sh_total_transparent_output b)"
    and "sb_value_balance s = - sh_total_sapling_output b" "sb_sapling_outputs s = sh_sapling_outputs b"
    and "sb_inputs s = sh_inputs b" "sb_transparent_outputs s = sh_transparent_outputs b"
  using assms
  by (auto simp: shielding_build_def Let_def checked_add_Some word_le_def not_le split: if_splits elim!: rbind_OkE)

section \<open>Properties\<close>

text \<open>C19: A shielding transaction that is built after any sequence of successful additions is balanced:
  the exact sum of its inputs is greater than that of its outputs, so a fee is left; the value
  balance, read as a signed number, is minus the sum of the shielded amounts (as long as that sum is
  at most \<open>2 ^ 63\<close>); and the key of the binding signature belongs to the verification key that the network
  computes from the commitments of the outputs and the value balance.\<close>

theorem shielding_tx_balanced:
  assumes "shielding_history Y X b ins outs touts" "commitments_ok X vl rd td pub"
    and "shielding_build Z Y X b = Ok (sighashes, b')" "sh_finished b' = Some s"
    and "sum_list (map uint outs) \<le> 2 ^ 63"
  shows "sum_list (map uint ins) > sum_list (map uint outs) + sum_list (map uint touts) \<and>
    sint (sb_value_balance s) = - sum_list (map uint outs) \<and>
    map ti_value (sb_inputs s) = ins \<and> map to_value (sb_transparent_outputs s) = touts \<and>
    pub (compute_bsk X [] (map op_rcv (sb_sapling_outputs s))) =
      - sum_list (map op_cv (sb_sapling_outputs s)) - vl (sint (sb_value_balance s))"
proof -
  note inv = shielding_history_inv [OF assms(1), unfolded shielding_inv_def]
  note built = shielding_build_Ok [OF assms(3,4)]
  have bal: "sint (sb_value_balance s) = - sum_list (map uint outs)"
    using inv assms(5) by (simp add: built(4)) (simp add: sint_neg_le)
  have "vl (- a) = - vl a" for a using vl_diff [OF assms(2), of 0 a] vl_0 [OF assms(2)] by simp
  then have "pub (compute_bsk X [] (map op_rcv (sb_sapling_outputs s))) =
      - sum_list (map op_cv (sb_sapling_outputs s)) - vl (sint (sb_value_balance s))"
    using inv sum_commitments [OF assms(2), of outs "map op_rcv (sh_sapling_outputs b)"]
    by (simp add: compute_bsk_pub [OF assms(2)] built(5) bal)
  with bal built inv show ?thesis by simp
qed

section \<open>Completing\<close>

text \<open>The format of the caller's signatures: a length of two bytes and the DER bytes.\<close>

definition der_entry :: "bytes \<Rightarrow> bytes" where
  "der_entry b = u16_le (word_of_nat (length b)) @ b"

lemma read_der_sig_iff:
  "read_der_sig data pos = Ok (b, pos') \<longleftrightarrow>
     fits16 b \<and> holds_at data pos (der_entry b) \<and> pos' = pos + length (der_entry b)"
proof (cases "pos + 2 \<le> length data")
  case True
  let ?n = "unat (u16_of_le (take 2 (drop pos data)))"
  have "read_der_sig data pos =
      (if pos + 2 + ?n > length data then Err LIB_INVALID_BUFFER_SIZE
       else Ok (take ?n (drop (pos + 2) data), pos + 2 + ?n))"
    using True by (simp add: read_der_sig_def slice_def to_array_def Let_def)
  moreover have "holds_at data pos (u16_le (word_of_nat (length b))) \<longleftrightarrow>
      u16_of_le (take 2 (drop pos data)) = word_of_nat (length b)"
    using True u16_le_of_le [of "take 2 (drop pos data)"] by (auto simp: holds_at_def)
  ultimately show ?thesis
    by (auto simp: der_entry_def holds_at_append fits16_def) (auto simp: holds_at_def eq_commute [of _ "word_of_nat _"] unat_bounds)
next
  case False
  then show ?thesis by (auto simp: read_der_sig_def der_entry_def holds_at_def)
qed

lemma proper_read_der_sig: "proper (read_der_sig data pos)"
  by (simp add: read_der_sig_def slice_def to_array_def Let_def)

interpretation der_wire: wire_format read_der_sig der_entry fits16
  by unfold_locales (simp_all add: proper_read_der_sig read_der_sig_iff)

lemma slice_concat_chunks:
  assumes "\<forall>x \<in> set xs. length x = k" "i < length xs"
  shows "slice (concat xs) (i * k) ((i + 1) * k) = Ok (xs ! i)"
  using slice_chunk [OF assms, of 0 k "[]" "[]"] assms by (simp add: add.commute)

text \<open>Completing a built shielding transaction with one signature and one compressed public key per
  input, in the order of the inputs, succeeds, and the serialized transaction gives every input the
  pay-to-public-key-hash script of its own signature and key.\<close>

theorem shielding_complete_scripts:
  assumes "sh_finished b = Some state" "length sigs = length (sb_inputs state)" "length pks = length (sb_inputs state)"
    and "\<forall>s \<in> set sigs. fits16 s" "\<forall>k \<in> set pks. length k = 33"
  shows "shielding_complete Y X (concat (map der_entry sigs) @ rest) (concat pks) rng b =
     serialize_shielding_v5_tx Y X (sb_inputs state) (map2 build_p2pkh_script_sig sigs pks)
       (sb_transparent_outputs state) (sb_sapling_outputs state) (sb_value_balance state)
       (fst (bsk_sign X (compute_bsk X [] (map op_rcv (sb_sapling_outputs state))) (sb_txid_sighash state) rng))
       (sb_consensus_branch_id state) (sb_expiry_height state)"
proof -
  let ?n = "length (sb_inputs state)"
  have r: "read_many ?n read_der_sig (concat (map der_entry sigs) @ rest) 0 = Ok (sigs, length (concat (map der_entry sigs)))"
    using assms(2,4) der_wire.many_iff [of 0 "concat (map der_entry sigs) @ rest" ?n sigs] by simp
  have "rmap (\<lambda>i. rbind (slice (concat pks) (i * 33) ((i + 1) * 33)) (\<lambda>pk.
      if i < length sigs then Ok (build_p2pkh_script_sig (sigs ! i) pk) else Panic)) [0..<?n]
      = Ok (map (\<lambda>i. build_p2pkh_script_sig (sigs ! i) (pks ! i)) [0..<?n])"
    by (rule rmap_Ok_map) (use assms(2,3,5) slice_concat_chunks [of pks 33] in simp)
  also have "map (\<lambda>i. build_p2pkh_script_sig (sigs ! i) (pks ! i)) [0..<?n] = map2 build_p2pkh_script_sig sigs pks"
    using assms(2,3) by (intro nth_equalityI) auto
  finally show ?thesis
    using r assms concat_const_length [of pks 33]
    by (simp add: shielding_complete_def Let_def mult.commute)
qed

section \<open>Concrete instances\<close>

definition demo_input :: "u64 \<Rightarrow> transparent_input" where
  "demo_input v = \<lparr>ti_prev_txid = replicate 32 1, ti_vout = 0, ti_value = v, ti_script_pubkey = [0x51]\<rparr>"

lemma make_output_Ok: "\<exists>x. make_output Y X ovk to v memo z params rng = Ok x"
  by (simp add: make_output_def Let_def case_prod_unfold)

lemma demo_shielding_history:
  "\<exists>b. shielding_history demo_sapling demo_sapling_tx b [5000] [3000] [1000] \<and> sh_finished b = None"
proof -
  obtain b0 :: "(rat, u8, rat) shielding_tx_builder" where b0: "shielding_new (replicate 96 0) 2800000 = Ok b0"
    "sh_total_input b0 = 0" "sh_total_sapling_output b0 = 0" "sh_total_transparent_output b0 = 0" "sh_finished b0 = None"
    by (simp add: shielding_new_def slice_def)
  have h0: "shielding_history demo_sapling demo_sapling_tx b0 [] [] []" using b0(1) by (rule new_shielding)
  obtain b1 where b1: "shielding_add_input (demo_input 5000) b0 = Ok ((), b1)" "sh_total_sapling_output b1 = 0"
    "sh_total_transparent_output b1 = 0" "sh_finished b1 = None"
    using b0 by (simp add: shielding_add_input_def checked_add_def demo_input_def)
  have h1: "shielding_history demo_sapling demo_sapling_tx b1 [5000] [] []"
    using add_input [OF h0 b1(1)] by (simp add: demo_input_def)
  obtain params where params: "get_output_params demo_sapling_tx = Ok params"
    by (simp add: get_output_params_def demo_sapling_tx_def)
  obtain b2 where b2: "shielding_add_output demo_sapling demo_sapling_tx 8 params 3000 7 b1 = Ok ((), b2)"
    "sh_total_transparent_output b2 = 0" "sh_finished b2 = None"
    using b1 make_output_Ok [of demo_sapling demo_sapling_tx "Some (sh_ovk b1)" 8 3000 "replicate 512 0" "sh_zip212 b1" params 7]
    by (auto simp: shielding_add_output_def checked_add_def)
  have h2: "shielding_history demo_sapling demo_sapling_tx b2 [5000] [3000] []"
    using add_sapling [OF h1 params b2(1)] by simp
  obtain b3 where b3: "shielding_add_transparent_output [0x51] 1000 b2 = Ok ((), b3)" "sh_finished b3 = None"
    using b2 by (simp add: shielding_add_transparent_output_def checked_add_def)
  show ?thesis using add_transparent [OF h2 b3(1)] b3(2) by auto
qed

lemma shielding_build_succeeds:
  assumes "sh_inputs b \<noteq> []" "sh_sapling_outputs b \<noteq> []"
    and "uint (sh_total_input b) > uint (sh_total_sapling_output b) + uint (sh_total_transparent_output b)"
  shows "\<exists>r b' s. shielding_build Z Y X b = Ok (r, b') \<and> sh_finished b' = Some s"
proof -
  obtain c where c: "checked_add (sh_total_sapling_output b) (sh_total_transparent_output b) = Some c"
  proof -
    have "int (unat (sh_total_sapling_output b)) + int (unat (sh_total_transparent_output b)) < int (unat (sh_total_input b))"
      using assms(3) by (simp only: uint_nat)
    then have "unat (sh_total_sapling_output b) + unat (sh_total_transparent_output b) < unat (sh_total_input b)"
      by linarith
    then show ?thesis using that unat_bounds(3) [of "sh_total_input b"] by (simp add: checked_add_def)
  qed
  have "\<not> sh_total_input b \<le> c" using c assms(3) by (simp add: checked_add_Some word_le_def)
  moreover have "rmap (\<lambda>i. compute_shielding_sighash Z Y X (sh_inputs b) (sh_transparent_outputs b) (sh_sapling_outputs b)
      vb br ex (Some i)) [0..<length (sh_inputs b)] =
      Ok (map (\<lambda>i. case compute_shielding_sighash Z Y X (sh_inputs b) (sh_transparent_outputs b) (sh_sapling_outputs b)
        vb br ex (Some i) of Ok x \<Rightarrow> x) [0..<length (sh_inputs b)])" for vb br ex
    by (rule rmap_Ok_map) (simp add: compute_shielding_sighash_def hash_transparent_sig_digest_def Let_def)
  ultimately show ?thesis
    using assms(1,2) c by (simp add: shielding_build_def Let_def) (simp add: compute_shielding_sighash_def)
qed

theorem shielding_tx_balanced_witness:
  "\<exists>b r b' s. shielding_history demo_sapling demo_sapling_tx b [5000] [3000] [1000] \<and>
     shielding_build demo_hash demo_sapling demo_sapling_tx b = Ok (r, b') \<and> sh_finished b' = Some s \<and>
     sint (sb_value_balance s) = -3000 \<and> map ti_value (sb_inputs s) = [5000] \<and>
     compute_bsk demo_sapling_tx [] (map op_rcv (sb_sapling_outputs s)) =
       - sum_list (map op_cv (sb_sapling_outputs s)) + 300000"
proof -
  obtain b where b: "shielding_history demo_sapling demo_sapling_tx b [5000] [3000] [1000]"
    using demo_shielding_history by blast
  note inv = shielding_history_inv [OF b, unfolded shielding_inv_def]
  then have "sh_inputs b \<noteq> []" "sh_sapling_outputs b \<noteq> []" by auto
  with inv obtain r b' s where build: "shielding_build demo_hash demo_sapling demo_sapling_tx b = Ok (r, b')"
    "sh_finished b' = Some s" using shielding_build_succeeds [of b demo_hash demo_sapling demo_sapling_tx] by auto
  note bal = shielding_tx_balanced [OF b demo_tx_ok(2) build]
  then have "sint (sb_value_balance s) = -3000" by simp
  with bal b build show ?thesis
    by (intro exI [of _ b] exI [of _ r] exI [of _ b'] exI [of _ s]) simp
qed

definition demo_shielding_state :: "(rat, u8, rat) shielding_build_state" where
  "demo_shielding_state = \<lparr>sb_inputs = [demo_input 5000], sb_transparent_outputs = [], sb_sapling_outputs = [],
     sb_value_balance = 0, sb_consensus_branch_id = 1, sb_expiry_height = 2, sb_txid_sighash = replicate 32 0\<rparr>"

definition demo_shielding_builder :: "(rat, u8, rat) shielding_tx_builder" where
  "demo_shielding_builder = \<lparr>sh_ovk = [], sh_target_height = 0, sh_zip212 = On, sh_inputs = [],
     sh_transparent_outputs = [], sh_sapling_outputs = [], sh_total_input = 0, sh_total_sapling_output = 0,
     sh_total_transparent_output = 0, sh_finished = Some demo_shielding_state\<rparr>"

theorem shielding_complete_scripts_witness:
  "shielding_complete demo_sapling demo_sapling_tx (concat (map der_entry [[0x30, 0x44]]) @ [9]) (concat [replicate 33 2])
     0 demo_shielding_builder =
   serialize_shielding_v5_tx demo_sapling demo_sapling_tx [demo_input 5000]
     [[3, 0x30, 0x44, 1, 33] @ replicate 33 2] [] (sb_sapling_outputs demo_shielding_state) 0 (replicate 64 6) 1 2"
  using shielding_complete_scripts [of demo_shielding_builder demo_shielding_state "[[0x30, 0x44]]" "[replicate 33 2]"
      demo_sapling demo_sapling_tx "[9]" 0]
  by (simp add: demo_shielding_builder_def demo_shielding_state_def fits16_def build_p2pkh_script_sig_def
      demo_sapling_tx_def)

end
