(* ===== verification/Monero_Wallet.thy ===== *)
theory Monero_Wallet
  imports Fromt_Ceremonies "HOL-Library.Multiset"
begin

text \<open>
  The wallet side of \<^verbatim>\<open>fromt-lib/src/monero/spend.rs\<close>: scanning blocks for owned outputs, checking key
  images against the daemon, balances, the byte format of found outputs, coin selection and the
  preparation of a transaction. The Monero node and \<^verbatim>\<open>monero-wallet\<close> are the argument \<open>W\<close>: a request
  to the node that may fail is an option, and what the node answers during one call is fixed; a
  scanner is a state that a scan may change. The crates of the curve are the argument \<open>K\<close>. Heights
  and weights are \<^verbatim>\<open>usize\<close>, hence \<open>nat\<close>; amounts are 64-bit words. Log output is left out.
\<close>

record ('out, 'vp, 'scanner, 'block, 'sblock, 'scan, 'fee, 'addr, 'owd, 'change, 'stx, 'rng) wallet =
  out_key_offset :: "'out \<Rightarrow> bytes"
  out_key :: "'out \<Rightarrow> bytes"
  out_amount :: "'out \<Rightarrow> u64"
  scanner_new :: "'vp \<Rightarrow> 'scanner"
  latest_block_number :: "nat option"
  block_by_number :: "nat \<Rightarrow> 'block option"
  expand_to_scannable_block :: "'block \<Rightarrow> 'sblock option"
  scanner_scan :: "'scanner \<Rightarrow> 'sblock \<Rightarrow> 'scan option \<times> 'scanner"
  additional_timelock_satisfied_by :: "'scan \<Rightarrow> nat \<Rightarrow> 'out list"
  not_additionally_locked :: "'scan \<Rightarrow> 'out list"
  is_key_image_spent :: "bytes list \<Rightarrow> u64 option list option"
  fee_rate :: "'fee option"
  calculate_fee_from_weight :: "'fee \<Rightarrow> nat \<Rightarrow> u64"
  address_from_str :: "bytes \<Rightarrow> 'addr option"
  view_pair_new :: "bytes \<Rightarrow> bytes \<Rightarrow> 'vp option"
  change_new :: "'vp \<Rightarrow> 'change"
  select_decoys :: "'rng \<Rightarrow> u8 \<Rightarrow> nat \<Rightarrow> 'out \<Rightarrow> 'owd option \<times> 'rng"
  signable_new :: "bytes \<Rightarrow> 'owd list \<Rightarrow> ('addr \<times> u64) list \<Rightarrow> 'change \<Rightarrow> bytes list \<Rightarrow> 'fee \<Rightarrow> 'stx option"
  os_random32 :: "'rng \<Rightarrow> bytes \<times> 'rng"

definition RING_LEN :: u8 where "RING_LEN = 16"

text \<open>\<^verbatim>\<open>from_canonical_bytes(b).expect(..)\<close>\<close>

definition expect :: "'a option \<Rightarrow> 'a res" where
  "expect x = (case x of Some y \<Rightarrow> Ok y | None \<Rightarrow> Panic)"

section \<open>Key images\<close>

definition compute_key_image where
  "compute_key_image K W out spend_key =
     rbind (expect (from_canonical_bytes K (out_key_offset W out))) (\<lambda>key_offset_scalar.
       Ok (compress K (point_mul K (key_offset_scalar + spend_key) (biased_hash K (out_key W out)))))"

definition check_key_images_spent where
  "check_key_images_spent W key_images =
     (if key_images = [] then Ok []
      else
        rbind (ok_or (is_key_image_spent W key_images) LIB_UNKNOWN_ERROR) (\<lambda>statuses.
          Ok (map (\<lambda>s. (case s of Some n \<Rightarrow> n | None \<Rightarrow> 0) \<noteq> 0) statuses)))"

text \<open>The block \<^verbatim>\<open>if let Some(sk_bytes) = spend_key\<close> of \<^verbatim>\<open>prepare_spend\<close> and \<^verbatim>\<open>scan_balance\<close>.\<close>

definition unspent_outputs where
  "unspent_outputs K W spend_key owned =
     (case spend_key of
        None \<Rightarrow> Ok owned
      | Some sk_bytes \<Rightarrow>
          rbind (expect (from_canonical_bytes K sk_bytes)) (\<lambda>sk.
          rbind (rmap (\<lambda>x. compute_key_image K W x sk) owned) (\<lambda>key_images.
          rbind (check_key_images_spent W key_images) (\<lambda>spent_flags.
            Ok (map fst (filter (\<lambda>p. \<not> snd p) (zip owned spent_flags)))))))"

definition filter_spent_outputs :: "bytes \<Rightarrow> bytes \<Rightarrow> (u64 \<times> u32) res" where
  "filter_spent_outputs outs_data spent_flags =
     (if length outs_data < 4 then Err LIB_SERIALIZATION_ERROR
      else
        rbind (slice outs_data 0 4) (\<lambda>s. rbind (into_array 4 LIB_SERIALIZATION_ERROR s) (\<lambda>a.
        let count = unat (u32_of_le a); expected_outputs_len = 4 + count * 72 in
        if length outs_data < expected_outputs_len then Err LIB_SERIALIZATION_ERROR
        else if length spent_flags < count then Err LIB_SERIALIZATION_ERROR
        else
          foldl (\<lambda>acc i.
            rbind acc (\<lambda>(balance, num_unspent).
            rbind (index spent_flags i) (\<lambda>flag.
              if flag = 0 then
                (let offset = 4 + i * 72 + 64 in
                 rbind (slice outs_data offset (offset + 8)) (\<lambda>s.
                 rbind (into_array 8 LIB_SERIALIZATION_ERROR s) (\<lambda>amount.
                   Ok (balance + u64_of_le amount, num_unspent + 1))))
              else Ok (balance, num_unspent)))) (Ok (0, 0)) [0..<count])))"

section \<open>View pairs\<close>

text \<open>\<open>view_pair_new\<close> takes the compressed spend key and the bytes of the view scalar.\<close>

definition view_pair_from_bundle where
  "view_pair_from_bundle L K W b =
     rbind (verifying_key_bytes L b) (\<lambda>group_key_bytes.
     rbind (to_array 32 group_key_bytes) (\<lambda>gk_arr.
     rbind (ok_or (decompress K gk_arr) LIB_SERIALIZATION_ERROR) (\<lambda>spend_pub.
     rbind (expect (from_canonical_bytes K (fb_view_key b))) (\<lambda>view_scalar.
       ok_or (view_pair_new W (compress K spend_pub) (to_bytes K view_scalar)) LIB_SERIALIZATION_ERROR))))"

section \<open>Scanning\<close>

definition scan_height where
  "scan_height W pick scanner h =
     rbind (ok_or (block_by_number W h) LIB_UNKNOWN_ERROR) (\<lambda>block.
     rbind (ok_or (expand_to_scannable_block W block) LIB_UNKNOWN_ERROR) (\<lambda>scannable.
       (case scanner_scan W scanner scannable of
          (None, _) \<Rightarrow> Err LIB_UNKNOWN_ERROR
        | (Some scanned, scanner') \<Rightarrow> Ok (pick scanned, scanner'))))"

primrec scan_heights where
  "scan_heights W pick scanner [] = Ok []"
| "scan_heights W pick scanner (h # hs) =
     rbind (scan_height W pick scanner h) (\<lambda>(unlocked, scanner).
     rbind (scan_heights W pick scanner hs) (\<lambda>rest. Ok (unlocked @ rest)))"

text \<open>\<^verbatim>\<open>start..=end\<close>\<close>

definition block_range :: "u64 \<Rightarrow> nat \<Rightarrow> nat list" where
  "block_range from_h end' = [unat from_h..<end' + 1]"

definition spend_encode_outputs where
  "spend_encode_outputs W outs =
     (Ok (u32_le (word_of_nat (length outs)) @
          concat (map (\<lambda>x. out_key W x @ out_key_offset W x @ u64_le (out_amount W x)) outs)) :: bytes res)"

definition scan_balance where
  "scan_balance K W view_pair bday spend_key =
     rbind (ok_or (latest_block_number W) LIB_UNKNOWN_ERROR) (\<lambda>chain_height.
     rbind (scan_heights W (\<lambda>s. additional_timelock_satisfied_by W s chain_height) (scanner_new W view_pair)
              (block_range bday chain_height)) (\<lambda>owned.
     rbind (unspent_outputs K W spend_key owned) (\<lambda>unspent.
       Ok (sum_list (map (out_amount W) unspent), word_of_nat (length unspent) :: u32))))"

definition scan_range where
  "scan_range W view_pair from_height to_height =
     rbind (scan_heights W (not_additionally_locked W) (scanner_new W view_pair)
              (block_range from_height (unat (to_height :: u64)))) (\<lambda>owned.
       spend_encode_outputs W owned)"

definition scan_outputs where
  "scan_outputs W view_pair bday =
     rbind (ok_or (latest_block_number W) LIB_UNKNOWN_ERROR) (\<lambda>chain_height.
     rbind (scan_heights W (\<lambda>s. additional_timelock_satisfied_by W s chain_height) (scanner_new W view_pair)
              (block_range bday chain_height)) (\<lambda>owned.
       spend_encode_outputs W owned))"

section \<open>Coin selection and preparation\<close>

definition fee_estimate where
  "fee_estimate W fee n = calculate_fee_from_weight W fee (1500 + n * 2100)"

primrec select_inputs where
  "select_inputs W fee amount [] selected tot = (selected, tot)"
| "select_inputs W fee amount (x # xs) selected tot =
     (let selected' = selected @ [x]; tot' = tot + out_amount W x in
      if tot' \<ge> amount + fee_estimate W fee (length selected') then (selected', tot')
      else select_inputs W fee amount xs selected' tot')"

text \<open>Sorting by decreasing amount is stable; then the loop, then the test of the total.\<close>

definition choose_inputs where
  "choose_inputs W fee amount owned =
     (let (selected, tot) =
            select_inputs W fee amount (sort_key (\<lambda>x. - uint (out_amount W x)) owned) [] 0
      in if tot < amount + fee_estimate W fee (length selected) then Err LIB_UNKNOWN_ERROR
         else Ok selected)"

primrec with_decoys where
  "with_decoys W rng chain_height [] = Ok []"
| "with_decoys W rng chain_height (x # xs) =
     (case select_decoys W rng RING_LEN chain_height x of
        (None, _) \<Rightarrow> Err LIB_UNKNOWN_ERROR
      | (Some owd, rng') \<Rightarrow>
          rbind (with_decoys W rng' chain_height xs) (\<lambda>owds. Ok (owd # owds)))"

definition prepare_spend where
  "prepare_spend L K W rng b recipient_addr amount bday excluded_key_offsets spend_key tx_extra_data =
     rbind (view_pair_from_bundle L K W b) (\<lambda>view_pair.
     rbind (ok_or (latest_block_number W) LIB_UNKNOWN_ERROR) (\<lambda>chain_height.
     let safe_height = (if chain_height > 10 then chain_height - 10 else chain_height) in
     rbind (scan_heights W (\<lambda>s. additional_timelock_satisfied_by W s safe_height) (scanner_new W view_pair)
              (block_range bday safe_height)) (\<lambda>scanned.
     let kept = (if excluded_key_offsets = [] then scanned
                 else filter (\<lambda>x. out_key_offset W x \<notin> set excluded_key_offsets) scanned) in
     rbind (unspent_outputs K W spend_key kept) (\<lambda>owned.
     if owned = [] then Err LIB_UNKNOWN_ERROR
     else
       rbind (ok_or (address_from_str W recipient_addr) LIB_UNKNOWN_ERROR) (\<lambda>recipient.
       rbind (ok_or (fee_rate W) LIB_UNKNOWN_ERROR) (\<lambda>fee.
       rbind (choose_inputs W fee amount owned) (\<lambda>selected.
       let (outgoing_view, rng) = os_random32 W rng in
       rbind (with_decoys W rng chain_height selected) (\<lambda>inputs_with_decoys.
       rbind (ok_or (signable_new W outgoing_view inputs_with_decoys [(recipient, amount)] (change_new W view_pair)
                       tx_extra_data fee) LIB_UNKNOWN_ERROR) (\<lambda>signable.
         Ok (signable, map (out_key_offset W) selected))))))))))"

end
