(* ===== verification/Monero_Wallet_Properties.thy ===== *)
theory Monero_Wallet_Properties
  imports Monero_Wallet Byte_Streams Fromt_Ceremony_Properties
begin

text \<open>
  Correctness of the wallet: coin selection finds a covering set of outputs exactly when there is
  one, with as few inputs as possible; the balance computed from exported outputs and spent flags is
  the one that a scan with the spend key reports; and the key images that a wallet with the whole
  spend key computes are those of the threshold ceremony.
\<close>

section \<open>Coin selection\<close>

definition covers where
  "covers W fee amount xs tot n k \<longleftrightarrow>
     tot + sum_list (map (out_amount W) (take k xs)) \<ge> amount + fee_estimate W fee (n + k)"

lemma select_inputs_spec:
  "\<exists>k \<le> length xs. select_inputs W fee amount xs sel tot =
       (sel @ take k xs, tot + sum_list (map (out_amount W) (take k xs))) \<and>
     (\<forall>j. 0 < j \<longrightarrow> j < k \<longrightarrow> \<not> covers W fee amount xs tot (length sel) j) \<and>
     (k = length xs \<or> covers W fee amount xs tot (length sel) k) \<and> (xs \<noteq> [] \<longrightarrow> 0 < k)"
proof (induction xs arbitrary: sel tot)
  case (Cons x xs)
  show ?case
  proof (cases "covers W fee amount (x # xs) tot (length sel) 1")
    case True
    then show ?thesis by (intro exI [of _ 1]) (simp add: covers_def Let_def)
  next
    case False
    have shift: "covers W fee amount (x # xs) tot (length sel) (Suc j) =
        covers W fee amount xs (tot + out_amount W x) (length (sel @ [x])) j" for j
      by (simp add: covers_def add.assoc)
    obtain k where k: "k \<le> length xs" "select_inputs W fee amount xs (sel @ [x]) (tot + out_amount W x) =
        ((sel @ [x]) @ take k xs, tot + out_amount W x + sum_list (map (out_amount W) (take k xs)))"
      "\<forall>j. 0 < j \<longrightarrow> j < k \<longrightarrow> \<not> covers W fee amount xs (tot + out_amount W x) (length (sel @ [x])) j"
      "k = length xs \<or> covers W fee amount xs (tot + out_amount W x) (length (sel @ [x])) k"
      using Cons.IH [of "sel @ [x]" "tot + out_amount W x"] by blast
    have "select_inputs W fee amount (x # xs) sel tot = select_inputs W fee amount xs (sel @ [x]) (tot + out_amount W x)"
      using False by (simp add: covers_def Let_def)
    moreover have "\<not> covers W fee amount (x # xs) tot (length sel) j" if "0 < j" "j < Suc k" for j
      using that False k(3) shift [of "j - 1"] by (cases "j = 1") auto
    ultimately show ?thesis using k(1,2,4) shift [of k]
      by (intro exI [of _ "Suc k"]) (simp add: add.assoc)
  qed
qed simp

text \<open>Among the sets of \<open>k\<close> elements the first \<open>k\<close> of a decreasing list have the greatest sum.\<close>

lemma sum_take_greatest:
  assumes "sorted_wrt (\<lambda>a b. f a \<ge> f b) xs" "S \<subseteq># mset xs"
  shows "(\<Sum>x \<in># S. f x) \<le> (sum_list (map f (take (size S) xs)) :: nat)"
  using assms
proof (induction xs arbitrary: S)
  case (Cons x xs)
  show ?case
  proof (cases "x \<in># S")
    case True
    then obtain S' where S': "S = add_mset x S'" by (metis multi_member_split)
    with Cons.prems(2) have "S' \<subseteq># mset xs" by simp
    from Cons.IH [OF _ this] Cons.prems(1) S' show ?thesis by simp
  next
    case False
    then have sub: "S \<subseteq># mset xs" using Cons.prems(2)
      by (metis diff_single_trivial mset.simps(2) subset_eq_diff_conv add_mset_remove_trivial union_mset_add_mset_right
          add.right_neutral)
    show ?thesis
    proof (cases "S = {#}")
      case False
      then obtain y S' where S': "S = add_mset y S'" by (metis multiset_cases)
      with sub have "S' \<subseteq># mset xs" "y \<in> set xs"
        by (auto simp: insert_subset_eq_iff intro: subset_mset.order_trans [OF _ diff_subset_eq_self])
      with Cons.IH [of S'] Cons.prems(1) S' show ?thesis by (auto intro: add_mono)
    qed simp
  qed
qed simp

text \<open>A set of outputs that pays the amount and the fee for its number of inputs.\<close>

definition pays where
  "pays W fee (amount :: u64) owned S \<longleftrightarrow>
     S \<subseteq># mset owned \<and> S \<noteq> {#} \<and>
     unat amount + unat (fee_estimate W fee (size S)) \<le> (\<Sum>x \<in># S. unat (out_amount W x))"

lemma covers_iff_pays:
  assumes "sum_list (map (\<lambda>x. unat (out_amount W x)) ys) < 2 ^ 64"
    and "unat amount + unat (fee_estimate W fee k) < 2 ^ 64" "0 < k" "k \<le> length ys"
  shows "covers W fee amount ys 0 0 k \<longleftrightarrow> pays W fee amount ys (mset (take k ys))"
proof -
  have "sum_list (map (\<lambda>x. unat (out_amount W x)) (take k ys)) < 2 ^ 64"
    using assms(1) by (metis append_take_drop_id le_add1 le_less_trans map_append sum_list_append)
  then have "unat (sum_list (map (out_amount W) (take k ys))) = sum_list (map (\<lambda>x. unat (out_amount W x)) (take k ys))"
    using unat_sum_list [of "map (out_amount W) (take k ys)"] by (simp add: o_def)
  moreover have "unat (amount + fee_estimate W fee k) = unat amount + unat (fee_estimate W fee k)"
    using assms(2) by (simp add: unat_word_ariths)
  moreover have "mset (take k ys) \<subseteq># mset ys" by (metis append_take_drop_id mset_append mset_subset_eq_add_left)
  moreover have "(\<Sum>x \<in># mset (take k ys). unat (out_amount W x)) = sum_list (map (\<lambda>x. unat (out_amount W x)) (take k ys))"
    by (simp add: sum_mset_sum_list [symmetric])
  ultimately show ?thesis using assms(3,4) by (auto simp: covers_def pays_def word_le_nat_alt)
qed

text \<open>If any set pays then so do the greatest outputs of that number.\<close>

lemma pays_take:
  assumes "sorted_wrt (\<lambda>a b. unat (out_amount W a) \<ge> unat (out_amount W b)) ys" "pays W fee amount ys S"
  shows "pays W fee amount ys (mset (take (size S) ys))" "0 < size S" "size S \<le> length ys"
proof -
  from assms(2) have S: "S \<subseteq># mset ys" "S \<noteq> {#}"
    "unat amount + unat (fee_estimate W fee (size S)) \<le> (\<Sum>x \<in># S. unat (out_amount W x))"
    by (simp_all add: pays_def)
  show pos: "0 < size S" using S(2) by (simp add: nonempty_has_size)
  show le: "size S \<le> length ys" using size_mset_mono [OF S(1)] by simp
  have "(\<Sum>x \<in># mset (take (size S) ys). unat (out_amount W x)) =
      sum_list (map (\<lambda>x. unat (out_amount W x)) (take (size S) ys))"
    by (simp add: sum_mset_sum_list [symmetric])
  moreover have "mset (take (size S) ys) \<subseteq># mset ys"
    by (metis append_take_drop_id mset_append mset_subset_eq_add_left)
  ultimately show "pays W fee amount ys (mset (take (size S) ys))"
    using sum_take_greatest [OF assms(1) S(1)] S(3) pos le by (auto simp: pays_def)
qed

section \<open>Properties of coin selection\<close>

text \<open>C14: Coin selection is complete and optimal (for amounts whose sums fit into 64 bits). When some set
  of the owned outputs pays the amount and the estimated fee for its number of inputs, the selection
  succeeds with outputs that are owned, that pay the amount and the fee, and that are as few as in
  any set that does; otherwise, and only then, it fails for lack of funds.\<close>

theorem coin_selection_optimal:
  assumes "owned \<noteq> []" "sum_list (map (\<lambda>x. unat (out_amount W x)) owned) < 2 ^ 64"
    and "\<forall>n \<le> length owned. unat amount + unat (fee_estimate W fee n) < 2 ^ 64"
  shows "case choose_inputs W fee amount owned of
      Ok sel \<Rightarrow> pays W fee amount owned (mset sel) \<and> (\<forall>S. pays W fee amount owned S \<longrightarrow> length sel \<le> size S)
    | Err e \<Rightarrow> e = LIB_UNKNOWN_ERROR \<and> (\<forall>S. \<not> pays W fee amount owned S)
    | _ \<Rightarrow> False"
proof -
  define ys where "ys = sort_key (\<lambda>x. - uint (out_amount W x)) owned"
  have ys: "mset ys = mset owned" "length ys = length owned" "ys \<noteq> []"
    using assms(1) by (simp_all add: ys_def, metis length_0_conv length_sort)
  have sorted: "sorted_wrt (\<lambda>a b. unat (out_amount W a) \<ge> unat (out_amount W b)) ys"
    using sorted_sort_key [of "\<lambda>x. - uint (out_amount W x)" owned]
    by (simp add: ys_def sorted_wrt_map word_le_nat_alt [symmetric] word_le_def)
  have sum: "sum_list (map (\<lambda>x. unat (out_amount W x)) ys) < 2 ^ 64"
    using assms(2) ys(1) by (metis mset_map sum_mset_sum_list)
  have same: "pays W fee amount owned S \<longleftrightarrow> pays W fee amount ys S" for S by (simp add: pays_def ys(1))
  obtain k where k: "k \<le> length ys" "0 < k" "select_inputs W fee amount ys [] 0 =
      (take k ys, sum_list (map (out_amount W) (take k ys)))"
    "\<forall>j. 0 < j \<longrightarrow> j < k \<longrightarrow> \<not> covers W fee amount ys 0 0 j" "k = length ys \<or> covers W fee amount ys 0 0 k"
    using select_inputs_spec [of ys W fee amount "[]" 0] ys(3) by auto
  have cov: "covers W fee amount ys 0 0 j \<longleftrightarrow> pays W fee amount ys (mset (take j ys))" if "0 < j" "j \<le> length ys" for j
    using covers_iff_pays [OF sum _ that] assms(3) that(2) ys(2) by simp
  have least: "k \<le> size S" if "pays W fee amount ys S" for S
    using pays_take [OF sorted that] cov [of "size S"] k(4) by (metis not_le)
  have "choose_inputs W fee amount owned =
      (if covers W fee amount ys 0 0 k then Ok (take k ys) else Err LIB_UNKNOWN_ERROR)"
    using k(1) by (auto simp: choose_inputs_def ys_def [symmetric] k(3) covers_def not_less min_def)
  moreover have "\<forall>S. \<not> pays W fee amount ys S" if "\<not> covers W fee amount ys 0 0 k"
  proof (intro allI notI)
    fix S assume S: "pays W fee amount ys S"
    from that k(5) have "k = length ys" by simp
    with least [OF S] pays_take [OF sorted S] that cov [OF k(2,1)] show False by simp
  qed
  ultimately show ?thesis
    using cov [OF k(2,1)] least k(1) by (simp add: same min_def)
qed

section \<open>Balances\<close>

text \<open>Output keys and key offsets are arrays of 32 bytes.\<close>

definition out_format_ok where
  "out_format_ok W \<longleftrightarrow> (\<forall>x. length (out_key W x) = 32 \<and> length (out_key_offset W x) = 32)"

definition out_entry where
  "out_entry W x = out_key W x @ out_key_offset W x @ u64_le (out_amount W x)"

definition keep_unspent :: "'out list \<Rightarrow> bytes \<Rightarrow> 'out list" where
  "keep_unspent outs flags = map fst (filter (\<lambda>p. snd p = 0) (zip outs flags))"

lemma keep_unspent_snoc:
  assumes "n < length outs" "n < length flags"
  shows "keep_unspent (take (Suc n) outs) (take (Suc n) flags) =
     keep_unspent (take n outs) (take n flags) @ (if flags ! n = 0 then [outs ! n] else [])"
  using assms by (simp add: keep_unspent_def take_Suc_conv_app_nth zip_append)

lemma filter_spent_loop:
  assumes "out_format_ok W" "length outs \<le> length flags" "n \<le> length outs"
  shows "foldl (\<lambda>acc i.
            rbind acc (\<lambda>(balance, num_unspent).
            rbind (index flags i) (\<lambda>flag.
              if flag = 0 then
                (let offset = 4 + i * 72 + 64 in
                 rbind (slice (u32_le c @ concat (map (out_entry W) outs)) offset (offset + 8)) (\<lambda>s.
                 rbind (into_array 8 LIB_SERIALIZATION_ERROR s) (\<lambda>amount.
                   Ok (balance + u64_of_le amount, num_unspent + 1))))
              else Ok (balance, num_unspent)))) (Ok (0, 0)) [0..<n] =
     (Ok (sum_list (map (out_amount W) (keep_unspent (take n outs) (take n flags))),
         word_of_nat (length (keep_unspent (take n outs) (take n flags)))) :: (u64 \<times> u32) res)"
  using assms(3)
proof (induction n)
  case (Suc n)
  have "\<forall>x \<in> set (map (out_entry W) outs). length x = 72"
    using assms(1) by (auto simp: out_entry_def out_format_ok_def)
  from slice_chunk [OF this, of n 64 72 "u32_le c" "[]"] Suc.prems
  have "slice (u32_le c @ concat (map (out_entry W) outs)) (4 + n * 72 + 64) (4 + n * 72 + 64 + 8) =
      Ok (u64_le (out_amount W (outs ! n)))"
    using assms(1) by (simp add: out_entry_def out_format_ok_def add.assoc)
  with Suc assms(2) keep_unspent_snoc [of n outs flags] show ?case
    by (simp add: index_def into_array_def Let_def)
qed (simp add: keep_unspent_def)

lemma filter_spent_outputs_eq:
  assumes "out_format_ok W" "length outs < 2 ^ 32" "length outs = length flags"
  shows "rbind (spend_encode_outputs W outs) (\<lambda>buf. filter_spent_outputs buf flags) =
     Ok (sum_list (map (out_amount W) (keep_unspent outs flags)), word_of_nat (length (keep_unspent outs flags)))"
proof -
  let ?buf = "u32_le (word_of_nat (length outs)) @ concat (map (out_entry W) outs)"
  have "\<forall>x \<in> set (map (out_entry W) outs). length x = 72"
    using assms(1) by (auto simp: out_entry_def out_format_ok_def)
  from concat_const_length [OF this] have l: "length ?buf = 4 + length outs * 72"
    by (simp add: mult.commute del: length_concat)
  have s: "slice ?buf 0 4 = Ok (u32_le (word_of_nat (length outs)))"
    using slice_mid [of "[]" "u32_le (word_of_nat (length outs))" "concat (map (out_entry W) outs)"] by simp
  have "spend_encode_outputs W outs = Ok ?buf" by (simp add: spend_encode_outputs_def out_entry_def [abs_def])
  moreover have "filter_spent_outputs ?buf flags =
      Ok (sum_list (map (out_amount W) (keep_unspent outs flags)), word_of_nat (length (keep_unspent outs flags)))"
    using l s assms(2) assms(3) [symmetric] filter_spent_loop [OF assms(1), of outs flags "length outs" "word_of_nat (length outs)"]
    by (simp add: filter_spent_outputs_def into_array_def Let_def del: length_append length_concat upt_Suc)
  ultimately show ?thesis by simp
qed

text \<open>A wallet without the spend key gets the balance that a wallet with it gets. The bytes that
  \<^verbatim>\<open>scan_outputs\<close> exports, with one flag per output as the daemon reports it for the key images,
  make \<^verbatim>\<open>filter_spent_outputs\<close> return the same balance and number of outputs as \<^verbatim>\<open>scan_balance\<close> with
  the spend key.\<close>

theorem exported_balance_agrees:
  assumes "out_format_ok W" "latest_block_number W = Some h"
    and "scan_heights W (\<lambda>s. additional_timelock_satisfied_by W s h) (scanner_new W vp) (block_range bday h) = Ok owned"
    and "owned \<noteq> []" "length owned < 2 ^ 32"
    and "from_canonical_bytes K sk_bytes = Some sk" "rmap (\<lambda>x. compute_key_image K W x sk) owned = Ok images"
    and "is_key_image_spent W images = Some statuses" "length statuses = length owned"
    and "flags = map (\<lambda>s. if s = None \<or> s = Some 0 then 0 else 1) statuses"
  shows "rbind (scan_outputs W vp bday) (\<lambda>buf. filter_spent_outputs buf flags) = scan_balance K W vp bday (Some sk_bytes)"
proof -
  have ne: "images \<noteq> []" using rmap_eq_Ok_length [OF assms(7)] assms(4) by auto
  have "map fst (filter (\<lambda>p. \<not> snd p) (zip owned (map (\<lambda>s. (case s of Some n \<Rightarrow> n | None \<Rightarrow> 0) \<noteq> 0) statuses)))
      = keep_unspent owned flags"
    unfolding assms(10) keep_unspent_def
    using assms(9) [symmetric] by (induction owned statuses rule: list_induct2) (auto split: option.splits)
  then have "unspent_outputs K W (Some sk_bytes) owned = Ok (keep_unspent owned flags)"
    by (simp add: unspent_outputs_def expect_def assms(6-8) check_key_images_spent_def ne)
  with filter_spent_outputs_eq [OF assms(1,5), of flags] show ?thesis
    by (simp add: scan_outputs_def scan_balance_def assms(2,3,9,10))
qed

section \<open>Key images\<close>

text \<open>An output as the key image ceremony takes it.\<close>

definition ceremony_output where
  "ceremony_output W x = \<lparr>output_key = out_key W x, key_offset = out_key_offset W x\<rparr>"

lemma compute_key_images_Ok:
  assumes "rmap (\<lambda>x. compute_key_image K W x sk) ws = Ok images"
  shows "\<forall>x \<in> set ws. \<exists>s. from_canonical_bytes K (out_key_offset W x) = Some s"
    and "images = map (\<lambda>x. compress K (point_mul K (the (from_canonical_bytes K (out_key_offset W x)) + sk)
           (biased_hash K (out_key W x)))) ws"
  using assms
  by (induction ws arbitrary: images) (auto simp: compute_key_image_def expect_def elim!: rbind_OkE split: option.splits)

text \<open>C29: The key images that a wallet with the undivided spend key computes for its outputs are the ones
  that every signer of a threshold set of share holders gets from the key image ceremony on these
  outputs, with the packages of the others in any order. Scalars are assumed to act additively on hash
  points only.\<close>

theorem wallet_images_are_ceremony_images:
  assumes "invert_ok L" "point_ok K" "distinct ids" "inj_on (id_scalar L) (set ids)" "length cs \<le> length ids"
    and "rmap (try_id L) signer_ids = Ok ids" "holds_shares L cs ids data"
    and "ws \<noteq> []" "length ws < 2 ^ 32" "out_format_ok W"
    and "rmap (\<lambda>x. compute_key_image K W x (eval_poly cs 0)) ws = Ok images"
  shows "\<exists>res. rmap (\<lambda>d. key_image_part1 L K d (encode_outputs (map (ceremony_output W) ws)) signer_ids) data = Ok res \<and>
    length res = length ids \<and>
    (\<forall>k < length ids. \<forall>others. mset (snd (res ! k) # map snd others) = mset (map snd res) \<longrightarrow>
       key_image_part2 K (fst (res ! k)) others = Ok (concat images))"
proof -
  let ?outs = "map (ceremony_output W) ws"
  let ?ko = "\<lambda>o'. the (from_canonical_bytes K (key_offset o'))"
  note images = compute_key_images_Ok [OF assms(11)]
  have "?outs \<noteq> []" "length ?outs < 2 ^ 32" "\<forall>o' \<in> set ?outs. output_wf o'"
    using assms(8-10) by (auto simp: output_wf_def ceremony_output_def out_format_ok_def)
  moreover have "\<forall>o' \<in> set ?outs. from_canonical_bytes K (key_offset o') = Some (?ko o')"
    using images(1) by (force simp: ceremony_output_def)
  ultimately have "\<exists>res. rmap (\<lambda>d. key_image_part1 L K d (encode_outputs ?outs) signer_ids) data = Ok res \<and>
    length res = length ids \<and>
    (\<forall>k < length ids. \<forall>others. mset (snd (res ! k) # map snd others) = mset (map snd res) \<longrightarrow>
       key_image_part2 K (fst (res ! k)) others =
         Ok (concat (map (\<lambda>o'. compress K (point_mul K (eval_poly cs 0 + ?ko o') (biased_hash K (output_key o')))) ?outs)))"
    by (rule shared_key_images [OF assms(1-7)])
  then show ?thesis by (simp add: images(2) o_def ceremony_output_def add.commute)
qed

section \<open>Concrete instances\<close>

text \<open>A node with three blocks, the second of which has two outputs, the first of them spent.\<close>

definition demo_wallet ::
  "(u8 \<times> u64, unit, unit, nat, nat, nat, unit, bytes, u8 \<times> u64, unit, bytes, nat) wallet" where
  "demo_wallet =
     \<lparr>out_key_offset = (\<lambda>x. gf7_bytes 4), out_key = (\<lambda>x. replicate 32 (fst x)), out_amount = snd,
      scanner_new = (\<lambda>v. ()), latest_block_number = Some 2, block_by_number = Some,
      expand_to_scannable_block = Some, scanner_scan = (\<lambda>s b. (Some b, s)),
      additional_timelock_satisfied_by = (\<lambda>b h. if b = 1 then [(1, 5000), (2, 7000)] else []),
      not_additionally_locked = (\<lambda>b. []),
      is_key_image_spent = (\<lambda>ks. if length ks = 2 then Some [Some 1, Some 0] else None),
      fee_rate = Some (), calculate_fee_from_weight = (\<lambda>f w. 100), address_from_str = Some,
      view_pair_new = (\<lambda>a b. Some ()), change_new = (\<lambda>v. ()), select_decoys = (\<lambda>r n h x. (Some x, r)),
      signable_new = (\<lambda>v i p c e f. Some []), os_random32 = (\<lambda>r. (replicate 32 0, r))\<rparr>"

lemma demo_wallet_format: "out_format_ok demo_wallet"
  by (simp add: out_format_ok_def demo_wallet_def gf7_bytes_def)

theorem coin_selection_optimal_witness:
  "choose_inputs demo_wallet () 7500 [(1, 5000), (2, 7000), (3, 100)] = Ok [(2, 7000), (1, 5000)] \<and>
   \<not> (\<exists>S. pays demo_wallet () 7500 [(1, 5000), (2, 7000), (3, 100)] S \<and> size S < 2)"
proof -
  let ?o = "[(1, 5000), (2, 7000), (3, 100)] :: (u8 \<times> u64) list"
  have c: "choose_inputs demo_wallet () 7500 ?o = Ok [(2, 7000), (1, 5000)]" by code_simp
  have "sum_list (map (\<lambda>x. unat (out_amount demo_wallet x)) ?o) < 2 ^ 64"
    "\<forall>n \<le> length ?o. unat (7500 :: u64) + unat (fee_estimate demo_wallet () n) < 2 ^ 64"
    by (simp_all add: demo_wallet_def fee_estimate_def)
  from coin_selection_optimal [OF _ this] c show ?thesis by (simp add: not_less numeral_2_eq_2)
qed

theorem exported_balance_agrees_witness:
  "rbind (scan_outputs demo_wallet () 0) (\<lambda>buf. filter_spent_outputs buf [1, 0]) =
     scan_balance demo_monero demo_wallet () 0 (Some (gf7_bytes 3)) \<and>
   scan_outputs demo_wallet () 0 \<noteq> Err LIB_UNKNOWN_ERROR"
proof -
  let ?o = "[(1, 5000), (2, 7000)] :: (u8 \<times> u64) list"
  have s: "scan_heights demo_wallet (\<lambda>s. additional_timelock_satisfied_by demo_wallet s 2) (scanner_new demo_wallet ())
      (block_range 0 2) = Ok ?o" by code_simp
  obtain images where i: "rmap (\<lambda>x. compute_key_image demo_monero demo_wallet x 3) ?o = Ok images" "length images = 2"
    by (auto simp: compute_key_image_def expect_def demo_wallet_def demo_monero_def)
  have "from_canonical_bytes demo_monero (gf7_bytes 3) = Some 3" by (simp add: demo_monero_def)
  from exported_balance_agrees [OF demo_wallet_format _ s _ _ this i(1), of "[Some 1, Some 0]" "[1, 0]"] i(2) s
  show ?thesis by (simp add: demo_wallet_def scan_outputs_def spend_encode_outputs_def)
qed

theorem wallet_images_are_ceremony_images_witness:
  "\<exists>res images. rmap (\<lambda>x. compute_key_image demo_monero demo_wallet x 3) [(1, 5)] = Ok images \<and>
     rmap (\<lambda>d. key_image_part1 demo7 demo_monero d (encode_outputs (map (ceremony_output demo_wallet) [(1, 5)])) [1, 2])
       [demo_share 1 5, demo_share 2 7] = Ok res \<and> length res = 2 \<and>
     (\<forall>k < 2. \<forall>others. mset (snd (res ! k) # map snd others) = mset (map snd res) \<longrightarrow>
       key_image_part2 demo_monero (fst (res ! k)) others = Ok (concat images))"
proof -
  obtain images where i: "rmap (\<lambda>x. compute_key_image demo_monero demo_wallet x (eval_poly [3, 2] 0)) [(1, 5)] = Ok images"
    by (auto simp: compute_key_image_def expect_def demo_wallet_def demo_monero_def)
  have l: "length [(1, 5) :: u8 \<times> u64] < 2 ^ 32" by simp
  from wallet_images_are_ceremony_images [OF demo7_ok(1,3) _ demo7_ids(2) _ demo7_ids(1) demo_holds_shares _ l
      demo_wallet_format i] i
  show ?thesis by (simp add: numeral_2_eq_2)
qed

end
