(* ===== verification/Wasm_Calls.thy ===== *)
theory Wasm_Calls
  imports Ffi_Calls
begin

text \<open>
  What the exported functions of the two WebAssembly crates share. A function returns a value or
  throws a JavaScript error; a Rust panic traps, and there is no handler that turns it into an
  error. An error is the debug text of a \<^verbatim>\<open>lib_error\<close> or of a handle error (\<^verbatim>\<open>to_js_err\<close>), the
  debug text of an error of another crate, which is not modelled, or a message; of a formatted
  message the text up to its arguments is kept. The state is the handle table. On this target
  \<^verbatim>\<open>usize\<close> has 32 bits, so that a sum of lengths may wrap around: where the code adds lengths that a
  caller chooses, the sum is one of 32-bit words.
\<close>

datatype js_error = From_Lib lib_error | From_Handle handle_error | From_Crate | Message string

datatype 'a js = Done 'a | Thrown js_error | Trapped

definition jbind :: "'a js \<Rightarrow> ('a \<Rightarrow> 'b js) \<Rightarrow> 'b js" where
  "jbind r f = (case r of Done x \<Rightarrow> f x | Thrown e \<Rightarrow> Thrown e | Trapped \<Rightarrow> Trapped)"

text \<open>\<^verbatim>\<open>map_err(to_js_err)\<close> of a result with a \<^verbatim>\<open>lib_error\<close>, and of a result of another crate.\<close>

definition js_of :: "'a res \<Rightarrow> 'a js" where
  "js_of r = (case r of Ok x \<Rightarrow> Done x | Err e \<Rightarrow> Thrown (From_Lib e) | Blamed i \<Rightarrow> Thrown (From_Lib LIB_BLAME)
     | Panic \<Rightarrow> Trapped)"

definition js_ok_or :: "'a option \<Rightarrow> js_error \<Rightarrow> 'a js" where
  "js_ok_or x e = (case x of Some y \<Rightarrow> Done y | None \<Rightarrow> Thrown e)"

text \<open>A slice, an array or an \<^verbatim>\<open>unwrap\<close> that may panic, inside a function that throws messages.\<close>

definition js_slice :: "bytes \<Rightarrow> u32 \<Rightarrow> u32 \<Rightarrow> bytes js" where
  "js_slice data a b = js_of (slice data (unat a) (unat b))"

definition js_index :: "bytes \<Rightarrow> u32 \<Rightarrow> u8 js" where
  "js_index data i = js_of (index data (unat i))"

text \<open>The length of a slice as a 32-bit \<^verbatim>\<open>usize\<close>.\<close>

definition wasm_len :: "'a list \<Rightarrow> u32" where
  "wasm_len xs = word_of_nat (length xs)"

primrec jmap :: "('a \<Rightarrow> 'b js) \<Rightarrow> 'a list \<Rightarrow> 'b list js" where
  "jmap f [] = Done []"
| "jmap f (x # xs) = jbind (f x) (\<lambda>y. jbind (jmap f xs) (\<lambda>ys. Done (y # ys)))"

section \<open>Calls on the handle table\<close>

type_synonym ('o, 'a) js_call = "'o htable \<Rightarrow> 'a js \<times> 'o htable"

definition jret :: "'a js \<Rightarrow> ('o, 'a) js_call" where
  "jret r t = (r, t)"

definition jcbind :: "('o, 'a) js_call \<Rightarrow> ('a \<Rightarrow> ('o, 'b) js_call) \<Rightarrow> ('o, 'b) js_call" where
  "jcbind c f t =
     (case c t of (Done x, t') \<Rightarrow> f x t' | (Thrown e, t') \<Rightarrow> (Thrown e, t') | (Trapped, t') \<Rightarrow> (Trapped, t'))"

definition js_handle :: "((handle_error + 'a) \<times> 'o htable) \<Rightarrow> 'a js \<times> 'o htable" where
  "js_handle x = (case x of (Inl e, t) \<Rightarrow> (Thrown (From_Handle e), t) | (Inr v, t) \<Rightarrow> (Done v, t))"

definition js_allocate :: "'o \<Rightarrow> ('o, int) js_call" where
  "js_allocate obj t = js_handle (allocate obj t)"

definition js_take :: "('o \<Rightarrow> 'a option) \<Rightarrow> int \<Rightarrow> ('o, 'a) js_call" where
  "js_take down h t = js_handle (handle_take down h t)"

definition wasm_handle_free :: "int \<Rightarrow> ('o, unit) js_call" where
  "wasm_handle_free h t = js_handle (handle_free h t)"

section \<open>Lemmas\<close>

lemma jbind_simps [simp]:
  "jbind (Done x) f = f x" "jbind (Thrown e) f = Thrown e" "jbind Trapped f = Trapped"
  by (simp_all add: jbind_def)

lemma js_of_simps [simp]:
  "js_of (Ok x) = Done x" "js_of (Err e) = Thrown (From_Lib e)" "js_of (Blamed i) = Thrown (From_Lib LIB_BLAME)"
  "js_of Panic = Trapped"
  by (simp_all add: js_of_def)

lemma js_ok_or_simps [simp]: "js_ok_or (Some x) e = Done x" "js_ok_or None e = Thrown e"
  by (simp_all add: js_ok_or_def)

lemma jbind_Done: "jbind m f = Done y \<longleftrightarrow> (\<exists>x. m = Done x \<and> f x = Done y)"
  by (cases m) simp_all

lemma js_of_Done [simp]: "js_of r = Done x \<longleftrightarrow> r = Ok x"
  by (cases r) simp_all

lemma js_of_rbind: "js_of (rbind m f) = jbind (js_of m) (\<lambda>x. js_of (f x))"
  by (cases m) simp_all

lemma js_ok_or_Done [simp]: "js_ok_or x e = Done y \<longleftrightarrow> x = Some y"
  by (cases x) simp_all

lemma jret_apply [simp]: "jret r t = (r, t)"
  by (simp add: jret_def)

end
