(* ===== verification/Monero_Spend.thy ===== *)
theory Monero_Spend
  imports Monero_Wallet Map_Codec
begin

text \<open>
  Spending Monero with a threshold of the signers: the signing half of
  \<^verbatim>\<open>fromt-lib/src/monero/spend.rs\<close> and the exported functions of \<^verbatim>\<open>fromt-lib/src/ffi/spend.rs\<close>. The
  signing machines of \<^verbatim>\<open>modular-frost\<close> and \<^verbatim>\<open>monero-wallet\<close> are the argument \<open>M\<close>. A machine that is
  consumed by the Rust method is an argument here and not a result; the machines that wait for the
  other signers are objects of the handle table, with the injections \<open>up\<close> and downcasts \<open>down\<close> as
  in the other exported functions. A \<^verbatim>\<open>HashMap\<close> that is only handed on to the crate is a map; the one
  whose entries are parsed one by one is the list of its entries, in the order they were inserted:
  \<open>parse_entries_perm\<close> shows that the unspecified order of the iteration does not matter.
\<close>

unbundle bit_operations_syntax

record ('part, 'params, 'f, 'pt, 'keys, 'kp, 'pk, 'i, 'vs, 'stx, 'machine, 'sm, 'pp, 'sigm, 'share, 'tx,
    'rng, 'mp, 'owd, 'vp, 'fee, 'addr) spender =
  participant_new :: "u16 \<Rightarrow> 'part option"
  kp_min_signers :: "'kp \<Rightarrow> u16"
  pk_verifying_shares :: "'pk \<Rightarrow> ('i \<times> 'vs) list"
  vs_serialize :: "'vs \<Rightarrow> bytes option"
  threshold_params_new :: "u16 \<Rightarrow> u16 \<Rightarrow> 'part \<Rightarrow> 'params option"
  threshold_keys_new :: "'params \<Rightarrow> 'f \<Rightarrow> ('part \<rightharpoonup> 'pt) \<Rightarrow> 'keys option"
  signable_read :: "bytes \<Rightarrow> 'stx option"
  signable_serialize :: "'stx \<Rightarrow> bytes"
  multisig :: "'stx \<Rightarrow> 'keys \<Rightarrow> 'machine option"
  machine_preprocess :: "'machine \<Rightarrow> 'rng \<Rightarrow> ('sm \<times> 'pp) \<times> 'rng"
  preprocess_write :: "'pp \<Rightarrow> bytes option"
  read_preprocess :: "'sm \<Rightarrow> bytes \<Rightarrow> 'pp option"
  machine_sign :: "'sm \<Rightarrow> ('part \<rightharpoonup> 'pp) \<Rightarrow> bytes \<Rightarrow> ('sigm \<times> 'share) option"
  share_write :: "'share \<Rightarrow> bytes option"
  read_share :: "'sigm \<Rightarrow> bytes \<Rightarrow> 'share option"
  machine_complete :: "'sigm \<Rightarrow> ('part \<rightharpoonup> 'share) \<Rightarrow> 'tx option"
  tx_serialize :: "'tx \<Rightarrow> bytes"
  tx_read :: "bytes \<Rightarrow> 'tx option"
  tx_hash :: "'tx \<Rightarrow> bytes"
  mscalar_random :: "'rng \<Rightarrow> 'f \<times> 'rng"
  next_u64 :: "'rng \<Rightarrow> u64 \<times> 'rng"
  mpoint_decompress :: "bytes \<Rightarrow> 'mp option"
  mpoint_compress :: "'mp \<Rightarrow> bytes"
  commit_amount :: "'f \<Rightarrow> u64 \<Rightarrow> 'mp"
  owd_read :: "bytes \<Rightarrow> 'owd option"
  legacy_address_string :: "'vp \<Rightarrow> bytes"
  network_address_from_str :: "u8 \<Rightarrow> bytes \<Rightarrow> 'addr option"
  fee_rate_new :: "u64 \<Rightarrow> u64 \<Rightarrow> 'fee option"

section \<open>The keys of a signer\<close>

text \<open>One turn of the loop over the verifying shares.\<close>

definition convert_share where
  "convert_share L K M e =
     rbind (fromt_identifier_to_u16 L (fst e)) (\<lambda>pid.
     rbind (ser_err (vs_serialize M (snd e))) (\<lambda>share_bytes.
     rbind (to_array 32 share_bytes) (\<lambda>share_arr.
     rbind (ok_or (decompress K share_arr) LIB_SERIALIZATION_ERROR) (\<lambda>point.
     rbind (expect (participant_new M pid)) (\<lambda>part. Ok (part, point))))))"

primrec convert_shares where
  "convert_shares L K M [] shares = Ok shares"
| "convert_shares L K M (e # es) shares =
     rbind (convert_share L K M e) (\<lambda>(part, point). convert_shares L K M es (shares(part \<mapsto> point)))"

definition convert_keyshare where
  "convert_keyshare L K M b =
     (let kp = fb_key_package b; pkp = fb_pub_key_package b in
      rbind (fromt_identifier_to_u16 L (kp_identifier L kp)) (\<lambda>my_id.
      let min_s = kp_min_signers M kp; max_s = word_of_nat (length (pk_verifying_shares M pkp)) in
      rbind (expect (participant_new M my_id)) (\<lambda>me.
      rbind (ser_err (threshold_params_new M min_s max_s me)) (\<lambda>params.
      rbind (to_array 32 (f_serialize K (kp_signing_share L kp))) (\<lambda>secret_arr.
      rbind (expect (from_canonical_bytes K secret_arr)) (\<lambda>secret_scalar.
      rbind (convert_shares L K M (pk_verifying_shares M pkp) Map.empty) (\<lambda>verification_shares.
        ser_err (threshold_keys_new M params secret_scalar verification_shares))))))))"

section \<open>The three steps\<close>

definition spend_preprocess where
  "spend_preprocess M signable keys rng =
     rbind (ok_or (multisig M signable keys) LIB_SIGNING_ERROR) (\<lambda>machine.
     let ((sign_machine, preprocess), _) = machine_preprocess M machine rng in
     rbind (ser_err (preprocess_write M preprocess)) (\<lambda>preprocess_bytes.
       Ok (sign_machine, preprocess_bytes)))"

text \<open>The loop that parses what the participants have sent.\<close>

primrec parse_entries :: "(bytes \<Rightarrow> 'v option) \<Rightarrow> ('part \<times> bytes) list \<Rightarrow> ('part \<rightharpoonup> 'v) \<Rightarrow> ('part \<rightharpoonup> 'v) res" where
  "parse_entries read_one [] m = Ok m"
| "parse_entries read_one (e # es) m =
     rbind (ser_err (read_one (snd e))) (\<lambda>v. parse_entries read_one es (m(fst e \<mapsto> v)))"

definition spend_sign where
  "spend_sign M sign_machine preprocesses =
     rbind (parse_entries (read_preprocess M sign_machine) preprocesses Map.empty) (\<lambda>parsed_preprocesses.
     rbind (ok_or (machine_sign M sign_machine parsed_preprocesses []) LIB_SIGNING_ERROR) (\<lambda>(sig_machine, share).
     rbind (ser_err (share_write M share)) (\<lambda>share_bytes.
       Ok (sig_machine, share_bytes))))"

text \<open>The second serialization is only compared with the first for the log.\<close>

definition spend_complete where
  "spend_complete M sig_machine shares =
     rbind (parse_entries (read_share M sig_machine) shares Map.empty) (\<lambda>parsed_shares.
     rbind (ok_or (machine_complete M sig_machine parsed_shares) LIB_SIGNING_ERROR) (\<lambda>tx.
     let tx_bytes = tx_serialize M tx in
     rbind (ser_err (tx_read M tx_bytes)) (\<lambda>tx2. Ok tx_bytes)))"

section \<open>The exported functions\<close>

text \<open>The loops that turn the decoded map into one with participants as keys.\<close>

definition participant_entries where
  "participant_entries M raw_map =
     rmap (\<lambda>e. rbind (expect (participant_new M (fst e))) (\<lambda>p. Ok (p, snd e))) (raw_map :: (u16 \<times> bytes) list)"

definition fromt_spend_preprocess where
  "fromt_spend_preprocess L K M up rng key_share signable_tx (out_handle :: unit option) (out_preprocess :: unit option) =
     exported (
       cbind (nonnull key_share) (\<lambda>ks_data.
       cbind (nonnull signable_tx) (\<lambda>st_data.
       cbind (nonnull out_handle) (\<lambda>_.
       cbind (nonnull out_preprocess) (\<lambda>_.
       cbind (cret (
         rbind (fromt_bundle_deserialize L (as_slice ks_data)) (\<lambda>b.
         rbind (convert_keyshare L K M b) (\<lambda>keys.
         rbind (ser_err (signable_read M (as_slice st_data))) (\<lambda>signable.
           spend_preprocess M signable keys rng))))) (\<lambda>(sign_machine, preprocess_bytes).
       cbind (h_allocate (up sign_machine)) (\<lambda>h.
         cret (Ok (h, preprocess_bytes)))))))))"

definition fromt_spend_sign where
  "fromt_spend_sign M down up handle preprocesses_map (out_handle :: unit option) (out_share :: unit option) =
     exported (
       cbind (nonnull preprocesses_map) (\<lambda>pp_data.
       cbind (nonnull out_handle) (\<lambda>_.
       cbind (nonnull out_share) (\<lambda>_.
       cbind (h_take down handle) (\<lambda>sign_machine.
       cbind (cret (
         rbind (decode_u16_map (as_slice pp_data)) (\<lambda>raw_map.
         rbind (participant_entries M raw_map) (\<lambda>preprocesses.
           spend_sign M sign_machine preprocesses)))) (\<lambda>(sig_machine, share_bytes).
       cbind (h_allocate (up sig_machine)) (\<lambda>h.
         cret (Ok (h, share_bytes)))))))))"

definition fromt_spend_complete where
  "fromt_spend_complete M down handle shares_map (out_raw_tx :: unit option) =
     exported (
       cbind (nonnull shares_map) (\<lambda>sm_data.
       cbind (nonnull out_raw_tx) (\<lambda>_.
       cbind (h_take down handle) (\<lambda>sig_machine.
       cret (
         rbind (decode_u16_map (as_slice sm_data)) (\<lambda>raw_map.
         rbind (participant_entries M raw_map) (\<lambda>shares.
           spend_complete M sig_machine shares)))))))"

section \<open>Rings\<close>

text \<open>\<^verbatim>\<open>write_varint\<close>: seven bits a byte, the lowest first, with the high bit set on all but the last.\<close>

function write_varint :: "u64 \<Rightarrow> bytes" where
  "write_varint v =
     (let b = ucast (v AND 0x7F) :: u8; v' = drop_bit 7 v in
      if v' = 0 then [b] else (b OR 0x80) # write_varint v')"
  by pat_completeness auto

lemma unat_drop_7: "unat (drop_bit 7 (v :: u64)) = unat v div 128"
  by (simp add: drop_bit_eq_div unat_div)

termination write_varint
proof (relation "measure unat")
  fix v v' :: u64 and b
  assume v: "v' = drop_bit 7 v" "v' \<noteq> 0"
  from v(2) have "0 < unat v'" by (metis gr0I unat_eq_zero)
  moreover have "unat v' = unat v div 128" by (simp only: v(1) unat_drop_7)
  ultimately have "unat v' < unat v" by simp
  then show "(v', v) \<in> measure unat" by simp
qed simp

declare write_varint.simps [simp del]

text \<open>
  The ring in the order of the chain: the members with their positions, sorted by the global index
  (a stable sort), the new position of the member \<open>real_index\<close>, cut to a byte, and the differences
  of consecutive indices.
\<close>

definition sorted_ring :: "('m \<Rightarrow> u64) \<Rightarrow> 'm list \<Rightarrow> (nat \<times> 'm) list" where
  "sorted_ring gi members = sort_key (\<lambda>(_, m). gi m) (enumerate 0 members)"

primrec ring_position :: "nat \<Rightarrow> (nat \<times> 'm) list \<Rightarrow> nat \<Rightarrow> u8 option" where
  "ring_position real_index [] new_pos = None"
| "ring_position real_index (x # xs) new_pos =
     (if fst x = real_index then Some (word_of_nat new_pos) else ring_position real_index xs (new_pos + 1))"

primrec ring_offsets :: "u64 list \<Rightarrow> u64 \<Rightarrow> u64 list" where
  "ring_offsets [] prev = []"
| "ring_offsets (g # gs) prev = (g - prev) # ring_offsets gs g"

definition encode_ring_offsets :: "u64 list \<Rightarrow> bytes" where
  "encode_ring_offsets offsets = concat (map write_varint offsets)"

section \<open>The transaction of the tests\<close>

text \<open>
  \<^verbatim>\<open>fromt_test_create_signable_tx\<close> is exported with the others: a ring of sixteen members with the
  real one, spendable by the key share, at position three.
\<close>

definition test_ring_member where
  "test_ring_member K M real_amount out_pt commitment_mask i rng =
     (if i = (3 :: nat) then ((out_pt, commitment_mask, real_amount :: u64), rng)
      else
        let (d, rng) = mscalar_random M rng; (m, rng) = mscalar_random M rng; (a, rng) = next_u64 M rng
        in ((basepoint_mul K d, m, 500000000000 + a mod 1000000000000), rng))"

primrec test_ring where
  "test_ring K M real_amount out_pt commitment_mask [] rng = Ok ([], [], [], rng)"
| "test_ring K M real_amount out_pt commitment_mask (i # is) rng =
     (let ((dest, mask, amt), rng) = test_ring_member K M real_amount out_pt commitment_mask i rng in
      rbind (ok_or (mpoint_decompress M (compress K dest)) LIB_UNKNOWN_ERROR) (\<lambda>key.
      rbind (test_ring K M real_amount out_pt commitment_mask is rng) (\<lambda>(keys, commitments, indices, rng).
        Ok (key # keys, commit_amount M mask amt # commitments, (1000 + word_of_nat i :: u64) # indices, rng))))"

definition test_owd_bytes where
  "test_owd_bytes K M out_pt offs commitment_mask (amount :: u64) ring_keys ring_commitments global_indices =
     (let sorted = sorted_ring (\<lambda>g. g) global_indices in
      rbind (ok_or (ring_position 3 sorted 0) LIB_UNKNOWN_ERROR) (\<lambda>sorted_real_index.
      rbind (rmap (\<lambda>(orig_idx, _).
               if orig_idx < length ring_keys \<and> orig_idx < length ring_commitments
               then Ok (mpoint_compress M (ring_keys ! orig_idx) @ mpoint_compress M (ring_commitments ! orig_idx))
               else Panic) sorted) (\<lambda>members.
        Ok (compress K out_pt @ to_bytes K offs @ to_bytes K commitment_mask @ u64_le amount @
            write_varint (word_of_nat (length sorted)) @ encode_ring_offsets (ring_offsets (map snd sorted) 0) @
            [sorted_real_index] @ concat members))))"

definition fromt_test_create_signable_tx where
  "fromt_test_create_signable_tx L K W M rng key_share (out_signable_tx :: unit option) =
     exported (
       cbind (nonnull key_share) (\<lambda>ks_data.
       cbind (nonnull out_signable_tx) (\<lambda>_.
       cret (
         rbind (fromt_bundle_deserialize L (as_slice ks_data)) (\<lambda>b.
         rbind (view_pair_from_bundle L K W b) (\<lambda>view_pair.
         rbind (verifying_key_bytes L b) (\<lambda>group_key_bytes.
         rbind (to_array 32 group_key_bytes) (\<lambda>gk_arr.
         rbind (ok_or (decompress K gk_arr) LIB_UNKNOWN_ERROR) (\<lambda>group_key_point.
         let (commitment_mask, rng) = mscalar_random M rng; (offs, rng) = mscalar_random M rng;
             out_key = group_key_point + basepoint_mul K offs; amt = 1000000000000
         in
         rbind (test_ring K M amt out_key commitment_mask [0..<unat RING_LEN] rng)
           (\<lambda>(ring_keys, ring_commitments, global_indices, rng).
         rbind (test_owd_bytes K M out_key offs commitment_mask amt ring_keys ring_commitments global_indices) (\<lambda>owd_buf.
         rbind (ser_err (owd_read M owd_buf)) (\<lambda>owd.
         rbind (ok_or (address_from_str W (legacy_address_string M view_pair)) LIB_UNKNOWN_ERROR) (\<lambda>recipient.
         let (outgoing_view, rng) = os_random32 W rng in
         rbind (ok_or (fee_rate_new M 20 10000) LIB_UNKNOWN_ERROR) (\<lambda>rate.
         rbind (ok_or (signable_new W outgoing_view [owd] [(recipient, 500000000000)] (change_new W view_pair) [] rate)
                  LIB_SIGNING_ERROR) (\<lambda>signable.
           Ok (signable_serialize M signable))))))))))))))))"

end
