(* ===== verification/Monero_Spend_Properties.thy ===== *)
theory Monero_Spend_Properties
  imports Monero_Spend
begin

text \<open>
  What the signing steps of a Monero spend promise: a signing machine, which holds the nonces of a
  signature, is used at most once; what the other signers have sent reaches the machine under their
  identifiers; and a map with the identifier zero costs the caller the machine. The last part has
  the bytes of a ring: variable-length integers and offsets of sorted indices.
\<close>

section \<open>Parsing the entries of the other participants\<close>

lemma parse_entries_cases:
  "parse_entries r es m = (if \<forall>e \<in> set es. r (snd e) \<noteq> None
     then Ok (m ++ map_of (rev (map (\<lambda>e. (fst e, the (r (snd e)))) es))) else Err LIB_SERIALIZATION_ERROR)"
proof (induction es arbitrary: m)
  case (Cons e es)
  show ?case by (cases "r (snd e)") (simp_all add: ser_err_def Cons.IH)
qed simp

text \<open>The order in which a \<^verbatim>\<open>HashMap\<close> hands out its entries does not matter.\<close>

lemma map_of_distinct_perm:
  assumes "mset xs = mset ys" "distinct (map fst xs)"
  shows "map_of xs = map_of ys"
proof -
  have "distinct (map fst ys)" using assms by (metis mset_eq_imp_distinct_iff mset_map)
  then show ?thesis using assms map_of_inject_set [of xs ys] by (metis mset_eq_setD)
qed

lemma map_of_rev_distinct: "distinct (map fst xs) \<Longrightarrow> map_of (rev xs) = map_of xs"
  by (rule map_of_distinct_perm) (simp_all flip: rev_map)

lemma parse_entries_perm:
  assumes "mset es = mset es'" "distinct (map fst es)"
  shows "parse_entries r es m = parse_entries r es' m"
proof -
  let ?f = "\<lambda>es. rev (map (\<lambda>e. (fst e, the (r (snd e)))) es)"
  have "map_of (?f es) = map_of (?f es')"
    using assms by (intro map_of_distinct_perm) (simp_all add: o_def mset_rev flip: rev_map)
  then show ?thesis using mset_eq_setD [OF assms(1)] by (simp add: parse_entries_cases)
qed

section \<open>Handles\<close>

lemma has_session_take:
  assumes "has_session down up h s st"
  obtains t where "h_take down h st = (Ok s, st\<lparr>table := t\<rparr>)" "table_wf t"
    "entries t = (entries (table st))(h := None)" "length (hmap t) < MAX_HANDLES"
proof -
  have a: "table_wf (table st)" "h \<noteq> 0" "entries (table st) h = Some (Some (up s))" "down (up s) = Some s"
    using assms by (auto simp: has_session_def)
  from handles.remove_ok [where down = down, OF a] obtain t where t: "handle_take down h (table st) = (Inr s, t)"
    "table_wf t" "entries t = (entries (table st))(h := None)" by blast
  have "map_of (hmap (table st)) h = Some (Some (up s))" using a(3) by simp
  then have "hmap t = AList.delete h (hmap (table st))" "h \<in> fst ` set (hmap (table st))"
    using t(1) a(2,4) by (auto simp: handle_take_def dest: map_of_SomeD intro: rev_image_eqI split: if_splits)
  then have "length (hmap t) < length (hmap (table st))"
    by (auto simp: AList.delete_eq intro!: length_filter_less)
  then have "length (hmap t) < MAX_HANDLES" using a(1) by (simp add: table_wf_def)
  with t show thesis by (intro that [of t]) (simp_all add: h_take_def lift_handle_def)
qed

text \<open>An allocation leaves every other entry as it is, whether it succeeds or not.\<close>

lemma h_allocate_entries:
  assumes "table_wf (table st)" "h_allocate obj st = (r, st')"
  shows "entries (table st') h = entries (table st) h \<or>
    entries (table st) h = None \<and> entries (table st') h = Some (Some obj)"
  using assms(1) by (rule allocate_cases [where obj = obj]) (use assms(2) in \<open>auto simp: h_allocate_def lift_handle_def split: if_splits\<close>)

text \<open>A new object that is allocated from a result and handed out with some bytes.\<close>

lemma entries_exported [simp]: "exported c st = (e, r, st') \<Longrightarrow> table st' = table (snd (c st))"
  by (auto simp: exported_def Let_def split: prod.splits)

lemma allocate_result_entries:
  assumes "table_wf (table st)" "entries (table st) h = None"
  shows "entries (table (snd (cbind (cret x) (\<lambda>(m, b). cbind (h_allocate (up m)) (\<lambda>h. cret (Ok (h, b)))) st))) h
    \<in> {None} \<union> range (\<lambda>m. Some (Some (up m)))"
proof (cases x)
  case (Ok y)
  obtain m b where y: "y = (m, b)" by fastforce
  obtain r st' where a: "h_allocate (up m) st = (r, st')" by fastforce
  then show ?thesis
    using h_allocate_entries [OF assms(1) a, of h] assms(2)
    by (cases r) (auto simp: Ok y cbind_def cret_def)
qed (use assms(2) in \<open>simp_all add: cbind_def cret_def\<close>)

section \<open>Properties\<close>

text \<open>C15: A signing machine is used at most once. Whatever the call of \<^verbatim>\<open>fromt_spend_sign\<close> on it does,
  with a valid or an invalid map, a success, an error or a panic, a second call on the same handle
  does not sign: it reports that the handle is invalid, or, should the number have been given to the next
  machine, that it has another type. So the nonces of a preprocessing are never used with two sets of
  signers.\<close>

theorem signing_machine_used_once:
  assumes "has_session down up h sm st" "\<And>x. down (up' x) = None"
    and "fromt_spend_sign M down up' h (Some pp) (Some ()) (Some ()) st = (e, r, st')"
  shows "fst (fromt_spend_sign M down up' h (Some pp') (Some ()) (Some ()) st')
    \<in> {LIB_INVALID_HANDLE, LIB_INVALID_HANDLE_TYPE}"
proof -
  from assms(1) obtain t where t: "h_take down h st = (Ok sm, st\<lparr>table := t\<rparr>)" "table_wf t"
    "entries t = (entries (table st))(h := None)" by (rule has_session_take)
  have h: "h \<noteq> 0" using assms(1) by (simp add: has_session_def)
  have "entries (table st') h = None \<or> (\<exists>x. entries (table st') h = Some (Some (up' x)))"
    using assms(3) allocate_result_entries [of "st\<lparr>table := t\<rparr>" h _ up'] t
    by (auto simp: fromt_spend_sign_def cbind_def [of "h_take _ _"] dest!: entries_exported)
  then show ?thesis
    using h assms(2)
    by (auto simp: fromt_spend_sign_def h_take_def lift_handle_def handle_take_def exported_def
        cbind_def with_error_handler_def cret_def)
qed

text \<open>The participants of \<^verbatim>\<open>modular-frost\<close>: every identifier but zero has one, and only one.\<close>

definition participants_ok where
  "participants_ok M \<longleftrightarrow> participant_new M 0 = None \<and> (\<forall>i. i \<noteq> 0 \<longrightarrow> participant_new M i \<noteq> None) \<and>
     inj_on (participant_new M) {i. i \<noteq> 0}"

abbreviation participant where "participant M i \<equiv> the (participant_new M i)"

lemma participant_entries_Ok:
  assumes "participants_ok M" "\<forall>e \<in> set es. fst e \<noteq> 0"
  shows "participant_entries M es = Ok (map (\<lambda>e. (participant M (fst e), snd e)) es)"
  using assms(2)
proof (induction es)
  case (Cons e es)
  then obtain p where "participant_new M (fst e) = Some p" using assms(1) by (auto simp: participants_ok_def)
  with Cons show ?case by (simp add: participant_entries_def expect_def)
qed (simp add: participant_entries_def)

lemma participant_entries_zero:
  assumes "participant_new M 0 = None" "(0, b) \<in> set es"
  shows "participant_entries M es = Panic"
  using assms(2)
proof (induction es)
  case (Cons e es)
  then show ?case using assms(1)
    by (cases "participant_new M (fst e)") (auto simp: participant_entries_def expect_def)
qed simp

lemma distinct_participants:
  assumes "participants_ok M" "distinct (map fst es)" "\<forall>e \<in> set es. fst e \<noteq> 0"
  shows "distinct (map (\<lambda>e. participant M (fst e)) es)"
proof -
  have "inj_on (participant M) {i. i \<noteq> 0}"
    using assms(1) by (auto simp: participants_ok_def inj_on_def) (metis option.expand option.sel)
  then have "inj_on (participant M) (set (map fst es))" by (rule inj_on_subset) (use assms(3) in auto)
  then have "distinct (map (participant M) (map fst es))" using assms(2) by (simp only: distinct_map)
  then show ?thesis by (simp add: o_def)
qed

text \<open>A map of values that are serialized one by one is the map of their bytes.\<close>

lemma encode_map_values:
  assumes "encode_map ek (\<lambda>v. ser_err (w v)) m = Ok buf"
  shows "encode_map ek Ok (map (\<lambda>e. (fst e, the (w (snd e)))) m) = Ok buf \<and> (\<forall>e \<in> set m. w (snd e) \<noteq> None)"
proof -
  have "encode_entries ek (\<lambda>v. ser_err (w v)) m acc = Ok buf \<Longrightarrow>
     encode_entries ek Ok (map (\<lambda>e. (fst e, the (w (snd e)))) m) acc = Ok buf \<and> (\<forall>e \<in> set m. w (snd e) \<noteq> None)" for acc
    by (induction m arbitrary: acc) (auto simp: ser_err_def rbind_eq_Ok ok_or_eq_Ok)
  then show ?thesis using assms by (simp add: encode_map_def)
qed

text \<open>What the machine writes for the others, it reads.\<close>

definition message_codec :: "('p \<Rightarrow> bytes option) \<Rightarrow> (bytes \<Rightarrow> 'p option) \<Rightarrow> bool" where
  "message_codec w r \<longleftrightarrow> (\<forall>p b. w p = Some b \<longrightarrow> r b = Some p \<and> fits32 b)"

lemma decoded_peers:
  assumes "participants_ok M" "message_codec w r" "bt_wf peers" "length peers < 2 ^ 32" "\<forall>e \<in> set peers. fst e \<noteq> 0"
    and "encode_map (\<lambda>k. Ok (u16_le k)) (\<lambda>p. ser_err (w p)) peers = Ok buf"
  shows "rbind (decode_u16_map buf) (\<lambda>raw. rbind (participant_entries M raw) (\<lambda>es. parse_entries r es Map.empty))
    = Ok (map_of (map (\<lambda>e. (participant M (fst e), snd e)) peers))"
proof -
  let ?raw = "map (\<lambda>e. (fst e, the (w (snd e)))) peers"
  note enc = encode_map_values [OF assms(6)]
  have wr: "w (snd e) = Some (the (w (snd e)))" "r (the (w (snd e))) = Some (snd e)" "fits32 (the (w (snd e)))"
    if "e \<in> set peers" for e using enc assms(2) that by (auto simp: message_codec_def)
  have "bt_wf ?raw" using assms(3) by (simp add: bt_wf_def o_def)
  moreover have "\<forall>e \<in> set ?raw. entry_fits (\<lambda>k. Ok (u16_le k)) Ok e"
    using wr(3) by (auto simp: entry_fits_def fits32_def)
  ultimately have "decode_u16_map buf = Ok ?raw"
    using u16_map.decode_encode [of ?raw buf "[]"] enc assms(4) by (simp add: decode_u16_map_def)
  moreover have "participant_entries M ?raw = Ok (map (\<lambda>e. (participant M (fst e), the (w (snd e)))) peers)"
    using participant_entries_Ok [OF assms(1), of ?raw] assms(5) by (simp add: o_def)
  moreover have "map_of (rev (map (\<lambda>e. (participant M (fst e), the (r (the (w (snd e)))))) peers))
      = map_of (map (\<lambda>e. (participant M (fst e), snd e)) peers)"
  proof -
    have "map (\<lambda>e. (participant M (fst e), the (r (the (w (snd e)))))) peers
       = map (\<lambda>e. (participant M (fst e), snd e)) peers" using wr(2) by simp
    moreover have "distinct (map fst peers)" using assms(3) by (simp add: bt_wf_def strict_sorted_iff)
    ultimately show ?thesis using distinct_participants [OF assms(1) _ assms(5)]
      by (simp only: map_of_rev_distinct map_map o_def fst_conv)
  qed
  ultimately show ?thesis using wr(2) by (simp add: parse_entries_cases o_def)
qed

text \<open>What the other signers have sent reaches the machine. When the map holds the preprocesses of the
  others under their non-zero identifiers, as the machines have written them, \<^verbatim>\<open>fromt_spend_sign\<close> hands
  the machine exactly these preprocesses, each under its participant, and no message; the share it
  writes comes back to the caller, with a handle behind which the next machine is.\<close>

theorem peers_reach_the_machine:
  assumes "has_session down up h sm st" "\<And>x. down' (up' x) = Some x" "participants_ok M"
    and "message_codec (preprocess_write M) (read_preprocess M sm)"
    and "bt_wf peers" "length peers < 2 ^ 32" "\<forall>e \<in> set peers. fst e \<noteq> 0"
    and "encode_map (\<lambda>k. Ok (u16_le k)) (\<lambda>p. ser_err (preprocess_write M p)) peers = Ok buf"
    and "machine_sign M sm (map_of (map (\<lambda>e. (participant M (fst e), snd e)) peers)) [] = Some (sigm, share)"
    and "share_write M share = Some share_bytes"
  shows "\<exists>h' st'. fromt_spend_sign M down up' h (Some (go_slice_of buf)) (Some ()) (Some ()) st
      = (LIB_OK, Some (h', share_bytes), st') \<and> has_session down' up' h' sigm st'"
proof -
  from assms(1) obtain t where t: "h_take down h st = (Ok sm, st\<lparr>table := t\<rparr>)" "table_wf t"
    "length (hmap t) < MAX_HANDLES" by (rule has_session_take)
  have "rbind (decode_u16_map buf) (\<lambda>raw. rbind (participant_entries M raw) (\<lambda>es. spend_sign M sm es))
    = rbind (rbind (decode_u16_map buf) (\<lambda>raw. rbind (participant_entries M raw)
        (\<lambda>es. parse_entries (read_preprocess M sm) es Map.empty)))
      (\<lambda>m. rbind (ok_or (machine_sign M sm m []) LIB_SIGNING_ERROR) (\<lambda>(sigm, share).
         rbind (ser_err (share_write M share)) (\<lambda>b. Ok (sigm, b))))"
    by (simp add: spend_sign_def rbind_assoc)
  also have "\<dots> = Ok (sigm, share_bytes)"
    using assms(9,10) by (simp add: decoded_peers [OF assms(3-8)] ser_err_def)
  finally have sign: "rbind (decode_u16_map buf) (\<lambda>raw. rbind (participant_entries M raw) (\<lambda>es. spend_sign M sm es))
    = Ok (sigm, share_bytes)" .
  obtain h' t' where a: "h_allocate (up' sigm) (st\<lparr>table := t\<rparr>) = (Ok h', st\<lparr>table := t'\<rparr>)" "h' \<noteq> 0" "table_wf t'"
    "entries t' = (entries t)(h' \<mapsto> Some (up' sigm))"
    using h_allocate_ok [of "st\<lparr>table := t\<rparr>" "up' sigm"] t(2,3) by auto
  have "has_session down' up' h' sigm (st\<lparr>table := t'\<rparr>)"
    using a assms(2) by (simp add: has_session_def)
  moreover have "fromt_spend_sign M down up' h (Some (go_slice_of buf)) (Some ()) (Some ()) st
      = (LIB_OK, Some (h', share_bytes), st\<lparr>table := t'\<rparr>)"
    unfolding fromt_spend_sign_def
    by (rule exported_Ok) (simp add: cbind_def [of "h_take _ _"] t(1) sign cbind_def [of "h_allocate _"] a(1) cret_def)
  ultimately show ?thesis by blast
qed

text \<open>A map with an entry for the identifier zero, which no participant has, makes \<^verbatim>\<open>fromt_spend_sign\<close>
  panic after it has taken the machine: the code is \<^verbatim>\<open>LIB_UNKNOWN_ERROR\<close>, not an error of the
  serialization, and the machine is gone with its nonces, although nothing was signed.\<close>

theorem zero_participant_destroys_machine:
  assumes "has_session down up h sm st" "participant_new M 0 = None"
    and "decode_u16_map (as_slice pp) = Ok raw" "(0, b) \<in> set raw"
  shows "\<exists>st'. fromt_spend_sign M down up' h (Some pp) (Some ()) (Some ()) st = (LIB_UNKNOWN_ERROR, None, st') \<and>
    entries (table st') = (entries (table st))(h := None)"
proof -
  from assms(1) obtain t where t: "h_take down h st = (Ok sm, st\<lparr>table := t\<rparr>)"
    "entries t = (entries (table st))(h := None)" by (rule has_session_take)
  show ?thesis
    by (intro exI [of _ "st\<lparr>table := t\<rparr>"])
      (simp add: fromt_spend_sign_def exported_def with_error_handler_def cbind_def [of "h_take _ _"] cbind_def [of "cret _"]
        t assms(3) participant_entries_zero [OF assms(2,4)] cret_def)
qed

section \<open>Variable-length integers\<close>

text \<open>The reference reader, over the naturals: the next integer and what follows it.\<close>

fun read_varint :: "bytes \<Rightarrow> (nat \<times> bytes) option" where
  "read_varint [] = None"
| "read_varint (b # bs) =
     (if unat b < 128 then Some (unat b, bs)
      else map_option (\<lambda>(v, rest). (unat b - 128 + 128 * v, rest)) (read_varint bs))"

lemma unat_low_7: "unat (ucast (v AND 0x7F :: u64) :: u8) = unat v mod 128"
proof -
  have "v AND 0x7F = take_bit 7 v" by (simp add: take_bit_eq_mask mask_eq_exp_minus_1)
  then have "unat (v AND 0x7F) = unat v mod 128" by (simp add: take_bit_eq_mod unat_mod)
  moreover have "unat v mod 128 < 256" by (rule less_trans [of _ 128]) simp_all
  ultimately show ?thesis by (simp add: unsigned_ucast_eq take_bit_eq_mod)
qed

lemma unat_or_128: assumes "unat (x :: u8) < 128" shows "unat (x OR 0x80) = unat x + 128"
proof -
  have "unat (take_bit 7 x) = unat x" using assms by (simp add: take_bit_eq_mod unat_mod)
  then have "x = take_bit 7 x" by (simp add: word_unat_eq_iff)
  then have "x AND push_bit 7 1 = take_bit 7 x AND push_bit 7 1" by (rule arg_cong)
  also have "\<dots> = 0" by (rule bit_word_eqI) (auto simp: bit_and_iff bit_take_bit_iff bit_push_bit_iff simp del: push_bit_of_1 push_bit_numeral)
  finally have "x AND 0x80 = 0" by simp
  then have "x OR 0x80 = x + 0x80" by (simp only: disjunctive_add_eq_or)
  then show ?thesis using assms by (simp add: unat_plus_simple unat_word_ariths)
qed

lemma drop_7_zero: "drop_bit 7 (v :: u64) = 0 \<longleftrightarrow> unat v < 128"
  by (metis unat_drop_7 unat_eq_zero div_eq_0_iff numeral_neq_zero)

lemma varint_unfold:
  "write_varint v = (if unat v < 128 then [ucast (v AND 0x7F)]
     else (ucast (v AND 0x7F) OR 0x80) # write_varint (drop_bit 7 v))"
  by (subst write_varint.simps) (simp add: Let_def drop_7_zero)

lemma varint_reads_back: "read_varint (write_varint v @ rest) = Some (unat v, rest)"
proof (induction v rule: write_varint.induct)
  case (1 v)
  show ?case
  proof (cases "unat v < 128")
    case True
    then show ?thesis by (subst varint_unfold) (simp add: unat_low_7)
  next
    case False
    then have "drop_bit 7 v \<noteq> 0" by (simp only: drop_7_zero) simp
    from 1 [OF refl refl this] False show ?thesis
      by (subst varint_unfold) (simp add: unat_or_128 unat_low_7 unat_drop_7 mod_mult_div_eq)
  qed
qed

lemma varint_length:
  "unat v < 128 ^ length (write_varint v) \<and> (length (write_varint v) = 1 \<or> 128 ^ (length (write_varint v) - 1) \<le> unat v) \<and> write_varint v \<noteq> []"
proof (induction v rule: write_varint.induct)
  case (1 v)
  show ?case
  proof (cases "unat v < 128")
    case True
    then show ?thesis by (subst (1 2 3 4) varint_unfold) simp
  next
    case False
    then have "drop_bit 7 v \<noteq> 0" by (simp only: drop_7_zero) simp
    note IH = 1 [OF refl refl this]
    obtain n where n: "length (write_varint (drop_bit 7 v)) = Suc n" using IH by (cases "write_varint (drop_bit 7 v)") auto
    have l: "length (write_varint v) = Suc (Suc n)" using False n by (subst varint_unfold) simp
    have "unat v div 128 < 128 ^ Suc n" "n = 0 \<or> 128 ^ n \<le> unat v div 128" using IH n by (auto simp only: unat_drop_7 length_Suc_conv) auto
    then have "unat v < 128 ^ Suc (Suc n)" "128 ^ Suc n \<le> unat v" using False
      by (auto simp: div_less_iff_less_mult less_eq_div_iff_mult_less_eq mult.commute)
    then show ?thesis using l by auto
  qed
qed

text \<open>C31: The loop of \<^verbatim>\<open>write_varint\<close> ends after as many rounds as the number has digits to the base 128,
  so at most ten, and writes a byte in each. No shorter sequence of digits has room for the number, and a reader gets
  the number back, whatever follows.\<close>

theorem varint_rounds:
  "read_varint (write_varint v @ rest) = Some (unat v, rest) \<and>
   length (write_varint v) = (LEAST n. 0 < n \<and> unat v < 128 ^ n) \<and> length (write_varint v) \<le> 10"
proof -
  let ?n = "length (write_varint v)"
  have n: "0 < ?n" "unat v < 128 ^ ?n" "?n = 1 \<or> 128 ^ (?n - 1) \<le> unat v" using varint_length [of v] by auto
  have "(LEAST n. 0 < n \<and> unat v < 128 ^ n) = ?n"
  proof (rule Least_equality)
    fix m assume m: "0 < m \<and> unat v < 128 ^ m"
    show "?n \<le> m"
    proof (rule ccontr)
      assume "\<not> ?n \<le> m"
      then have "(128 :: nat) ^ m \<le> 128 ^ (?n - 1)" by (intro power_increasing) simp_all
      with m have "unat v < 128 ^ (?n - 1)" by linarith
      with n(3) m \<open>\<not> ?n \<le> m\<close> show False by (elim disjE) linarith+
    qed
  qed (use n in simp)
  moreover have "?n \<le> 10"
  proof (rule ccontr)
    assume "\<not> ?n \<le> 10"
    then have big: "(128 :: nat) ^ 10 \<le> 128 ^ (?n - 1)" by (intro power_increasing) simp_all
    have "unat v < 2 ^ 64" using unsigned_less [where 'a = nat, of v] by simp
    then have "unat v < 128 ^ 10" by (rule less_trans) simp
    with big show False using n(3) \<open>\<not> ?n \<le> 10\<close> by (elim disjE) linarith+
  qed
  ultimately show ?thesis by (simp add: varint_reads_back)
qed

section \<open>Rings\<close>

text \<open>The sums of the offsets up to each member, over the naturals: the reference reading of the offsets.\<close>

primrec absolute_indices :: "nat list \<Rightarrow> nat \<Rightarrow> nat list" where
  "absolute_indices [] prev = []"
| "absolute_indices (d # ds) prev = (prev + d) # absolute_indices ds (prev + d)"

lemma absolute_ring_offsets:
  "sorted (map unat (p # gs)) \<Longrightarrow> absolute_indices (map unat (ring_offsets gs p)) (unat p) = map unat gs"
proof (induction gs arbitrary: p)
  case (Cons g gs)
  then have "p \<le> g" by (simp add: word_le_nat_alt)
  then have "unat p + unat (g - p) = unat g" by (simp add: unat_sub word_le_nat_alt)
  with Cons show ?case by simp
qed simp

lemma sorted_ring_simps:
  "mset (sorted_ring gi ms) = mset (enumerate 0 ms)" "length (sorted_ring gi ms) = length ms"
  "sorted (map (\<lambda>(_, m). gi m) (sorted_ring gi ms))"
  by (simp_all add: sorted_ring_def sorted_sort_key)

lemma ring_position_nth:
  "ring_position r xs n = Some p \<Longrightarrow> \<exists>k < length xs. p = word_of_nat (n + k) \<and> fst (xs ! k) = r"
proof (induction xs arbitrary: n)
  case (Cons x xs)
  show ?case
  proof (cases "fst x = r")
    case True
    then show ?thesis using Cons.prems by (intro exI [of _ 0]) simp
  next
    case False
    then obtain k where "k < length xs" "p = word_of_nat (n + 1 + k)" "fst (xs ! k) = r"
      using Cons.IH [of "n + 1"] Cons.prems by auto
    then show ?thesis by (intro exI [of _ "Suc k"]) simp
  qed
qed simp

lemma ring_position_exists: "r \<in> fst ` set xs \<Longrightarrow> \<exists>p. ring_position r xs n = Some p"
  by (induction xs arbitrary: n) auto

lemma real_member_position:
  assumes "r < length ms" "length ms \<le> 256"
  shows "\<exists>p. ring_position r (sorted_ring gi ms) 0 = Some p \<and> unat p < length ms \<and>
    sorted_ring gi ms ! unat p = (r, ms ! r)"
proof -
  have set: "set (sorted_ring gi ms) = set (enumerate 0 ms)" using sorted_ring_simps(1) by (rule mset_eq_setD)
  have "(r, ms ! r) \<in> set (sorted_ring gi ms)" using assms(1) by (simp add: set in_set_enumerate_eq)
  then have "r \<in> fst ` set (sorted_ring gi ms)" by (metis fst_conv image_eqI)
  then obtain p where p: "ring_position r (sorted_ring gi ms) 0 = Some p" using ring_position_exists by metis
  from ring_position_nth [OF p] obtain k where k: "k < length ms" "p = word_of_nat k" "fst (sorted_ring gi ms ! k) = r"
    by (auto simp: sorted_ring_simps(2))
  have "unat p = k" using k(1,2) assms(2) by (simp add: unsigned_of_nat take_bit_nat_eq_self)
  moreover have "sorted_ring gi ms ! k \<in> set (enumerate 0 ms)" using k(1) by (simp add: sorted_ring_simps(2) flip: set)
  then have "sorted_ring gi ms ! k = (r, ms ! r)"
    using k(3) by (auto simp: in_set_enumerate_eq prod_eq_iff)
  ultimately show ?thesis using p k(1) by simp
qed

section \<open>Concrete instances\<close>

text \<open>Two signers; a machine reads a preprocess that is not empty and signs with those of both others.\<close>

definition demo_spender ::
  "(u16, unit, nat, nat, unit, unit, unit, unit, unit, unit, unit, nat, bytes, bytes, bytes, bytes,
    nat, unit, unit, unit, unit, unit) spender" where
  "demo_spender =
     \<lparr>participant_new = (\<lambda>i. if i = 0 then None else Some i), kp_min_signers = (\<lambda>k. 2),
      pk_verifying_shares = (\<lambda>p. []), vs_serialize = (\<lambda>v. Some []),
      threshold_params_new = (\<lambda>t n i. Some ()), threshold_keys_new = (\<lambda>p s v. Some ()),
      signable_read = (\<lambda>b. Some ()), signable_serialize = (\<lambda>s. []), multisig = (\<lambda>s k. Some ()),
      machine_preprocess = (\<lambda>m r. ((r, [7]), r)), preprocess_write = (\<lambda>p. if length p < 10 then Some p else None),
      read_preprocess = (\<lambda>m b. Some b),
      machine_sign = (\<lambda>sm m msg. if m 2 = Some [8] \<and> m 3 = Some [9] then Some ([1], [5, 5]) else None),
      share_write = (\<lambda>s. Some s), read_share = (\<lambda>m b. Some b),
      machine_complete = (\<lambda>m s. Some []), tx_serialize = (\<lambda>t. t), tx_read = Some, tx_hash = (\<lambda>t. t),
      mscalar_random = (\<lambda>r. (r, r + 1)), next_u64 = (\<lambda>r. (0, r)), mpoint_decompress = (\<lambda>b. Some ()),
      mpoint_compress = (\<lambda>p. []), commit_amount = (\<lambda>m a. ()), owd_read = (\<lambda>b. Some ()),
      legacy_address_string = (\<lambda>v. []), network_address_from_str = (\<lambda>n a. Some ()),
      fee_rate_new = (\<lambda>a b. Some ())\<rparr>"

definition down_sm :: "nat + bytes \<Rightarrow> nat option" where
  "down_sm x = (case x of Inl n \<Rightarrow> Some n | Inr b \<Rightarrow> None)"

definition down_sigm :: "nat + bytes \<Rightarrow> bytes option" where
  "down_sigm x = (case x of Inl n \<Rightarrow> None | Inr b \<Rightarrow> Some b)"

definition demo_spend_state :: "(nat + bytes) ffi" where
  "demo_spend_state = \<lparr>table = \<lparr>last_handle = 7, hmap = [(5, Some (Inl 3))]\<rparr>, blamed = 0\<rparr>"

lemma demo_has_machine: "has_session down_sm Inl 5 3 demo_spend_state"
  by (simp add: has_session_def demo_spend_state_def table_wf_def MAX_HANDLES_def down_sm_def)

theorem signing_machine_used_once_witness:
  "fst (fromt_spend_sign demo_spender down_sm Inr 5 (Some (go_slice_of [1])) (Some ()) (Some ())
     (snd (snd (fromt_spend_sign demo_spender down_sm Inr 5 (Some (go_slice_of [0])) (Some ()) (Some ()) demo_spend_state))))
   \<in> {LIB_INVALID_HANDLE, LIB_INVALID_HANDLE_TYPE}"
proof -
  obtain e r st' where c: "fromt_spend_sign demo_spender down_sm Inr 5 (Some (go_slice_of [0])) (Some ()) (Some ())
    demo_spend_state = (e, r, st')" by (metis surj_pair)
  from signing_machine_used_once [OF demo_has_machine _ this, of "go_slice_of [1]"] show ?thesis
    by (simp add: c down_sm_def)
qed

theorem peers_reach_the_machine_witness:
  "\<exists>h' st'. fromt_spend_sign demo_spender down_sm Inr 5
      (Some (go_slice_of [2, 0, 0, 0, 2, 0, 0, 0, 2, 0, 1, 0, 0, 0, 8, 2, 0, 0, 0, 3, 0, 1, 0, 0, 0, 9]))
      (Some ()) (Some ()) demo_spend_state = (LIB_OK, Some (h', [5, 5]), st') \<and> has_session down_sigm Inr h' [1] st'"
proof (rule peers_reach_the_machine [OF demo_has_machine, where peers = "[(2, [8]), (3, [9])]"])
  show "encode_map (\<lambda>k. Ok (u16_le k)) (\<lambda>p. ser_err (preprocess_write demo_spender p)) [(2, [8]), (3, [9])]
    = Ok [2, 0, 0, 0, 2, 0, 0, 0, 2, 0, 1, 0, 0, 0, 8, 2, 0, 0, 0, 3, 0, 1, 0, 0, 0, 9]" by code_simp
  show "message_codec (preprocess_write demo_spender) (read_preprocess demo_spender 3)"
    by (auto simp: message_codec_def demo_spender_def fits32_def split: if_splits)
qed (simp_all add: demo_spender_def participants_ok_def bt_wf_def inj_on_def down_sigm_def)

theorem zero_participant_destroys_machine_witness:
  "\<exists>st'. fromt_spend_sign demo_spender down_sm Inr 5 (Some (go_slice_of [1, 0, 0, 0, 2, 0, 0, 0, 0, 0, 1, 0, 0, 0, 8]))
      (Some ()) (Some ()) demo_spend_state = (LIB_UNKNOWN_ERROR, None, st') \<and>
    entries (table st') = (entries (table demo_spend_state))(5 := None)"
proof (rule zero_participant_destroys_machine [OF demo_has_machine])
  show "decode_u16_map (as_slice (go_slice_of [1, 0, 0, 0, 2, 0, 0, 0, 0, 0, 1, 0, 0, 0, 8])) = Ok [(0, [8])]" by code_simp
qed (simp_all add: demo_spender_def)

end
