(* ===== verification/Wasm_Spend.thy ===== *)
theory Wasm_Spend
  imports Wasm_Calls Monero_Spend_Properties
begin

text \<open>
  \<^verbatim>\<open>fromt-wasm/src/spend.rs\<close>: a host that has chosen inputs and decoys builds the transaction to
  sign (\<^verbatim>\<open>fromt_build_signable_tx\<close>), and the three signing steps of \<open>Monero_Spend\<close> are exported again.
  The formats of the inputs and of the decoys are parsed with 32-bit positions.
\<close>

section \<open>Inputs and decoys\<close>

record parsed_input =
  ts_amount :: u64
  ts_key_offset :: bytes
  ts_output_key :: bytes
  ts_commitment_mask :: bytes
  ts_global_index :: u64

record ring_member =
  rm_output_key :: bytes
  rm_commitment :: bytes
  rm_global_index :: u64

record parsed_ring =
  members :: "ring_member list"
  real_index :: u32

definition parse_ts_input :: "bytes \<Rightarrow> u32 \<Rightarrow> (parsed_input \<times> u32) js" where
  "parse_ts_input data off =
     jbind (js_slice data off (off + 8)) (\<lambda>amt.
     jbind (js_slice data (off + 8) (off + 40)) (\<lambda>ko.
     jbind (js_slice data (off + 40) (off + 72)) (\<lambda>ok.
     jbind (js_slice data (off + 72) (off + 104)) (\<lambda>cm.
     jbind (js_slice data (off + 104) (off + 112)) (\<lambda>gi.
       Done (\<lparr>ts_amount = u64_of_le amt, ts_key_offset = ko, ts_output_key = ok, ts_commitment_mask = cm,
              ts_global_index = u64_of_le gi\<rparr>, off + 112))))))"

primrec ts_records :: "(bytes \<Rightarrow> u32 \<Rightarrow> ('a \<times> u32) js) \<Rightarrow> nat \<Rightarrow> bytes \<Rightarrow> u32 \<Rightarrow> ('a list \<times> u32) js" where
  "ts_records one 0 data off = Done ([], off)"
| "ts_records one (Suc n) data off =
     jbind (one data off) (\<lambda>(x, off). jbind (ts_records one n data off) (\<lambda>(xs, off). Done (x # xs, off)))"

definition parse_ts_inputs :: "bytes \<Rightarrow> parsed_input list js" where
  "parse_ts_inputs data =
     (if length data < 4 then Thrown (Message ''inputs data too short'')
      else
        jbind (js_slice data 0 4) (\<lambda>c.
        let count = u32_of_le c; expected = 4 + count * 112 in
        if length data < unat expected then Thrown (Message ''inputs data: expected'')
        else
          jbind (ts_records parse_ts_input (unat count) data 4) (\<lambda>(inputs, off).
          if off \<noteq> expected then Thrown (Message ''inputs data: parsed'') else Done inputs)))"

definition parse_ts_member :: "bytes \<Rightarrow> u32 \<Rightarrow> (ring_member \<times> u32) js" where
  "parse_ts_member data off =
     jbind (js_slice data off (off + 32)) (\<lambda>ok.
     jbind (js_slice data (off + 32) (off + 64)) (\<lambda>cm.
     jbind (js_slice data (off + 64) (off + 72)) (\<lambda>gi.
       Done (\<lparr>rm_output_key = ok, rm_commitment = cm, rm_global_index = u64_of_le gi\<rparr>, off + 72))))"

definition parse_ts_ring :: "bytes \<Rightarrow> u32 \<Rightarrow> (parsed_ring \<times> u32) js" where
  "parse_ts_ring data off =
     (if length data < unat (off + 8) then Thrown (Message ''decoys data truncated at ring header'')
      else
        jbind (js_slice data off (off + 4)) (\<lambda>m.
        let member_count = u32_of_le m; off = off + 4 in
        jbind (js_slice data off (off + 4)) (\<lambda>r.
        let real_idx = u32_of_le r; off = off + 4 in
        if length data < unat (off + member_count * 72) then Thrown (Message ''decoys data truncated at ring members'')
        else
          jbind (ts_records parse_ts_member (unat member_count) data off) (\<lambda>(ms, off).
            Done (\<lparr>members = ms, real_index = real_idx\<rparr>, off)))))"

definition parse_ts_decoys :: "bytes \<Rightarrow> parsed_ring list js" where
  "parse_ts_decoys data =
     (if length data < 4 then Thrown (Message ''decoys data too short'')
      else
        jbind (js_slice data 0 4) (\<lambda>c.
        jbind (ts_records parse_ts_ring (unat (u32_of_le c)) data 4) (\<lambda>(rings, off).
        if unat off \<noteq> length data then Thrown (Message ''decoys data has trailing bytes'') else Done rings)))"

section \<open>An output with its decoys\<close>

definition serialize_output_with_decoys :: "parsed_input \<Rightarrow> parsed_ring \<Rightarrow> bytes js" where
  "serialize_output_with_decoys input ring =
     (let ms = members ring; r = unat (real_index ring) in
      if ms = [] then Thrown (Message ''ring must contain at least one member'')
      else if \<not> r < length ms then Thrown (Message ''real_index out of range for ring'')
      else if rm_global_index (ms ! r) \<noteq> ts_global_index input then
        Thrown (Message ''real member global index does not match input global index'')
      else
        let indexed = sorted_ring rm_global_index ms in
        jbind (js_ok_or (ring_position r indexed 0) (Message ''real_index not found after sorting ring'')) (\<lambda>sorted_signer_index.
          Done (ts_output_key input @ ts_key_offset input @ ts_commitment_mask input @ u64_le (ts_amount input) @
            write_varint (word_of_nat (length indexed)) @
            encode_ring_offsets (ring_offsets (map (\<lambda>(_, m). rm_global_index m) indexed) 0) @
            [sorted_signer_index] @ concat (map (\<lambda>(_, m). rm_output_key m @ rm_commitment m) indexed))))"

section \<open>Exported functions\<close>

definition wasm_build_signable_tx where
  "wasm_build_signable_tx L K W M rng key_share recipient (amount :: u64) fee_per_weight fee_mask inputs_data decoys_data =
     jbind (js_of (fromt_bundle_deserialize L key_share)) (\<lambda>b.
     jbind (js_of (view_pair_from_bundle L K W b)) (\<lambda>view_pair.
     if fb_network b > 2 then Thrown (Message ''unknown network'')
     else
       jbind (js_ok_or (network_address_from_str M (fb_network b) recipient) From_Crate) (\<lambda>recipient_addr.
       jbind (js_ok_or (fee_rate_new M fee_per_weight fee_mask) (Message ''invalid fee rate'')) (\<lambda>rate.
       jbind (parse_ts_inputs inputs_data) (\<lambda>inputs.
       jbind (parse_ts_decoys decoys_data) (\<lambda>rings.
       if length inputs \<noteq> length rings then Thrown (Message ''inputs and decoys count mismatch'')
       else
         jbind (jmap (\<lambda>(input, ring).
             jbind (serialize_output_with_decoys input ring) (\<lambda>serialized.
               js_ok_or (owd_read M serialized) (Message ''OutputWithDecoys deserialize''))) (zip inputs rings)) (\<lambda>outputs_with_decoys.
         let (outgoing_view, rng) = os_random32 W rng in
         jbind (js_ok_or (signable_new W outgoing_view outputs_with_decoys [(recipient_addr, amount)]
                            (change_new W view_pair) [] rate) From_Crate) (\<lambda>signable.
           Done (signable_serialize M signable)))))))))"

definition wasm_spend_preprocess where
  "wasm_spend_preprocess L K M up rng key_share signable_tx =
     jcbind (jret (
       jbind (js_of (fromt_bundle_deserialize L key_share)) (\<lambda>b.
       jbind (js_of (convert_keyshare L K M b)) (\<lambda>keys.
       jbind (js_ok_or (signable_read M signable_tx) (Message ''parse signable tx'')) (\<lambda>signable.
         js_of (spend_preprocess M signable keys rng)))))) (\<lambda>(sign_machine, preprocess_bytes).
     jcbind (js_allocate (up sign_machine)) (\<lambda>h. jret (Done (h, preprocess_bytes))))"

definition wasm_spend_sign where
  "wasm_spend_sign M down up handle_id preprocesses_map =
     jcbind (js_take down handle_id) (\<lambda>sign_machine.
     jcbind (jret (js_of (
       rbind (decode_u16_map preprocesses_map) (\<lambda>raw_map.
       rbind (participant_entries M raw_map) (\<lambda>preprocesses.
         spend_sign M sign_machine preprocesses))))) (\<lambda>(sig_machine, share_bytes).
     jcbind (js_allocate (up sig_machine)) (\<lambda>h. jret (Done (h, share_bytes)))))"

definition wasm_spend_complete where
  "wasm_spend_complete M down handle_id shares_map =
     jcbind (js_take down handle_id) (\<lambda>sig_machine.
     jret (js_of (
       rbind (decode_u16_map shares_map) (\<lambda>raw_map.
       rbind (participant_entries M raw_map) (\<lambda>shares.
         spend_complete M sig_machine shares)))))"

definition wasm_tx_hash where
  "wasm_tx_hash M raw_tx = jbind (js_ok_or (tx_read M raw_tx) (Message ''parse tx'')) (\<lambda>tx. Done (tx_hash M tx))"

end
