(* ===== verification/Wasm_Scan.thy ===== *)
theory Wasm_Scan
  imports Wasm_Calls Monero_Spend Monero_Address
begin

text \<open>
  \<^verbatim>\<open>fromt-wasm/src/scan.rs\<close> and \<^verbatim>\<open>key_image.rs\<close>, and the helper of \<^verbatim>\<open>dkg.rs\<close>: what a host that scans the
  chain itself needs. An output belongs to the wallet when its key is the hash of the shared secret,
  times the base point, plus the spend key of the wallet.
\<close>

section \<open>Accessors of a key share\<close>

definition wasm_derive_view_key where
  "wasm_derive_view_key L key_share =
     jbind (js_of (fromt_bundle_deserialize L key_share)) (\<lambda>b. Done (fb_view_key b))"

definition wasm_derive_spend_pub_key where
  "wasm_derive_spend_pub_key L key_share =
     jbind (js_of (fromt_bundle_deserialize L key_share)) (\<lambda>b. js_of (verifying_key_bytes L b))"

definition wasm_derive_address where
  "wasm_derive_address L K key_share =
     jbind (js_of (fromt_bundle_deserialize L key_share)) (\<lambda>b.
     jbind (js_of (verifying_key_bytes L b)) (\<lambda>spend_pub.
     jbind (js_of (to_array 32 spend_pub)) (\<lambda>sp.
       js_of (derive_address K sp (fb_view_key b) (fb_network b)))))"

definition wasm_derive_subaddress where
  "wasm_derive_subaddress L K key_share acct idx =
     jbind (js_of (fromt_bundle_deserialize L key_share)) (\<lambda>b.
     jbind (js_of (verifying_key_bytes L b)) (\<lambda>spend_pub.
     jbind (js_of (to_array 32 spend_pub)) (\<lambda>sp.
       js_of (derive_subaddress K sp (fb_view_key b) acct idx (fb_network b)))))"

definition wasm_keyshare_birthday where
  "wasm_keyshare_birthday L key_share =
     jbind (js_of (fromt_bundle_deserialize L key_share)) (\<lambda>b. Done (fb_birthday b))"

definition wasm_keyshare_network where
  "wasm_keyshare_network L key_share =
     jbind (js_of (fromt_bundle_deserialize L key_share)) (\<lambda>b. Done (fb_network b))"

definition wasm_derive_keys_from_seed where
  "wasm_derive_keys_from_seed K seed =
     (if length seed \<noteq> 32 then Thrown (Message ''seed must be 32 bytes'')
      else jbind (js_of (derive_keys_from_seed K seed)) (\<lambda>(sk, vk). Done (sk @ vk)))"

section \<open>Outputs\<close>

definition wasm_compute_key_image where
  "wasm_compute_key_image K ko ok sk =
     (if length ko \<noteq> 32 \<or> length ok \<noteq> 32 \<or> length sk \<noteq> 32 then Thrown (Message ''all inputs must be 32 bytes'')
      else
        jbind (js_ok_or (from_canonical_bytes K ko) (Message ''invalid key offset scalar'')) (\<lambda>ko_scalar.
        jbind (js_ok_or (from_canonical_bytes K sk) (Message ''invalid spend key scalar'')) (\<lambda>sk_scalar.
          Done (compress K (point_mul K (ko_scalar + sk_scalar) (biased_hash K ok))))))"

text \<open>\<^verbatim>\<open>EdwardsPoint::mul_by_cofactor\<close>: the double, three times.\<close>

definition mul_by_cofactor :: "'pt::plus \<Rightarrow> 'pt" where
  "mul_by_cofactor p = (let p2 = p + p; p4 = p2 + p2 in p4 + p4)"

text \<open>
  What \<^verbatim>\<open>fromt_derive_key_offset\<close>, \<^verbatim>\<open>fromt_check_output\<close> and \<^verbatim>\<open>fromt_derive_commitment_mask\<close> each do in
  line: the shared secret of the view key and the key of the transaction, with the index of the
  output, under the hash.
\<close>

definition derivation_hash where
  "derivation_hash K view_secret_key tx_pub_key output_index =
     jbind (js_ok_or (from_canonical_bytes K view_secret_key) (Message ''invalid view key scalar'')) (\<lambda>a.
     jbind (js_ok_or (decompress K tx_pub_key) (Message ''invalid tx pub key point'')) (\<lambda>r_point.
     let derivation = compress K (mul_by_cofactor (point_mul K a r_point)) in
       Done (keccak256 K (derivation @ write_varint output_index))))"

definition wasm_derive_key_offset where
  "wasm_derive_key_offset K view_secret_key tx_pub_key output_index =
     (if length view_secret_key \<noteq> 32 \<or> length tx_pub_key \<noteq> 32 then Thrown (Message ''inputs must be 32 bytes'')
      else
        jbind (derivation_hash K view_secret_key tx_pub_key output_index) (\<lambda>hash.
          Done (to_bytes K (from_bytes_mod_order K hash))))"

definition wasm_check_output where
  "wasm_check_output K view_secret_key spend_pub_key tx_pub_key output_index ok =
     (if length view_secret_key \<noteq> 32 \<or> length spend_pub_key \<noteq> 32 \<or> length tx_pub_key \<noteq> 32 \<or> length ok \<noteq> 32
      then Thrown (Message ''all inputs must be 32 bytes'')
      else
        jbind (derivation_hash K view_secret_key tx_pub_key output_index) (\<lambda>hash.
        let ko = from_bytes_mod_order K hash in
        jbind (js_ok_or (decompress K spend_pub_key) (Message ''invalid spend pub key point'')) (\<lambda>b_point.
        if compress K (basepoint_mul K ko + b_point) = ok then Done (to_bytes K ko) else Done [])))"

definition wasm_derive_commitment_mask where
  "wasm_derive_commitment_mask K view_secret_key tx_pub_key output_index =
     (if length view_secret_key \<noteq> 32 \<or> length tx_pub_key \<noteq> 32 then Thrown (Message ''inputs must be 32 bytes'')
      else
        jbind (derivation_hash K view_secret_key tx_pub_key output_index) (\<lambda>hash.
          Done (to_bytes K (from_bytes_mod_order K (keccak256 K (str_bytes ''commitment_mask'' @ hash))))))"

primrec copy_outputs :: "nat \<Rightarrow> bytes \<Rightarrow> u32 \<Rightarrow> bytes js" where
  "copy_outputs 0 data i = Done []"
| "copy_outputs (Suc n) data i =
     jbind (js_slice data (4 + i * 72) (4 + i * 72 + 64)) (\<lambda>s.
     jbind (copy_outputs n data (i + 1)) (\<lambda>rest. Done (s @ rest)))"

definition wasm_outputs_for_key_image :: "bytes \<Rightarrow> bytes js" where
  "wasm_outputs_for_key_image data =
     (if length data < 4 then Thrown (Message ''outputs data too short'')
      else
        jbind (js_slice data 0 4) (\<lambda>c.
        let count = u32_of_le c in
        if length data < unat (4 + count * 72) then Thrown (Message ''outputs data too short for count'')
        else jbind (copy_outputs (unat count) data 0) (\<lambda>rest. Done (u32_le count @ rest))))"

definition wasm_filter_spent_outputs :: "bytes \<Rightarrow> bytes \<Rightarrow> u32 list js" where
  "wasm_filter_spent_outputs outs_data spent_flags =
     jbind (js_of (filter_spent_outputs outs_data spent_flags)) (\<lambda>(balance, num_unspent).
       Done [ucast (balance AND 0xFFFFFFFF), ucast (drop_bit 32 balance), num_unspent])"

section \<open>The key image ceremony\<close>

text \<open>\<^verbatim>\<open>chunks_exact(2)\<close> of an even number of bytes.\<close>

fun u16_pairs :: "bytes \<Rightarrow> u16 list" where
  "u16_pairs (a # b # rest) = u16_of_le [a, b] # u16_pairs rest"
| "u16_pairs _ = []"

definition wasm_key_image_part1 where
  "wasm_key_image_part1 L K up key_share outputs_arg signer_ids =
     (if odd (length signer_ids) then jret (Thrown (Message ''signer_ids must be pairs of u16_le bytes''))
      else
        jcbind (jret (js_of (key_image_part1 L K key_share outputs_arg (u16_pairs signer_ids)))) (\<lambda>(state, partials).
        jcbind (js_allocate (up state)) (\<lambda>h. jret (Done (h, partials)))))"

primrec wasm_packages :: "nat \<Rightarrow> bytes \<Rightarrow> u32 \<Rightarrow> (u16 \<times> bytes) list js" where
  "wasm_packages 0 data pos = Done []"
| "wasm_packages (Suc n) data pos =
     (if unat (pos + 6) > length data then Thrown (Message ''package truncated'')
      else
        jbind (js_index data pos) (\<lambda>b0. jbind (js_index data (pos + 1)) (\<lambda>b1.
        let id = u16_of_le [b0, b1]; pos = pos + 2 in
        jbind (js_slice data pos (pos + 4)) (\<lambda>v.
        let vlen = u32_of_le v; pos = pos + 4 in
        if unat (pos + vlen) > length data then Thrown (Message ''package data truncated'')
        else
          jbind (js_slice data pos (pos + vlen)) (\<lambda>value.
          jbind (wasm_packages n data (pos + vlen)) (\<lambda>rest. Done ((id, value) # rest)))))))"

definition wasm_decode_packages :: "bytes \<Rightarrow> (u16 \<times> bytes) list js" where
  "wasm_decode_packages data =
     (if length data < 4 then Thrown (Message ''packages data too short'')
      else jbind (js_slice data 0 4) (\<lambda>c. wasm_packages (unat (u32_of_le c)) data 4))"

definition wasm_key_image_part2 where
  "wasm_key_image_part2 K down handle_id r1_packages =
     jcbind (js_take down handle_id) (\<lambda>state.
     jret (jbind (wasm_decode_packages r1_packages) (\<lambda>packages. js_of (key_image_part2 K state packages))))"

end
