(* ===== verification/Wasm_Fromt_Properties.thy ===== *)
theory Wasm_Fromt_Properties
  imports Wasm_Spend Wasm_Scan Fromt_Ceremony_Properties
begin

text \<open>
  What the WebAssembly functions of the Monero wallet promise: the outputs they recognise are those
  that the wallet can spend; the ring of an input can be read back from the bytes that are handed to
  the transaction; and the format of the inputs, whose count may wrap around on this target.
\<close>

section \<open>Outputs of the wallet\<close>

text \<open>The curve of the addresses: the base point times a scalar, and a scalar times that.\<close>

definition curve_ok :: "('f::field, 'g, 'sig, 'sp, 'pt::ab_group_add) monero \<Rightarrow> bool" where
  "curve_ok K \<longleftrightarrow>
     (\<forall>p. length (compress K p) = 32 \<and> decompress K (compress K p) = Some p) \<and>
     (\<forall>x. length (to_bytes K x) = 32 \<and> from_canonical_bytes K (to_bytes K x) = Some x) \<and>
     (\<forall>x y. basepoint_mul K (x + y) = basepoint_mul K x + basepoint_mul K y) \<and>
     (\<forall>x y. point_mul K x (basepoint_mul K y) = basepoint_mul K (x * y))"

text \<open>The key of the output a sender makes: \<open>r\<close> is the secret of the transaction, \<open>A\<close> and \<open>B\<close> are the
  points of the recipient's address.\<close>

definition sent_output_key where
  "sent_output_key K r A B i =
     compress K (basepoint_mul K (from_bytes_mod_order K
       (keccak256 K (compress K (mul_by_cofactor (point_mul K r A)) @ write_varint i))) + B)"

text \<open>C16: An output that a sender has made for the address of a wallet, from the address alone, is recognised by
  \<^verbatim>\<open>fromt_check_output\<close> with the view key, and the offset it returns opens it: the offset plus
  the secret spend key is the secret of the output's key. \<^verbatim>\<open>fromt_derive_key_offset\<close> returns the same
  offset, and \<^verbatim>\<open>fromt_compute_key_image\<close> accepts it.\<close>

theorem own_output_spendable:
  assumes "curve_ok K"
  shows "let A = basepoint_mul K a; B = basepoint_mul K b; P = sent_output_key K r A B i in
    \<exists>k. wasm_check_output K (to_bytes K a) (compress K B) (compress K (basepoint_mul K r)) i P = Done (to_bytes K k) \<and>
      wasm_derive_key_offset K (to_bytes K a) (compress K (basepoint_mul K r)) i = Done (to_bytes K k) \<and>
      compress K (basepoint_mul K (k + b)) = P \<and>
      wasm_compute_key_image K (to_bytes K k) P (to_bytes K b) = Done (compress K (point_mul K (k + b) (biased_hash K P)))"
proof -
  have c: "length (compress K p) = 32" "decompress K (compress K p) = Some p" "length (to_bytes K x) = 32"
    "from_canonical_bytes K (to_bytes K x) = Some x" "basepoint_mul K (x + y) = basepoint_mul K x + basepoint_mul K y"
    "point_mul K x (basepoint_mul K y) = basepoint_mul K (x * y)" for p x y
    using assms by (simp_all add: curve_ok_def)
  let ?hash = "keccak256 K (compress K (mul_by_cofactor (basepoint_mul K (a * r))) @ write_varint i)"
  have h: "derivation_hash K (to_bytes K a) (compress K (basepoint_mul K r)) i = Done ?hash"
    by (simp add: derivation_hash_def c)
  show ?thesis
    unfolding Let_def
    by (intro exI [of _ "from_bytes_mod_order K ?hash"])
      (simp add: wasm_check_output_def wasm_derive_key_offset_def wasm_compute_key_image_def h c sent_output_key_def
        mult.commute [of r a])
qed

lemma demo_curve_ok: "curve_ok demo_monero"
  by (simp add: curve_ok_def demo_monero_def gf7_bytes_def [of "_ :: gf7"] del: gf7_bytes_inverse)
    (simp add: gf7_bytes_inverse flip: gf7_bytes_def)

theorem own_output_spendable_witness:
  "let A = basepoint_mul demo_monero 2; B = basepoint_mul demo_monero 3; P = sent_output_key demo_monero 5 A B 300 in
    \<exists>k. wasm_check_output demo_monero (to_bytes demo_monero 2) (compress demo_monero B)
          (compress demo_monero (basepoint_mul demo_monero 5)) 300 P = Done (to_bytes demo_monero k) \<and>
      wasm_derive_key_offset demo_monero (to_bytes demo_monero 2) (compress demo_monero (basepoint_mul demo_monero 5)) 300
        = Done (to_bytes demo_monero k) \<and>
      compress demo_monero (basepoint_mul demo_monero (k + 3)) = P \<and>
      wasm_compute_key_image demo_monero (to_bytes demo_monero k) P (to_bytes demo_monero 3)
        = Done (compress demo_monero (point_mul demo_monero (k + 3) (biased_hash demo_monero P)))"
  by (rule own_output_spendable [OF demo_curve_ok])

text \<open>What \<^verbatim>\<open>fromt_check_output\<close> accepts is spendable, whoever made the output: a result that is not empty is the
  encoding of a scalar that, added to the secret spend key, is the secret of the output's key, and it is the offset
  that \<^verbatim>\<open>fromt_derive_key_offset\<close> returns.\<close>

theorem accepted_output_opens:
  assumes "curve_ok K" "wasm_check_output K vk (compress K (basepoint_mul K b)) R i P = Done res" "res \<noteq> []"
  shows "\<exists>k. from_canonical_bytes K res = Some k \<and> P = compress K (basepoint_mul K (k + b)) \<and>
    wasm_derive_key_offset K vk R i = Done res"
proof -
  have c: "decompress K (compress K p) = Some p" "from_canonical_bytes K (to_bytes K x) = Some x"
    "basepoint_mul K (x + y) = basepoint_mul K x + basepoint_mul K y" for p x y
    using assms(1) by (simp_all add: curve_ok_def)
  from assms(2,3) obtain hash where h: "derivation_hash K vk R i = Done hash" "length vk = 32" "length R = 32"
    "P = compress K (basepoint_mul K (from_bytes_mod_order K hash) + basepoint_mul K b)"
    "res = to_bytes K (from_bytes_mod_order K hash)"
    by (auto simp: wasm_check_output_def jbind_Done c Let_def split: if_splits)
  then show ?thesis by (auto simp: wasm_derive_key_offset_def c)
qed

section \<open>Rings\<close>

text \<open>The reference reader of an output with its decoys.\<close>

primrec read_varints :: "nat \<Rightarrow> bytes \<Rightarrow> (nat list \<times> bytes) option" where
  "read_varints 0 bs = Some ([], bs)"
| "read_varints (Suc n) bs =
     (case read_varint bs of None \<Rightarrow> None
      | Some (v, bs) \<Rightarrow> map_option (\<lambda>(vs, bs). (v # vs, bs)) (read_varints n bs))"

primrec blocks :: "nat \<Rightarrow> nat \<Rightarrow> bytes \<Rightarrow> bytes list" where
  "blocks k 0 bs = []"
| "blocks k (Suc n) bs = take k bs # blocks k n (drop k bs)"

record owd_view =
  v_key :: bytes
  v_offset :: bytes
  v_mask :: bytes
  v_amount :: u64
  v_indices :: "nat list"
  v_signer :: nat
  v_members :: "bytes list"

definition read_owd :: "bytes \<Rightarrow> owd_view option" where
  "read_owd bs =
     (case read_varint (drop 104 bs) of None \<Rightarrow> None
      | Some (n, rest) \<Rightarrow>
          (case read_varints n rest of
             Some (ds, p # rest) \<Rightarrow>
               Some \<lparr>v_key = take 32 bs, v_offset = take 32 (drop 32 bs), v_mask = take 32 (drop 64 bs),
                     v_amount = u64_of_le (take 8 (drop 96 bs)), v_indices = absolute_indices ds 0,
                     v_signer = unat p, v_members = blocks 64 n rest\<rparr>
           | _ \<Rightarrow> None))"

lemma read_varints_encoded:
  "read_varints (length ds) (encode_ring_offsets ds @ rest) = Some (map unat ds, rest)"
  by (induction ds) (simp_all add: encode_ring_offsets_def varint_reads_back)

lemma blocks_concat: "\<forall>x \<in> set xs. length x = k \<Longrightarrow> blocks k (length xs) (concat xs) = xs"
  by (induction xs) simp_all

lemma length_ring_offsets [simp]: "length (ring_offsets gs p) = length gs"
  by (induction gs arbitrary: p) simp_all

definition input_wf :: "parsed_input \<Rightarrow> bool" where
  "input_wf input \<longleftrightarrow> length (ts_output_key input) = 32 \<and> length (ts_key_offset input) = 32 \<and>
     length (ts_commitment_mask input) = 32"

definition member_wf :: "ring_member \<Rightarrow> bool" where
  "member_wf m \<longleftrightarrow> length (rm_output_key m) = 32 \<and> length (rm_commitment m) = 32"

definition member_bytes :: "ring_member \<Rightarrow> bytes" where
  "member_bytes m = rm_output_key m @ rm_commitment m"

lemma sorted_unat_map: "sorted (xs :: u64 list) \<Longrightarrow> sorted (map unat xs)"
  by (auto simp: sorted_map word_le_nat_alt elim!: sorted_wrt_mono_rel [rotated])

lemma read_owd_serialized:
  assumes "input_wf input" "\<forall>m \<in> set (members ring). member_wf m" "length (members ring) \<le> 256"
    and "serialize_output_with_decoys input ring = Done buf"
  defines "indexed \<equiv> sorted_ring rm_global_index (members ring)"
  shows "\<exists>p. read_owd buf = Some \<lparr>v_key = ts_output_key input, v_offset = ts_key_offset input,
       v_mask = ts_commitment_mask input, v_amount = ts_amount input,
       v_indices = map (\<lambda>(_, m). unat (rm_global_index m)) indexed, v_signer = unat p,
       v_members = map (\<lambda>(_, m). member_bytes m) indexed\<rparr> \<and>
     ring_position (unat (real_index ring)) indexed 0 = Some p \<and> unat (real_index ring) < length (members ring) \<and>
     rm_global_index (members ring ! unat (real_index ring)) = ts_global_index input"
proof -
  from assms(4) obtain p where p: "ring_position (unat (real_index ring)) indexed 0 = Some p"
    "unat (real_index ring) < length (members ring)"
    "rm_global_index (members ring ! unat (real_index ring)) = ts_global_index input"
    and buf: "buf = ts_output_key input @ ts_key_offset input @ ts_commitment_mask input @ u64_le (ts_amount input) @
            write_varint (word_of_nat (length indexed)) @
            encode_ring_offsets (ring_offsets (map (\<lambda>(_, m). rm_global_index m) indexed) 0) @
            [p] @ concat (map (\<lambda>(_, m). rm_output_key m @ rm_commitment m) indexed)"
    by (auto simp: serialize_output_with_decoys_def Let_def jbind_Done indexed_def split: if_splits)
  define gs where "gs = map (\<lambda>(_, m). rm_global_index m) indexed"
  define mb where "mb = concat (map (\<lambda>(_, m). rm_output_key m @ rm_commitment m) indexed)"
  have gs: "length gs = length indexed" "map unat gs = map (\<lambda>(_, m). unat (rm_global_index m)) indexed"
    by (simp_all add: gs_def case_prod_unfold)
  have len: "length indexed = length (members ring)" by (simp add: indexed_def sorted_ring_simps(2))
  have n: "unat (word_of_nat (length indexed) :: u64) = length indexed"
    using assms(3) by (simp add: len unsigned_of_nat take_bit_nat_eq_self)
  have abs: "absolute_indices (map unat (ring_offsets gs 0)) 0 = map unat gs"
    using absolute_ring_offsets [of 0 gs] sorted_unat_map [OF sorted_ring_simps(3) [of rm_global_index "members ring"]]
    by (simp add: gs_def indexed_def)
  have "\<forall>x \<in> set indexed. snd x \<in> set (members ring)"
    using mset_eq_setD [OF sorted_ring_simps(1) [of rm_global_index "members ring"]]
    by (auto simp: indexed_def in_set_enumerate_eq)
  then have "\<forall>x \<in> set (map (\<lambda>(_, m). rm_output_key m @ rm_commitment m) indexed). length x = 64"
    using assms(2) by (auto simp: member_wf_def)
  from blocks_concat [OF this]
  have blocks: "blocks 64 (length indexed) mb
     = map (\<lambda>(_, m). member_bytes m) indexed"
    by (simp add: member_bytes_def mb_def)
  have vs: "read_varints (length indexed) (encode_ring_offsets (ring_offsets gs 0) @ rest)
     = Some (map unat (ring_offsets gs 0), rest)" for rest
    using read_varints_encoded [of "ring_offsets gs 0" rest] by (simp add: gs(1))
  have "read_owd buf = Some \<lparr>v_key = ts_output_key input, v_offset = ts_key_offset input,
       v_mask = ts_commitment_mask input, v_amount = ts_amount input,
       v_indices = map (\<lambda>(_, m). unat (rm_global_index m)) indexed, v_signer = unat p,
       v_members = map (\<lambda>(_, m). member_bytes m) indexed\<rparr>"
    using assms(1) unfolding buf [folded gs_def mb_def] read_owd_def input_wf_def
    by (simp add: varint_reads_back n vs abs blocks gs(2))
  with p show ?thesis by blast
qed

lemma map_snd_enum: "map (\<lambda>p. f (snd p)) (enumerate n xs) = map f xs"
  by (induction xs arbitrary: n) simp_all

text \<open>C17: The bytes of an input and its ring lose nothing. A reader gets back the key, the offset, the mask and the
  amount of the input; the global indices, in ascending order, each with the keys of its member, every member
  once; and a signer position at which the real member is, with the index that the input names. The position is a
  byte, so the ring has at most 256 members.\<close>

theorem serialized_ring_recoverable:
  assumes "input_wf input" "\<forall>m \<in> set (members ring). member_wf m" "length (members ring) \<le> 256"
    and "serialize_output_with_decoys input ring = Done buf"
  shows "\<exists>v. read_owd buf = Some v \<and>
     (v_key v, v_offset v, v_mask v, v_amount v)
       = (ts_output_key input, ts_key_offset input, ts_commitment_mask input, ts_amount input) \<and>
     sorted (v_indices v) \<and>
     mset (zip (v_indices v) (v_members v))
       = mset (map (\<lambda>m. (unat (rm_global_index m), member_bytes m)) (members ring)) \<and>
     v_signer v < length (members ring) \<and> v_indices v ! v_signer v = unat (ts_global_index input) \<and>
     v_members v ! v_signer v = member_bytes (members ring ! unat (real_index ring))"
proof -
  let ?ix = "sorted_ring rm_global_index (members ring)"
  from read_owd_serialized [OF assms] obtain p where v: "read_owd buf = Some \<lparr>v_key = ts_output_key input,
       v_offset = ts_key_offset input, v_mask = ts_commitment_mask input, v_amount = ts_amount input,
       v_indices = map (\<lambda>(_, m). unat (rm_global_index m)) ?ix, v_signer = unat p,
       v_members = map (\<lambda>(_, m). member_bytes m) ?ix\<rparr>"
    and p: "ring_position (unat (real_index ring)) ?ix 0 = Some p" "unat (real_index ring) < length (members ring)"
     "rm_global_index (members ring ! unat (real_index ring)) = ts_global_index input" by blast
  from real_member_position [OF p(2) assms(3), of rm_global_index] p(1)
  have pos: "unat p < length (members ring)" "?ix ! unat p = (unat (real_index ring), members ring ! unat (real_index ring))"
    by auto
  have "sorted (map unat (map (\<lambda>(_, m). rm_global_index m) ?ix))" by (rule sorted_unat_map [OF sorted_ring_simps(3)])
  then have s: "sorted (map (\<lambda>(_, m). unat (rm_global_index m)) ?ix)" by (simp add: o_def case_prod_unfold)
  have "zip (map (\<lambda>(_, m). unat (rm_global_index m)) ?ix) (map (\<lambda>(_, m). member_bytes m) ?ix)
     = map (\<lambda>(_, m). (unat (rm_global_index m), member_bytes m)) ?ix"
    by (simp add: zip_map1 zip_map2 zip_same_conv_map case_prod_unfold)
  moreover have "mset (map (\<lambda>(_, m). (unat (rm_global_index m), member_bytes m)) ?ix)
     = image_mset (\<lambda>(_, m). (unat (rm_global_index m), member_bytes m)) (mset (enumerate 0 (members ring)))"
    by (simp add: sorted_ring_simps(1))
  moreover have "\<dots> = mset (map (\<lambda>m. (unat (rm_global_index m), member_bytes m)) (members ring))"
    by (simp add: case_prod_unfold map_snd_enum [of "\<lambda>m. (unat (rm_global_index m), member_bytes m)"] flip: mset_map)
  ultimately have z: "mset (zip (map (\<lambda>(_, m). unat (rm_global_index m)) ?ix) (map (\<lambda>(_, m). member_bytes m) ?ix))
     = mset (map (\<lambda>m. (unat (rm_global_index m), member_bytes m)) (members ring))" by simp
  show ?thesis using v s z pos p(3) by (simp add: sorted_ring_simps(2))
qed

section \<open>The format of the inputs\<close>

text \<open>What a host writes.\<close>

definition encode_ts_input :: "parsed_input \<Rightarrow> bytes" where
  "encode_ts_input x = u64_le (ts_amount x) @ ts_key_offset x @ ts_output_key x @ ts_commitment_mask x @
     u64_le (ts_global_index x)"

definition encode_ts_inputs :: "parsed_input list \<Rightarrow> bytes" where
  "encode_ts_inputs xs = u32_le (word_of_nat (length xs)) @ concat (map encode_ts_input xs)"

lemma unat_add_small: "unat (a :: u32) + n < 2 ^ 32 \<Longrightarrow> unat (a + word_of_nat n) = unat a + n"
  by (simp add: unat_word_ariths unsigned_of_nat take_bit_eq_mod)

lemma js_slice_at:
  assumes "length pre = unat a" "unat a + length x < 2 ^ 32" "b = a + word_of_nat (length x)"
  shows "js_slice (pre @ x @ post) a b = Done x"
  using assms unat_add_small [OF assms(2)] by (simp add: js_slice_def slice_def)

lemma parse_ts_input_at:
  assumes "input_wf x" "length pre = unat off" "unat off + 112 < 2 ^ 32"
  shows "parse_ts_input (pre @ encode_ts_input x @ post) off = Done (x, off + 112)"
proof -
  have w: "length (ts_key_offset x) = 32" "length (ts_output_key x) = 32" "length (ts_commitment_mask x) = 32"
    using assms(1) by (simp_all add: input_wf_def)
  have a: "unat (off + 8) = unat off + 8" "unat (off + 40) = unat off + 40" "unat (off + 72) = unat off + 72"
    "unat (off + 104) = unat off + 104"
    using unat_add_small [of off 8] unat_add_small [of off 40] unat_add_small [of off 72] unat_add_small [of off 104]
      assms(3) by simp_all
  let ?k = "u64_le (ts_amount x)"
  have "js_slice (pre @ encode_ts_input x @ post) off (off + 8) = Done ?k"
    using js_slice_at [of pre off ?k "off + 8" "drop 8 (encode_ts_input x) @ post"] assms by (simp add: encode_ts_input_def)
  moreover have "js_slice ((pre @ ?k) @ ts_key_offset x @ (drop 40 (encode_ts_input x) @ post)) (off + 8) (off + 40)
      = Done (ts_key_offset x)" using assms a w by (intro js_slice_at) simp_all
  moreover have "js_slice ((pre @ ?k @ ts_key_offset x) @ ts_output_key x @ (drop 72 (encode_ts_input x) @ post))
      (off + 40) (off + 72) = Done (ts_output_key x)" using assms a w by (intro js_slice_at) simp_all
  moreover have "js_slice ((pre @ ?k @ ts_key_offset x @ ts_output_key x) @ ts_commitment_mask x @
      (drop 104 (encode_ts_input x) @ post)) (off + 72) (off + 104) = Done (ts_commitment_mask x)"
    using assms a w by (intro js_slice_at) simp_all
  moreover have "js_slice ((pre @ ?k @ ts_key_offset x @ ts_output_key x @ ts_commitment_mask x) @
      u64_le (ts_global_index x) @ post) (off + 104) (off + 112) = Done (u64_le (ts_global_index x))"
    using assms a w by (intro js_slice_at) simp_all
  ultimately show ?thesis using w by (simp add: parse_ts_input_def encode_ts_input_def)
qed

lemma length_encode_ts_input: "input_wf x \<Longrightarrow> length (encode_ts_input x) = 112"
  by (simp add: encode_ts_input_def input_wf_def)

lemma ts_records_inputs:
  assumes "\<forall>x \<in> set xs. input_wf x" "length pre = unat off" "unat off + 112 * length xs < 2 ^ 32"
  shows "ts_records parse_ts_input (length xs) (pre @ concat (map encode_ts_input xs) @ post) off
    = Done (xs, off + 112 * word_of_nat (length xs))"
  using assms
proof (induction xs arbitrary: pre off)
  case (Cons x xs)
  have x: "input_wf x" "unat (off + 112) = unat off + 112"
    using Cons.prems unat_add_small [of off 112] by simp_all
  have "parse_ts_input (pre @ encode_ts_input x @ concat (map encode_ts_input xs) @ post) off = Done (x, off + 112)"
    using Cons.prems by (intro parse_ts_input_at) simp_all
  moreover have "ts_records parse_ts_input (length xs) ((pre @ encode_ts_input x) @ concat (map encode_ts_input xs) @ post)
      (off + 112) = Done (xs, off + 112 + 112 * word_of_nat (length xs))"
    using Cons.prems x by (intro Cons.IH) (simp_all add: length_encode_ts_input)
  ultimately show ?case by (simp add: algebra_simps)
qed simp

lemma ts_inputs_read_back:
  assumes "\<forall>x \<in> set xs. input_wf x" "4 + 112 * length xs < 2 ^ 32"
  shows "parse_ts_inputs (encode_ts_inputs xs) = Done xs"
proof -
  have n: "unat (word_of_nat (length xs) :: u32) = length xs"
    using assms(2) by (simp add: unsigned_of_nat take_bit_nat_eq_self)
  have e: "unat (4 + word_of_nat (length xs) * 112 :: u32) = 4 + 112 * length xs"
    using unat_add_small [of 4 "112 * length xs"] assms(2) by (simp add: mult.commute)
  have l: "length (encode_ts_inputs xs) = 4 + 112 * length xs"
    using assms(1) by (induction xs) (simp_all add: encode_ts_inputs_def length_encode_ts_input)
  have c: "js_slice (encode_ts_inputs xs) 0 4 = Done (u32_le (word_of_nat (length xs)))"
    using js_slice_at [of "[]" 0 "u32_le (word_of_nat (length xs))" 4] by (simp add: encode_ts_inputs_def)
  show ?thesis
    using ts_records_inputs [OF assms(1), of "u32_le (word_of_nat (length xs))" 4 "[]"] assms(2)
    by (simp add: parse_ts_inputs_def c n e l Let_def) (simp add: encode_ts_inputs_def mult.commute)
qed

text \<open>A list of inputs that a host encodes comes back from \<^verbatim>\<open>parse_ts_inputs\<close> as it was, in order and
  with nothing added, as long as its bytes can be counted with 32 bits.\<close>

theorem ts_inputs_round_trip:
  assumes "\<forall>x \<in> set xs. input_wf x" "4 + 112 * length xs < 2 ^ 32"
  shows "parse_ts_inputs (encode_ts_inputs xs) = Done xs"
  using assms by (rule ts_inputs_read_back)

text \<open>The test for the length does not protect the parser: the product of the count and the size of a record wraps
  around at 32 bits, so that 52 bytes which announce 613566757 inputs pass it, and the function traps where it means to
  throw an error.\<close>

theorem ts_inputs_count_wraps:
  assumes "length rest = 48"
  shows "parse_ts_inputs ([37, 73, 146, 36] @ rest) = Trapped"
proof -
  let ?data = "[37, 73, 146, 36] @ rest"
  have c: "u32_of_le [37, 73, 146, 36] = 613566757" by (simp add: u32_of_le_def)
  obtain n where n: "unat (613566757 :: u32) = Suc n" 
    using not0_implies_Suc [of "unat (613566757 :: u32)"] by auto
  have s: "js_slice ?data 44 76 = Trapped" "js_slice ?data 4 12 = Done (take 8 rest)" "js_slice ?data 12 44 = Done (take 32 (drop 8 rest))"
    using assms by (simp_all add: js_slice_def slice_def)
  then have "parse_ts_input ?data 4 = Trapped" by (simp add: parse_ts_input_def)
  then have "ts_records parse_ts_input (unat (613566757 :: u32)) ?data 4 = Trapped" by (simp only: n ts_records.simps jbind_simps)
  moreover have "js_slice ?data 0 4 = Done [37, 73, 146, 36]" by (simp add: js_slice_def slice_def)
  ultimately show ?thesis using assms by (simp add: parse_ts_inputs_def c Let_def)
qed

section \<open>Concrete instances\<close>

definition demo_input :: parsed_input where
  "demo_input = \<lparr>ts_amount = 5000, ts_key_offset = replicate 32 1, ts_output_key = replicate 32 2,
     ts_commitment_mask = replicate 32 3, ts_global_index = 400\<rparr>"

definition demo_ring :: parsed_ring where
  "demo_ring = \<lparr>members = map (\<lambda>(i, k). \<lparr>rm_output_key = replicate 32 k, rm_commitment = replicate 32 0, rm_global_index = i\<rparr>)
     [(900, 7), (400, 2), (100, 8)], real_index = 1\<rparr>"

lemma demo_ring_serialized: "\<exists>buf. serialize_output_with_decoys demo_input demo_ring = Done buf"
proof -
  have "ring_position 1 (sorted_ring rm_global_index (members demo_ring)) 0 = Some 1" by code_simp
  then show ?thesis
    by (auto simp: serialize_output_with_decoys_def Let_def jbind_Done demo_ring_def demo_input_def)
qed

theorem serialized_ring_recoverable_witness:
  "\<exists>buf v. serialize_output_with_decoys demo_input demo_ring = Done buf \<and> read_owd buf = Some v \<and>
     v_signer v < 3 \<and> v_indices v ! v_signer v = 400 \<and> v_members v ! v_signer v = replicate 32 2 @ replicate 32 0"
proof -
  obtain buf where buf: "serialize_output_with_decoys demo_input demo_ring = Done buf" using demo_ring_serialized by blast
  have "input_wf demo_input" "\<forall>m \<in> set (members demo_ring). member_wf m" "length (members demo_ring) \<le> 256"
    by (simp_all add: input_wf_def demo_input_def member_wf_def demo_ring_def)
  from serialized_ring_recoverable [OF this buf] buf show ?thesis
    by (auto simp: demo_ring_def demo_input_def member_bytes_def numeral_3_eq_3)
qed

theorem ts_inputs_round_trip_witness:
  "parse_ts_inputs (encode_ts_inputs [demo_input, demo_input]) = Done [demo_input, demo_input]"
  by (rule ts_inputs_round_trip) (simp_all add: input_wf_def demo_input_def)

theorem ts_inputs_count_wraps_witness: "parse_ts_inputs ([37, 73, 146, 36] @ replicate 48 0) = Trapped"
  by (rule ts_inputs_count_wraps) simp

end
