(* ===== verification/Wasm_Sessions.thy ===== *)
theory Wasm_Sessions
  imports Complex_Main Wasm_Calls Byte_Streams Party_Lists Ceremonies
begin

text \<open>
  What the sessions of the two WebAssembly crates share. A session is a JavaScript object with the
  state of a session (\<open>session_state\<close> of \<open>Ffi_Calls\<close>) in it, not an entry of the handle table. Its
  four methods are the same in every class, so they are modelled once; the classes are in
  \<open>Wasm_Frozt_Session\<close> and \<open>Wasm_Fromt_Session\<close>. The theory also has \<^verbatim>\<open>String::from_utf8_lossy\<close>, the
  casts of JavaScript numbers, and the lists of parties and identifiers that both crates parse.
\<close>

section \<open>Strings\<close>

text \<open>
  The replacement character, and \<^verbatim>\<open>String::from_utf8_lossy\<close>: a character is copied; of bytes that do
  not begin one, the longest part that could begin one, or else a byte, is replaced.
\<close>

definition REPLACEMENT :: bytes where "REPLACEMENT = [0xEF, 0xBF, 0xBD]"

definition second_of_3 :: "u8 \<Rightarrow> u8 \<Rightarrow> bool" where
  "second_of_3 b c \<longleftrightarrow>
     (if b = 0xE0 then 0xA0 \<le> c \<and> c \<le> 0xBF else if b = 0xED then 0x80 \<le> c \<and> c \<le> 0x9F else utf8_cont c)"

definition second_of_4 :: "u8 \<Rightarrow> u8 \<Rightarrow> bool" where
  "second_of_4 b c \<longleftrightarrow>
     (if b = 0xF0 then 0x90 \<le> c \<and> c \<le> 0xBF else if b = 0xF4 then 0x80 \<le> c \<and> c \<le> 0x8F else utf8_cont c)"

text \<open>How many bytes the next step consumes, and whether they are a character.\<close>

definition utf8_step :: "u8 \<Rightarrow> bytes \<Rightarrow> nat \<times> bool" where
  "utf8_step b bs =
     (if b \<le> 0x7F then (1, True)
      else if 0xC2 \<le> b \<and> b \<le> 0xDF then
        (case bs of c1 # _ \<Rightarrow> if utf8_cont c1 then (2, True) else (1, False) | [] \<Rightarrow> (1, False))
      else if 0xE0 \<le> b \<and> b \<le> 0xEF then
        (case bs of
           [] \<Rightarrow> (1, False)
         | c1 # r \<Rightarrow>
             if \<not> second_of_3 b c1 then (1, False)
             else (case r of c2 # _ \<Rightarrow> if utf8_cont c2 then (3, True) else (2, False) | [] \<Rightarrow> (2, False)))
      else if 0xF0 \<le> b \<and> b \<le> 0xF4 then
        (case bs of
           [] \<Rightarrow> (1, False)
         | c1 # r \<Rightarrow>
             if \<not> second_of_4 b c1 then (1, False)
             else (case r of
                 [] \<Rightarrow> (2, False)
               | c2 # r' \<Rightarrow>
                   if \<not> utf8_cont c2 then (2, False)
                   else (case r' of c3 # _ \<Rightarrow> if utf8_cont c3 then (4, True) else (3, False) | [] \<Rightarrow> (3, False))))
      else (1, False))"

lemma utf8_step_pos: "0 < fst (utf8_step b bs)"
  by (simp add: utf8_step_def split: list.splits)

function utf8_lossy :: "bytes \<Rightarrow> bytes" where
  "utf8_lossy [] = []"
| "utf8_lossy (b # bs) =
     (case utf8_step b bs of (n, ok) \<Rightarrow>
        (if ok then take n (b # bs) else REPLACEMENT) @ utf8_lossy (drop n (b # bs)))"
  by pat_completeness auto

termination utf8_lossy
proof (relation "measure length")
  fix b :: u8 and bs n ok
  assume "(n, ok) = utf8_step b bs"
  then have "0 < n" using utf8_step_pos [of b bs] by (metis fst_conv)
  then show "(drop n (b # bs), b # bs) \<in> measure length" by simp
qed simp

section \<open>Numbers\<close>

text \<open>A JavaScript number (\<^verbatim>\<open>f64\<close>), and Rust's saturating cast of it to an unsigned integer up to \<open>m\<close>.\<close>

datatype js_number = Nan | Infinity | Negative_Infinity | Finite rat

fun saturate :: "nat \<Rightarrow> js_number \<Rightarrow> nat" where
  "saturate m Nan = 0"
| "saturate m Infinity = m"
| "saturate m Negative_Infinity = 0"
| "saturate m (Finite x) = min m (nat \<lfloor>x\<rfloor>)"

definition js_as_u64 :: "js_number \<Rightarrow> u64" where "js_as_u64 x = word_of_nat (saturate (2 ^ 64 - 1) x)"
definition js_as_u16 :: "js_number \<Rightarrow> u16" where "js_as_u16 x = word_of_nat (saturate (2 ^ 16 - 1) x)"

section \<open>The methods of a session\<close>

definition js_start :: "'r proc \<Rightarrow> setup_msg \<Rightarrow> u16 \<Rightarrow> 'r session_state js" where
  "js_start p setup my_id =
     (case start p of (r, pr) \<Rightarrow>
        jbind (js_of r) (\<lambda>_. Done \<lparr>protocol_of = pr, setup_of = setup, my_id_of = my_id\<rparr>))"

definition js_feed :: "'r session_state \<Rightarrow> bytes \<Rightarrow> bool js \<times> 'r session_state" where
  "js_feed s msg = (case feed msg (protocol_of s) of (r, pr) \<Rightarrow> (js_of r, s\<lparr>protocol_of := pr\<rparr>))"

definition js_take_msg :: "'r session_state \<Rightarrow> bytes option \<times> 'r session_state" where
  "js_take_msg s = (case take_msg (protocol_of s) of (m, pr) \<Rightarrow> (m, s\<lparr>protocol_of := pr\<rparr>))"

definition js_msg_receiver :: "'r session_state \<Rightarrow> bytes \<Rightarrow> u32 \<Rightarrow> bytes option" where
  "js_msg_receiver s msg idx =
     (let recipient = read_recipient msg in
      if recipient = 0 then
        (let others = other_party_ids (setup_of s) (my_id_of s) in
         if unat idx < length others then map_option utf8_lossy (party_name (setup_of s) (others ! unat idx)) else None)
      else if idx = 0 then map_option utf8_lossy (party_name (setup_of s) recipient)
      else None)"

definition js_result :: "('r \<Rightarrow> 'b js) \<Rightarrow> 'r session_state \<Rightarrow> 'b js \<times> 'r session_state" where
  "js_result finish s =
     (case protocol_result (protocol_of s) of (oc, pr) \<Rightarrow>
        (jbind (js_ok_or oc (Message ''session not ready'')) (\<lambda>r. jbind (js_of r) finish), s\<lparr>protocol_of := pr\<rparr>))"

text \<open>\<^verbatim>\<open>frost_id_by_name(..).ok_or_else(..)\<close> in every \<^verbatim>\<open>from_setup\<close>.\<close>

definition js_party :: "setup_msg \<Rightarrow> bytes \<Rightarrow> u16 js" where
  "js_party setup nm = js_ok_or (frost_id_by_name setup nm) (Message ''party name not found in setup'')"

section \<open>Lists from the host\<close>

text \<open>
  A slice has at most \<open>2 ^ 31 - 1\<close> bytes, so that no sum of a position and a 16-bit length wraps
  around, and positions are natural numbers.
\<close>

definition wasm_party_at :: "bytes \<Rightarrow> nat \<Rightarrow> (party_entry \<times> nat) js" where
  "wasm_party_at data pos =
     (if pos + 4 > length data then Thrown (Message ''parties data truncated'')
      else
        jbind (js_of (index data pos)) (\<lambda>a0. jbind (js_of (index data (pos + 1))) (\<lambda>a1.
        jbind (js_of (index data (pos + 2))) (\<lambda>b0. jbind (js_of (index data (pos + 2 + 1))) (\<lambda>b1.
        let name_len = unat (u16_of_le [b0, b1]); pos = pos + 2 + 2 in
        if pos + name_len > length data then Thrown (Message ''party name truncated'')
        else jbind (js_of (slice data pos (pos + name_len))) (\<lambda>nm.
          Done (\<lparr>frost_id = u16_of_le [a0, a1], name = nm\<rparr>, pos + name_len)))))))"

primrec js_many :: "nat \<Rightarrow> (bytes \<Rightarrow> nat \<Rightarrow> ('a \<times> nat) js) \<Rightarrow> bytes \<Rightarrow> nat \<Rightarrow> 'a list js" where
  "js_many 0 one data pos = Done []"
| "js_many (Suc n) one data pos =
     jbind (one data pos) (\<lambda>(x, pos). jbind (js_many n one data pos) (\<lambda>xs. Done (x # xs)))"

definition decode_parties_wasm :: "bytes \<Rightarrow> party_entry list js" where
  "decode_parties_wasm data =
     (if length data < 2 then Thrown (Message ''parties data too short'')
      else
        jbind (js_of (index data 0)) (\<lambda>b0. jbind (js_of (index data 1)) (\<lambda>b1.
          js_many (unat (u16_of_le [b0, b1])) wasm_party_at data 2)))"

definition wasm_u16_at :: "bytes \<Rightarrow> nat \<Rightarrow> (u16 \<times> nat) js" where
  "wasm_u16_at data pos =
     (if pos + 2 > length data then Thrown (Message ''u16 list truncated'')
      else jbind (js_of (index data pos)) (\<lambda>b0. jbind (js_of (index data (pos + 1))) (\<lambda>b1.
        Done (u16_of_le [b0, b1], pos + 2))))"

definition decode_u16_list_wasm :: "bytes \<Rightarrow> u16 list js" where
  "decode_u16_list_wasm data =
     (if length data < 2 then Thrown (Message ''u16 list data too short'')
      else
        jbind (js_of (index data 0)) (\<lambda>b0. jbind (js_of (index data 1)) (\<lambda>b1.
          js_many (unat (u16_of_le [b0, b1])) wasm_u16_at data 2)))"

section \<open>Maps from the host\<close>

text \<open>
  An entry of the JavaScript array: not an object, or the property \<^verbatim>\<open>id\<close>, if it is a number, with the
  bytes of the property \<^verbatim>\<open>value\<close>.
\<close>

type_synonym js_entry = "(js_number option \<times> bytes) option"

definition wasm_encode_entry where
  "wasm_encode_entry L (entry :: js_entry) =
     jbind (js_ok_or entry From_Crate) (\<lambda>(id_val, val_bytes).
     jbind (js_ok_or id_val (Message ''id must be a number'')) (\<lambda>x.
     jbind (js_ok_or (id_try_from L (js_as_u16 x)) From_Crate) (\<lambda>ident.
       let id_bytes = id_serialize L ident in
       Done (u32_le (word_of_nat (length id_bytes)) @ id_bytes @ u32_le (word_of_nat (length val_bytes)) @ val_bytes))))"

definition wasm_encode_map where
  "wasm_encode_map L es =
     jbind (jmap (wasm_encode_entry L) es) (\<lambda>bs. Done (u32_le (word_of_nat (length es)) @ concat bs))"

section \<open>Lemmas\<close>

text \<open>The lists of the host are parsed as in the native libraries.\<close>

definition same_result :: "'a js \<Rightarrow> 'a res \<Rightarrow> bool" where
  "same_result j r \<longleftrightarrow>
     (case r of Ok x \<Rightarrow> j = Done x | Panic \<Rightarrow> j = Trapped | _ \<Rightarrow> (\<exists>e. j = Thrown e))"

lemma same_result_js_of [simp]: "same_result (js_of r) r"
  by (cases r) (simp_all add: same_result_def)

lemma same_result_simps [simp]: "same_result (Done x) (Ok y) \<longleftrightarrow> x = y" "same_result (Thrown e) (Err e')"
  by (simp_all add: same_result_def)

lemma same_result_bind:
  "same_result j r \<Longrightarrow> (\<And>x. r = Ok x \<Longrightarrow> same_result (f x) (g x)) \<Longrightarrow> same_result (jbind j f) (rbind r g)"
  by (cases r) (auto simp: same_result_def)

lemma same_party: "same_result (wasm_party_at data pos) (decode_party_at data pos)"
  unfolding wasm_party_at_def decode_party_at_def Let_def
  by (auto intro!: same_result_bind)

lemma same_u16: "same_result (wasm_u16_at data pos) (decode_u16_at data pos)"
  unfolding wasm_u16_at_def decode_u16_at_def by (auto intro!: same_result_bind)

lemma same_many:
  assumes "\<And>pos. same_result (one data pos) (rd data pos)"
  shows "same_result (js_many n one data pos) (rbind (read_many n rd data pos) (\<lambda>(xs, _). Ok xs))"
proof (induction n arbitrary: pos)
  case (Suc n)
  have "same_result (js_many (Suc n) one data pos)
    (rbind (rd data pos) (\<lambda>(x, p). rbind (rbind (read_many n rd data p) (\<lambda>(xs, _). Ok xs)) (\<lambda>xs. Ok (x # xs))))"
    by (auto intro!: same_result_bind assms Suc.IH)
  moreover have "rbind (rd data pos) (\<lambda>(x, p). rbind (rbind (read_many n rd data p) (\<lambda>(xs, _). Ok xs)) (\<lambda>xs. Ok (x # xs)))
    = rbind (read_many (Suc n) rd data pos) (\<lambda>(xs, _). Ok xs)"
    by (simp add: rbind_assoc case_prod_unfold)
  ultimately show ?case by simp
qed simp

text \<open>A name that is a string is the same string again, and every result is one.\<close>

lemma utf8_step_valid:
  assumes "utf8_valid (b # bs)"
  shows "snd (utf8_step b bs) \<and> utf8_valid (drop (fst (utf8_step b bs)) (b # bs))"
proof -
  consider "b \<le> 0x7F" | "\<not> b \<le> 0x7F" "0xC2 \<le> b \<and> b \<le> 0xDF"
    | "\<not> b \<le> 0x7F" "\<not> (0xC2 \<le> b \<and> b \<le> 0xDF)" "0xE0 \<le> b \<and> b \<le> 0xEF"
    | "\<not> b \<le> 0x7F" "\<not> (0xC2 \<le> b \<and> b \<le> 0xDF)" "\<not> (0xE0 \<le> b \<and> b \<le> 0xEF)" "0xF0 \<le> b \<and> b \<le> 0xF4"
    using assms by (auto split: if_splits)
  then show ?thesis
  proof cases
    case 1
    then show ?thesis using assms by (simp add: utf8_step_def)
  next
    case 2
    have "case bs of c1 # r \<Rightarrow> utf8_cont c1 \<and> utf8_valid r | _ \<Rightarrow> False"
      using assms by (simp only: utf8_valid.simps 2 if_False if_True simp_thms)
    then obtain c r where "bs = c # r" "utf8_cont c \<and> utf8_valid r"
      by (auto split: list.splits)
    moreover from this have "utf8_step b bs = (2, True)"
      by (simp only: utf8_step_def 2 if_False if_True simp_thms list.case)
    ultimately show ?thesis by (simp del: utf8_valid.simps)
  next
    case 3
    have "case bs of c1 # c2 # r \<Rightarrow> second_of_3 b c1 \<and> utf8_cont c2 \<and> utf8_valid r | _ \<Rightarrow> False"
      using assms by (simp only: utf8_valid.simps second_of_3_def 3 if_False if_True simp_thms)
    then obtain c1 c2 r where "bs = c1 # c2 # r" "second_of_3 b c1 \<and> utf8_cont c2 \<and> utf8_valid r"
      by (auto split: list.splits)
    moreover from this have "utf8_step b bs = (3, True)"
      by (simp only: utf8_step_def 3 if_False if_True simp_thms list.case)
    ultimately show ?thesis by (simp del: utf8_valid.simps)
  next
    case 4
    have "case bs of c1 # c2 # c3 # r \<Rightarrow> second_of_4 b c1 \<and> utf8_cont c2 \<and> utf8_cont c3 \<and> utf8_valid r | _ \<Rightarrow> False"
      using assms by (simp only: utf8_valid.simps second_of_4_def 4 if_False if_True simp_thms)
    then obtain c1 c2 c3 r where "bs = c1 # c2 # c3 # r" "second_of_4 b c1 \<and> utf8_cont c2 \<and> utf8_cont c3 \<and> utf8_valid r"
      by (auto split: list.splits)
    moreover from this have "utf8_step b bs = (4, True)"
      by (simp only: utf8_step_def 4 if_False if_True simp_thms list.case)
    ultimately show ?thesis by (simp del: utf8_valid.simps)
  qed
qed

lemma utf8_lossy_valid: "utf8_valid bs \<Longrightarrow> utf8_lossy bs = bs"
proof (induction bs rule: utf8_lossy.induct)
  case (2 b bs)
  obtain n ok where s: "utf8_step b bs = (n, ok)" by fastforce
  from utf8_step_valid [OF 2(2)] s have v: "ok" "utf8_valid (drop n (b # bs))" by auto
  from 2(1) [OF s [symmetric] v(2)] s v show ?case by (simp del: drop_Cons' utf8_valid.simps)
qed simp

end
