(* ===== verification/Wasm_Readers.thy ===== *)
theory Wasm_Readers
  imports Wasm_Sessions Frozt_Session
begin

text \<open>
  The decoders of the setup messages (\<^verbatim>\<open>frost-session/src/setup.rs\<close>) and of the coordinator's message
  as they are compiled for the browser, where \<^verbatim>\<open>usize\<close> has 32 bits. The end of a part whose length
  is a 32-bit number of the message may wrap around there: the test of the end then succeeds, and
  the slice panics. A slice has less than \<open>2 ^ 31\<close> bytes, so that no other sum of a position wraps.
\<close>

section \<open>Definitions\<close>

definition wasm_usize :: "nat \<Rightarrow> nat" where
  "wasm_usize n = unat (word_of_nat n :: u32)"

definition read_bytes32 :: "nat \<Rightarrow> bytes \<Rightarrow> nat \<Rightarrow> (bytes \<times> nat) res" where
  "read_bytes32 n data pos =
     (if wasm_usize (pos + n) > length data then Err LIB_SERIALIZATION_ERROR
      else rbind (slice data pos (wasm_usize (pos + n))) (\<lambda>b. Ok (b, wasm_usize (pos + n))))"

definition sign_setup_decode32 :: "bytes \<Rightarrow> sign_setup res" where
  "sign_setup_decode32 data =
     rbind (setup_decode data) (\<lambda>(b, pos).
     rbind (setup_read_u32 data pos) (\<lambda>(msg_len, pos).
     rbind (read_bytes32 (unat msg_len) data pos) (\<lambda>(m, pos).
       Ok \<lparr>ss_base = b, message = m\<rparr>)))"

definition reshare_setup_decode32 :: "bytes \<Rightarrow> reshare_setup res" where
  "reshare_setup_decode32 data =
     rbind (setup_decode data) (\<lambda>(b, pos).
     rbind (setup_read_u16 data pos) (\<lambda>(num_old, pos).
     rbind (read_many (unat num_old) setup_read_u16 data pos) (\<lambda>(ids, pos).
     rbind (setup_read_u32 data pos) (\<lambda>(vk_len, pos).
     rbind (read_bytes32 (unat vk_len) data pos) (\<lambda>(vk, pos).
       Ok \<lparr>rs_base = b, old_identifiers = ids, expected_vk = vk\<rparr>)))))"

definition key_import_setup_decode32 :: "bytes \<Rightarrow> key_import_setup res" where
  "key_import_setup_decode32 data =
     rbind (setup_decode data) (\<lambda>(b, pos).
     rbind (setup_read_u16 data pos) (\<lambda>(holder, pos).
     rbind (setup_read_u32 data pos) (\<lambda>(secret_len, pos).
     rbind (read_bytes32 (unat secret_len) data pos) (\<lambda>(secret, pos).
     rbind (setup_read_u32 data pos) (\<lambda>(account, pos).
       Ok \<lparr>ki_base = b, seed_holder_id = holder, secret_data = secret, account_index = account\<rparr>)))))"

definition key_image_setup_decode32 :: "bytes \<Rightarrow> key_image_setup res" where
  "key_image_setup_decode32 data =
     rbind (setup_decode data) (\<lambda>(b, pos).
     rbind (setup_read_u32 data pos) (\<lambda>(outputs_len, pos).
     rbind (read_bytes32 (unat outputs_len) data pos) (\<lambda>(outs, pos).
       Ok \<lparr>kimg_base = b, outputs_data = outs\<rparr>)))"

text \<open>\<^verbatim>\<open>num_signers - 1\<close> on \<^verbatim>\<open>usize\<close>.\<close>

definition usize32_pred :: "nat \<Rightarrow> nat" where
  "usize32_pred n = (if n = 0 then 2 ^ 32 - 1 else n - 1)"

definition sign_start_decode32 :: "bytes \<Rightarrow> (bytes \<times> bytes) res" where
  "sign_start_decode32 combined =
     (if length combined < 4 then Err LIB_SERIALIZATION_ERROR
      else
        rbind (slice combined 0 4) (\<lambda>s. rbind (to_array 4 s) (\<lambda>a.
        let sp_end = wasm_usize (4 + unat (u32_of_le a)) in
        if length combined < sp_end then Err LIB_SERIALIZATION_ERROR
        else
          rbind (slice combined 4 sp_end) (\<lambda>sp_ser.
          rbind (slice combined sp_end (length combined)) (\<lambda>rand_ser. Ok (sp_ser, rand_ser))))))"

section \<open>Lemmas\<close>

lemma wasm_usize_small [simp]: "n < 2 ^ 32 \<Longrightarrow> wasm_usize n = n"
  by (simp add: wasm_usize_def unsigned_of_nat take_bit_nat_eq_self)

lemma wasm_usize_wrapped: "2 ^ 32 \<le> n \<Longrightarrow> n < 2 * 2 ^ 32 \<Longrightarrow> wasm_usize n = n - 2 ^ 32"
  by (simp add: wasm_usize_def unsigned_of_nat take_bit_eq_mod mod_if)

text \<open>A reader that is the other one, but for a panic when a sum wraps around.\<close>

definition wraps_only :: "'a res \<Rightarrow> 'a res \<Rightarrow> bool" where
  "wraps_only r32 r \<longleftrightarrow> r32 = r \<or> r32 = Panic \<and> (\<exists>e. r = Err e)"

lemma wraps_only_refl [simp]: "wraps_only r r"
  by (simp add: wraps_only_def)

lemma wraps_only_Ok [simp]: "wraps_only r (Ok x) \<longleftrightarrow> r = Ok x"
  by (auto simp: wraps_only_def)

lemma wraps_only_bind:
  "wraps_only m m' \<Longrightarrow> (\<And>x. m' = Ok x \<Longrightarrow> wraps_only (f x) (f' x)) \<Longrightarrow> wraps_only (rbind m f) (rbind m' f')"
  by (cases m') (auto simp: wraps_only_def)

lemma read_bytes32_cases:
  assumes "length data < 2 ^ 31" "pos \<le> length data" "n < 2 ^ 32"
  shows "read_bytes32 n data pos = (if pos + n < 2 ^ 32 then read_bytes n data pos else Panic)"
proof (cases "pos + n < 2 ^ 32")
  case False
  then have "wasm_usize (pos + n) = pos + n - 2 ^ 32" "pos + n - 2 ^ 32 < pos"
    using assms wasm_usize_wrapped [of "pos + n"] by simp_all
  with False assms show ?thesis by (simp add: read_bytes32_def slice_def)
qed (simp add: read_bytes32_def read_bytes_def)

lemma read_bytes32_wraps_only:
  assumes "length data < 2 ^ 31" "pos \<le> length data"
  shows "wraps_only (read_bytes32 (unat (n :: u32)) data pos) (read_bytes (unat n) data pos)"
  using read_bytes32_cases [OF assms, of "unat n"] assms unsigned_less [of n, where ?'a = nat]
  by (auto simp: wraps_only_def read_bytes_eq)

lemma setup_read_u32_bound: "setup_read_u32 data p = Ok (n, p') \<Longrightarrow> p' \<le> length data"
  by (auto simp: setup_read_u32_eq codec_read_u32_eq read_bytes_eq rbind_eq_Ok split: if_splits)

lemma setup_decoders_wrap_only:
  assumes "length data < 2 ^ 31"
  shows "wraps_only (sign_setup_decode32 data) (sign_setup_decode data)"
    and "wraps_only (reshare_setup_decode32 data) (reshare_setup_decode data)"
    and "wraps_only (key_import_setup_decode32 data) (key_import_setup_decode data)"
    and "wraps_only (key_image_setup_decode32 data) (key_image_setup_decode data)"
  unfolding sign_setup_decode32_def sign_setup_decode_def reshare_setup_decode32_def reshare_setup_decode_def
    key_import_setup_decode32_def key_import_setup_decode_def key_image_setup_decode32_def key_image_setup_decode_def
  by (auto intro!: wraps_only_bind read_bytes32_wraps_only assms dest: setup_read_u32_bound)

lemma sign_start_decode32_eq:
  assumes "length combined < 2 ^ 31"
  shows "sign_start_decode32 combined =
    (if 4 \<le> length combined \<and> 2 ^ 32 \<le> 4 + unat (u32_of_le (take 4 combined)) then Panic
     else sign_start_decode combined)"
proof (cases "4 \<le> length combined")
  case True
  define n where "n = u32_of_le (take 4 combined)"
  have n: "unat n < 2 ^ 32" using unsigned_less [of n, where ?'a = nat] by simp
  have w: "wasm_usize (4 + unat n) = (if 4 + unat n < 2 ^ 32 then 4 + unat n else 4 + unat n - 2 ^ 32)"
    using n wasm_usize_wrapped [of "4 + unat n"] by simp
  from True n show ?thesis
    unfolding sign_start_decode32_def sign_start_decode_def
    by (auto simp: slice_def to_array_def Let_def w simp flip: n_def)
qed (simp add: sign_start_decode32_def sign_start_decode_def)

end
