(* ===== verification/Wasm_Frozt_Session.thy ===== *)
theory Wasm_Frozt_Session
  imports Wasm_Readers
begin

text \<open>
  \<^verbatim>\<open>frozt-wasm/src/keyshare.rs\<close> and \<^verbatim>\<open>session.rs\<close>: key share bundles and the four session classes of
  the Zcash library for the browser. The tasks are written again in that crate and are modelled as
  written; they end with the bundle of this crate, which works on bytes.
\<close>

section \<open>keyshare.rs\<close>

definition js_frozt_encode_identifier where
  "js_frozt_encode_identifier L n =
     jbind (js_ok_or (id_try_from L n) From_Crate) (\<lambda>ident. Done (id_serialize L ident))"

definition js_identifier_to_u16 where
  "js_identifier_to_u16 L i =
     js_ok_or (get_id_lookup L (id_serialize L i)) (Message ''identifier not found in lookup'')"

definition js_frozt_keypackage_identifier where
  "js_frozt_keypackage_identifier L kp_data =
     jbind (js_ok_or (kp_deserialize L kp_data) From_Crate) (\<lambda>kp. js_identifier_to_u16 L (kp_identifier L kp))"

definition js_frozt_pubkeypackage_verifying_key where
  "js_frozt_pubkeypackage_verifying_key L pkp_data =
     jbind (js_ok_or (pk_deserialize L pkp_data) From_Crate) (\<lambda>pkp.
       js_ok_or (vk_serialize L (pk_verifying_key L pkp)) From_Crate)"

definition js_bundle_read_u64 :: "bytes \<Rightarrow> u32 \<Rightarrow> (u64 \<times> u32) js" where
  "js_bundle_read_u64 data pos =
     (if pos + 8 > wasm_len data then Thrown (Message ''bundle: unexpected end of data reading u64'')
      else jbind (js_slice data pos (pos + 8)) (\<lambda>s. jbind (js_of (to_array 8 s)) (\<lambda>a. Done (u64_of_le a, pos + 8))))"

definition js_bundle_read_u32 :: "bytes \<Rightarrow> u32 \<Rightarrow> (u32 \<times> u32) js" where
  "js_bundle_read_u32 data pos =
     (if pos + 4 > wasm_len data then Thrown (Message ''bundle: unexpected end of data reading u32'')
      else jbind (js_slice data pos (pos + 4)) (\<lambda>s. jbind (js_of (to_array 4 s)) (\<lambda>a. Done (u32_of_le a, pos + 4))))"

record bundle_parts =
  part_birthday :: u64
  part_sapling_extras :: bytes
  part_key_package :: bytes
  part_pub_key_package :: bytes

text \<open>A part of the bundle after its length; the sum of 32-bit words may wrap around.\<close>

definition js_bundle_part :: "string \<Rightarrow> u32 \<Rightarrow> bytes \<Rightarrow> u32 \<Rightarrow> (bytes \<times> u32) js" where
  "js_bundle_part err n data pos =
     (if pos + n > wasm_len data then Thrown (Message err)
      else jbind (js_slice data pos (pos + n)) (\<lambda>b. Done (b, pos + n)))"

definition js_bundle_unpack :: "bytes \<Rightarrow> bundle_parts js" where
  "js_bundle_unpack data =
     (if length data < 1 + 8 + 4 then Thrown (Message ''bundle: data too short'')
      else
        jbind (js_index data 0) (\<lambda>version.
        if version \<noteq> BUNDLE_VERSION then Thrown (Message ''bundle: unsupported version'')
        else
          jbind (js_bundle_read_u64 data 1) (\<lambda>(bday, pos).
          jbind (js_bundle_read_u32 data pos) (\<lambda>(extras_len, pos).
          jbind (js_bundle_part ''bundle: truncated extras'' extras_len data pos) (\<lambda>(extras, pos).
          jbind (js_bundle_read_u32 data pos) (\<lambda>(kp_len, pos).
          jbind (js_bundle_part ''bundle: truncated key_package'' kp_len data pos) (\<lambda>(kp, pos).
          jbind (js_bundle_read_u32 data pos) (\<lambda>(pkp_len, pos).
          jbind (js_bundle_part ''bundle: truncated pub_key_package'' pkp_len data pos) (\<lambda>(pkp, pos).
            Done \<lparr>part_birthday = bday, part_sapling_extras = extras, part_key_package = kp,
                  part_pub_key_package = pkp\<rparr>)))))))))"

definition js_frozt_keyshare_bundle_pack where
  "js_frozt_keyshare_bundle_pack L kp_data pkp_data extras (bday :: u64) =
     jbind (js_ok_or (kp_deserialize L kp_data) From_Crate) (\<lambda>_.
     jbind (js_ok_or (pk_deserialize L pkp_data) From_Crate) (\<lambda>_.
       Done ([BUNDLE_VERSION] @ u64_le bday @
         u32_le (word_of_nat (length extras)) @ extras @
         u32_le (word_of_nat (length kp_data)) @ kp_data @
         u32_le (word_of_nat (length pkp_data)) @ pkp_data)))"

definition js_frozt_keyshare_bundle_birthday :: "bytes \<Rightarrow> u64 js" where
  "js_frozt_keyshare_bundle_birthday bundle = jbind (js_bundle_unpack bundle) (\<lambda>p. Done (part_birthday p))"

definition js_frozt_keyshare_bundle_key_package :: "bytes \<Rightarrow> bytes js" where
  "js_frozt_keyshare_bundle_key_package bundle = jbind (js_bundle_unpack bundle) (\<lambda>p. Done (part_key_package p))"

definition js_frozt_keyshare_bundle_pub_key_package :: "bytes \<Rightarrow> bytes js" where
  "js_frozt_keyshare_bundle_pub_key_package bundle =
     jbind (js_bundle_unpack bundle) (\<lambda>p. Done (part_pub_key_package p))"

definition js_frozt_keyshare_bundle_sapling_extras :: "bytes \<Rightarrow> bytes js" where
  "js_frozt_keyshare_bundle_sapling_extras bundle =
     jbind (js_bundle_unpack bundle) (\<lambda>p. Done (part_sapling_extras p))"

text \<open>\<^verbatim>\<open>map_err(|_| e)\<close> of a call of this crate, inside a task.\<close>

definition js_or :: "lib_error \<Rightarrow> 'a js \<Rightarrow> 'a res" where
  "js_or e j = (case j of Done x \<Rightarrow> Ok x | Thrown _ \<Rightarrow> Err e | Trapped \<Rightarrow> Panic)"

section \<open>The tasks\<close>

definition js_sign_randomizer where
  "js_sign_randomizer L S R rng pkp signing_package is_coordinator alpha =
     (if is_coordinator then
        pbind (Ret (case alpha of
            Some alpha_bytes \<Rightarrow> ok_or (rand_deserialize R alpha_bytes) LIB_SIGNING_ERROR
          | None \<Rightarrow>
              rbind (ok_or (params_new R (pk_verifying_key L pkp) signing_package rng) LIB_SIGNING_ERROR) (\<lambda>params.
                Ok (params_randomizer R params)))) (\<lambda>randomizer.
        pbind (Ret (ser_err (sp_serialize S signing_package))) (\<lambda>sp_ser.
        pbind (broadcast (sign_start_encode sp_ser (rand_serialize R randomizer))) (\<lambda>_.
          Ret (Ok randomizer))))
      else
        pbind recv (\<lambda>(sender, combined).
        pbind (Ret (sign_start_decode32 combined)) (\<lambda>(sp_ser, rand_ser).
          Ret (ok_or (rand_deserialize R rand_ser) LIB_SIGNING_ERROR))))"

definition js_frozt_sign_run where
  "js_frozt_sign_run L S R rng rng2 kp pkp msg_to_sign is_coordinator num_signers alpha =
     (let my_ident = kp_identifier L kp;
          (nonces, commitments) = commit S (kp_signing_share L kp) rng
      in
      pbind (Ret (ser_err (cm_serialize S commitments))) (\<lambda>commit_bytes.
      pbind (broadcast commit_bytes) (\<lambda>_.
      pbind (recv_loop (usize32_pred num_signers) (recv_insert L (cm_deserialize S)) [(my_ident, commitments)]) (\<lambda>commit_map.
      let signing_package = signing_package_new S commit_map msg_to_sign in
      pbind (js_sign_randomizer L S R rng2 pkp signing_package is_coordinator alpha) (\<lambda>randomizer.
      pbind (Ret (or_blame L (rr_sign R signing_package nonces kp randomizer) LIB_SIGNING_ERROR)) (\<lambda>share.
      pbind (broadcast (share_serialize S share)) (\<lambda>_.
      pbind (recv_loop (usize32_pred num_signers) (recv_insert L (share_deserialize S)) [(my_ident, share)]) (\<lambda>shares.
      pbind (Ret (or_blame L (rr_aggregate R signing_package shares pkp
               (params_from_randomizer R (pk_verifying_key L pkp) randomizer)) LIB_SIGNING_ERROR)) (\<lambda>signature.
        Ret (ser_err (sig_serialize S signature)))))))))))"

definition js_frozt_dkg_run where
  "js_frozt_dkg_run L Z rng rng2 my_id (mx :: u16) mn bday is_coordinator =
     pbind (dkg_run L rng my_id mx mn) (\<lambda>(kp, pkp).
     pbind (if is_coordinator
            then pbind (Ret (metadata_create Z rng2 bday)) (\<lambda>(extras, blob).
                 pbind (broadcast blob) (\<lambda>_. Ret (Ok blob)))
            else pbind recv (\<lambda>(sender, blob). Ret (Ok blob))) (\<lambda>metadata_blob.
     pbind (Ret (metadata_hash Z metadata_blob)) (\<lambda>my_hash.
     pbind (broadcast my_hash) (\<lambda>_.
     pbind (recv_loop (unat (mx - 1)) (check_hash LIB_DKG_ERROR my_hash) ()) (\<lambda>_.
     pbind (Ret (metadata_parse metadata_blob)) (\<lambda>(extras, agreed_birthday).
     pbind (Ret (ser_err (kp_serialize L kp))) (\<lambda>kp_bytes.
     pbind (Ret (ser_err (pk_serialize L pkp))) (\<lambda>pkp_bytes.
       Ret (js_or LIB_SERIALIZATION_ERROR
         (js_frozt_keyshare_bundle_pack L kp_bytes pkp_bytes extras agreed_birthday))))))))))"

definition js_frozt_key_import_run where
  "js_frozt_key_import_run L Z rng my_id (mx :: u16) mn holder seed acct bday =
     (let is_seed_holder = (my_id = holder) in
      pbind (Ret (if is_seed_holder
                  then rbind (derive_spending_key Z seed acct) (\<lambda>sk.
                       rbind (ser_err (scalar_deserialize Z sk)) (\<lambda>sk_scalar.
                         Ok (derive_constant_term sk_scalar mx)))
                  else Ok 1)) (\<lambda>constant_term.
      pbind (key_import_run L rng my_id mx mn constant_term) (\<lambda>(kp, pkp).
      pbind (if is_seed_holder
             then pbind (Ret (derive_extras_from_seed Z seed acct)) (\<lambda>extras.
                  pbind (Ret (metadata_create_with_extras extras bday)) (\<lambda>blob.
                  pbind (broadcast blob) (\<lambda>_. Ret (Ok blob))))
             else pbind recv (\<lambda>(sender, blob). Ret (Ok blob))) (\<lambda>metadata_blob.
      pbind (Ret (metadata_hash Z metadata_blob)) (\<lambda>my_hash.
      pbind (broadcast my_hash) (\<lambda>_.
      pbind (recv_loop (unat (mx - 1)) (check_hash LIB_KEY_IMPORT_ERROR my_hash) ()) (\<lambda>_.
      pbind (if is_seed_holder
             then pbind (Ret (derive_spending_key Z seed acct)) (\<lambda>sk.
                  pbind (Ret (spending_key_to_vk L Z sk)) (\<lambda>expected_vk. broadcast expected_vk))
             else pbind recv (\<lambda>(sender, expected_vk).
                  pbind (Ret (ser_err (vk_serialize L (pk_verifying_key L pkp)))) (\<lambda>actual_vk.
                    Ret (if actual_vk \<noteq> expected_vk then Err LIB_KEY_IMPORT_ERROR else Ok ())))) (\<lambda>_.
      pbind (Ret (metadata_parse metadata_blob)) (\<lambda>(extras, agreed_birthday).
      pbind (Ret (ser_err (kp_serialize L kp))) (\<lambda>kp_bytes.
      pbind (Ret (ser_err (pk_serialize L pkp))) (\<lambda>pkp_bytes.
        Ret (js_or LIB_SERIALIZATION_ERROR
          (js_frozt_keyshare_bundle_pack L kp_bytes pkp_bytes extras agreed_birthday)))))))))))))"

section \<open>The classes\<close>

text \<open>\<^verbatim>\<open>FroztDkgSession\<close>\<close>

definition frozt_dkg_js_from_setup where
  "frozt_dkg_js_from_setup L Z rng rng2 setup_bytes my_party_name (bday :: u64) =
     jbind (js_of (setup_decode setup_bytes)) (\<lambda>(setup, _).
     jbind (js_party setup my_party_name) (\<lambda>my_id.
     jbind (js_of (coordinator_id setup)) (\<lambda>coord.
       js_start (js_frozt_dkg_run L Z rng rng2 my_id (max_signers setup) (min_signers setup) bday (coord = my_id))
         setup my_id)))"

definition frozt_dkg_js_feed where
  "frozt_dkg_js_feed (s :: bytes session_state) msg = js_feed s msg"

definition frozt_dkg_js_take_msg where
  "frozt_dkg_js_take_msg (s :: bytes session_state) = js_take_msg s"

definition frozt_dkg_js_msg_receiver where
  "frozt_dkg_js_msg_receiver (s :: bytes session_state) msg idx = js_msg_receiver s msg idx"

definition frozt_dkg_js_result where
  "frozt_dkg_js_result (s :: bytes session_state) = js_result Done s"

text \<open>\<^verbatim>\<open>FroztKeyImportSession\<close>; the seed and the account are arguments, those of the setup are not used.\<close>

definition frozt_key_import_js_from_setup where
  "frozt_key_import_js_from_setup L Z rng setup_bytes my_party_name seed acct (bday :: u64) =
     jbind (js_of (key_import_setup_decode32 setup_bytes)) (\<lambda>ki.
     let setup = ki_base ki in
     jbind (js_party setup my_party_name) (\<lambda>my_id.
       js_start (js_frozt_key_import_run L Z rng my_id (max_signers setup) (min_signers setup)
                   (seed_holder_id ki) seed acct bday) setup my_id))"

definition frozt_key_import_js_feed where
  "frozt_key_import_js_feed (s :: bytes session_state) msg = js_feed s msg"

definition frozt_key_import_js_take_msg where
  "frozt_key_import_js_take_msg (s :: bytes session_state) = js_take_msg s"

definition frozt_key_import_js_msg_receiver where
  "frozt_key_import_js_msg_receiver (s :: bytes session_state) msg idx = js_msg_receiver s msg idx"

definition frozt_key_import_js_result where
  "frozt_key_import_js_result (s :: bytes session_state) = js_result Done s"

text \<open>\<^verbatim>\<open>FroztSignSession\<close>; the two constructors differ in the randomizer.\<close>

definition frozt_sign_js_from_setup where
  "frozt_sign_js_from_setup L S R rng rng2 setup_bytes my_party_name kp_data pkp_data =
     jbind (js_of (sign_setup_decode32 setup_bytes)) (\<lambda>sst.
     let setup = ss_base sst in
     jbind (js_party setup my_party_name) (\<lambda>my_id.
     jbind (js_ok_or (kp_deserialize L kp_data) From_Crate) (\<lambda>kp.
     jbind (js_ok_or (pk_deserialize L pkp_data) From_Crate) (\<lambda>pkp.
     jbind (js_of (coordinator_id setup)) (\<lambda>coord.
       js_start (js_frozt_sign_run L S R rng rng2 kp pkp (message sst) (coord = my_id) (length (parties setup)) None)
         setup my_id)))))"

definition frozt_sign_js_from_setup_with_alpha where
  "frozt_sign_js_from_setup_with_alpha L S R rng rng2 setup_bytes my_party_name kp_data pkp_data alpha =
     jbind (js_of (sign_setup_decode32 setup_bytes)) (\<lambda>sst.
     let setup = ss_base sst in
     jbind (js_party setup my_party_name) (\<lambda>my_id.
     jbind (js_ok_or (kp_deserialize L kp_data) From_Crate) (\<lambda>kp.
     jbind (js_ok_or (pk_deserialize L pkp_data) From_Crate) (\<lambda>pkp.
     jbind (js_of (coordinator_id setup)) (\<lambda>coord.
       js_start (js_frozt_sign_run L S R rng rng2 kp pkp (message sst) (coord = my_id) (length (parties setup)) (Some alpha))
         setup my_id)))))"

definition frozt_sign_js_feed where
  "frozt_sign_js_feed (s :: bytes session_state) msg = js_feed s msg"

definition frozt_sign_js_take_msg where
  "frozt_sign_js_take_msg (s :: bytes session_state) = js_take_msg s"

definition frozt_sign_js_msg_receiver where
  "frozt_sign_js_msg_receiver (s :: bytes session_state) msg idx = js_msg_receiver s msg idx"

definition frozt_sign_js_result where
  "frozt_sign_js_result (s :: bytes session_state) = js_result Done s"

text \<open>\<^verbatim>\<open>FroztReshareSession\<close>\<close>

definition frozt_reshare_js_from_setup where
  "frozt_reshare_js_from_setup L rng setup_bytes my_party_name old_kp_data =
     jbind (js_of (reshare_setup_decode32 setup_bytes)) (\<lambda>rst.
     let setup = rs_base rst in
     jbind (js_party setup my_party_name) (\<lambda>my_id.
     jbind (js_ok_or (kp_deserialize L old_kp_data) From_Crate) (\<lambda>old_kp.
     jbind (jmap (\<lambda>i. js_ok_or (id_try_from L i) From_Crate) (old_identifiers rst)) (\<lambda>old_ids.
     jbind (js_of (compute_additive_share L old_kp old_ids (max_signers setup))) (\<lambda>additive_share.
       js_start (reshare_run L rng my_id (max_signers setup) (min_signers setup) additive_share (expected_vk rst))
         setup my_id)))))"

definition frozt_reshare_js_feed where
  "frozt_reshare_js_feed (s :: ('kp \<times> 'pk) session_state) msg = js_feed s msg"

definition frozt_reshare_js_take_msg where
  "frozt_reshare_js_take_msg (s :: ('kp \<times> 'pk) session_state) = js_take_msg s"

definition frozt_reshare_js_msg_receiver where
  "frozt_reshare_js_msg_receiver (s :: ('kp \<times> 'pk) session_state) msg idx = js_msg_receiver s msg idx"

text \<open>The object that is returned has the two properties \<^verbatim>\<open>keyPackage\<close> and \<^verbatim>\<open>pubKeyPackage\<close>.\<close>

definition frozt_reshare_js_result where
  "frozt_reshare_js_result L s =
     js_result (\<lambda>(kp, pkp).
       jbind (js_ok_or (kp_serialize L kp) From_Crate) (\<lambda>kp_bytes.
       jbind (js_ok_or (pk_serialize L pkp) From_Crate) (\<lambda>pkp_bytes. Done (kp_bytes, pkp_bytes)))) s"

section \<open>Setup messages\<close>

definition js_frozt_dkg_setup_msg_new where
  "js_frozt_dkg_setup_msg_new mx mn parties_data (bday :: u64) =
     jbind (decode_parties_wasm parties_data) (\<lambda>ps.
       Done (setup_encode \<lparr>max_signers = mx, min_signers = mn, parties = ps\<rparr> @ u64_le bday))"

definition js_frozt_sign_setup_msg_new where
  "js_frozt_sign_setup_msg_new msg_to_sign parties_data =
     jbind (decode_parties_wasm parties_data) (\<lambda>ps.
       let num = word_of_nat (length ps) in
       Done (sign_setup_encode \<lparr>ss_base = \<lparr>max_signers = num, min_signers = num, parties = ps\<rparr>, message = msg_to_sign\<rparr>))"

definition js_frozt_reshare_setup_msg_new where
  "js_frozt_reshare_setup_msg_new mx mn parties_data old_identifiers_data vk =
     jbind (decode_parties_wasm parties_data) (\<lambda>ps.
     jbind (decode_u16_list_wasm old_identifiers_data) (\<lambda>old_ids.
       Done (reshare_setup_encode \<lparr>rs_base = \<lparr>max_signers = mx, min_signers = mn, parties = ps\<rparr>,
               old_identifiers = old_ids, expected_vk = vk\<rparr>)))"

definition js_frozt_key_import_setup_msg_new where
  "js_frozt_key_import_setup_msg_new mx mn parties_data (bday :: u64) holder seed acct =
     jbind (decode_parties_wasm parties_data) (\<lambda>ps.
       Done (key_import_setup_encode \<lparr>ki_base = \<lparr>max_signers = mx, min_signers = mn, parties = ps\<rparr>,
               seed_holder_id = holder, secret_data = seed, account_index = acct\<rparr> @ u64_le bday))"

end
