(* ===== verification/Wasm_Fromt_Session.thy ===== *)
theory Wasm_Fromt_Session
  imports Wasm_Readers Fromt_Session
begin

text \<open>
  \<^verbatim>\<open>fromt-wasm/src/session.rs\<close>: the five session classes of the Monero library for the browser, with
  the tasks as that crate writes them again, the setup messages, and the helpers for identifiers. The
  network and the birthday are arguments of the constructors; those in a setup message are not read.
\<close>

section \<open>The tasks\<close>

definition js_fromt_dkg_run where
  "js_fromt_dkg_run L K rng rng2 my_id (mx :: u16) mn network bday =
     pbind (Ret (build_id_map L mx)) (\<lambda>id_map.
     pbind (Ret (try_id L my_id)) (\<lambda>ident.
     pbind (Ret (or_blame L (dkg_core_part1 L ident mx mn rng) LIB_DKG_ERROR)) (\<lambda>(secret1, package).
     pbind (Ret (ser_err (package1_serialize L package))) (\<lambda>r1_bytes.
     let (vk_share, rng2) = random_scalar L rng2 in
     pbind (Ret (into_array VK_SHARE_LEN LIB_SERIALIZATION_ERROR (f_serialize K vk_share))) (\<lambda>vk_share_bytes.
     pbind (broadcast (r1_bytes @ vk_share_bytes)) (\<lambda>_.
     let num_others = unat (mx - 1) in
     pbind (recv_loop num_others (recv_r1_vk L) ([], [])) (\<lambda>(r1_frost_map, vk_shares_map).
     pbind (Ret (or_blame L (dkg_core_part2 L secret1 r1_frost_map) LIB_DKG_ERROR)) (\<lambda>(secret2, r2_map).
     pbind (send_loop (prepare_r2 L id_map) r2_map) (\<lambda>_.
     pbind (recv_loop num_others (recv_insert L (package2_deserialize L)) []) (\<lambda>r2_received.
     pbind (Ret (or_blame L (dkg_core_part3 L secret2 r1_frost_map r2_received) LIB_DKG_ERROR)) (\<lambda>(kp, pkp).
     pbind (Ret (aggregate_view_key_shares K vk_share_bytes vk_shares_map)) (\<lambda>vk_sum.
       Ret (fromt_bundle_serialize L \<lparr>fb_key_package = kp, fb_pub_key_package = pkp, fb_view_key = vk_sum,
              fb_network = network, fb_birthday = bday\<rparr>)))))))))))))"

text \<open>This crate checks the own identifier before it reads the spend key.\<close>

definition js_fromt_key_import_run where
  "js_fromt_key_import_run L K rng my_id (mx :: u16) mn holder spend_key network bday =
     (let is_seed_holder = (my_id = holder) in
      pbind (Ret (build_id_map L mx)) (\<lambda>id_map.
      pbind (Ret (try_id L my_id)) (\<lambda>_.
      pbind (Ret (if is_seed_holder
                  then rbind (into_array 32 LIB_INVALID_BUFFER_SIZE spend_key) (\<lambda>sk_bytes. holder_shares K sk_bytes mx)
                  else Ok (1, zero32))) (\<lambda>(constant_term, vk_share_bytes).
      pbind (Ret (key_import_part1 L rng my_id mx mn constant_term)) (\<lambda>(secret1, r1_frost_bytes).
      pbind (broadcast (r1_frost_bytes @ vk_share_bytes)) (\<lambda>_.
      let num_others = unat (mx - 1) in
      pbind (recv_loop num_others (recv_r1_vk L) ([], [])) (\<lambda>(r1_frost_map, vk_shares_map).
      pbind (Ret (or_blame L (dkg_core_part2 L secret1 r1_frost_map) LIB_DKG_ERROR)) (\<lambda>(secret2, r2_map).
      pbind (send_loop (prepare_r2 L id_map) r2_map) (\<lambda>_.
      pbind (recv_loop num_others (recv_insert L (package2_deserialize L)) []) (\<lambda>r2_received.
      pbind (Ret (or_blame L (dkg_core_part3 L secret2 r1_frost_map r2_received) LIB_DKG_ERROR)) (\<lambda>(kp, pkp).
      pbind (if is_seed_holder
             then pbind (Ret (ser_err (vk_serialize L (pk_verifying_key L pkp)))) (\<lambda>expected. broadcast expected)
             else pbind recv (\<lambda>(sender, expected).
                  pbind (Ret (ser_err (vk_serialize L (pk_verifying_key L pkp)))) (\<lambda>actual.
                    Ret (if actual \<noteq> expected then Err LIB_KEY_IMPORT_ERROR else Ok ())))) (\<lambda>_.
      pbind (Ret (aggregate_view_key_shares K vk_share_bytes vk_shares_map)) (\<lambda>vk_sum.
        Ret (fromt_bundle_serialize L \<lparr>fb_key_package = kp, fb_pub_key_package = pkp, fb_view_key = vk_sum,
               fb_network = network, fb_birthday = bday\<rparr>))))))))))))))"

definition js_key_image_session_run where
  "js_key_image_session_run L K key_share_data outputs_bytes signer_ids =
     pbind (Ret (key_image_part1 L K key_share_data outputs_bytes signer_ids)) (\<lambda>(state, partials).
     pbind (broadcast partials) (\<lambda>_.
     pbind (recv_loop (usize32_pred (length signer_ids)) (\<lambda>m acc. Ok (acc @ [m])) []) (\<lambda>r1_packages.
       Ret (key_image_part2 K state r1_packages))))"

section \<open>The classes\<close>

text \<open>\<^verbatim>\<open>FromtKeyImportSession\<close>\<close>

definition fromt_key_import_js_from_setup where
  "fromt_key_import_js_from_setup L K rng setup_bytes my_party_name spend_key network bday =
     jbind (js_of (key_import_setup_decode32 setup_bytes)) (\<lambda>ki.
     let setup = ki_base ki in
     jbind (js_party setup my_party_name) (\<lambda>my_id.
       js_start (js_fromt_key_import_run L K rng my_id (max_signers setup) (min_signers setup)
                   (seed_holder_id ki) spend_key network bday) setup my_id))"

definition fromt_key_import_js_feed where
  "fromt_key_import_js_feed (s :: bytes session_state) msg = js_feed s msg"

definition fromt_key_import_js_take_msg where
  "fromt_key_import_js_take_msg (s :: bytes session_state) = js_take_msg s"

definition fromt_key_import_js_msg_receiver where
  "fromt_key_import_js_msg_receiver (s :: bytes session_state) msg idx = js_msg_receiver s msg idx"

definition fromt_key_import_js_result where
  "fromt_key_import_js_result (s :: bytes session_state) = js_result Done s"

text \<open>\<^verbatim>\<open>FromtDkgSession\<close>\<close>

definition fromt_dkg_js_from_setup where
  "fromt_dkg_js_from_setup L K rng rng2 setup_bytes my_party_name network bday =
     jbind (js_of (setup_decode setup_bytes)) (\<lambda>(setup, _).
     jbind (js_party setup my_party_name) (\<lambda>my_id.
       js_start (js_fromt_dkg_run L K rng rng2 my_id (max_signers setup) (min_signers setup) network bday) setup my_id))"

definition fromt_dkg_js_feed where
  "fromt_dkg_js_feed (s :: bytes session_state) msg = js_feed s msg"

definition fromt_dkg_js_take_msg where
  "fromt_dkg_js_take_msg (s :: bytes session_state) = js_take_msg s"

definition fromt_dkg_js_msg_receiver where
  "fromt_dkg_js_msg_receiver (s :: bytes session_state) msg idx = js_msg_receiver s msg idx"

definition fromt_dkg_js_result where
  "fromt_dkg_js_result (s :: bytes session_state) = js_result Done s"

text \<open>\<^verbatim>\<open>FromtSignSession\<close>\<close>

definition fromt_sign_js_from_setup where
  "fromt_sign_js_from_setup L S rng setup_bytes my_party_name kp_data pkp_data =
     jbind (js_of (sign_setup_decode32 setup_bytes)) (\<lambda>sst.
     let setup = ss_base sst in
     jbind (js_party setup my_party_name) (\<lambda>my_id.
     jbind (js_ok_or (kp_deserialize L kp_data) From_Crate) (\<lambda>kp.
     jbind (js_ok_or (pk_deserialize L pkp_data) From_Crate) (\<lambda>pkp.
       js_start (sign_run L S rng kp pkp (message sst) (length (parties setup))) setup my_id))))"

definition fromt_sign_js_feed where
  "fromt_sign_js_feed (s :: bytes session_state) msg = js_feed s msg"

definition fromt_sign_js_take_msg where
  "fromt_sign_js_take_msg (s :: bytes session_state) = js_take_msg s"

definition fromt_sign_js_msg_receiver where
  "fromt_sign_js_msg_receiver (s :: bytes session_state) msg idx = js_msg_receiver s msg idx"

definition fromt_sign_js_result where
  "fromt_sign_js_result (s :: bytes session_state) = js_result Done s"

text \<open>\<^verbatim>\<open>FromtReshareSession\<close>\<close>

definition fromt_reshare_js_from_setup where
  "fromt_reshare_js_from_setup L rng setup_bytes my_party_name old_kp_data =
     jbind (js_of (reshare_setup_decode32 setup_bytes)) (\<lambda>rst.
     let setup = rs_base rst in
     jbind (js_party setup my_party_name) (\<lambda>my_id.
     jbind (js_ok_or (kp_deserialize L old_kp_data) From_Crate) (\<lambda>old_kp.
     jbind (jmap (\<lambda>i. js_ok_or (id_try_from L i) From_Crate) (old_identifiers rst)) (\<lambda>old_ids.
     jbind (js_of (compute_additive_share L old_kp old_ids (max_signers setup))) (\<lambda>additive_share.
       js_start (reshare_run L rng my_id (max_signers setup) (min_signers setup) additive_share (expected_vk rst))
         setup my_id)))))"

definition fromt_reshare_js_feed where
  "fromt_reshare_js_feed (s :: ('kp \<times> 'pk) session_state) msg = js_feed s msg"

definition fromt_reshare_js_take_msg where
  "fromt_reshare_js_take_msg (s :: ('kp \<times> 'pk) session_state) = js_take_msg s"

definition fromt_reshare_js_msg_receiver where
  "fromt_reshare_js_msg_receiver (s :: ('kp \<times> 'pk) session_state) msg idx = js_msg_receiver s msg idx"

definition fromt_reshare_js_result where
  "fromt_reshare_js_result L s =
     js_result (\<lambda>(kp, pkp).
       jbind (js_ok_or (kp_serialize L kp) From_Crate) (\<lambda>kp_bytes.
       jbind (js_ok_or (pk_serialize L pkp) From_Crate) (\<lambda>pkp_bytes. Done (kp_bytes, pkp_bytes)))) s"

text \<open>\<^verbatim>\<open>FromtKeyImageSession\<close>\<close>

definition fromt_key_image_js_from_setup where
  "fromt_key_image_js_from_setup L K setup_bytes my_party_name key_share =
     jbind (js_of (key_image_setup_decode32 setup_bytes)) (\<lambda>ki.
     let setup = kimg_base ki in
     jbind (js_party setup my_party_name) (\<lambda>my_id.
       js_start (js_key_image_session_run L K key_share (outputs_data ki) (map frost_id (parties setup))) setup my_id))"

definition fromt_key_image_js_feed where
  "fromt_key_image_js_feed (s :: bytes session_state) msg = js_feed s msg"

definition fromt_key_image_js_take_msg where
  "fromt_key_image_js_take_msg (s :: bytes session_state) = js_take_msg s"

definition fromt_key_image_js_msg_receiver where
  "fromt_key_image_js_msg_receiver (s :: bytes session_state) msg idx = js_msg_receiver s msg idx"

definition fromt_key_image_js_result where
  "fromt_key_image_js_result (s :: bytes session_state) = js_result Done s"

section \<open>Setup messages\<close>

definition fromt_decode_parties_wasm :: "bytes \<Rightarrow> party_entry list js" where
  "fromt_decode_parties_wasm data =
     (if length data < 2 then Thrown (Message ''parties data too short'')
      else
        jbind (js_of (index data 0)) (\<lambda>b0. jbind (js_of (index data 1)) (\<lambda>b1.
          js_many (unat (u16_of_le [b0, b1])) wasm_party_at data 2)))"

definition fromt_decode_u16_list_wasm :: "bytes \<Rightarrow> u16 list js" where
  "fromt_decode_u16_list_wasm data =
     (if length data < 2 then Thrown (Message ''u16 list data too short'')
      else
        jbind (js_of (index data 0)) (\<lambda>b0. jbind (js_of (index data 1)) (\<lambda>b1.
          js_many (unat (u16_of_le [b0, b1])) wasm_u16_at data 2)))"

definition js_fromt_dkg_setup_msg_new where
  "js_fromt_dkg_setup_msg_new mx mn parties_data network (bday :: u64) =
     jbind (fromt_decode_parties_wasm parties_data) (\<lambda>ps.
       Done (setup_encode \<lparr>max_signers = mx, min_signers = mn, parties = ps\<rparr> @ [network] @ u64_le bday))"

definition js_fromt_sign_setup_msg_new where
  "js_fromt_sign_setup_msg_new msg_to_sign parties_data =
     jbind (fromt_decode_parties_wasm parties_data) (\<lambda>ps.
       let num = word_of_nat (length ps) in
       Done (sign_setup_encode \<lparr>ss_base = \<lparr>max_signers = num, min_signers = num, parties = ps\<rparr>, message = msg_to_sign\<rparr>))"

definition js_fromt_reshare_setup_msg_new where
  "js_fromt_reshare_setup_msg_new mx mn parties_data old_identifiers_data vk =
     jbind (fromt_decode_parties_wasm parties_data) (\<lambda>ps.
     jbind (fromt_decode_u16_list_wasm old_identifiers_data) (\<lambda>old_ids.
       Done (reshare_setup_encode \<lparr>rs_base = \<lparr>max_signers = mx, min_signers = mn, parties = ps\<rparr>,
               old_identifiers = old_ids, expected_vk = vk\<rparr>)))"

definition js_fromt_key_import_setup_msg_new where
  "js_fromt_key_import_setup_msg_new mx mn parties_data network (bday :: u64) holder seed acct =
     jbind (fromt_decode_parties_wasm parties_data) (\<lambda>ps.
       Done (key_import_setup_encode \<lparr>ki_base = \<lparr>max_signers = mx, min_signers = mn, parties = ps\<rparr>,
               seed_holder_id = holder, secret_data = seed, account_index = acct\<rparr> @ [network] @ u64_le bday))"

definition js_fromt_key_image_setup_msg_new where
  "js_fromt_key_image_setup_msg_new parties_data outs =
     jbind (fromt_decode_parties_wasm parties_data) (\<lambda>ps.
       let num = word_of_nat (length ps) in
       Done (key_image_setup_encode \<lparr>kimg_base = \<lparr>max_signers = num, min_signers = num, parties = ps\<rparr>,
               outputs_data = outs\<rparr>))"

section \<open>Identifiers\<close>

definition js_fromt_encode_identifier where
  "js_fromt_encode_identifier L n =
     jbind (js_ok_or (id_try_from L n) From_Crate) (\<lambda>ident. Done (id_serialize L ident))"

text \<open>Only the first two bytes of the serialized identifier are read.\<close>

definition js_fromt_decode_identifier where
  "js_fromt_decode_identifier L id_bytes =
     jbind (js_ok_or (id_deserialize L id_bytes) From_Crate) (\<lambda>ident.
     let serialized = id_serialize L ident in
     if length serialized < 2 then Thrown (Message ''identifier too short'')
     else jbind (js_of (index serialized 0)) (\<lambda>b0. jbind (js_of (index serialized 1)) (\<lambda>b1.
       Done (u16_of_le [b0, b1]))))"

definition fromt_wasm_encode_map where
  "fromt_wasm_encode_map L es =
     jbind (jmap (wasm_encode_entry L) es) (\<lambda>bs. Done (u32_le (word_of_nat (length es)) @ concat bs))"

end
