(* ===== verification/Task_Simulation.thy ===== *)
theory Task_Simulation
  imports Session_Driver
begin

text \<open>
  When two tasks look the same to a host: a relation between tasks that send and return the same and
  need to go on alike only for the frames they may be fed, each frame judged by the number of those
  before it. It holds of a task with itself, is kept by sequencing, and gives equal observations of
  the two sessions under every sequence of host calls that feeds such frames.
\<close>

section \<open>Tasks that are alike on the frames they may get\<close>

inductive alike :: "(nat \<Rightarrow> bytes \<Rightarrow> bool) \<Rightarrow> nat \<Rightarrow> 'a proc \<Rightarrow> 'a proc \<Rightarrow> bool" for Q where
  alike_Ret: "alike Q i (Ret r) (Ret r)"
| alike_Send: "alike Q i p q \<Longrightarrow> alike Q i (Send m p) (Send m q)"
| alike_Recv:
    "(\<And>f. Q i f \<Longrightarrow> alike Q (Suc i) (k (recv_frame f)) (k' (recv_frame f))) \<Longrightarrow> alike Q i (Recv k) (Recv k')"

inductive_cases alike_RetE: "alike Q i (Ret r) q"
inductive_cases alike_SendE: "alike Q i (Send m p) q"
inductive_cases alike_RecvE: "alike Q i (Recv k) q"

lemma alike_refl: "alike Q i p p"
proof (induction p arbitrary: i)
  case (Recv k)
  then show ?case by (auto intro: alike_Recv)
qed (auto intro: alike.intros)

text \<open>Sequencing: first parts that are alike, or one first part that takes a fixed number of frames.\<close>

lemma alike_pbind: "alike Q i p q \<Longrightarrow> alike Q i (pbind p f) (pbind q f)"
proof (induction rule: alike.induct)
  case (alike_Ret i r)
  show ?case by (rule alike_refl)
qed (auto intro: alike.intros)

primrec takes :: "'a proc \<Rightarrow> nat \<Rightarrow> bool" where
  "takes (Ret r) n \<longleftrightarrow> (\<forall>x. r = Ok x \<longrightarrow> n = 0)"
| "takes (Send m p) n \<longleftrightarrow> takes p n"
| "takes (Recv k) n \<longleftrightarrow> (case n of 0 \<Rightarrow> False | Suc n' \<Rightarrow> \<forall>m. takes (k m) n')"

lemma takes_recv_loop: "takes (recv_loop n stp acc) n"
  by (induction n arbitrary: acc) (auto simp: recv_def split: res.splits)

lemma takes_broadcast: "takes (broadcast d) 0"
  by (simp add: broadcast_def)

lemma alike_after: "takes p n \<Longrightarrow> (\<And>x. alike Q (i + n) (f x) (g x)) \<Longrightarrow> alike Q i (pbind p f) (pbind p g)"
proof (induction p arbitrary: i n)
  case (Ret r)
  then show ?case by (cases r) (auto intro: alike.intros)
next
  case (Recv k)
  then obtain n' where n: "n = Suc n'" "\<And>m. takes (k m) n'" by (auto split: nat.splits)
  show ?case
    unfolding pbind.simps
  proof (rule alike_Recv)
    fix fr
    show "alike Q (Suc i) (pbind (k (recv_frame fr)) f) (pbind (k (recv_frame fr)) g)"
      by (rule Recv.IH [OF rangeI n(2)]) (use Recv.prems(2) n(1) in simp)
  qed
qed (auto intro: alike.intros)

lemma alike_local: "(\<And>x. alike Q i (f x) (g x)) \<Longrightarrow> alike Q i (pbind (Ret r) f) (pbind (Ret r) g)"
  by (cases r) (auto intro: alike.intros)

section \<open>What a host sees of them\<close>

lemma alike_poll:
  assumes "alike Q i p q" "\<forall>j < length fs. Q (i + j) (fs ! j)" "poll p fs outb = (p', rest, o')"
  shows "\<exists>q' j. poll q fs outb = (q', rest, o') \<and> alike Q j p' q'"
  using assms
proof (induction arbitrary: fs outb rule: alike.induct)
  case (alike_Ret i r)
  then show ?case by (auto intro!: exI [of _ i] alike.alike_Ret)
next
  case (alike_Recv i k k')
  show ?case
  proof (cases fs)
    case Nil
    then show ?thesis using alike_Recv by (auto intro!: alike.alike_Recv)
  next
    case (Cons f fs')
    have f: "Q i f" using alike_Recv.prems(1) Cons by force
    have fs': "\<forall>j < length fs'. Q (Suc i + j) (fs' ! j)"
      using alike_Recv.prems(1) Cons by (metis Suc_less_eq add_Suc_shift length_Cons nth_Cons_Suc)
    show ?thesis using alike_Recv.IH [OF f fs'] alike_Recv.prems(2) Cons by simp
  qed
qed auto

lemma alike_answers: "alike Q i p q \<Longrightarrow> outcome_of p = outcome_of q \<and> feed_answer p = feed_answer q"
  by (cases rule: alike.cases) (auto simp: outcome_of_def feed_answer_def)

text \<open>
  \<open>seen_alike ok p q\<close>: as long as the frames a host feeds satisfy \<open>ok\<close>, the sessions of the tasks \<open>p\<close>
  and \<open>q\<close> give it the same messages to send, the same answers to each feed and the same outcome.
\<close>

definition seen_alike :: "(bytes list \<Rightarrow> bool) \<Rightarrow> 'a proc \<Rightarrow> 'a proc \<Rightarrow> bool" where
  "seen_alike ok p q \<longleftrightarrow> fst (start p) = fst (start q) \<and>
     (\<forall>calls. ok (fed calls) \<longrightarrow>
        fst (host_run p calls) = fst (host_run q calls) \<and>
        outbox (snd (host_run p calls)) = outbox (snd (host_run q calls)) \<and>
        outcome (snd (host_run p calls)) = outcome (snd (host_run q calls)) \<and>
        (\<forall>m. ok (fed calls @ [m]) \<longrightarrow>
           fst (feed m (snd (host_run p calls))) = fst (feed m (snd (host_run q calls)))))"

lemma seen_alikeI:
  assumes "alike Q 0 p q" "\<And>fs. ok fs \<longleftrightarrow> (\<forall>j < length fs. Q j (fs ! j))"
  shows "seen_alike ok p q"
proof -
  have run: "\<exists>p' q' rest out. poll p fs [] = (p', rest, out) \<and> poll q fs [] = (q', rest, out) \<and>
      outcome_of p' = outcome_of q' \<and> feed_answer p' = feed_answer q'" if "ok fs" for fs
    using alike_poll [OF assms(1), of fs "[]"] that alike_answers by (cases "poll p fs []") (fastforce simp: assms(2))
  have prefix: "ok a" if "ok (a @ b)" for a b
    using that unfolding assms(2) by (metis length_append nth_append trans_less_add1)
  have same: "fst (host_run p calls) = fst (host_run q calls) \<and>
      outbox (snd (host_run p calls)) = outbox (snd (host_run q calls)) \<and>
      outcome (snd (host_run p calls)) = outcome (snd (host_run q calls))" if "ok (fed calls)" for calls
    using that
  proof (induction calls rule: rev_induct)
    case Nil
    then show ?case
      using run [of "[]"] simulates_host_run [of p "[]"] simulates_host_run [of q "[]"]
      by (auto simp: simulates_def host_run_def)
  next
    case (snoc c cs)
    from snoc.prems have "ok (fed cs)" by (auto dest: prefix)
    note IH = snoc.IH [OF this]
    have step: "host_run x (cs @ [c]) = host_step c (host_run x cs)" for x :: "'a proc" by (simp add: host_run_def)
    obtain p' q' rest out where r: "poll p (fed (cs @ [c])) [] = (p', rest, out)" "poll q (fed (cs @ [c])) [] = (q', rest, out)"
      "outcome_of p' = outcome_of q'" using run [OF snoc.prems] by blast
    have s: "fst (host_run p (cs @ [c])) @ outbox (snd (host_run p (cs @ [c]))) = out"
      "fst (host_run q (cs @ [c])) @ outbox (snd (host_run q (cs @ [c]))) = out"
      "outcome (snd (host_run p (cs @ [c]))) = outcome (snd (host_run q (cs @ [c])))"
      using simulates_host_run [of p "cs @ [c]"] simulates_host_run [of q "cs @ [c]"] r by (auto simp: simulates_def)
    have "fst (host_run p (cs @ [c])) = fst (host_run q (cs @ [c]))"
      unfolding step using IH by (cases c) (auto simp: take_msg_def split: list.splits)
    with s show ?case by (metis same_append_eq)
  qed
  have "fst (feed m (snd (host_run p calls))) = fst (feed m (snd (host_run q calls)))" if "ok (fed calls @ [m])" for calls m
    using run [OF that] by (auto simp: feed_host_run)
  moreover have "fst (start p) = fst (start q)" using run [of "[]"] by (auto simp: start_answer assms(2))
  ultimately show ?thesis using same by (simp add: seen_alike_def)
qed

end
