(* ===== verification/Wasm_Session_Properties.thy ===== *)
theory Wasm_Session_Properties
  imports Wasm_Frozt_Session Wasm_Fromt_Session Frozt_Rounds Task_Simulation
begin

text \<open>
  How the sessions for the browser compare with those of the native libraries: the tasks are the same,
  lists, names and bundles are read the same, but lengths that wrap around trap, and a result that is
  asked for too early ends the session.
\<close>

section \<open>Lemmas\<close>

lemma pack_as_native:
  assumes "serde_ok (kp_serialize L) (kp_deserialize L)" "serde_ok (pk_serialize L) (pk_deserialize L)"
  shows "pbind (Ret (ser_err (kp_serialize L kp))) (\<lambda>kb. pbind (Ret (ser_err (pk_serialize L pkp))) (\<lambda>pb.
      Ret (js_or LIB_SERIALIZATION_ERROR (js_frozt_keyshare_bundle_pack L kb pb extras bday))))
    = Ret (bundle_serialize L \<lparr>key_package = kp, pub_key_package = pkp, sapling_extras = extras, birthday = bday\<rparr>)"
  using assms
  by (cases "kp_serialize L kp"; cases "pk_serialize L pkp")
     (simp_all add: ser_err_def bundle_serialize_def js_frozt_keyshare_bundle_pack_def serde_ok_def js_or_def)

lemma frozt_runs_agree:
  assumes "serde_ok (kp_serialize L) (kp_deserialize L)" "serde_ok (pk_serialize L) (pk_deserialize L)"
  shows "js_frozt_dkg_run L Z rng rng2 my_id mx mn bday coord = frozt_dkg_run L Z rng rng2 my_id mx mn bday coord"
    and "js_frozt_key_import_run L Z rng my_id mx mn holder seed acct bday
       = frozt_key_import_run L Z rng my_id mx mn holder seed acct bday"
  unfolding js_frozt_dkg_run_def frozt_dkg_run_def js_frozt_key_import_run_def frozt_key_import_run_def
    pack_as_native [OF assms] by (rule refl)+

lemma usize32_pred_eq: "0 < n \<Longrightarrow> usize32_pred n = usize_pred n"
  by (simp add: usize32_pred_def usize_pred_def)

lemma msg_receiver_lossy:
  "js_msg_receiver s msg idx = map_option utf8_lossy (msg_receiver_impl (setup_of s) (my_id_of s) msg idx)"
  by (simp add: js_msg_receiver_def msg_receiver_impl_def Let_def)

lemma party_name_in: "party_name setup i = Some nm \<Longrightarrow> nm \<in> name ` set (parties setup)"
  by (auto simp: party_name_def find_Some_iff)

lemma msg_receiver_in: "msg_receiver_impl setup my_id msg idx = Some nm \<Longrightarrow> nm \<in> name ` set (parties setup)"
  by (auto simp: msg_receiver_impl_def Let_def dest: party_name_in split: if_splits)

text \<open>Parts of a bundle, at positions that are 32-bit words.\<close>

lemma holds_at_slice: "holds_at d n b \<Longrightarrow> slice d n (n + length b) = Ok b"
  by (simp add: holds_at_def slice_def)

lemma word_of_nat_unat32: "n < 2 ^ 32 \<Longrightarrow> unat (word_of_nat n :: u32) = n"
  by (simp add: unsigned_of_nat take_bit_nat_eq_self)

lemma at_word:
  assumes "holds_at d n b" "length d < 2 ^ 31"
  shows "\<not> word_of_nat n + word_of_nat (length b) > wasm_len d"
    "js_slice d (word_of_nat n) (word_of_nat n + word_of_nat (length b)) = Done b"
    "word_of_nat n + word_of_nat (length b) = (word_of_nat (n + length b) :: u32)"
proof -
  have b: "n + length b \<le> length d" by (rule holds_at_bound [OF assms(1)])
  have e: "word_of_nat n + word_of_nat (length b) = (word_of_nat (n + length b) :: u32)" by simp
  show "word_of_nat n + word_of_nat (length b) = (word_of_nat (n + length b) :: u32)" by (rule e)
  have u: "unat (word_of_nat n :: u32) = n" "unat (word_of_nat (n + length b) :: u32) = n + length b"
    "unat (wasm_len d) = length d"
    using b assms(2) by (auto simp: wasm_len_def simp del: of_nat_add intro!: word_of_nat_unat32)
  show "\<not> word_of_nat n + word_of_nat (length b) > wasm_len d"
    unfolding e word_less_nat_alt u using b by simp
  show "js_slice d (word_of_nat n) (word_of_nat n + word_of_nat (length b)) = Done b"
    unfolding e js_slice_def u by (simp add: holds_at_slice [OF assms(1)])
qed

lemma js_bundle_readers:
  assumes "length d < 2 ^ 31"
  shows "holds_at d n (u64_le v) \<Longrightarrow> js_bundle_read_u64 d (word_of_nat n) = Done (v, word_of_nat (n + 8))"
    and "holds_at d n (u32_le w) \<Longrightarrow> js_bundle_read_u32 d (word_of_nat n) = Done (w, word_of_nat (n + 4))"
    and "holds_at d n b \<Longrightarrow> js_bundle_part err (word_of_nat (length b)) d (word_of_nat n) = Done (b, word_of_nat (n + length b))"
proof -
  have l: "length (u64_le v) = 8" "length (u32_le w) = 4" by simp_all
  have a: "to_array 8 (u64_le v) = Ok (u64_le v)" "to_array 4 (u32_le w) = Ok (u32_le w)" by (simp_all add: to_array_def)
  show "js_bundle_read_u64 d (word_of_nat n) = Done (v, word_of_nat (n + 8))" if "holds_at d n (u64_le v)"
    using at_word [OF that assms, unfolded l of_nat_numeral]
    by (simp only: js_bundle_read_u64_def if_False jbind_simps a js_of_simps u64_of_le_le)
  show "js_bundle_read_u32 d (word_of_nat n) = Done (w, word_of_nat (n + 4))" if "holds_at d n (u32_le w)"
    using at_word [OF that assms, unfolded l of_nat_numeral]
    by (simp only: js_bundle_read_u32_def if_False jbind_simps a js_of_simps u32_of_le_le)
  show "js_bundle_part err (word_of_nat (length b)) d (word_of_nat n) = Done (b, word_of_nat (n + length b))"
    if "holds_at d n b"
    using at_word [OF that assms] by (simp only: js_bundle_part_def if_False jbind_simps)
qed

lemma js_unpack_serialized:
  assumes "bundle_serialize L b = Ok buf" "length (buf @ post) < 2 ^ 31"
  shows "\<exists>kb pb. kp_serialize L (key_package b) = Some kb \<and> pk_serialize L (pub_key_package b) = Some pb \<and>
    js_bundle_unpack (buf @ post) = Done \<lparr>part_birthday = birthday b, part_sapling_extras = sapling_extras b,
      part_key_package = kb, part_pub_key_package = pb\<rparr>"
proof -
  from assms(1) obtain kb pb where s: "kp_serialize L (key_package b) = Some kb"
    "pk_serialize L (pub_key_package b) = Some pb"
    and buf: "buf = [BUNDLE_VERSION] @ u64_le (birthday b) @ u32_le (word_of_nat (length (sapling_extras b))) @
      sapling_extras b @ u32_le (word_of_nat (length kb)) @ kb @ u32_le (word_of_nat (length pb)) @ pb"
    by (auto simp: bundle_serialize_def ser_err_def elim!: rbind_OkE)
  define d where "d = buf @ post"
  have len: "length d < 2 ^ 31" using assms(2) by (simp add: d_def)
  define e where "e = length (sapling_extras b)"
  define k where "k = length kb"
  have "holds_at d 0 buf" by (simp add: d_def)
  then have h: "holds_at d 1 (u64_le (birthday b))" "holds_at d 9 (u32_le (word_of_nat e))"
    "holds_at d 13 (sapling_extras b)" "holds_at d (13 + e) (u32_le (word_of_nat k))" "holds_at d (17 + e) kb"
    "holds_at d (17 + e + k) (u32_le (word_of_nat (length pb)))" "holds_at d (21 + e + k) pb"
    unfolding buf holds_at_append by (simp_all add: e_def k_def add.assoc)
  have first: "js_index d 0 = Done BUNDLE_VERSION" "\<not> length d < 13"
    by (simp_all add: js_index_def index_def d_def buf)
  note r = js_bundle_readers(1) [OF len h(1)] js_bundle_readers(2) [OF len h(2)]
    js_bundle_readers(3) [OF len h(3)] js_bundle_readers(2) [OF len h(4)] js_bundle_readers(3) [OF len h(5)]
    js_bundle_readers(2) [OF len h(6)] js_bundle_readers(3) [OF len h(7)]
  have "js_bundle_unpack d = Done \<lparr>part_birthday = birthday b, part_sapling_extras = sapling_extras b,
      part_key_package = kb, part_pub_key_package = pb\<rparr>"
    using r first by (simp add: js_bundle_unpack_def e_def k_def add.commute add.left_commute)
  with s show ?thesis by (auto simp: d_def)
qed

lemma dead_feeds:
  "task (protocol_of s) = None \<Longrightarrow> outcome (protocol_of s) = None \<Longrightarrow>
   fst (js_feed s m) = Done True \<and> task (protocol_of (snd (js_feed s m))) = None \<and>
   outcome (protocol_of (snd (js_feed s m))) = None"
  by (simp add: js_feed_def feed_def advance_def)

lemma dead_for_ever:
  "task (protocol_of s) = None \<Longrightarrow> outcome (protocol_of s) = None \<Longrightarrow>
   task (protocol_of (fold (\<lambda>m. snd \<circ> (\<lambda>s. js_feed s m)) ms s)) = None \<and>
   outcome (protocol_of (fold (\<lambda>m. snd \<circ> (\<lambda>s. js_feed s m)) ms s)) = None"
  by (induction ms arbitrary: s) (simp_all add: dead_feeds)

lemma same_parties: "same_result (decode_parties_wasm data) (decode_parties data)"
proof (cases "length data < 2")
  case False
  then show ?thesis
    unfolding decode_parties_wasm_def decode_parties_def
    by (auto intro!: same_result_bind same_many same_party)
qed (simp add: decode_parties_wasm_def decode_parties_def)

text \<open>A start message whose length prefix wraps around in a 32-bit \<^verbatim>\<open>usize\<close> when the four bytes before it are added.\<close>

definition prefix_wraps :: "bytes \<Rightarrow> bool" where
  "prefix_wraps d \<longleftrightarrow> 4 \<le> length d \<and> 2 ^ 32 - 4 \<le> unat (u32_of_le (take 4 d))"

lemma decode_start_same:
  assumes "length d < 2 ^ 31" "\<not> prefix_wraps d"
  shows "sign_start_decode32 d = sign_start_decode d"
proof -
  have "\<not> (4 \<le> length d \<and> 2 ^ 32 \<le> 4 + unat (u32_of_le (take 4 d)))" using assms(2) by (auto simp: prefix_wraps_def)
  then show ?thesis by (simp only: sign_start_decode32_eq [OF assms(1)] if_False)
qed

lemma length_recv_frame: "length (snd (recv_frame f)) \<le> length f"
  by (simp add: recv_frame_def)

lemma randomizers_alike:
  assumes "\<And>f. Q i f \<Longrightarrow> length f < 2 ^ 31 \<and> \<not> prefix_wraps (snd (recv_frame f))"
  shows "alike Q i (js_sign_randomizer L S R rng pkp sp coord alpha) (sign_randomizer L S R rng pkp sp coord alpha)"
proof (cases coord)
  case True
  then show ?thesis unfolding js_sign_randomizer_def sign_randomizer_def by (simp only: if_True) (rule alike_refl)
next
  case False
  have same: "sign_start_decode32 (snd (recv_frame f)) = sign_start_decode (snd (recv_frame f))" if "Q i f" for f
    using assms [OF that] length_recv_frame [of f] by (intro decode_start_same) linarith+
  show ?thesis
    unfolding js_sign_randomizer_def sign_randomizer_def recv_def pbind.simps res.case case_prod_unfold
    using False by (simp only: if_False) (rule alike_Recv, simp only: same, rule alike_refl)
qed

text \<open>The frame of the start message comes after one commitment of each other signer.\<close>

lemma browser_sign_alike:
  assumes "0 < signers" "\<And>f. Q (usize_pred signers) f \<Longrightarrow> length f < 2 ^ 31 \<and> \<not> prefix_wraps (snd (recv_frame f))"
  shows "alike Q 0 (js_frozt_sign_run L S R rng rng2 kp pkp msg coord signers alpha)
    (frozt_sign_run L S R rng rng2 kp pkp msg coord signers alpha)"
  unfolding js_frozt_sign_run_def frozt_sign_run_def usize32_pred_eq [OF assms(1)] Let_def case_prod_unfold
  by (intro alike_local alike_after [OF takes_broadcast] alike_after [OF takes_recv_loop] alike_pbind randomizers_alike assms(2))
    simp

section \<open>Properties\<close>

text \<open>C37: The tasks that \<^verbatim>\<open>frozt-wasm\<close> writes again are those of \<^verbatim>\<open>frozt-lib\<close>, so that browsers and native
  devices can take part in one ceremony. Key generation and key import are equal as tasks: for the same
  randomness they send the same messages, ask for the same ones and return the same result, the bundle
  byte for byte; so is signing by the coordinator. Signing by the other parties differs in the reader of
  the coordinator's start message, the first frame after the commitments of the others: unless the
  length prefix in that frame wraps around, a host sees no difference between the sessions, in the
  messages to send, in the answers to its feeds and in the outcome, whatever it calls in whatever order.
  (C40 says what happens when it wraps.) Frames are shorter than 2^31 bytes.\<close>

theorem browser_tasks_agree:
  assumes "serde_ok (kp_serialize L) (kp_deserialize L)" "serde_ok (pk_serialize L) (pk_deserialize L)"
    and "0 < signers"
  shows "js_frozt_dkg_run L Z rng rng2 my_id mx mn bday coord = frozt_dkg_run L Z rng rng2 my_id mx mn bday coord \<and>
    js_frozt_key_import_run L Z rng my_id mx mn holder seed acct bday
      = frozt_key_import_run L Z rng my_id mx mn holder seed acct bday \<and>
    js_frozt_sign_run L S R rng rng2 kp pkp msg True signers alpha
      = frozt_sign_run L S R rng rng2 kp pkp msg True signers alpha \<and>
    seen_alike (\<lambda>frames. (\<forall>f \<in> set frames. length f < 2 ^ 31) \<and>
        (signers - 1 < length frames \<longrightarrow> \<not> prefix_wraps (snd (recv_frame (frames ! (signers - 1))))))
      (js_frozt_sign_run L S R rng rng2 kp pkp msg False signers alpha)
      (frozt_sign_run L S R rng rng2 kp pkp msg False signers alpha)"
proof (intro conjI)
  let ?Q = "\<lambda>i f. length f < 2 ^ 31 \<and> (i = signers - 1 \<longrightarrow> \<not> prefix_wraps (snd (recv_frame f)))"
  have "alike ?Q 0 (js_frozt_sign_run L S R rng rng2 kp pkp msg False signers alpha)
      (frozt_sign_run L S R rng rng2 kp pkp msg False signers alpha)"
    using assms(3) by (intro browser_sign_alike) (auto simp: usize_pred_def)
  then show "seen_alike (\<lambda>frames. (\<forall>f \<in> set frames. length f < 2 ^ 31) \<and>
        (signers - 1 < length frames \<longrightarrow> \<not> prefix_wraps (snd (recv_frame (frames ! (signers - 1))))))
      (js_frozt_sign_run L S R rng rng2 kp pkp msg False signers alpha)
      (frozt_sign_run L S R rng rng2 kp pkp msg False signers alpha)"
    by (rule seen_alikeI) (auto simp: all_set_conv_all_nth)
qed (use assms(3) in \<open>simp_all add: frozt_runs_agree [OF assms(1,2)] js_frozt_sign_run_def frozt_sign_run_def
    usize32_pred_eq js_sign_randomizer_def sign_randomizer_def\<close>)

text \<open>The second signer of two is fed a commitment and a start message that is too short.\<close>

theorem browser_tasks_agree_witness:
  "js_frozt_dkg_run demo demo_zcash 3 4 1 3 2 7 False = frozt_dkg_run demo demo_zcash 3 4 1 3 2 7 False \<and>
    js_frozt_key_import_run demo demo_zcash 3 1 3 2 1 [5] 0 7 = frozt_key_import_run demo demo_zcash 3 1 3 2 1 [5] 0 7 \<and>
    outcome (snd (host_run (js_frozt_sign_run demo demo_sign demo_rerandomized 3 4 (1, 5) 3 [7] False 2 None)
        [Take_msg, Feed [2, 0, 9], Feed [1, 0, 8]]))
      = outcome (snd (host_run (frozt_sign_run demo demo_sign demo_rerandomized 3 4 (1, 5) 3 [7] False 2 None)
        [Take_msg, Feed [2, 0, 9], Feed [1, 0, 8]]))"
proof -
  let ?calls = "[Take_msg, Feed [2, 0, 9], Feed [1, 0, 8]]" and ?two = "2 :: nat"
  have two: "0 < ?two" by simp
  have ok: "(\<forall>f \<in> set (fed ?calls). length f < 2 ^ 31) \<and>
      (?two - 1 < length (fed ?calls) \<longrightarrow> \<not> prefix_wraps (snd (recv_frame (fed ?calls ! (?two - 1)))))"
    by (simp add: prefix_wraps_def recv_frame_def)
  note agree = browser_tasks_agree [OF serde_demo two]
  note sign = agree [THEN conjunct2, THEN conjunct2, THEN conjunct2, unfolded seen_alike_def,
      THEN conjunct2, THEN spec, THEN mp, OF ok, THEN conjunct2, THEN conjunct2, THEN conjunct1]
  show ?thesis
    by (intro conjI agree [THEN conjunct1] agree [THEN conjunct2, THEN conjunct1] sign)
qed

text \<open>C40: A frame from another party can take a browser down: when the length prefix of the coordinator's
  message is one of the four largest, the end of the signing package wraps around in a 32-bit
  \<^verbatim>\<open>usize\<close>, the length test passes and the slice panics, which traps; the native library
  answers the same frame with a serialization error. On every other frame the two read the same.\<close>

theorem start_message_traps_browser:
  assumes "length combined < 2 ^ 31"
  shows "if 4 \<le> length combined \<and> 2 ^ 32 - 4 \<le> unat (u32_of_le (take 4 combined))
    then js_of (sign_start_decode32 combined) = Trapped \<and> sign_start_decode combined = Err LIB_SERIALIZATION_ERROR
    else sign_start_decode32 combined = sign_start_decode combined"
proof -
  define n where "n = unat (u32_of_le (take 4 combined))"
  have n: "2 ^ 32 \<le> 4 + n \<longleftrightarrow> 2 ^ 32 - 4 \<le> n" by auto
  have "2 ^ 32 - 4 \<le> n \<Longrightarrow> 4 \<le> length combined \<Longrightarrow> sign_start_decode combined = Err LIB_SERIALIZATION_ERROR"
    using assms by (simp add: sign_start_decode_def slice_def to_array_def Let_def n_def [symmetric])
  then show ?thesis
    using sign_start_decode32_eq [OF assms] unfolding n_def [symmetric] n by auto
qed

theorem start_message_traps_browser_witness:
  "if 4 \<le> length [252, 255, 255, 255 :: u8] \<and> 2 ^ 32 - 4 \<le> unat (u32_of_le (take 4 [252, 255, 255, 255]))
    then js_of (sign_start_decode32 [252, 255, 255, 255]) = Trapped \<and>
      sign_start_decode [252, 255, 255, 255] = Err LIB_SERIALIZATION_ERROR
    else sign_start_decode32 [252, 255, 255, 255] = sign_start_decode [252, 255, 255, 255]"
  by (rule start_message_traps_browser) simp

text \<open>A bundle that a native device stores is read by a browser, part by part: the birthday, the extras
  and the bytes of the two packages, whatever follows the bundle.\<close>

theorem browser_reads_native_bundle:
  assumes "bundle_serialize L b = Ok buf" "length (buf @ post) < 2 ^ 31"
  shows "js_frozt_keyshare_bundle_birthday (buf @ post) = Done (birthday b) \<and>
    js_frozt_keyshare_bundle_sapling_extras (buf @ post) = Done (sapling_extras b) \<and>
    js_frozt_keyshare_bundle_key_package (buf @ post) = js_ok_or (kp_serialize L (key_package b)) From_Crate \<and>
    js_frozt_keyshare_bundle_pub_key_package (buf @ post) = js_ok_or (pk_serialize L (pub_key_package b)) From_Crate"
  using js_unpack_serialized [OF assms]
  by (auto simp: js_frozt_keyshare_bundle_birthday_def js_frozt_keyshare_bundle_sapling_extras_def
      js_frozt_keyshare_bundle_key_package_def js_frozt_keyshare_bundle_pub_key_package_def)

theorem browser_reads_native_bundle_witness:
  "\<exists>buf. bundle_serialize demo \<lparr>key_package = (1, 5), pub_key_package = 3, sapling_extras = [9], birthday = 7\<rparr> = Ok buf \<and>
    js_frozt_keyshare_bundle_birthday (buf @ [4]) = Done 7"
proof -
  let ?b = "\<lparr>key_package = (1 :: nat, 5 :: rat), pub_key_package = 3 :: rat, sapling_extras = [9], birthday = 7\<rparr>"
  have s: "bundle_serialize demo ?b = Ok [1, 7, 0, 0, 0, 0, 0, 0, 0, 1, 0, 0, 0, 9, 2, 0, 0, 0, 5, 0, 1, 0, 0, 0, 3]"
    by code_simp
  from browser_reads_native_bundle [OF s, of "[4]"] s show ?thesis by fastforce
qed

text \<open>Asking a browser session for its result too early ends it for good: the call throws "session not
  ready" but drops the task, so that afterwards every message is answered with "finished" and every
  further call for the result throws the same error.\<close>

theorem early_result_ends_session:
  assumes "outcome (protocol_of s) = None" "js_result fin s = (r, s1)"
    and "s2 = fold (\<lambda>m. snd \<circ> (\<lambda>s. js_feed s m)) ms s1"
  shows "r = Thrown (Message ''session not ready'') \<and> fst (js_feed s2 m) = Done True \<and>
    fst (js_result fin s2) = Thrown (Message ''session not ready'')"
proof -
  have s1: "task (protocol_of s1) = None" "outcome (protocol_of s1) = None"
    "r = Thrown (Message ''session not ready'')"
    using assms(1,2) by (auto simp: js_result_def protocol_result_def)
  have s2: "task (protocol_of s2) = None \<and> outcome (protocol_of s2) = None"
    unfolding assms(3) by (rule dead_for_ever [OF s1(1,2)])
  then show ?thesis
    using s1(3) dead_feeds [of s2 m] by (simp add: js_result_def protocol_result_def)
qed

theorem early_result_ends_session_witness:
  "let s = demo_session (pbind recv (\<lambda>m. Ret (Ok (length (snd m)))));
       s2 = fold (\<lambda>m. snd \<circ> (\<lambda>s. js_feed s m)) [[1, 0, 5]] (snd (js_result Done s))
   in fst (js_result Done s) = Thrown (Message ''session not ready'') \<and> fst (js_feed s2 [2]) = Done True \<and>
      fst (js_result Done s2) = Thrown (Message ''session not ready'')"
  unfolding Let_def
  by (rule early_result_ends_session [OF _ prod.collapse [symmetric] refl])
     (simp add: demo_session_def start_def advance_def recv_def)

text \<open>Messages are routed in a browser as in the native libraries, given that the names of the parties
  are strings: for every message and index the receiver is the same party or there is none; and
  the lists of parties from the host are accepted, with the same value, exactly when the native
  libraries accept them.\<close>

theorem browser_routes_as_native:
  assumes "\<forall>p \<in> set (parties (setup_of s)). utf8_valid (name p)"
  shows "js_msg_receiver s msg idx = msg_receiver_impl (setup_of s) (my_id_of s) msg idx \<and>
    same_result (decode_parties_wasm data) (decode_parties data)"
proof -
  have "map_option utf8_lossy x = x" if "x = msg_receiver_impl (setup_of s) (my_id_of s) msg idx" for x
  proof (cases x)
    case (Some nm)
    with that have "nm \<in> name ` set (parties (setup_of s))" by (metis msg_receiver_in)
    with assms have "utf8_valid nm" by auto
    with Some show ?thesis by (simp add: utf8_lossy_valid)
  qed simp
  then show ?thesis by (simp add: msg_receiver_lossy same_parties)
qed

theorem browser_routes_as_native_witness:
  "let s = (demo_session (Ret (Ok 0)))\<lparr>setup_of := \<lparr>max_signers = 2, min_signers = 2,
       parties = [\<lparr>frost_id = 1, name = str_bytes ''a''\<rparr>, \<lparr>frost_id = 2, name = [195, 169]\<rparr>]\<rparr>\<rparr>
   in js_msg_receiver s [0, 0] 0 = Some [195, 169] \<and> same_result (decode_parties_wasm []) (decode_parties [])"
proof -
  let ?s = "(demo_session (Ret (Ok 0)))\<lparr>setup_of := \<lparr>max_signers = 2, min_signers = 2,
       parties = [\<lparr>frost_id = 1, name = str_bytes ''a''\<rparr>, \<lparr>frost_id = 2, name = [195, 169]\<rparr>]\<rparr>\<rparr>"
  have "\<forall>p \<in> set (parties (setup_of ?s)). utf8_valid (name p)"
    by (simp add: str_bytes_def utf8_cont_def)
  moreover have "msg_receiver_impl (setup_of ?s) (my_id_of ?s) [0, 0] 0 = Some [195, 169]"
    by (simp add: demo_session_def msg_receiver_impl_def Let_def read_recipient_def other_party_ids_def party_name_def u16_of_le_def)
  ultimately show ?thesis
    using browser_routes_as_native [of ?s "[0, 0]" 0 "[]"] by (simp add: Let_def)
qed

end
