(* ===== verification/Wasm_Sapling.thy ===== *)
theory Wasm_Sapling
  imports Wasm_Readers Zcash_Tx
begin

text \<open>
  \<^verbatim>\<open>frozt-wasm/src/sapling.rs\<close> and \<^verbatim>\<open>tree.rs\<close>: viewing keys, trial decryption, recovery of outputs,
  nullifiers and unified addresses for the browser, and its commitment tree and witness objects. What
  is used of \<^verbatim>\<open>sapling-crypto\<close> and \<^verbatim>\<open>zcash_address\<close> beyond the native library is the argument \<open>V\<close>. The
  tree readers are those of the native library with two differences: a count is cut to 32 bits, and
  it is not compared with the depth of the tree before space for that many nodes is reserved.
\<close>

datatype ua_receiver = P2pkh bytes | Sapling bytes

record ('cv, 'cmu, 'note, 'addr, 'ua) sapling_recovery =
  cv_from_bytes_not_small_order :: "bytes \<Rightarrow> 'cv option"
  output_recovery :: "bytes \<Rightarrow> 'cv \<Rightarrow> 'cmu \<Rightarrow> bytes \<Rightarrow> bytes \<Rightarrow> bytes \<Rightarrow> zip212_enforcement \<Rightarrow> ('note \<times> 'addr \<times> bytes) option"
  ua_try_from_items :: "ua_receiver list \<Rightarrow> 'ua option"
  ua_encode :: "network_type \<Rightarrow> 'ua \<Rightarrow> bytes"

definition OUT_CIPHERTEXT_SIZE :: nat where "OUT_CIPHERTEXT_SIZE = 80"

section \<open>Keys\<close>

definition js_build_dfvk_raw where
  "js_build_dfvk_raw L Y pkp_data extras =
     (if length extras \<noteq> EXTRAS_LEN then Thrown (Message ''sapling extras must be 96 bytes'')
      else
        jbind (js_ok_or (pk_deserialize L pkp_data) From_Crate) (\<lambda>pkp.
        jbind (js_ok_or (vk_serialize L (pk_verifying_key L pkp)) From_Crate) (\<lambda>ak_serialized.
        jbind (js_of (slice extras 0 32)) (\<lambda>s. jbind (js_of (to_array 32 s)) (\<lambda>nsk_bytes.
        jbind (js_ok_or (fr_from_repr Y nsk_bytes) (Message ''invalid nsk scalar'')) (\<lambda>nsk.
        jbind (js_of (to_array 32 ak_serialized)) (\<lambda>ak.
        jbind (js_of (slice extras 32 64)) (\<lambda>ovk.
        jbind (js_of (slice extras 64 96)) (\<lambda>dk.
          Done (ak @ mul_proof_generator Y nsk @ ovk @ dk))))))))))"

definition js_sapling_build_dfvk where
  "js_sapling_build_dfvk L Y pkp_data extras = js_build_dfvk_raw L Y pkp_data extras"

definition js_sapling_generate_extras where
  "js_sapling_generate_extras Z rng =
     (let (nsk, rng) = fr_random_repr Z rng;
          (a, rng) = fill_bytes Z 32 rng;
          (b, rng) = fill_bytes Z 32 rng
      in Done (nsk @ a @ b))"

record wasm_sapling_keys =
  wk_address :: bytes
  wk_ivk :: bytes
  wk_nk :: bytes

definition js_sapling_derive_keys where
  "js_sapling_derive_keys L Y pkp_data extras =
     (if length extras \<noteq> EXTRAS_LEN then Thrown (Message ''sapling extras must be 96 bytes'')
      else
        jbind (js_build_dfvk_raw L Y pkp_data extras) (\<lambda>dfvk_raw.
        jbind (js_ok_or (dfvk_from_bytes Y dfvk_raw) (Message ''invalid diversifiable full viewing key'')) (\<lambda>dfvk.
        jbind (js_ok_or (bech32_encode Y (str_bytes ''zs'') (addr_to_bytes Y (dfvk_default_address Y dfvk)))
                 (Message ''bech32 encode: '')) (\<lambda>encoded.
        jbind (js_of (slice extras 0 32)) (\<lambda>s. jbind (js_of (to_array 32 s)) (\<lambda>nsk_bytes.
        jbind (js_ok_or (fr_from_repr Y nsk_bytes) (Message ''invalid nsk scalar'')) (\<lambda>nsk.
          Done \<lparr>wk_address = encoded, wk_ivk = fvk_ivk_repr Y (dfvk_fvk Y dfvk), wk_nk = mul_proof_generator Y nsk\<rparr>)))))))"

section \<open>Notes\<close>

definition js_zip212_for_height :: "u64 \<Rightarrow> zip212_enforcement" where
  "js_zip212_for_height height =
     (if height \<ge> 1687104 then On
      else if height \<ge> 903000 then GracePeriod
      else Off)"

text \<open>The conversions that follow the checks of lengths in both decryption functions.\<close>

definition js_decryption_inputs where
  "js_decryption_inputs Y ct_size ivk_data cmu_data epk_data ct_data =
     jbind (js_of (slice ivk_data 0 32)) (\<lambda>s. jbind (js_of (to_array 32 s)) (\<lambda>ivk_bytes.
     jbind (js_ok_or (fr_from_repr Y ivk_bytes) (Message ''invalid ivk scalar'')) (\<lambda>ivk_scalar.
     jbind (js_of (slice cmu_data 0 32)) (\<lambda>s. jbind (js_of (to_array 32 s)) (\<lambda>cmu_bytes.
     jbind (js_ok_or (cmu_from_bytes Y cmu_bytes) (Message ''invalid cmu'')) (\<lambda>extracted_cmu.
     jbind (js_of (slice epk_data 0 32)) (\<lambda>s. jbind (js_of (to_array 32 s)) (\<lambda>epk_bytes.
     jbind (js_of (slice ct_data 0 ct_size)) (\<lambda>enc_ct.
       Done (ivk_scalar, extracted_cmu, epk_bytes, enc_ct))))))))))"

text \<open>The value of a note of this key, or \<^verbatim>\<open>null\<close>.\<close>

definition js_try_decrypt_compact where
  "js_try_decrypt_compact Y ivk_data cmu_data epk_data ct_data height =
     (if length ivk_data \<noteq> 32 \<or> length cmu_data \<noteq> 32 \<or> length epk_data \<noteq> 32
      then Thrown (Message ''ivk, cmu, and ephemeral_key must be 32 bytes'')
      else if length ct_data \<noteq> COMPACT_NOTE_SIZE then Thrown (Message ''ciphertext must be 52 bytes'')
      else
        jbind (js_decryption_inputs Y COMPACT_NOTE_SIZE ivk_data cmu_data epk_data ct_data) (\<lambda>(ivk, cmu, epk, ct).
          Done (case compact_note_decryption Y ivk epk cmu ct (js_zip212_for_height height) of
                  Some (note, addr) \<Rightarrow> Some (note_value Y note)
                | None \<Rightarrow> None)))"

definition js_decrypt_note_full where
  "js_decrypt_note_full Y ivk_data cmu_data epk_data ct_data height =
     (if length ivk_data \<noteq> 32 \<or> length cmu_data \<noteq> 32 \<or> length epk_data \<noteq> 32
      then Thrown (Message ''ivk, cmu, and ephemeral_key must be 32 bytes'')
      else if length ct_data \<noteq> ENC_CIPHERTEXT_SIZE then Thrown (Message ''enc_ciphertext must be 580 bytes'')
      else
        jbind (js_decryption_inputs Y ENC_CIPHERTEXT_SIZE ivk_data cmu_data epk_data ct_data) (\<lambda>(ivk, cmu, epk, ct).
          case note_decryption Y ivk cmu epk ct (js_zip212_for_height height) of
            Some (note, addr, memo) \<Rightarrow>
              Done (addr_diversifier Y addr @ u64_le (note_value Y note) @
                (case note_rseed Y note of BeforeZip212 rcm \<Rightarrow> fr_to_repr Y rcm | AfterZip212 b \<Rightarrow> b))
          | None \<Rightarrow> Thrown (Message ''decryption failed'')))"

definition js_nullifier_rseed where
  "js_nullifier_rseed Y zip212 rseed_bytes =
     (case zip212 of
        Off \<Rightarrow> jbind (js_ok_or (fr_from_repr Y rseed_bytes) (Message ''invalid rcm scalar'')) (\<lambda>rcm. Done (BeforeZip212 rcm))
      | _ \<Rightarrow> Done (AfterZip212 rseed_bytes))"

definition js_compute_nullifier where
  "js_compute_nullifier Y dfvk_bytes nd position height =
     (if length dfvk_bytes \<noteq> 128 then Thrown (Message ''dfvk must be 128 bytes'')
      else if length nd \<noteq> 51 then Thrown (Message ''note_data must be 51 bytes'')
      else
        jbind (js_of (slice dfvk_bytes 0 128)) (\<lambda>s. jbind (js_of (to_array 128 s)) (\<lambda>dfvk_arr.
        jbind (js_ok_or (dfvk_from_bytes Y dfvk_arr) (Message ''invalid diversifiable full viewing key'')) (\<lambda>dfvk.
        jbind (js_of (slice nd 0 11)) (\<lambda>s. jbind (js_of (to_array 11 s)) (\<lambda>diversifier.
        jbind (js_of (slice nd 11 19)) (\<lambda>s. jbind (js_of (to_array 8 s)) (\<lambda>value_bytes.
        jbind (js_of (slice nd 19 51)) (\<lambda>s. jbind (js_of (to_array 32 s)) (\<lambda>rseed_bytes.
        jbind (js_nullifier_rseed Y (js_zip212_for_height height) rseed_bytes) (\<lambda>rseed.
        jbind (js_ok_or (fvk_payment_address Y (dfvk_fvk Y dfvk) diversifier)
                 (Message ''invalid payment address from diversifier'')) (\<lambda>recipient.
          Done (note_nf Y (note_from_parts Y recipient (u64_of_le value_bytes) rseed) (dfvk_fvk Y dfvk) position)))))))))))))"

record wasm_recovered_output =
  ro_address :: bytes
  ro_value :: u64
  ro_memo :: bytes

text \<open>Recovery with the outgoing viewing key; \<^verbatim>\<open>null\<close> if the output is not of this key.\<close>

definition js_try_output_recovery where
  "js_try_output_recovery Y V ovk cv_data cmu_data epk_data enc_data out_data height =
     (if length ovk \<noteq> 32 then Thrown (Message ''ovk must be 32 bytes'')
      else if length cv_data \<noteq> 32 \<or> length cmu_data \<noteq> 32 \<or> length epk_data \<noteq> 32
      then Thrown (Message ''cv, cmu, and ephemeral_key must be 32 bytes'')
      else if length enc_data \<noteq> ENC_CIPHERTEXT_SIZE then Thrown (Message ''enc_ciphertext must be 580 bytes'')
      else if length out_data \<noteq> OUT_CIPHERTEXT_SIZE then Thrown (Message ''out_ciphertext must be 80 bytes'')
      else
        jbind (js_ok_or (cv_from_bytes_not_small_order V cv_data) (Message ''invalid cv'')) (\<lambda>cv.
        jbind (js_ok_or (cmu_from_bytes Y cmu_data) (Message ''invalid cmu'')) (\<lambda>extracted_cmu.
          case output_recovery V ovk cv extracted_cmu epk_data enc_data out_data (js_zip212_for_height height) of
            Some (note, addr, memo) \<Rightarrow>
              jbind (js_ok_or (bech32_encode Y (str_bytes ''zs'') (addr_to_bytes Y addr)) (Message ''bech32 encode: ''))
                (\<lambda>encoded. Done (Some \<lparr>ro_address = encoded, ro_value = note_value Y note, ro_memo = memo\<rparr>))
          | None \<Rightarrow> Done None)))"

definition js_build_unified_address where
  "js_build_unified_address V p2pkh_hash sapling_raw_addr =
     (if length p2pkh_hash \<noteq> 20 then Thrown (Message ''p2pkh_hash must be 20 bytes'')
      else if length sapling_raw_addr \<noteq> 43 then Thrown (Message ''sapling_raw_addr must be 43 bytes'')
      else
        jbind (js_ok_or (ua_try_from_items V [P2pkh p2pkh_hash, Sapling sapling_raw_addr]) (Message ''unified address: ''))
          (\<lambda>ua. Done (ua_encode V Main_Network ua)))"

section \<open>The commitment tree\<close>

text \<open>
  \<^verbatim>\<open>Vec::with_capacity\<close> panics when the space is more than \<^verbatim>\<open>isize::MAX\<close> bytes. An optional node takes
  40 bytes, a node 32.
\<close>

definition js_with_capacity :: "nat \<Rightarrow> nat \<Rightarrow> unit js" where
  "js_with_capacity item n = (if item * n > 2 ^ 31 - 1 then Trapped else Done ())"

definition js_read_compact_size :: "nat io" where
  "js_read_compact_size data pos =
     io_bind (read_u8 data pos) (\<lambda>b1 pos.
       if b1 \<le> 252 then Some (unat b1, pos)
       else if b1 = 253 then io_bind (read_u16_le data pos) (\<lambda>v pos. Some (unat v, pos))
       else if b1 = 254 then io_bind (read_u32_le data pos) (\<lambda>v pos. Some (unat v, pos))
       else io_bind (read_u64_le data pos) (\<lambda>v pos. Some (wasm_usize (unat v), pos)))"

text \<open>\<open>err\<close> is the text that the caller puts before an \<^verbatim>\<open>io::Error\<close>.\<close>

definition js_read_commitment_tree_data where
  "js_read_commitment_tree_data T err data pos =
     jbind (js_ok_or (read_optional_node T data pos) (Message err)) (\<lambda>(left, pos).
     jbind (js_ok_or (read_optional_node T data pos) (Message err)) (\<lambda>(right, pos).
     jbind (js_ok_or (js_read_compact_size data pos) (Message err)) (\<lambda>(parent_count, pos).
     jbind (js_with_capacity 40 parent_count) (\<lambda>_.
     jbind (js_ok_or (io_many parent_count (read_optional_node T) data pos) (Message err)) (\<lambda>(ps, pos).
     jbind (js_ok_or (tree_from_parts T left right ps) (Message err)) (\<lambda>t.
       Done (t, pos)))))))"

definition js_parse_node where
  "js_parse_node T cmu =
     (if length cmu \<noteq> 32 then Thrown (Message ''cmu must be 32 bytes'')
      else jbind (js_of (slice cmu 0 32)) (\<lambda>s. jbind (js_of (to_array 32 s)) (\<lambda>b.
             js_ok_or (node_from_bytes T b) (Message ''invalid sapling node''))))"

definition js_serialize_witness where
  "js_serialize_witness T w =
     (Done (write_commitment_tree_data T (wit_tree T w) @
        write_compact_size (length (wit_filled T w)) @
        concat (map (node_to_bytes T) (wit_filled T w)) @
        (case wit_cursor T w of
           Some c \<Rightarrow> [1] @ write_commitment_tree_data T c
         | None \<Rightarrow> [0])) :: bytes js)"

definition js_deserialize_witness where
  "js_deserialize_witness T data =
     jbind (js_read_commitment_tree_data T ''deserialize tree: '' data 0) (\<lambda>(t, pos).
     jbind (js_ok_or (js_read_compact_size data pos) (Message ''deserialize filled count: '')) (\<lambda>(filled_count, pos).
     jbind (js_with_capacity 32 filled_count) (\<lambda>_.
     jbind (js_ok_or (io_many filled_count (read_node T) data pos) (Message ''deserialize filled node: '')) (\<lambda>(filled, pos).
     jbind (js_ok_or (read_u8 data pos) (Message ''deserialize cursor flag: '')) (\<lambda>(cursor_flag, pos).
     jbind (if cursor_flag \<noteq> 0
            then jbind (js_read_commitment_tree_data T ''deserialize cursor: '' data pos) (\<lambda>(c, pos). Done (Some c))
            else Done None) (\<lambda>cursor.
       js_ok_or (wit_from_parts T t filled cursor) (Message ''invalid witness parts'')))))))"

definition js_tree_from_hex_state where
  "js_tree_from_hex_state T hex_state =
     jbind (js_ok_or (hex_decode T hex_state) (Message ''hex decode: '')) (\<lambda>bs.
     jbind (js_read_commitment_tree_data T ''parse tree: '' bs 0) (\<lambda>(t, pos). Done t))"

text \<open>An append changes its object in place, and reports whether it succeeded.\<close>

definition js_tree_append where
  "js_tree_append T cmu t =
     (case js_parse_node T cmu of
        Done node \<Rightarrow>
          (case tree_append T node t of (good, t') \<Rightarrow>
             (if good then Done () else Thrown (Message ''tree append failed: tree is full''), t'))
      | Thrown e \<Rightarrow> (Thrown e, t)
      | Trapped \<Rightarrow> (Trapped, t))"

definition js_tree_witness where
  "js_tree_witness T t = js_ok_or (wit_from_tree T t) (Message ''cannot create witness from empty tree'')"

definition js_sapling_tree_size where
  "js_sapling_tree_size T hex_state =
     jbind (js_ok_or (hex_decode T hex_state) (Message ''hex decode: '')) (\<lambda>bs.
     jbind (js_read_commitment_tree_data T ''parse tree: '' bs 0) (\<lambda>(t, pos).
       Done (word_of_nat (tree_size T t) :: u64)))"

definition js_witness_append where
  "js_witness_append T cmu w =
     (case js_parse_node T cmu of
        Done node \<Rightarrow>
          (case wit_append T node w of (good, w') \<Rightarrow>
             (if good then Done () else Thrown (Message ''witness append failed''), w'))
      | Thrown e \<Rightarrow> (Thrown e, w)
      | Trapped \<Rightarrow> (Trapped, w))"

definition js_witness_root where
  "js_witness_root T w = (Done (anchor_to_bytes T (wit_root T w)) :: bytes js)"

definition js_witness_serialize where
  "js_witness_serialize T w = js_serialize_witness T w"

definition js_witness_from_bytes where
  "js_witness_from_bytes T data = js_deserialize_witness T data"

end
