(* ===== verification/Wasm_Tx.thy ===== *)
theory Wasm_Tx
  imports Wasm_Sessions Shielding_Properties
begin

text \<open>
  \<^verbatim>\<open>frozt-wasm/src/tx.rs\<close> and \<^verbatim>\<open>shielding_tx.rs\<close>: the transaction builders for the browser. A builder
  is a JavaScript object; a method returns its result with the state of the object after the call.
  The proving parameters are read from bytes by \<^verbatim>\<open>sapling-crypto\<close>, the argument \<open>P\<close>; the rest of the
  libraries is as for the native builders. An error of the library is shown as its text, for which
  \<open>From_Lib\<close> stands here too. Amounts are JavaScript numbers.
\<close>

section \<open>Provers\<close>

record ('circ, 'ne, 'addr, 'note, 'rcv, 'rng) proving =
  read_spend_params :: "bytes \<Rightarrow> ('circ \<Rightarrow> 'rng \<Rightarrow> bytes \<times> 'rng) option"
  read_output_params :: "bytes \<Rightarrow> ('ne \<Rightarrow> 'addr \<Rightarrow> 'note \<Rightarrow> u64 \<Rightarrow> 'rcv \<Rightarrow> 'rng \<Rightarrow> bytes \<times> 'rng) option"

record ('circ, 'ne, 'addr, 'note, 'rcv, 'rng) wasm_prover =
  wp_spend_params :: "'circ \<Rightarrow> 'rng \<Rightarrow> bytes \<times> 'rng"
  wp_output_params :: "'ne \<Rightarrow> 'addr \<Rightarrow> 'note \<Rightarrow> u64 \<Rightarrow> 'rcv \<Rightarrow> 'rng \<Rightarrow> bytes \<times> 'rng"

record ('fr, 'fvk, 'ak, 'cv, 'sc, 'cmu, 'rcv, 'circ, 'ne, 'addr, 'note, 'rng) wasm_tx_builder =
  "('fr, 'fvk, 'ak, 'cv, 'sc, 'cmu, 'rcv) tx_builder" +
  wt_params :: "('circ, 'ne, 'addr, 'note, 'rcv, 'rng) wasm_prover"
  wt_sighash_bytes :: "bytes option"

definition wasm_sapling_prover_new where
  "wasm_sapling_prover_new P spend_params_bytes output_params_bytes =
     jbind (js_ok_or (read_spend_params P spend_params_bytes) (Message ''read spend params: '')) (\<lambda>sp.
     jbind (js_ok_or (read_output_params P output_params_bytes) (Message ''read output params: '')) (\<lambda>op'.
       Done \<lparr>wp_spend_params = sp, wp_output_params = op'\<rparr>))"

definition wasm_create_builder where
  "wasm_create_builder L Y X prover pkp_bytes extras_bytes target_height =
     (if length extras_bytes \<noteq> 96 then Thrown (Message ''extras must be 96 bytes'')
      else
        jbind (js_of (build_dfvk_raw L Y pkp_bytes extras_bytes)) (\<lambda>dfvk_raw.
        jbind (js_ok_or (dfvk_from_bytes Y dfvk_raw) (Message ''invalid dfvk derived from pkp+extras'')) (\<lambda>dfvk.
        let fvk = dfvk_fvk Y dfvk in
        jbind (js_of (slice extras_bytes 0 32)) (\<lambda>s. jbind (js_of (to_array 32 s)) (\<lambda>nsk_arr.
        jbind (js_ok_or (fr_from_repr Y nsk_arr) (Message ''invalid nsk scalar'')) (\<lambda>nsk.
          Done \<lparr>tb_fvk = fvk, tb_pgk = (fvk_ak X fvk, nsk), tb_ovk = fvk_ovk Y fvk,
            tb_target_height = target_height, tb_zip212 = zip212_for_height (ucast target_height),
            tb_spends = [], tb_outputs = [], tb_alphas = [], tb_total_input = 0, tb_total_output = 0,
            tb_finished = None, wt_params = prover, wt_sighash_bytes = None\<rparr>))))))"

section \<open>The builder of shielded transactions\<close>

text \<open>A method that changes its object only when it succeeds.\<close>

definition on_success :: "('b \<Rightarrow> ('a \<times> 'b) js) \<Rightarrow> 'b \<Rightarrow> 'a js \<times> 'b" where
  "on_success f b =
     (case f b of Done (x, b') \<Rightarrow> (Done x, b') | Thrown e \<Rightarrow> (Thrown e, b) | Trapped \<Rightarrow> (Trapped, b))"

definition wasm_spend_rseed where
  "wasm_spend_rseed Y zip212 rseed_bytes =
     (case zip212 of
        On \<Rightarrow> Done (AfterZip212 rseed_bytes)
      | _ \<Rightarrow> jbind (js_ok_or (fr_from_repr Y rseed_bytes) (Message ''invalid rcm'')) (\<lambda>rcm. Done (BeforeZip212 rcm)))"

definition wasm_tx_add_spend where
  "wasm_tx_add_spend Y X T note_d wit_data alpha_rng rng = on_success (\<lambda>b.
     if length note_d \<noteq> 51 then Thrown (Message ''note_data must be 51 bytes'')
     else
       jbind (js_of (slice note_d 0 11)) (\<lambda>s. jbind (js_of (to_array 11 s)) (\<lambda>diversifier.
       jbind (js_of (slice note_d 11 19)) (\<lambda>s. jbind (js_of (to_array 8 s)) (\<lambda>value_bytes.
       let val = u64_of_le value_bytes in
       jbind (js_of (slice note_d 19 51)) (\<lambda>s. jbind (js_of (to_array 32 s)) (\<lambda>rseed_bytes.
       jbind (wasm_spend_rseed Y (tb_zip212 b) rseed_bytes) (\<lambda>rseed.
       jbind (js_ok_or (fvk_payment_address Y (tb_fvk b) diversifier)
               (Message ''invalid payment address from diversifier'')) (\<lambda>pk_d.
       let note = note_from_parts Y pk_d val rseed in
       jbind (js_of (deserialize_witness T wit_data)) (\<lambda>witness.
       jbind (js_ok_or (wit_path X witness) (Message ''witness has no path'')) (\<lambda>merkle_path.
       let alpha = fst (fr_random X alpha_rng) in
       jbind (js_of (make_spend Y X (tb_pgk b) (tb_fvk b) note merkle_path alpha
                (wp_spend_params (wt_params b)) rng)) (\<lambda>spend.
       let alpha_bytes = fr_to_repr Y alpha in
       Done (alpha_bytes,
         b\<lparr>tb_total_input := tb_total_input b + val, tb_spends := tb_spends b @ [spend],
           tb_alphas := tb_alphas b @ [alpha_bytes]\<rparr>)))))))))))))"

definition wasm_tx_add_output where
  "wasm_tx_add_output Y X address amt rng = on_success (\<lambda>b.
     let amount = js_as_u64 amt in
     jbind (js_of (parse_payment_address Y X address)) (\<lambda>addr.
     jbind (js_of (make_output Y X (Some (tb_ovk b)) addr amount (replicate 512 0) (tb_zip212 b)
              (wp_output_params (wt_params b)) rng)) (\<lambda>out.
       Done ((), b\<lparr>tb_total_output := tb_total_output b + amount, tb_outputs := tb_outputs b @ [out]\<rparr>))))"

definition wasm_tx_build where
  "wasm_tx_build Z Y X = on_success (\<lambda>b.
     if tb_spends b = [] then Thrown (Message ''no spends added'')
     else if tb_total_output b > tb_total_input b then Thrown (Message ''outputs exceed inputs'')
     else
       let fee = tb_total_input b - tb_total_output b in
       if fee > 1000000 then Thrown (Message ''fee exceeds maximum'')
       else
         let branch = branch_id_for_height (tb_target_height b);
             expiry = tb_target_height b + 100;
             sh = compute_v5_sighash Z Y X (tb_spends b) (tb_outputs b) fee branch expiry
         in Done ((), b\<lparr>tb_spends := [], tb_outputs := [],
              tb_finished := Some \<lparr>bs_spends = tb_spends b, bs_outputs = tb_outputs b,
                bs_value_balance = fee, bs_consensus_branch_id = branch, bs_expiry_height = expiry,
                bs_sighash = sh\<rparr>,
              wt_sighash_bytes := Some sh\<rparr>))"

definition wasm_tx_sighash where
  "wasm_tx_sighash b = (case wt_sighash_bytes b of Some sh \<Rightarrow> sh | None \<Rightarrow> [])"

definition wasm_tx_alpha where
  "wasm_tx_alpha b = (case tb_alphas b of [] \<Rightarrow> [] | a # _ \<Rightarrow> a)"

definition wasm_tx_alphas where
  "wasm_tx_alphas b = concat (tb_alphas b)"

definition wasm_tx_num_spends where
  "wasm_tx_num_spends b = wasm_len (tb_alphas b)"

text \<open>\<^verbatim>\<open>finished.take()\<close> comes first: the object loses the built transaction whatever follows.\<close>

definition wasm_tx_complete where
  "wasm_tx_complete Y X sig_data rng b =
     (case tb_finished b of
        None \<Rightarrow> (Thrown (Message ''build() must be called before complete()''), b)
      | Some state \<Rightarrow>
          (let n_spends = length (bs_spends state) in
           if length sig_data \<noteq> 64 * n_spends then Thrown (Message ''expected '')
           else
             jbind (js_of (rmap (chunk 64 sig_data) [0..<n_spends])) (\<lambda>sigs.
             let bsk = compute_bsk X (map sp_rcv (bs_spends state)) (map op_rcv (bs_outputs state));
                 binding_sig = fst (bsk_sign X bsk (bs_sighash state) rng)
             in js_of (serialize_v5_tx Y X (bs_spends state) (bs_outputs state) (bs_value_balance state)
                  sigs binding_sig (bs_consensus_branch_id state) (bs_expiry_height state))),
           b\<lparr>tb_finished := None\<rparr>))"

section \<open>The builder of shielding transactions\<close>

record ('cv, 'cmu, 'rcv, 'prove) wasm_shielding_builder =
  ws_ovk :: bytes
  ws_target_height :: u32
  ws_zip212 :: zip212_enforcement
  ws_output_params :: 'prove
  ws_inputs :: "transparent_input list"
  ws_transparent_outputs :: "transparent_output list"
  ws_sapling_outputs :: "('cv, 'cmu, 'rcv) output_parts list"
  ws_total_input :: u64
  ws_total_sapling_output :: u64
  ws_total_transparent_output :: u64
  ws_sighashes :: "bytes list option"
  ws_txid_sighash :: "bytes option"

definition wasm_shielding_new where
  "wasm_shielding_new P output_params_bytes extras_bytes target_height =
     (if length extras_bytes \<noteq> 96 then Thrown (Message ''extras must be 96 bytes'')
      else
        jbind (js_ok_or (read_output_params P output_params_bytes) (Message ''read output params: '')) (\<lambda>op'.
        jbind (js_of (slice extras_bytes 32 64)) (\<lambda>ovk.
          Done \<lparr>ws_ovk = ovk, ws_target_height = target_height,
            ws_zip212 = zip212_for_height (ucast target_height), ws_output_params = op', ws_inputs = [],
            ws_transparent_outputs = [], ws_sapling_outputs = [], ws_total_input = 0,
            ws_total_sapling_output = 0, ws_total_transparent_output = 0, ws_sighashes = None,
            ws_txid_sighash = None\<rparr>)))"

definition wasm_shielding_add_input where
  "wasm_shielding_add_input prev_txid vout amt script_pubkey = on_success (\<lambda>b.
     if length prev_txid \<noteq> 32 then Thrown (Message ''prev_txid must be 32 bytes'')
     else
       let val = js_as_u64 amt in
       jbind (js_ok_or (checked_add (ws_total_input b) val) (Message ''input overflow'')) (\<lambda>total.
         Done ((), b\<lparr>ws_total_input := total,
           ws_inputs := ws_inputs b @ [\<lparr>ti_prev_txid = prev_txid, ti_vout = vout, ti_value = val,
             ti_script_pubkey = script_pubkey\<rparr>]\<rparr>)))"

definition wasm_shielding_add_output where
  "wasm_shielding_add_output Y X address amt rng = on_success (\<lambda>b.
     let amount = js_as_u64 amt in
     jbind (js_of (parse_payment_address Y X address)) (\<lambda>addr.
     jbind (js_of (make_output Y X (Some (ws_ovk b)) addr amount (replicate 512 0) (ws_zip212 b)
              (ws_output_params b) rng)) (\<lambda>out.
     jbind (js_ok_or (checked_add (ws_total_sapling_output b) amount) (Message ''output overflow'')) (\<lambda>total.
       Done ((), b\<lparr>ws_total_sapling_output := total, ws_sapling_outputs := ws_sapling_outputs b @ [out]\<rparr>)))))"

definition wasm_shielding_add_transparent_output where
  "wasm_shielding_add_transparent_output bs58 address amt = on_success (\<lambda>b.
     let amount = js_as_u64 amt in
     jbind (js_of (parse_transparent_address bs58 address)) (\<lambda>pubkey_hash.
     let script_pubkey = build_p2pkh_script_pubkey pubkey_hash in
     jbind (js_ok_or (checked_add (ws_total_transparent_output b) amount) (Message ''transparent output overflow''))
       (\<lambda>total.
       Done ((), b\<lparr>ws_total_transparent_output := total,
         ws_transparent_outputs :=
           ws_transparent_outputs b @ [\<lparr>to_value = amount, to_script_pubkey = script_pubkey\<rparr>]\<rparr>))))"

definition wasm_shielding_build where
  "wasm_shielding_build Z Y X = on_success (\<lambda>b.
     if ws_inputs b = [] then Thrown (Message ''no inputs added'')
     else if ws_sapling_outputs b = [] then Thrown (Message ''no sapling outputs added'')
     else
       jbind (js_ok_or (checked_add (ws_total_sapling_output b) (ws_total_transparent_output b))
                (Message ''output overflow'')) (\<lambda>total_out.
       if ws_total_input b \<le> total_out then Thrown (Message ''inputs must exceed outputs (need fee)'')
       else
         let value_balance = - ws_total_sapling_output b;
             branch = branch_id_for_height (ws_target_height b);
             expiry = ws_target_height b + 40;
             sighash = compute_shielding_sighash Z Y X (ws_inputs b) (ws_transparent_outputs b)
                         (ws_sapling_outputs b) value_balance branch expiry
         in jbind (js_of (rmap (\<lambda>i. sighash (Some i)) [0..<length (ws_inputs b)])) (\<lambda>per_input_sighashes.
            jbind (js_of (sighash None)) (\<lambda>txid_sighash.
              Done ((), b\<lparr>ws_sighashes := Some per_input_sighashes, ws_txid_sighash := Some txid_sighash\<rparr>)))))"

definition wasm_shielding_sighashes where
  "wasm_shielding_sighashes b = (case ws_sighashes b of Some shs \<Rightarrow> concat shs | None \<Rightarrow> [])"

definition wasm_shielding_num_inputs where
  "wasm_shielding_num_inputs b = wasm_len (ws_inputs b)"

definition wasm_read_der_sig :: "bytes \<Rightarrow> nat \<Rightarrow> (bytes \<times> nat) js" where
  "wasm_read_der_sig sig_bytes offset =
     (if offset + 2 > length sig_bytes then Thrown (Message ''ecdsa_sigs too short'')
      else
        jbind (js_of (slice sig_bytes offset (offset + 2))) (\<lambda>s. jbind (js_of (to_array 2 s)) (\<lambda>l.
        let sig_len = unat (u16_of_le l); offset = offset + 2 in
        if offset + sig_len > length sig_bytes then Thrown (Message ''ecdsa_sigs truncated'')
        else jbind (js_of (slice sig_bytes offset (offset + sig_len))) (\<lambda>b. Done (b, offset + sig_len)))))"

text \<open>
  The number of signatures is the number of inputs at the time of \<^verbatim>\<open>build\<close>; the inputs and outputs
  that are written are those of the object now. The object is not changed.
\<close>

definition wasm_shielding_complete where
  "wasm_shielding_complete Y X ecdsa_sigs pubkeys rng b =
     jbind (js_ok_or (ws_sighashes b) (Message ''build() must be called before complete()'')) (\<lambda>shs.
     jbind (js_ok_or (ws_txid_sighash b) (Message ''build() must be called before complete()'')) (\<lambda>txid_sighash.
     let n = length shs in
     if length pubkeys \<noteq> n * 33 then Thrown (Message ''expected '')
     else
       jbind (js_many n wasm_read_der_sig ecdsa_sigs 0) (\<lambda>sigs.
       jbind (js_of (rmap (\<lambda>i. rbind (slice pubkeys (i * 33) ((i + 1) * 33)) (\<lambda>pk.
                     if i < length sigs then Ok (build_p2pkh_script_sig (sigs ! i) pk) else Panic)) [0..<n]))
         (\<lambda>script_sigs.
       let bsk = compute_bsk X [] (map op_rcv (ws_sapling_outputs b));
           binding_sig = fst (bsk_sign X bsk txid_sighash rng);
           value_balance = - ws_total_sapling_output b;
           branch = branch_id_for_height (ws_target_height b);
           expiry = ws_target_height b + 40
       in js_of (serialize_shielding_v5_tx Y X (ws_inputs b) script_sigs (ws_transparent_outputs b)
            (ws_sapling_outputs b) value_balance binding_sig branch expiry)))))"

end
