(* ===== verification/Wasm_Tx_Properties.thy ===== *)
theory Wasm_Tx_Properties
  imports Wasm_Tx
begin

text \<open>
  The transaction builders for the browser against the native ones: as long as nothing is added after
  \<^verbatim>\<open>build\<close> they do the same; what is added to a shielding builder after \<^verbatim>\<open>build\<close> gets into the
  transaction without being signed.
\<close>

section \<open>Lemmas\<close>

text \<open>A method of an object does what the operation of the native builder does on its fields.\<close>

definition agrees :: "'a js \<times> 'b \<Rightarrow> ('a \<times> 'b) res \<Rightarrow> 'b \<Rightarrow> bool" where
  "agrees j r b \<longleftrightarrow> (case r of Ok (x, b') \<Rightarrow> j = (Done x, b') | Panic \<Rightarrow> j = (Trapped, b) | _ \<Rightarrow> (\<exists>e. j = (Thrown e, b)))"

lemma agrees_on_success: "same_result (f b) r \<Longrightarrow> agrees (on_success f b) r b"
  by (cases r) (auto simp: agrees_def on_success_def same_result_def)

lemma same_result_err: "same_result (js_ok_or x e) (ok_or x e')"
  by (cases x) (simp_all add: same_result_def)

lemma same_spend_rseed: "same_result (wasm_spend_rseed Y z b) (spend_rseed Y z b)"
  by (cases z) (auto simp: wasm_spend_rseed_def spend_rseed_def same_result_def ok_or_def js_ok_or_def split: option.splits)

lemma browser_add_spend:
  assumes "SPEND_PARAMS X = Some (wp_spend_params (wt_params b))" "length nd = 51"
  shows "agrees (wasm_tx_add_spend Y X T nd wd alpha_rng rng b) (tx_add_spend Y X T nd wd alpha_rng rng b) b"
  unfolding wasm_tx_add_spend_def
  by (rule agrees_on_success)
     (auto simp: tx_add_spend_def get_spend_params_def assms Let_def
       intro!: same_result_bind same_result_err same_spend_rseed)

lemma browser_add_output:
  assumes "OUTPUT_PARAMS X = Some (wp_output_params (wt_params b))" "utf8_valid address"
  shows "agrees (wasm_tx_add_output Y X address amt rng b) (tx_add_output Y X address (js_as_u64 amt) rng b) b"
  unfolding wasm_tx_add_output_def
  by (rule agrees_on_success)
     (auto simp: tx_add_output_def get_output_params_def from_utf8_def assms Let_def intro!: same_result_bind)

text \<open>The browser's \<^verbatim>\<open>build\<close> keeps the hash that the native one returns.\<close>

definition built_native where
  "built_native Z Y X b = rbind (tx_build Z Y X b) (\<lambda>(sh, b'). Ok ((), b'\<lparr>wt_sighash_bytes := Some sh\<rparr>))"

lemma browser_build: "agrees (wasm_tx_build Z Y X b) (built_native Z Y X b) b"
  unfolding wasm_tx_build_def built_native_def
  by (rule agrees_on_success) (auto simp: tx_build_def Let_def MAX_FEE_ZATOSHIS_def same_result_def)

lemma browser_complete:
  "same_result (fst (wasm_tx_complete Y X sigs rng b)) (tx_complete Y X sigs rng b)"
  "tb_finished (snd (wasm_tx_complete Y X sigs rng b)) = None"
  by (auto simp: wasm_tx_complete_def tx_complete_def Let_def ok_or_def same_result_def [of "Thrown _"]
      intro!: same_result_bind split: option.splits)

text \<open>The fields that the two shielding builders share.\<close>

definition same_builder where
  "same_builder b nb \<longleftrightarrow>
     ws_target_height b = sh_target_height nb \<and> ws_inputs b = sh_inputs nb \<and>
     ws_transparent_outputs b = sh_transparent_outputs nb \<and> ws_sapling_outputs b = sh_sapling_outputs nb \<and>
     ws_total_input b = sh_total_input nb \<and> ws_total_sapling_output b = sh_total_sapling_output nb \<and>
     ws_total_transparent_output b = sh_total_transparent_output nb"

lemma same_der_sig: "same_result (wasm_read_der_sig data pos) (read_der_sig data pos)"
  unfolding wasm_read_der_sig_def read_der_sig_def Let_def by (auto intro!: same_result_bind)

lemma rmap_length: "rmap f xs = Ok ys \<Longrightarrow> length ys = length xs"
  by (induction xs arbitrary: ys) (auto simp: rbind_eq_Ok)

lemma wasm_shielding_build_OkE:
  assumes "wasm_shielding_build Z Y X b = (Done (), b')"
  obtains shs t where "b' = b\<lparr>ws_sighashes := Some shs, ws_txid_sighash := Some t\<rparr>" "length shs = length (ws_inputs b)"
    "ws_inputs b \<noteq> []" "ws_sapling_outputs b \<noteq> []"
    "compute_shielding_sighash Z Y X (ws_inputs b) (ws_transparent_outputs b) (ws_sapling_outputs b)
       (- ws_total_sapling_output b) (branch_id_for_height (ws_target_height b)) (ws_target_height b + 40) None = Ok t"
  using assms
  by (auto simp: wasm_shielding_build_def on_success_def Let_def jbind_Done split: js.splits if_splits
      dest: rmap_length)

lemma same_many_bind:
  assumes "\<And>pos. same_result (one data pos) (rd data pos)" "\<And>xs. same_result (f xs) (g xs)"
  shows "same_result (jbind (js_many n one data pos) f) (rbind (read_many n rd data pos) (\<lambda>(xs, p). g xs))"
proof -
  have "same_result (jbind (js_many n one data pos) f) (rbind (rbind (read_many n rd data pos) (\<lambda>(xs, _). Ok xs)) g)"
    by (intro same_result_bind same_many assms)
  then show ?thesis by (simp add: rbind_assoc case_prod_unfold)
qed

section \<open>Properties\<close>


text \<open>A browser's shielding builder and a native one with the same contents build the same: when the
  browser's \<^verbatim>\<open>build\<close> succeeds so does the native one, with the same signature hashes, and, if nothing
  is added in between, completing gives the same transaction for the same signatures, or fails alike.\<close>

theorem browser_shielding_agrees:
  assumes "same_builder b nb" "wasm_shielding_build Z Y X b = (Done (), b1)"
  shows "\<exists>nb1. shielding_build Z Y X nb = Ok ((wasm_shielding_sighashes b1, wasm_shielding_num_inputs b1), nb1) \<and>
    same_result (wasm_shielding_complete Y X sigs pks rng b1) (shielding_complete Y X sigs pks rng nb1)"
proof -
  let ?sh = "compute_shielding_sighash Z Y X (ws_inputs b) (ws_transparent_outputs b) (ws_sapling_outputs b)
      (- ws_total_sapling_output b) (branch_id_for_height (ws_target_height b)) (ws_target_height b + 40)"
  from assms(2) obtain c shs t where
    c: "checked_add (ws_total_sapling_output b) (ws_total_transparent_output b) = Some c" "\<not> ws_total_input b \<le> c"
    and ne: "ws_inputs b \<noteq> []" "ws_sapling_outputs b \<noteq> []"
    and r: "rmap (\<lambda>i. ?sh (Some i)) [0..<length (ws_inputs b)] = Ok shs" "?sh None = Ok t"
    and b1: "b1 = b\<lparr>ws_sighashes := Some shs, ws_txid_sighash := Some t\<rparr>"
    by (auto simp: wasm_shielding_build_def on_success_def Let_def jbind_Done split: js.splits if_splits)
  define nb1 where "nb1 = nb\<lparr>sh_inputs := [], sh_transparent_outputs := [], sh_sapling_outputs := [],
    sh_finished := Some \<lparr>sb_inputs = ws_inputs b, sb_transparent_outputs = ws_transparent_outputs b,
      sb_sapling_outputs = ws_sapling_outputs b, sb_value_balance = - ws_total_sapling_output b,
      sb_consensus_branch_id = branch_id_for_height (ws_target_height b),
      sb_expiry_height = ws_target_height b + 40, sb_txid_sighash = t\<rparr>\<rparr>"
  have "shielding_build Z Y X nb = Ok ((wasm_shielding_sighashes b1, wasm_shielding_num_inputs b1), nb1)"
    using assms(1) c ne r
    by (simp add: shielding_build_def same_builder_def Let_def nb1_def b1 wasm_shielding_sighashes_def
        wasm_shielding_num_inputs_def wasm_len_def)
  moreover have "same_result (wasm_shielding_complete Y X sigs pks rng b1) (shielding_complete Y X sigs pks rng nb1)"
    unfolding wasm_shielding_complete_def shielding_complete_def Let_def
    by (auto simp: nb1_def b1 rmap_length [OF r(1)] intro!: same_many_bind same_result_bind same_der_sig)
  ultimately show ?thesis by blast
qed

text \<open>C38: What is added to a browser's shielding builder between \<^verbatim>\<open>build\<close> and \<^verbatim>\<open>complete\<close> is not signed. When
  an output is added after \<^verbatim>\<open>build\<close>, \<^verbatim>\<open>complete\<close> writes a transaction with that output and a value
  balance that counts it, although the input signatures it puts in were asked for, and the binding
  signature made, for the hash of the transaction without the output. (The native builder has moved
  its contents out by then.)\<close>

theorem late_output_unsigned:
  assumes "wasm_shielding_build Z Y X b = (Done (), b1)"
    and "wasm_shielding_add_output Y X address amt rng b1 = (Done (), b2)"
    and "wasm_shielding_complete Y X sigs pks rng2 b2 = Done tx"
  shows "\<exists>out t scripts.
    compute_shielding_sighash Z Y X (ws_inputs b) (ws_transparent_outputs b) (ws_sapling_outputs b)
      (- ws_total_sapling_output b) (branch_id_for_height (ws_target_height b)) (ws_target_height b + 40) None = Ok t \<and>
    serialize_shielding_v5_tx Y X (ws_inputs b) scripts (ws_transparent_outputs b) (ws_sapling_outputs b @ [out])
      (- (ws_total_sapling_output b + js_as_u64 amt))
      (fst (bsk_sign X (compute_bsk X [] (map op_rcv (ws_sapling_outputs b @ [out]))) t rng2))
      (branch_id_for_height (ws_target_height b)) (ws_target_height b + 40) = Ok tx"
proof -
  from assms(1) obtain shs t where b1: "b1 = b\<lparr>ws_sighashes := Some shs, ws_txid_sighash := Some t\<rparr>"
    and t: "compute_shielding_sighash Z Y X (ws_inputs b) (ws_transparent_outputs b) (ws_sapling_outputs b)
      (- ws_total_sapling_output b) (branch_id_for_height (ws_target_height b)) (ws_target_height b + 40) None = Ok t"
    by (rule wasm_shielding_build_OkE)
  from assms(2) obtain out total where add: "checked_add (ws_total_sapling_output b) (js_as_u64 amt) = Some total"
    "b2 = b1\<lparr>ws_total_sapling_output := total, ws_sapling_outputs := ws_sapling_outputs b @ [out]\<rparr>"
    by (auto simp: wasm_shielding_add_output_def on_success_def Let_def jbind_Done b1 split: js.splits)
  have "total = ws_total_sapling_output b + js_as_u64 amt"
    using add(1) by (simp add: checked_add_def split: if_splits)
  with assms(3) t add(2) show ?thesis
    by (auto simp: wasm_shielding_complete_def Let_def jbind_Done b1 split: if_splits)
qed

section \<open>Concrete instances\<close>

definition demo_prover where
  "demo_prover = \<lparr>wp_spend_params = the (SPEND_PARAMS demo_sapling_tx), wp_output_params = the (OUTPUT_PARAMS demo_sapling_tx)\<rparr>"

lemma demo_prover_params:
  "SPEND_PARAMS demo_sapling_tx = Some (wp_spend_params demo_prover)"
  "OUTPUT_PARAMS demo_sapling_tx = Some (wp_output_params demo_prover)"
  by (simp_all add: demo_prover_def demo_sapling_tx_def)

definition demo_browser_builder where
  "demo_browser_builder = \<lparr>tb_fvk = ([] :: bytes), tb_pgk = ([] :: bytes, 0 :: u8), tb_ovk = [], tb_target_height = 0,
     tb_zip212 = On, tb_spends = [], tb_outputs = [], tb_alphas = [], tb_total_input = 0, tb_total_output = 0,
     tb_finished = None :: (rat, u8, u8, rat) tx_build_state option, wt_params = demo_prover, wt_sighash_bytes = None\<rparr>"


type_synonym demo_prove = "unit \<Rightarrow> u8 \<Rightarrow> u8 \<times> u64 \<times> u8 rseed \<Rightarrow> u64 \<Rightarrow> rat \<Rightarrow> nat \<Rightarrow> bytes \<times> nat"

definition browser_of where
  "browser_of nb = \<lparr>ws_ovk = sh_ovk nb, ws_target_height = sh_target_height nb, ws_zip212 = sh_zip212 nb,
     ws_output_params = wp_output_params demo_prover, ws_inputs = sh_inputs nb,
     ws_transparent_outputs = sh_transparent_outputs nb, ws_sapling_outputs = sh_sapling_outputs nb,
     ws_total_input = sh_total_input nb, ws_total_sapling_output = sh_total_sapling_output nb,
     ws_total_transparent_output = sh_total_transparent_output nb, ws_sighashes = None, ws_txid_sighash = None\<rparr>"

lemma browser_of_same: "same_builder (browser_of nb) nb"
  by (simp add: same_builder_def browser_of_def)

lemma browser_build_succeeds:
  assumes "same_builder b nb" "shielding_build Z Y X nb = Ok r"
  shows "\<exists>b1. wasm_shielding_build Z Y X b = (Done (), b1)"
  using assms
  by (auto simp: shielding_build_def wasm_shielding_build_def same_builder_def on_success_def Let_def rbind_eq_Ok
      split: if_splits)

lemma demo_browser_built:
  "\<exists>(b :: (rat, u8, rat, demo_prove) wasm_shielding_builder) (nb :: (rat, u8, rat) shielding_tx_builder) b1.
     same_builder b nb \<and> wasm_shielding_build demo_hash demo_sapling demo_sapling_tx b = (Done (), b1) \<and>
     length (ws_inputs b) = 1 \<and> ws_total_sapling_output b = 3000 \<and> ws_output_params b = wp_output_params demo_prover"
proof -
  obtain nb where h: "shielding_history demo_sapling demo_sapling_tx nb [5000] [3000] [1000]"
    using demo_shielding_history by blast
  note inv = shielding_history_inv [OF h, unfolded shielding_inv_def]
  then have "sh_inputs nb \<noteq> []" "sh_sapling_outputs nb \<noteq> []" by auto
  with inv obtain r b' s where "shielding_build demo_hash demo_sapling demo_sapling_tx nb = Ok (r, b')"
    using shielding_build_succeeds [of nb demo_hash demo_sapling demo_sapling_tx] by auto
  from browser_build_succeeds [OF browser_of_same this] obtain b1 where
    "wasm_shielding_build demo_hash demo_sapling demo_sapling_tx (browser_of nb) = (Done (), b1)" by blast
  moreover have "length (sh_inputs nb) = 1" using inv by (metis length_map list.size(3) list.size(4) One_nat_def add.left_neutral)
  moreover have "sh_total_sapling_output nb = 3000" using inv by (simp add: word_uint_eq_iff)
  ultimately show ?thesis
    using browser_of_same [of nb] by (intro exI [of _ "browser_of nb"] exI [of _ nb] exI [of _ b1] conjI) (simp_all add: browser_of_def)
qed

theorem browser_shielding_agrees_witness:
  "\<exists>(b :: (rat, u8, rat, demo_prove) wasm_shielding_builder) (nb :: (rat, u8, rat) shielding_tx_builder) b1 nb1. same_builder b nb \<and>
     wasm_shielding_build demo_hash demo_sapling demo_sapling_tx b = (Done (), b1) \<and>
     shielding_build demo_hash demo_sapling demo_sapling_tx nb
       = Ok ((wasm_shielding_sighashes b1, wasm_shielding_num_inputs b1), nb1) \<and>
     same_result (wasm_shielding_complete demo_sapling demo_sapling_tx [] [] 3 b1)
       (shielding_complete demo_sapling demo_sapling_tx [] [] 3 nb1)"
proof -
  obtain b :: "(rat, u8, rat, demo_prove) wasm_shielding_builder" and nb :: "(rat, u8, rat) shielding_tx_builder" and b1 where b: "same_builder b nb"
    "wasm_shielding_build demo_hash demo_sapling demo_sapling_tx b = (Done (), b1)" using demo_browser_built by blast
  with browser_shielding_agrees [OF b, of "[]" "[]" 3] show ?thesis by blast
qed

theorem late_output_unsigned_witness:
  "\<exists>(b :: (rat, u8, rat, demo_prove) wasm_shielding_builder) b1 b2 tx out t scripts.
     wasm_shielding_build demo_hash demo_sapling demo_sapling_tx b = (Done (), b1) \<and>
     wasm_shielding_add_output demo_sapling demo_sapling_tx demo_address (Finite 7) 5 b1 = (Done (), b2) \<and>
     ws_total_sapling_output b = 3000 \<and>
     serialize_shielding_v5_tx demo_sapling demo_sapling_tx (ws_inputs b) scripts (ws_transparent_outputs b)
       (ws_sapling_outputs b @ [out]) (- 3007)
       (fst (bsk_sign demo_sapling_tx (compute_bsk demo_sapling_tx [] (map op_rcv (ws_sapling_outputs b @ [out]))) t 6))
       (branch_id_for_height (ws_target_height b)) (ws_target_height b + 40) = Ok tx"
proof -
  obtain b :: "(rat, u8, rat, demo_prove) wasm_shielding_builder" and nb :: "(rat, u8, rat) shielding_tx_builder" and b1 where b: "same_builder b nb"
    "wasm_shielding_build demo_hash demo_sapling demo_sapling_tx b = (Done (), b1)"
    "length (ws_inputs b) = 1" "ws_total_sapling_output b = 3000" using demo_browser_built by metis
  from b(2) obtain shs t where b1: "b1 = b\<lparr>ws_sighashes := Some shs, ws_txid_sighash := Some t\<rparr>" "length shs = 1"
    using b(3) by (metis wasm_shielding_build_OkE)
  have amt: "js_as_u64 (Finite 7) = 7" by (simp add: js_as_u64_def)
  have addr: "parse_payment_address demo_sapling demo_sapling_tx demo_address = Ok 8"
    by (simp add: parse_payment_address_def starts_with_def demo_address_def str_bytes_def demo_sapling_simps
        slice_def to_array_def)
  obtain b2 where b2: "wasm_shielding_add_output demo_sapling demo_sapling_tx demo_address (Finite 7) 5 b1 = (Done (), b2)"
    "ws_sighashes b2 = Some shs" "ws_txid_sighash b2 = Some t"
    using make_output_Ok [of demo_sapling demo_sapling_tx "Some (ws_ovk b1)" 8 7 "replicate 512 0" "ws_zip212 b1"
        "ws_output_params b1" 5] b(4)
    by (auto simp: wasm_shielding_add_output_def on_success_def addr amt checked_add_def b1(1))
  have "wasm_read_der_sig [2, 0, 0x30, 0x31] 0 = Done ([0x30, 0x31], 4)" by code_simp
  then obtain tx where "wasm_shielding_complete demo_sapling demo_sapling_tx [2, 0, 0x30, 0x31] (replicate 33 2) 6 b2 = Done tx"
    using b2 b1(2) by (auto simp: wasm_shielding_complete_def Let_def slice_def serialize_shielding_v5_tx_def)
  from late_output_unsigned [OF b(2) b2(1) this] obtain out t' scripts where
    "serialize_shielding_v5_tx demo_sapling demo_sapling_tx (ws_inputs b) scripts (ws_transparent_outputs b)
       (ws_sapling_outputs b @ [out]) (- 3007)
       (fst (bsk_sign demo_sapling_tx (compute_bsk demo_sapling_tx [] (map op_rcv (ws_sapling_outputs b @ [out]))) t' 6))
       (branch_id_for_height (ws_target_height b)) (ws_target_height b + 40) = Ok tx"
    unfolding b(4) amt by auto
  with b(2,4) b2(1) show ?thesis by blast
qed

end
