(* ===== verification/Wasm_Sapling_Properties.thy ===== *)
theory Wasm_Sapling_Properties
  imports Wasm_Sapling Wasm_Tx_Properties
begin

text \<open>
  Keys, notes and witnesses in the browser against the native library: the same results for the same
  inputs, and witnesses that can be exchanged.
\<close>

section \<open>Lemmas\<close>

lemma js_zip212: "js_zip212_for_height = zip212_for_height"
  by (simp add: fun_eq_iff js_zip212_for_height_def zip212_for_height_def)

lemma same_result_err2: "same_result (Thrown e) (ok_or None e')" "same_result (js_ok_or x e) (ser_err x)"
  by (cases x; simp add: same_result_def ser_err_def)+

lemma same_dfvk: "same_result (js_build_dfvk_raw L Y pkp extras) (build_dfvk_raw L Y pkp extras)"
  unfolding js_build_dfvk_raw_def build_dfvk_raw_def
  by (auto intro!: same_result_bind same_result_err same_result_err2)

lemma same_decryption_inputs:
  "length ivk = 32 \<Longrightarrow> length cmu = 32 \<Longrightarrow> length epk = 32 \<Longrightarrow> length ct = n \<Longrightarrow>
   same_result (js_decryption_inputs Y n ivk cmu epk ct) (decryption_inputs Y n ivk cmu epk ct)"
  unfolding js_decryption_inputs_def decryption_inputs_def
  by (auto intro!: same_result_bind same_result_err)

lemma same_note:
  "same_result (js_decrypt_note_full Y ivk cmu epk ct height) (decrypt_note_full Y ivk cmu epk ct height)"
proof (cases "length ivk = 32 \<and> length cmu = 32 \<and> length epk = 32 \<and> length ct = ENC_CIPHERTEXT_SIZE")
  case True
  then have "js_decrypt_note_full Y ivk cmu epk ct height =
      jbind (js_decryption_inputs Y ENC_CIPHERTEXT_SIZE ivk cmu epk ct) (\<lambda>(ivk, cmu, epk, ct).
        case note_decryption Y ivk cmu epk ct (js_zip212_for_height height) of
          Some (note, addr, memo) \<Rightarrow> Done (note_data_of Y note addr)
        | None \<Rightarrow> Thrown (Message ''decryption failed''))"
    unfolding js_decrypt_note_full_def note_data_of_def by simp
  with True show ?thesis
    by (auto simp: decrypt_note_full_def js_zip212 intro!: same_result_bind same_decryption_inputs split: option.splits)
qed (auto simp: js_decrypt_note_full_def decrypt_note_full_def decryption_inputs_def)

lemma same_nullifier_rseed: "same_result (js_nullifier_rseed Y z b) (nullifier_rseed Y z b)"
  by (cases z) (auto simp: js_nullifier_rseed_def nullifier_rseed_def intro!: same_result_bind same_result_err)

lemma same_nullifier:
  assumes "build_dfvk_raw L Y pkp extras = Ok raw" "length raw = 128"
  shows "same_result (js_compute_nullifier Y raw nd pos height) (compute_nullifier L Y pkp extras nd pos height)"
  using assms
  by (auto simp: js_compute_nullifier_def compute_nullifier_def js_zip212 slice_def to_array_def
      intro!: same_result_bind same_result_err same_nullifier_rseed)

lemma js_compact_size_eq:
  "js_read_compact_size data pos = map_option (\<lambda>(n, p). (wasm_usize n, p)) (read_compact_size data pos)"
  using unat_bounds
  by (auto simp: js_read_compact_size_def read_compact_size_def io_bind_def split: option.splits)
     (simp_all add: wasm_usize_small order.strict_trans [OF unsigned_less])

text \<open>A tree that the native reader accepts is read by the browser too.\<close>

lemma js_read_tree:
  assumes "read_commitment_tree_data T data pos = Some (t, pos')"
  shows "js_read_commitment_tree_data T err data pos = Done (t, pos')"
  using assms
  by (auto simp: read_commitment_tree_data_def js_read_commitment_tree_data_def io_bind_eq_Some js_compact_size_eq
      js_with_capacity_def NOTE_COMMITMENT_TREE_DEPTH_def split: if_splits option.splits)

lemma js_read_witness:
  assumes "deserialize_witness T data = Ok w"
  shows "js_deserialize_witness T data = Done w"
  using assms
  by (auto simp: deserialize_witness_def js_deserialize_witness_def rbind_eq_Ok at_eof_def js_read_tree
      js_compact_size_eq js_with_capacity_def NOTE_COMMITMENT_TREE_DEPTH_def split: if_splits)

section \<open>Properties\<close>

text \<open>The browser opens a note and computes its nullifier as the native library does: opening an output
  gives the same 51 bytes or fails alike, and from the viewing key of a shared key it computes the
  nullifier that the native library computes from the key package and the extras; also the viewing
  keys agree.\<close>

theorem browser_notes_agree:
  assumes "build_dfvk_raw L Y pkp extras = Ok raw" "length raw = 128"
  shows "js_sapling_build_dfvk L Y pkp extras = Done raw \<and>
    same_result (js_decrypt_note_full Y ivk cmu epk ct height) (decrypt_note_full Y ivk cmu epk ct height) \<and>
    same_result (js_compute_nullifier Y raw nd pos height) (compute_nullifier L Y pkp extras nd pos height)"
  using same_dfvk [of L Y pkp extras] same_nullifier [OF assms] same_note
  by (simp add: assms(1) js_sapling_build_dfvk_def same_result_def)

theorem browser_notes_agree_witness:
  "js_sapling_build_dfvk demo32 demo_sapling [3] (1 # replicate 95 0)
      = Done (3 # replicate 31 0 @ replicate 32 1 @ replicate 64 0) \<and>
    js_compute_nullifier demo_sapling (3 # replicate 31 0 @ replicate 32 1 @ replicate 64 0)
      (6 # replicate 10 0 @ u64_le 5 @ replicate 32 8) 10 2000000 = Done (6 # u64_le 15)"
proof -
  have l: "length (3 # replicate 31 0 @ replicate 32 1 @ replicate 64 (0 :: u8)) = 128" by simp
  have n: "compute_nullifier demo32 demo_sapling [3] (1 # replicate 95 0)
      (6 # replicate 10 0 @ u64_le 5 @ replicate 32 8) 10 2000000 = Ok (6 # u64_le 15)"
    by (simp add: compute_nullifier_def demo_dfvk slice_def to_array_def nullifier_rseed_def zip212_for_height_def)
       (simp add: demo_sapling_def)
  from browser_notes_agree [OF demo_dfvk l, of "[]" "[]" "[]" "[]" 2000000 "6 # replicate 10 0 @ u64_le 5 @ replicate 32 8" 10]
  show ?thesis unfolding n by (simp add: same_result_def)
qed

text \<open>Witnesses can be exchanged between native devices and browsers: both write the same bytes, and the
  browser reads every witness that the native library accepts, in particular the witness itself
  from its bytes with anything appended.\<close>

theorem witnesses_exchanged:
  assumes "node_ok T" "wit_ok T w"
  shows "\<exists>bs. serialize_witness T w = Ok bs \<and> js_witness_serialize T w = Done bs \<and>
    js_witness_from_bytes T (bs @ post) = Done w \<and>
    (\<forall>data w'. deserialize_witness T data = Ok w' \<longrightarrow> js_witness_from_bytes T data = Done w')"
proof -
  obtain bs where bs: "serialize_witness T w = Ok bs" by (simp add: serialize_witness_def)
  then have "js_witness_serialize T w = Done bs"
    by (simp add: serialize_witness_def js_witness_serialize_def js_serialize_witness_def)
  then show ?thesis
    using bs js_read_witness [OF serialize_deserialize [OF assms bs]]
    by (auto simp: js_witness_from_bytes_def js_read_witness)
qed

theorem witnesses_exchanged_witness:
  "\<exists>bs. js_witness_serialize demo_merkle ((Some 7, None, []), [5], None) = Done bs \<and>
    js_witness_from_bytes demo_merkle (bs @ [1, 2]) = Done ((Some 7, None, []), [5], None)"
proof -
  let ?w = "((Some 7, None, []), [5], None) ::
    (u8 option \<times> u8 option \<times> u8 option list) \<times> u8 list \<times> (u8 option \<times> u8 option \<times> u8 option list) option"
  have "node_ok demo_merkle" "wit_ok demo_merkle ?w"
    by (simp_all add: node_ok_def wit_ok_def tree_ok_def demo_merkle_def NOTE_COMMITMENT_TREE_DEPTH_def)
  from witnesses_exchanged [OF this, of "[1, 2]"] show ?thesis by blast
qed

end
