(* ===== verification/Sdk_Calls.thy ===== *)
theory Sdk_Calls
  imports Monero_Spend Monero_Wallet_Properties Sapling_Keys
begin

text \<open>
  The SDK crates, which put the network under the libraries. \<^verbatim>\<open>fromt-sdk/src/ffi.rs\<close>: the exported
  wallet functions of Monero. The daemon behind a URL is the argument \<open>H\<close>: connecting to it may fail, and gives
  otherwise the wallet crate with the answers of that daemon. \<^verbatim>\<open>frozt-sdk/src/scanner.rs\<close> and
  \<^verbatim>\<open>scanner_ffi.rs\<close>, which \<^verbatim>\<open>frozt-lib\<close> repeats behind a feature: synchronisation of a Zcash viewing key with a
  light wallet server; the engine, its database and the server are the argument \<open>B\<close>.
\<close>

record 'w daemon_host =
  tokio_runtime :: bool
  transport_new :: "bytes \<Rightarrow> 'w option"

section \<open>The wallet functions of \<^verbatim>\<open>fromt-sdk\<close>\<close>

text \<open>\<^verbatim>\<open>Runtime::new()\<close>, then \<^verbatim>\<open>block_on\<close> of connecting and of the request.\<close>

definition with_daemon where
  "with_daemon H url f =
     (if tokio_runtime H then rbind (ok_or (transport_new H url) LIB_UNKNOWN_ERROR) f else Err LIB_UNKNOWN_ERROR)"

text \<open>\<^verbatim>\<open>spend_key.and_then(..)\<close>: a slice of another length is no key.\<close>

definition spend_key_arg :: "go_slice option \<Rightarrow> bytes option" where
  "spend_key_arg spend_key =
     (case spend_key of
        Some s \<Rightarrow> if length (as_slice s) = 32 then Some (as_slice s) else None
      | None \<Rightarrow> None)"

text \<open>\<^verbatim>\<open>data.chunks_exact(32)\<close>\<close>

definition chunks_exact :: "nat \<Rightarrow> bytes \<Rightarrow> bytes list" where
  "chunks_exact n data = map (\<lambda>i. take n (drop (i * n) data)) [0..<length data div n]"

definition excluded_arg :: "go_slice option \<Rightarrow> bytes list" where
  "excluded_arg excluded_offsets =
     (case excluded_offsets of
        Some ex \<Rightarrow> if length (as_slice ex) mod 32 = 0 then chunks_exact 32 (as_slice ex) else []
      | None \<Rightarrow> [])"

definition tx_extra_arg :: "go_slice option \<Rightarrow> bytes list" where
  "tx_extra_arg tx_extra =
     (case tx_extra of
        Some ex \<Rightarrow> if as_slice ex = [] then [] else [as_slice ex]
      | None \<Rightarrow> [])"

definition fromt_scan_balance where
  "fromt_scan_balance L K W H key_share daemon_url bday spend_key (out_balance :: unit option) (out_num :: unit option) =
     exported (
       cbind (nonnull key_share) (\<lambda>ks_data.
       cbind (nonnull daemon_url) (\<lambda>url_data.
       cbind (nonnull out_balance) (\<lambda>_.
       cbind (nonnull out_num) (\<lambda>_.
       cret (
         rbind (fromt_bundle_deserialize L (as_slice ks_data)) (\<lambda>b.
         rbind (ok_or (from_utf8 (as_slice url_data)) LIB_SERIALIZATION_ERROR) (\<lambda>url.
         rbind (view_pair_from_bundle L K W b) (\<lambda>view_pair.
           with_daemon H url (\<lambda>rpc. scan_balance K rpc view_pair bday (spend_key_arg spend_key)))))))))))"

definition fromt_scan_outputs where
  "fromt_scan_outputs L K W H key_share daemon_url bday (out_data :: unit option) =
     exported (
       cbind (nonnull key_share) (\<lambda>ks_data.
       cbind (nonnull daemon_url) (\<lambda>url_data.
       cbind (nonnull out_data) (\<lambda>_.
       cret (
         rbind (fromt_bundle_deserialize L (as_slice ks_data)) (\<lambda>b.
         rbind (ok_or (from_utf8 (as_slice url_data)) LIB_SERIALIZATION_ERROR) (\<lambda>url.
         rbind (view_pair_from_bundle L K W b) (\<lambda>view_pair.
           with_daemon H url (\<lambda>rpc. scan_outputs rpc view_pair bday)))))))))"

definition fromt_scan_range where
  "fromt_scan_range L K W H key_share daemon_url from_height to_height (out_data :: unit option) =
     exported (
       cbind (nonnull key_share) (\<lambda>ks_data.
       cbind (nonnull daemon_url) (\<lambda>url_data.
       cbind (nonnull out_data) (\<lambda>_.
       cret (
         rbind (fromt_bundle_deserialize L (as_slice ks_data)) (\<lambda>b.
         rbind (ok_or (from_utf8 (as_slice url_data)) LIB_SERIALIZATION_ERROR) (\<lambda>url.
         rbind (view_pair_from_bundle L K W b) (\<lambda>view_pair.
           with_daemon H url (\<lambda>rpc. scan_range rpc view_pair from_height to_height)))))))))"

definition fromt_filter_spent_outputs where
  "fromt_filter_spent_outputs outs_arg spent_flags (out_balance :: unit option) (out_num :: unit option) =
     exported (
       cbind (nonnull outs_arg) (\<lambda>out_data.
       cbind (nonnull spent_flags) (\<lambda>flags_data.
       cbind (nonnull out_balance) (\<lambda>_.
       cbind (nonnull out_num) (\<lambda>_.
       cret (filter_spent_outputs (as_slice out_data) (as_slice flags_data)))))))"

definition fromt_spend_prepare where
  "fromt_spend_prepare L K W H M rng key_share daemon_url recipient amount bday excluded_offsets spend_key tx_extra
       (out_signable_tx :: unit option) (out_spent_offsets :: unit option) =
     exported (
       cbind (nonnull key_share) (\<lambda>ks_data.
       cbind (nonnull daemon_url) (\<lambda>url_data.
       cbind (nonnull recipient) (\<lambda>rcpt_data.
       cbind (nonnull out_signable_tx) (\<lambda>_.
       cbind (nonnull out_spent_offsets) (\<lambda>_.
       cret (
         rbind (fromt_bundle_deserialize L (as_slice ks_data)) (\<lambda>b.
         rbind (ok_or (from_utf8 (as_slice url_data)) LIB_SERIALIZATION_ERROR) (\<lambda>url.
         rbind (ok_or (from_utf8 (as_slice rcpt_data)) LIB_SERIALIZATION_ERROR) (\<lambda>addr.
         rbind (with_daemon H url (\<lambda>rpc.
           prepare_spend L K rpc rng b addr amount bday (excluded_arg excluded_offsets) (spend_key_arg spend_key)
             (tx_extra_arg tx_extra))) (\<lambda>(signable, selected_offsets).
           Ok (signable_serialize M signable, concat selected_offsets))))))))))))"

section \<open>The scanner for Zcash\<close>

record scan_result =
  spendable_balance :: u64
  chain_height :: u64
  scanned_height :: u64

record wallet_summary =
  account_balances :: "(u64 \<times> u64) list"
  fully_scanned_height :: u32

record ('ep, 'ch, 'dfvk, 'ufvk, 'ts, 'bd, 'pol, 'db) sync_lib =
  scan_runtime :: bool
  channel_from_shared :: "bytes \<Rightarrow> 'ep option"
  channel_tls_config :: "'ep \<Rightarrow> 'ep option"
  channel_connect :: "'ep \<Rightarrow> 'ch option"
  memory_db_new :: "nat \<Rightarrow> 'db"
  ufvk_new :: "'dfvk \<Rightarrow> 'ufvk option"
  get_tree_state :: "'ch \<Rightarrow> u64 \<Rightarrow> 'ts option"
  birthday_from_treestate :: "'ts \<Rightarrow> 'bd option"
  import_account_ufvk :: "bytes \<Rightarrow> 'ufvk \<Rightarrow> 'bd \<Rightarrow> 'db \<Rightarrow> 'db option"
  sync_run :: "'ch \<Rightarrow> u32 \<Rightarrow> 'db \<Rightarrow> 'db option"
  db_chain_height :: "'db \<Rightarrow> u32 option option"
  confirmations_new :: "u32 \<Rightarrow> u32 \<Rightarrow> bool \<Rightarrow> 'pol option"
  get_wallet_summary :: "'pol \<Rightarrow> 'db \<Rightarrow> wallet_summary option option"
  json_to_vec :: "scan_result \<Rightarrow> bytes option"

definition BATCH_SIZE :: nat where "BATCH_SIZE = 10000"

definition ufvk_from_dfvk_bytes where
  "ufvk_from_dfvk_bytes Y B dfvk_bytes =
     (if length dfvk_bytes \<noteq> 128 then Err LIB_INVALID_BUFFER_SIZE
      else
        rbind (ok_or (dfvk_from_bytes Y dfvk_bytes) LIB_SAPLING_ERROR) (\<lambda>dfvk.
          ok_or (ufvk_new B dfvk) LIB_SAPLING_ERROR))"

text \<open>\<^verbatim>\<open>birthday - 1\<close> wraps around in a release build. The values of the accounts are added up with \<open>+=\<close>.\<close>

definition scan_async where
  "scan_async Y B dfvk_bytes url (bday :: u32) =
     rbind (ok_or (channel_from_shared B url) LIB_UNKNOWN_ERROR) (\<lambda>ep.
     rbind (ok_or (channel_tls_config B ep) LIB_UNKNOWN_ERROR) (\<lambda>ep.
     rbind (ok_or (channel_connect B ep) LIB_UNKNOWN_ERROR) (\<lambda>ch.
     let db = memory_db_new B BATCH_SIZE in
     rbind (ufvk_from_dfvk_bytes Y B dfvk_bytes) (\<lambda>ufvk.
     rbind (ok_or (get_tree_state B ch (ucast (bday - 1))) LIB_UNKNOWN_ERROR) (\<lambda>treestate.
     rbind (ok_or (birthday_from_treestate B treestate) LIB_SAPLING_ERROR) (\<lambda>account_birthday.
     rbind (ok_or (import_account_ufvk B (str_bytes ''frost-account'') ufvk account_birthday db) LIB_SAPLING_ERROR) (\<lambda>db.
     rbind (ok_or (sync_run B ch (word_of_nat BATCH_SIZE) db) LIB_UNKNOWN_ERROR) (\<lambda>db.
     rbind (ok_or (db_chain_height B db) LIB_UNKNOWN_ERROR) (\<lambda>height.
     rbind (ok_or (confirmations_new B 1 1 False) LIB_UNKNOWN_ERROR) (\<lambda>confirmations.
     rbind (ok_or (get_wallet_summary B confirmations db) LIB_UNKNOWN_ERROR) (\<lambda>summary.
       Ok \<lparr>spendable_balance =
             (case summary of
                Some s \<Rightarrow> foldl (\<lambda>acc (sapling, orchard). acc + sapling + orchard) 0 (account_balances s)
              | None \<Rightarrow> 0),
           chain_height = (case height of Some h \<Rightarrow> ucast h | None \<Rightarrow> 0),
           scanned_height = (case summary of Some s \<Rightarrow> ucast (fully_scanned_height s) | None \<Rightarrow> 0)\<rparr>)))))))))))"

definition scan where
  "scan Y B dfvk_bytes url bday =
     (if scan_runtime B then scan_async Y B dfvk_bytes url bday else Err LIB_UNKNOWN_ERROR)"

definition frozt_scan where
  "frozt_scan Y B dfvk url (bday :: u64) (out_result :: unit option) =
     exported (
       cbind (nonnull dfvk) (\<lambda>dfvk_data.
       cbind (nonnull url) (\<lambda>url_data.
       cbind (nonnull out_result) (\<lambda>_.
       cret (
         rbind (ok_or (from_utf8 (as_slice url_data)) LIB_SERIALIZATION_ERROR) (\<lambda>url_str.
         rbind (scan Y B (as_slice dfvk_data) url_str (ucast bday)) (\<lambda>result.
           ok_or (json_to_vec B result) LIB_SERIALIZATION_ERROR)))))))"

definition frozt_scan_balance where
  "frozt_scan_balance Y B dfvk url (bday :: u64) (out_balance :: unit option) =
     exported (
       cbind (nonnull dfvk) (\<lambda>dfvk_data.
       cbind (nonnull url) (\<lambda>url_data.
       cbind (nonnull out_balance) (\<lambda>_.
       cret (
         rbind (ok_or (from_utf8 (as_slice url_data)) LIB_SERIALIZATION_ERROR) (\<lambda>url_str.
         rbind (scan Y B (as_slice dfvk_data) url_str (ucast bday)) (\<lambda>result.
           Ok (spendable_balance result))))))))"

end
