(* ===== verification/Sdk_Properties.thy ===== *)
theory Sdk_Properties
  imports Sdk_Calls Monero_Spend_Properties
begin

text \<open>
  What hosts of the SDK rely on: spends that are prepared one after the other never share an input; a
  host without the spend key computes the balance from what the exported functions hand it; and
  what becomes of optional arguments that are malformed.
\<close>

section \<open>Chunks\<close>

lemma chunks_exact_Nil: "length data < n \<Longrightarrow> chunks_exact n data = []"
  by (simp add: chunks_exact_def)

lemma chunks_exact_Cons:
  assumes "0 < n" "length a = n"
  shows "chunks_exact n (a @ data) = a # chunks_exact n data"
proof -
  have "length (a @ data) div n = Suc (length data div n)" using assms by simp
  then have "chunks_exact n (a @ data) = map (\<lambda>i. take n (drop (i * n) (a @ data))) (0 # map Suc [0..<length data div n])"
    unfolding chunks_exact_def by (simp only: map_Suc_upt upt_conv_Cons [OF zero_less_Suc])
  also have "\<dots> = a # chunks_exact n data"
    using assms by (simp add: chunks_exact_def)
  finally show ?thesis .
qed

lemma chunks_exact_concat: "0 < n \<Longrightarrow> \<forall>x \<in> set xs. length x = n \<Longrightarrow> chunks_exact n (concat xs @ ys) = xs @ chunks_exact n ys"
  by (induction xs) (simp_all add: chunks_exact_Cons)

lemma in_chunks_append:
  assumes "0 < n" "length a mod n = 0"
  shows "chunks_exact n (a @ b) = chunks_exact n a @ chunks_exact n b"
  using assms(2)
proof (induction "length a" arbitrary: a rule: less_induct)
  case less
  show ?case
  proof (cases "a = []")
    case True
    then show ?thesis using assms(1) by (simp add: chunks_exact_Nil)
  next
    case False
    with less.prems assms(1) have n: "n \<le> length a" by (metis length_0_conv mod_less not_less)
    obtain h t where a: "a = h @ t" "length h = n" using n by (metis append_take_drop_id length_take min.absorb2)
    with less.prems have "length t mod n = 0" by simp
    with less.hyps [of t] a assms(1) have "chunks_exact n (t @ b) = chunks_exact n t @ chunks_exact n b" by simp
    then show ?thesis using a chunks_exact_Cons [OF assms(1) a(2)] by simp
  qed
qed

section \<open>Preparing a spend\<close>

lemma choose_inputs_sound:
  assumes "choose_inputs W fee amount owned = Ok sel" "owned \<noteq> []"
  shows "sel \<noteq> []" "mset sel \<subseteq># mset owned"
    "amount + fee_estimate W fee (length sel) \<le> sum_list (map (out_amount W) sel)"
proof -
  define ys where "ys = sort_key (\<lambda>x. - uint (out_amount W x)) owned"
  have ys: "mset ys = mset owned" "ys \<noteq> []" using assms(2) by (simp_all add: ys_def, metis length_0_conv length_sort)
  obtain k where k: "k \<le> length ys" "0 < k"
    "select_inputs W fee amount ys [] 0 = (take k ys, sum_list (map (out_amount W) (take k ys)))"
    using select_inputs_spec [of ys W fee amount "[]" 0] ys(2) by auto
  from assms(1) have sel: "sel = take k ys"
    "amount + fee_estimate W fee (length sel) \<le> sum_list (map (out_amount W) sel)"
    by (auto simp: choose_inputs_def ys_def [symmetric] k(3) not_less split: if_splits)
  show "sel \<noteq> []" using sel(1) k ys(2) by simp
  have "mset (take k ys) \<subseteq># mset ys" by (metis append_take_drop_id mset_append mset_subset_eq_add_left)
  then show "mset sel \<subseteq># mset owned" by (simp add: sel(1) ys(1))
  show "amount + fee_estimate W fee (length sel) \<le> sum_list (map (out_amount W) sel)" by (rule sel(2))
qed

lemma mset_filter_zip: "mset (map fst (filter P (zip xs ys))) \<subseteq># mset xs"
  by (induction xs ys rule: list_induct2') (auto intro: subset_mset.order_trans)

lemma unspent_outputs_owned: "unspent_outputs K W key owned = Ok us \<Longrightarrow> mset us \<subseteq># mset owned"
  by (auto simp: unspent_outputs_def rbind_eq_Ok simp del: mset_filter mset_map split: option.splits intro: mset_filter_zip)

lemma with_daemon_OkE:
  assumes "with_daemon H url f = Ok x"
  obtains rpc where "transport_new H url = Some rpc" "f rpc = Ok x"
  using assms by (auto simp: with_daemon_def ok_or_def split: if_splits option.splits)

text \<open>
  What a successful preparation has selected, from what the daemon reports. The test for the amount is
  on 64-bit sums, so it says that the inputs pay only when neither sum overflows.
\<close>

definition pays_exactly where
  "pays_exactly W fee (amount :: u64) selected \<longleftrightarrow>
     unat amount + unat (fee_estimate W fee (length selected)) \<le> sum_list (map (\<lambda>x. unat (out_amount W x)) selected)"

definition sums_fit where
  "sums_fit W fee (amount :: u64) selected \<longleftrightarrow>
     unat amount + unat (fee_estimate W fee (length selected)) < 2 ^ 64 \<and>
     sum_list (map (\<lambda>x. unat (out_amount W x)) selected) < 2 ^ 64"

lemma pays_exactlyI:
  assumes "amount + fee_estimate W fee (length selected) \<le> sum_list (map (out_amount W) selected)"
    and "sums_fit W fee amount selected"
  shows "pays_exactly W fee amount selected"
proof -
  have "unat (sum_list (map (out_amount W) selected)) = sum_list (map (\<lambda>x. unat (out_amount W x)) selected)"
    using unat_sum_list [of "map (out_amount W) selected"] assms(2) by (simp add: sums_fit_def o_def)
  moreover have "unat (amount + fee_estimate W fee (length selected)) = unat amount + unat (fee_estimate W fee (length selected))"
    using assms(2) by (simp add: sums_fit_def unat_word_ariths)
  ultimately show ?thesis using assms(1) by (simp add: pays_exactly_def word_le_nat_alt)
qed

definition selected_by where
  "selected_by W bday excluded amount selected \<longleftrightarrow>
     (\<exists>fee h vp scanned. fee_rate W = Some fee \<and> latest_block_number W = Some h \<and>
        scan_heights W (\<lambda>s. additional_timelock_satisfied_by W s (if h > 10 then h - 10 else h)) (scanner_new W vp)
          (block_range bday (if h > 10 then h - 10 else h)) = Ok scanned \<and>
        selected \<noteq> [] \<and> mset selected \<subseteq># mset scanned \<and> (\<forall>x \<in> set selected. out_key_offset W x \<notin> set excluded) \<and>
        (sums_fit W fee amount selected \<longrightarrow> pays_exactly W fee amount selected))"

lemma prepare_spend_selected:
  assumes "prepare_spend L K W rng b addr amount bday excluded key extra = Ok (stx, offs)"
  shows "\<exists>selected. offs = map (out_key_offset W) selected \<and> selected_by W bday excluded amount selected"
proof -
  define safe where "safe = (\<lambda>h :: nat. if h > 10 then h - 10 else h)"
  define kept where "kept = (\<lambda>scanned. if excluded = [] then scanned else filter (\<lambda>x. out_key_offset W x \<notin> set excluded) scanned)"
  have fold_kept: "(if excluded = [] then scanned else filter (\<lambda>x. out_key_offset W x \<notin> set excluded) scanned) = kept scanned"
    for scanned by (simp add: kept_def)
  have fold_safe: "(if h > 10 then h - 10 else h) = safe h" for h by (simp add: safe_def)
  obtain h vp scanned owned fee selected where o: "latest_block_number W = Some h"
    "scan_heights W (\<lambda>s. additional_timelock_satisfied_by W s (safe h)) (scanner_new W vp) (block_range bday (safe h)) = Ok scanned"
    "unspent_outputs K W key (kept scanned) = Ok owned" "owned \<noteq> []" "fee_rate W = Some fee" "choose_inputs W fee amount owned = Ok selected"
    "offs = map (out_key_offset W) selected"
    using assms unfolding prepare_spend_def Let_def case_prod_unfold fold_safe fold_kept
    by (elim rbind_OkE) (force elim!: rbind_OkE split: if_split_asm)
  have sub: "mset selected \<subseteq># mset (kept scanned)"
    using choose_inputs_sound(2) [OF o(6,4)] unspent_outputs_owned [OF o(3)] by (rule subset_mset.order_trans)
  then have "\<forall>x \<in> set selected. out_key_offset W x \<notin> set excluded"
    by (auto simp: kept_def dest!: set_mset_mono split: if_splits)
  moreover have "mset selected \<subseteq># mset scanned"
    using sub by (auto simp: kept_def split: if_splits intro: subset_mset.order_trans [OF _ multiset_filter_subset])
  ultimately show ?thesis
    using choose_inputs_sound(1) [OF o(6,4)] pays_exactlyI [OF choose_inputs_sound(3) [OF o(6,4)]] o(1,2,5,7)
    unfolding selected_by_def safe_def by blast
qed

lemma fromt_spend_prepare_OK:
  assumes "fromt_spend_prepare L K W H M rng (Some ks) (Some url) (Some rcpt) amount bday excluded key extra (Some ()) (Some ()) st
    = (LIB_OK, Some (stx, offs), st')"
  obtains rpc selected where "transport_new H (as_slice url) = Some rpc"
    "offs = concat (map (out_key_offset rpc) selected)" "selected_by rpc bday (excluded_arg excluded) amount selected"
proof -
  have u: "from_utf8 d = Some u \<Longrightarrow> u = d" for d u by (simp add: from_utf8_def split: if_splits)
  obtain b addr rpc ssel stx' where p: "transport_new H (as_slice url) = Some rpc"
    "prepare_spend L K rpc rng b addr amount bday (excluded_arg excluded) (spend_key_arg key) (tx_extra_arg extra) = Ok (stx', ssel)"
    "offs = concat ssel" "fromt_bundle_deserialize L (as_slice ks) = Ok b"
    using exported_OkD [OF assms [unfolded fromt_spend_prepare_def]]
    by (auto simp: nonnull_def cbind_def cret_def elim!: rbind_OkE with_daemon_OkE dest!: u)
  with prepare_spend_selected [OF p(2)] that show ?thesis by blast
qed

section \<open>Properties\<close>

text \<open>C34: Spends that are prepared one after the other never share an input. When a host hands the offsets
  that \<^verbatim>\<open>fromt_spend_prepare\<close> has returned back to the next call, behind those of earlier calls, then
  no input of the second spend has the offset of one of the first or of the earlier ones, whatever the
  daemon reports at the two calls: another chain, other outputs or another fee, or, when no block was
  mined in between, the same ones. Each spend selects unlocked outputs that the daemon has reported,
  and, if the sums fit 64 bits, enough of them to pay its amount and fee exactly counted.\<close>

theorem consecutive_spends_disjoint:
  assumes "fromt_spend_prepare L K W H M rng (Some ks) (Some url) (Some rcpt) amount bday excluded key extra (Some ()) (Some ()) st
      = (LIB_OK, Some (stx, offs), st')"
    and "fromt_spend_prepare L K W H2 M rng2 (Some ks) (Some url2) (Some rcpt2) amount2 bday2 (Some (go_slice_of (prior @ offs)))
      key2 extra2 (Some ()) (Some ()) st2 = (LIB_OK, Some (stx2, offs2), st2')"
    and "length prior mod 32 = 0"
    and "\<forall>rpc rpc2. transport_new H (as_slice url) = Some rpc \<longrightarrow> transport_new H2 (as_slice url2) = Some rpc2 \<longrightarrow>
      out_key_offset rpc2 = out_key_offset rpc \<and> (\<forall>x. length (out_key_offset rpc x) = 32)"
  shows "\<exists>rpc rpc2 selected selected2.
    transport_new H (as_slice url) = Some rpc \<and> transport_new H2 (as_slice url2) = Some rpc2 \<and>
    offs = concat (map (out_key_offset rpc) selected) \<and> offs2 = concat (map (out_key_offset rpc2) selected2) \<and>
    selected_by rpc bday (excluded_arg excluded) amount selected \<and>
    selected_by rpc2 bday2 (chunks_exact 32 prior @ map (out_key_offset rpc) selected) amount2 selected2 \<and>
    out_key_offset rpc ` set selected \<inter> out_key_offset rpc2 ` set selected2 = {} \<and> set selected \<inter> set selected2 = {}"
proof -
  obtain rpc selected where s: "transport_new H (as_slice url) = Some rpc"
    "offs = concat (map (out_key_offset rpc) selected)" "selected_by rpc bday (excluded_arg excluded) amount selected"
    using fromt_spend_prepare_OK [OF assms(1)] by blast
  obtain rpc2 selected2 where s2: "transport_new H2 (as_slice url2) = Some rpc2"
    "offs2 = concat (map (out_key_offset rpc2) selected2)"
    "selected_by rpc2 bday2 (excluded_arg (Some (go_slice_of (prior @ offs)))) amount2 selected2"
    using fromt_spend_prepare_OK [OF assms(2)] by blast
  have same: "out_key_offset rpc2 = out_key_offset rpc" and l: "\<forall>x \<in> set (map (out_key_offset rpc) selected). length x = 32"
    using assms(4) s(1) s2(1) by auto
  have "length offs = 32 * length selected"
    using concat_const_length [OF l] by (simp add: s(2) mult.commute del: length_concat)
  then have "length (prior @ offs) mod 32 = 0" using assms(3) by simp
  then have excl: "excluded_arg (Some (go_slice_of (prior @ offs))) = chunks_exact 32 prior @ map (out_key_offset rpc) selected"
    using in_chunks_append [OF _ assms(3), of offs] chunks_exact_concat [OF _ l, of "[]"]
    by (simp add: excluded_arg_def s(2) chunks_exact_Nil)
  then have "\<forall>x \<in> set selected2. out_key_offset rpc2 x \<notin> out_key_offset rpc ` set selected"
    using s2(3) by (auto simp: selected_by_def)
  then have apart: "out_key_offset rpc ` set selected \<inter> out_key_offset rpc2 ` set selected2 = {}"
    by (intro equals0I) (metis IntE imageE)
  then have "set selected \<inter> set selected2 = {}" using same by auto
  note apart this
  with s s2 excl show ?thesis by auto
qed

text \<open>C35: A host without the spend key computes the balance of the wallet: what \<^verbatim>\<open>fromt_scan_outputs\<close> returns,
  with a flag for every output as the daemon reports it, makes \<^verbatim>\<open>fromt_filter_spent_outputs\<close> return the
  balance and the count that \<^verbatim>\<open>fromt_scan_balance\<close> returns to a host that has the key.\<close>

theorem sdk_balance_composes:
  assumes "fromt_bundle_deserialize L (as_slice ks) = Ok b" "utf8_valid (as_slice url)"
    and "view_pair_from_bundle L K W b = Ok vp" "tokio_runtime H" "transport_new H (as_slice url) = Some rpc"
    and "out_format_ok rpc" "latest_block_number rpc = Some h"
    and "scan_heights rpc (\<lambda>s. additional_timelock_satisfied_by rpc s h) (scanner_new rpc vp) (block_range bday h) = Ok owned"
    and "owned \<noteq> []" "length owned < 2 ^ 32"
    and "from_canonical_bytes K (as_slice sk) = Some k" "length (as_slice sk) = 32"
    and "rmap (\<lambda>x. compute_key_image K rpc x k) owned = Ok images"
    and "is_key_image_spent rpc images = Some statuses" "length statuses = length owned"
    and "flags = map (\<lambda>s. if s = None \<or> s = Some 0 then 0 else 1) statuses"
  shows "\<exists>buf balance. fromt_scan_outputs L K W H (Some ks) (Some url) bday (Some ()) st = (LIB_OK, Some buf, st) \<and>
    fromt_filter_spent_outputs (Some (go_slice_of buf)) (Some (go_slice_of flags)) (Some ()) (Some ()) st
      = (LIB_OK, Some balance, st) \<and>
    fromt_scan_balance L K W H (Some ks) (Some url) bday (Some sk) (Some ()) (Some ()) st = (LIB_OK, Some balance, st)"
proof -
  obtain buf where buf: "scan_outputs rpc vp bday = Ok buf"
    by (simp add: scan_outputs_def assms(7,8) spend_encode_outputs_def)
  define r where "r = (sum_list (map (out_amount rpc) (keep_unspent owned flags)),
    word_of_nat (length (keep_unspent owned flags)) :: u32)"
  have f: "filter_spent_outputs buf flags = Ok r"
    using filter_spent_outputs_eq [OF assms(6,10), of flags] buf assms(15,16)
    by (simp add: scan_outputs_def assms(7,8) r_def)
  have b: "scan_balance K rpc vp bday (Some (as_slice sk)) = Ok r"
    using exported_balance_agrees [OF assms(6-11,13-16)] buf f by simp
  show ?thesis
    unfolding fromt_scan_outputs_def fromt_filter_spent_outputs_def fromt_scan_balance_def
    by (intro exI [of _ buf] exI [of _ r] conjI exported_Ok)
      (simp_all add: nonnull_def cbind_def cret_def with_daemon_def from_utf8_def assms(1-5,12) buf f b spend_key_arg_def)
qed

text \<open>Optional arguments of the wrong length are not refused but ignored: the balance then counts spent
  outputs, and a spend may take inputs that the caller has excluded.\<close>

theorem malformed_options_ignored:
  assumes "length (as_slice sk) \<noteq> 32" "length (as_slice ex) mod 32 \<noteq> 0"
  shows "fromt_scan_balance L K W H ks url bday (Some sk) p q = fromt_scan_balance L K W H ks url bday None p q \<and>
    fromt_spend_prepare L K W H M rng ks url rcpt amount bday (Some ex) (Some sk) extra p2 q2 =
      fromt_spend_prepare L K W H M rng ks url rcpt amount bday None None extra p2 q2"
  using assms by (simp add: fromt_scan_balance_def fromt_spend_prepare_def spend_key_arg_def excluded_arg_def)

section \<open>Concrete instances\<close>

text \<open>A daemon behind every URL, with outputs whose key offsets differ, and a group key of 32 bytes.\<close>

definition sdk_daemon ::
  "(u8 \<times> u64, unit, unit, nat, nat, nat, unit, bytes, u8 \<times> u64, unit, unit, nat) wallet" where
  "sdk_daemon =
     \<lparr>out_key_offset = (\<lambda>x. replicate 32 (fst x)), out_key = (\<lambda>x. replicate 32 (fst x)), out_amount = snd,
      scanner_new = (\<lambda>v. ()), latest_block_number = Some 2, block_by_number = Some,
      expand_to_scannable_block = Some, scanner_scan = (\<lambda>s b. (Some b, s)),
      additional_timelock_satisfied_by = (\<lambda>b h. if b = 1 then [(1, 5000), (2, 7000)] else []),
      not_additionally_locked = (\<lambda>b. []),
      is_key_image_spent = (\<lambda>ks. if length ks = 2 then Some [Some 1, Some 0] else None),
      fee_rate = Some (), calculate_fee_from_weight = (\<lambda>f w. 100), address_from_str = Some,
      view_pair_new = (\<lambda>a b. Some ()), change_new = (\<lambda>v. ()), select_decoys = (\<lambda>r n h x. (Some x, r)),
      signable_new = (\<lambda>v i p c e f. Some ()), os_random32 = (\<lambda>r. (replicate 32 0, r))\<rparr>"

definition sdk_host where
  "sdk_host = \<lparr>tokio_runtime = True, transport_new = (\<lambda>url. Some sdk_daemon)\<rparr>"

text \<open>The same daemon one block later.\<close>

definition sdk_daemon2 where
  "sdk_daemon2 = sdk_daemon\<lparr>latest_block_number := Some 3,
     additional_timelock_satisfied_by := (\<lambda>b h. if b = 1 then [(1, 5000), (2, 7000)] else if b = 3 then [(4, 6000)] else [])\<rparr>"

definition sdk_host2 where
  "sdk_host2 = \<lparr>tokio_runtime = True, transport_new = (\<lambda>url. Some sdk_daemon2)\<rparr>"

definition sdk_frost where
  "sdk_frost = demo7\<lparr>vk_serialize := (\<lambda>x. Some (gf7_bytes x))\<rparr>"

lemma sdk_bundle:
  "fromt_bundle_deserialize sdk_frost (demo_share 1 5) =
     Ok \<lparr>fb_key_package = (1, 5), fb_pub_key_package = 1, fb_view_key = replicate 32 9, fb_network = 0, fb_birthday = 0\<rparr>"
  unfolding fromt_bundle_deserialize_iff demo_share_def
  by (rule conjI, simp, rule exI [of _ "[1, 5]"], rule exI [of _ "[1]"]) (simp add: sdk_frost_def demo7_def fits32_def)

lemma sdk_choices:
  "choose_inputs sdk_daemon () 1000 [(1, 5000), (2, 7000)] = Ok [(2, 7000)]"
  "choose_inputs sdk_daemon2 () 1000 [(1, 5000), (4, 6000)] = Ok [(4, 6000)]"
  by code_simp+

lemma sdk_scan:
  "scan_heights sdk_daemon (\<lambda>s. additional_timelock_satisfied_by sdk_daemon s 2) (scanner_new sdk_daemon ()) (block_range 0 2)
     = Ok [(1, 5000), (2, 7000)]"
  "scan_heights sdk_daemon2 (\<lambda>s. additional_timelock_satisfied_by sdk_daemon2 s 3) (scanner_new sdk_daemon2 ()) (block_range 0 3)
     = Ok [(1, 5000), (2, 7000), (4, 6000)]"
  by code_simp+

lemma gf7_of_replicate: "gf7_of_bytes (replicate 32 c) = Some (of_nat (unat c))"
proof -
  have "gf7_of_bytes (replicate (Suc 31) c) = Some (of_nat (unat c))"
    unfolding replicate_Suc gf7_of_bytes_def by simp
  then show ?thesis by simp
qed

lemma sdk_view_pair:
  "view_pair_from_bundle sdk_frost demo_monero sdk_daemon
     \<lparr>fb_key_package = kp, fb_pub_key_package = pk, fb_view_key = replicate 32 9, fb_network = 0, fb_birthday = 0\<rparr> = Ok ()"
proof -
  have "gf7_of_bytes (replicate 32 9) = Some (of_nat (unat (9 :: u8)))" by (rule gf7_of_replicate)
  moreover have "length (gf7_bytes pk) = 32" by (simp add: gf7_bytes_def)
  ultimately show ?thesis
    by (simp add: view_pair_from_bundle_def verifying_key_bytes_def sdk_frost_def demo7_def demo_monero_def expect_def
        to_array_def sdk_daemon_def ser_err_def)
qed

lemma sdk_fields:
  "W = sdk_daemon \<or> W = sdk_daemon2 \<Longrightarrow> fee_rate W = Some () \<and> address_from_str W = Some \<and>
     select_decoys W = (\<lambda>r n h x. (Some x, r)) \<and> signable_new W = (\<lambda>v i p c e f. Some ()) \<and>
     out_key_offset W = (\<lambda>x. replicate 32 (fst x))"
  by (auto simp: sdk_daemon_def sdk_daemon2_def)

lemma sdk_heights: "latest_block_number sdk_daemon = Some 2" "latest_block_number sdk_daemon2 = Some 3"
  by (simp_all add: sdk_daemon_def sdk_daemon2_def)

lemma sdk_view_pair2: "view_pair_from_bundle L K sdk_daemon2 b = view_pair_from_bundle L K sdk_daemon b"
  by (simp add: view_pair_from_bundle_def sdk_daemon2_def)

lemma sdk_prepares:
  "prepare_spend sdk_frost demo_monero sdk_daemon rng
     \<lparr>fb_key_package = kp, fb_pub_key_package = pk, fb_view_key = replicate 32 9, fb_network = 0, fb_birthday = 0\<rparr>
     addr 1000 0 [] None [] = Ok ((), [replicate 32 2])"
  "prepare_spend sdk_frost demo_monero sdk_daemon2 rng
     \<lparr>fb_key_package = kp, fb_pub_key_package = pk, fb_view_key = replicate 32 9, fb_network = 0, fb_birthday = 0\<rparr>
     addr 1000 0 [replicate 32 2] None [] = Ok ((), [replicate 32 4])"
proof -
  have ne: "replicate 32 (1 :: u8) \<noteq> replicate 32 2" "replicate 32 (4 :: u8) \<noteq> replicate 32 2"
    by (simp_all add: replicate_eq_replicate)
  note f = sdk_fields [OF disjI1 [OF refl]] sdk_fields [OF disjI2 [OF refl]]
  show "prepare_spend sdk_frost demo_monero sdk_daemon rng
     \<lparr>fb_key_package = kp, fb_pub_key_package = pk, fb_view_key = replicate 32 9, fb_network = 0, fb_birthday = 0\<rparr>
     addr 1000 0 [] None [] = Ok ((), [replicate 32 2])"
    using sdk_scan(1) sdk_choices(1)
    by (auto simp: prepare_spend_def sdk_view_pair f sdk_heights unspent_outputs_def split: prod.splits)
  show "prepare_spend sdk_frost demo_monero sdk_daemon2 rng
     \<lparr>fb_key_package = kp, fb_pub_key_package = pk, fb_view_key = replicate 32 9, fb_network = 0, fb_birthday = 0\<rparr>
     addr 1000 0 [replicate 32 2] None [] = Ok ((), [replicate 32 4])"
    using sdk_scan(2) sdk_choices(2) ne
    by (auto simp: prepare_spend_def sdk_view_pair sdk_view_pair2 f sdk_heights unspent_outputs_def split: prod.splits)
qed

lemma sdk_call:
  "excluded_arg ex = [] \<Longrightarrow>
   fromt_spend_prepare sdk_frost demo_monero sdk_daemon sdk_host demo_spender rng (Some (go_slice_of (demo_share 1 5)))
     (Some (go_slice_of [])) (Some (go_slice_of [])) 1000 0 ex None None (Some ()) (Some ()) st = (LIB_OK, Some ([], replicate 32 2), st)"
  "excluded_arg ex = [replicate 32 2] \<Longrightarrow>
   fromt_spend_prepare sdk_frost demo_monero sdk_daemon sdk_host2 demo_spender rng (Some (go_slice_of (demo_share 1 5)))
     (Some (go_slice_of [])) (Some (go_slice_of [])) 1000 0 ex None None (Some ()) (Some ()) st = (LIB_OK, Some ([], replicate 32 4), st)"
  unfolding fromt_spend_prepare_def
  by (rule exported_Ok, simp add: nonnull_def cbind_def cret_def sdk_bundle from_utf8_def with_daemon_def sdk_host_def
       sdk_host2_def sdk_prepares spend_key_arg_def tx_extra_arg_def demo_spender_def)+

theorem consecutive_spends_disjoint_witness:
  "\<exists>rpc rpc2 selected selected2. transport_new sdk_host [] = Some rpc \<and> transport_new sdk_host2 [] = Some rpc2 \<and>
    replicate 32 2 = concat (map (out_key_offset rpc) selected) \<and>
    replicate 32 4 = concat (map (out_key_offset rpc2) selected2) \<and> set selected \<inter> set selected2 = {}"
proof -
  have x: "excluded_arg (Some (go_slice_of ([] @ replicate 32 2))) = [replicate 32 2]"
    using chunks_exact_concat [of 32 "[replicate 32 2]" "[]"] by (simp add: excluded_arg_def chunks_exact_Nil)
  have none: "excluded_arg None = []" by (simp add: excluded_arg_def)
  have "\<forall>rpc rpc2. transport_new sdk_host (as_slice (go_slice_of [])) = Some rpc \<longrightarrow>
      transport_new sdk_host2 (as_slice (go_slice_of [])) = Some rpc2 \<longrightarrow>
      out_key_offset rpc2 = out_key_offset rpc \<and> (\<forall>y. length (out_key_offset rpc y) = 32)"
    by (simp add: sdk_host_def sdk_host2_def sdk_daemon_def sdk_daemon2_def)
  from consecutive_spends_disjoint [OF sdk_call(1) [OF none] sdk_call(2) [OF x] _ this]
  show ?thesis by (simp only: as_slice_of list.size mod_0) blast
qed

theorem sdk_balance_composes_witness:
  "\<exists>buf balance.
    fromt_scan_outputs sdk_frost demo_monero sdk_daemon sdk_host (Some (go_slice_of (demo_share 1 5)))
      (Some (go_slice_of [])) 0 (Some ()) demo_spend_state = (LIB_OK, Some buf, demo_spend_state) \<and>
    fromt_filter_spent_outputs (Some (go_slice_of buf)) (Some (go_slice_of [1, 0])) (Some ()) (Some ()) demo_spend_state
      = (LIB_OK, Some balance, demo_spend_state) \<and>
    fromt_scan_balance sdk_frost demo_monero sdk_daemon sdk_host (Some (go_slice_of (demo_share 1 5)))
      (Some (go_slice_of [])) 0 (Some (go_slice_of (gf7_bytes 3))) (Some ()) (Some ()) demo_spend_state
      = (LIB_OK, Some balance, demo_spend_state)"
proof -
  let ?o = "[(1, 5000), (2, 7000)] :: (u8 \<times> u64) list"
  obtain images where i: "rmap (\<lambda>x. compute_key_image demo_monero sdk_daemon x 3) ?o = Ok images" "length images = 2"
    by (auto simp: compute_key_image_def expect_def sdk_daemon_def demo_monero_def gf7_of_replicate)
  have k: "from_canonical_bytes demo_monero (as_slice (go_slice_of (gf7_bytes 3))) = Some 3" by (simp add: demo_monero_def)
  have l: "length (as_slice (go_slice_of (gf7_bytes 3))) = 32" by (simp add: gf7_bytes_def)
  have d: "out_format_ok sdk_daemon" "latest_block_number sdk_daemon = Some 2"
    "is_key_image_spent sdk_daemon images = Some [Some 1, Some 0]" using i(2) by (simp_all add: out_format_ok_def sdk_daemon_def)
  have h: "tokio_runtime sdk_host" "transport_new sdk_host (as_slice (go_slice_of [])) = Some sdk_daemon"
    by (simp_all add: sdk_host_def)
  have ks: "fromt_bundle_deserialize sdk_frost (as_slice (go_slice_of (demo_share 1 5))) =
     Ok \<lparr>fb_key_package = (1, 5), fb_pub_key_package = 1, fb_view_key = replicate 32 9, fb_network = 0, fb_birthday = 0\<rparr>"
    by (simp only: as_slice_of sdk_bundle)
  have u: "utf8_valid (as_slice (go_slice_of []))" by simp
  show ?thesis
    by (rule sdk_balance_composes [OF ks u sdk_view_pair h d(1,2) sdk_scan(1) _ _ k l i(1) d(3)]) simp_all
qed

end
