(* ===== verification/Network.thy ===== *)
theory Network
  imports Ceremony_Properties
begin

text \<open>
  All parties of a ceremony together: the sessions of the parties and the frames on their way between
  them, with a step for every message that a host takes from its session and for every frame that it
  feeds, in any order. Frames may overtake each other, also those of one sender.
\<close>

section \<open>What loops send and return\<close>

lemma poll_recv_loop_cases:
  assumes "poll (recv_loop n stp acc) fs outb = (p', rest, o')"
  shows "o' = outb \<and>
    ((\<exists>a. n \<le> length fs \<and> rfold stp (map recv_frame (take n fs)) acc = Ok a \<and> p' = Ret (Ok a) \<and> rest = drop n fs) \<or>
     (\<forall>x. p' \<noteq> Ret (Ok x)))"
  using assms
proof (induction n arbitrary: fs acc)
  case (Suc n)
  show ?case
  proof (cases fs)
    case (Cons f fs')
    then show ?thesis
      using Suc.prems Suc.IH [of "case stp (recv_frame f) acc of Ok a \<Rightarrow> a" fs']
      by (cases "stp (recv_frame f) acc") (auto simp: recv_def)
  qed (use Suc.prems in \<open>auto simp: recv_def\<close>)
qed auto

lemma poll_send_loop_cases:
  assumes "poll (send_loop prepare xs) inb outb = (p', rest, o')"
  shows "\<exists>k ys. rmap prepare (take k xs) = Ok ys \<and> rest = inb \<and> o' = outb @ map (\<lambda>(n, b). wrap_sender n b) ys"
  using assms
proof (induction xs arbitrary: outb)
  case (Cons x xs)
  show ?case
  proof (cases "prepare x")
    case (Ok y)
    obtain to data where y: "y = (to, data)" by (cases y)
    with Ok Cons.prems have "poll (send_loop prepare xs) inb (outb @ [wrap_sender to data]) = (p', rest, o')"
      by (simp add: send_to_def wrap_sender_def)
    from Cons.IH [OF this] obtain k ys where "rmap prepare (take k xs) = Ok ys" "rest = inb"
      "o' = (outb @ [wrap_sender to data]) @ map (\<lambda>(n, b). wrap_sender n b) ys" by blast
    with Ok y show ?thesis by (intro exI [of _ "Suc k"] exI [of _ "(to, data) # ys"]) simp
  qed (use Cons.prems in \<open>intro exI [of _ 0] exI [of _ "[]"], auto\<close>)+
qed (auto intro: exI [of _ 0] exI [of _ "[]"])

lemma pbind_not_Ok: "\<forall>x. p \<noteq> Ret (Ok x) \<Longrightarrow> \<forall>m q. p \<noteq> Send m q \<Longrightarrow> pbind p f \<noteq> Ret (Ok y)"
  by (cases p) (auto split: res.splits)

lemma or_blame_Ok: "or_blame L r d = Ok x \<longleftrightarrow> r = Inr x"
  by (auto simp: or_blame_def frost_err_to_blame_def split: sum.splits option.splits)

lemma bind_recv_loop_OkE:
  assumes "poll (pbind (recv_loop n stp acc) f) fs outb = (Ret (Ok y), rest, o')"
  obtains a where "n \<le> length fs" "rfold stp (map recv_frame (take n fs)) acc = Ok a"
    "poll (f a) (drop n fs) outb = (Ret (Ok y), rest, o')"
proof -
  obtain p1 rest1 o1 where p: "poll (recv_loop n stp acc) fs outb = (p1, rest1, o1)"
    by (cases "poll (recv_loop n stp acc) fs outb")
  from poll_recv_loop_cases [OF p] assms p that show thesis
    by (cases "\<exists>x. p1 = Ret (Ok x)") (auto simp: poll_pbind split: proc.splits res.splits)
qed

lemma bind_send_loop_OkE:
  assumes "poll (pbind (send_loop prepare xs) f) fs outb = (Ret (Ok y), rest, o')"
  obtains o1 where "poll (f ()) fs o1 = (Ret (Ok y), rest, o')"
proof -
  obtain p1 rest1 o1 where p: "poll (send_loop prepare xs) fs outb = (p1, rest1, o1)"
    by (cases "poll (send_loop prepare xs) fs outb")
  from poll_send_loop_cases [OF p] assms p that show thesis
    by (auto simp: poll_pbind split: proc.splits res.splits)
qed

lemma bind_Ret_OkE:
  assumes "poll (pbind (Ret r) f) fs outb = (Ret (Ok y), rest, o')"
  obtains x where "r = Ok x" "poll (f x) fs outb = (Ret (Ok y), rest, o')"
  using assms by (cases r) auto

lemma poll_rounds_then_local:
  assumes "poll (pbind p (\<lambda>x. Ret (h x))) fs [] = (p', rest, out)"
  obtains q where "poll p fs [] = (q, rest, out)" "\<And>y. p' = Ret (Ok y) \<Longrightarrow> \<exists>x. q = Ret (Ok x) \<and> h x = Ok y"
proof -
  obtain q rest1 out1 where q: "poll p fs [] = (q, rest1, out1)" by (cases "poll p fs []")
  with assms have "rest1 = rest \<and> out1 = out \<and> (\<forall>y. p' = Ret (Ok y) \<longrightarrow> (\<exists>x. q = Ret (Ok x) \<and> h x = Ok y))"
    by (auto simp: poll_pbind split: proc.splits res.splits)
  with q show thesis by (intro that [of q]) auto
qed

section \<open>The network\<close>

text \<open>
  \<open>node i\<close> is the session of party \<open>i\<close>, \<open>link j i\<close> the frames from \<open>j\<close> to \<open>i\<close> that were taken and not yet
  fed. A host sends a message without a recipient to all other parties and one with a recipient to that
  party, and puts the number of the sender in front of the payload.
\<close>

record 'a net =
  node :: "u16 \<Rightarrow> 'a protocol"
  link :: "u16 \<Rightarrow> u16 \<Rightarrow> bytes multiset"

definition addressed :: "u16 \<Rightarrow> u16 \<Rightarrow> bytes \<Rightarrow> bool" where
  "addressed j i m \<longleftrightarrow> (if read_recipient m = 0 then i \<noteq> j else read_recipient m = i)"

definition frame_of :: "u16 \<Rightarrow> bytes \<Rightarrow> bytes" where
  "frame_of j m = wrap_sender j (payload m)"

inductive net_step :: "u16 set \<Rightarrow> 'a net \<Rightarrow> 'a net \<Rightarrow> bool" for ps where
  taken: "j \<in> ps \<Longrightarrow> take_msg (node s j) = (Some m, pr) \<Longrightarrow>
     net_step ps s (s\<lparr>node := (node s)(j := pr),
       link := (link s)(j := (\<lambda>i. if i \<in> ps \<and> addressed j i m then add_mset (frame_of j m) (link s j i) else link s j i))\<rparr>)"
| delivered: "i \<in> ps \<Longrightarrow> j \<in> ps \<Longrightarrow> f \<in># link s j i \<Longrightarrow>
     net_step ps s (s\<lparr>node := (node s)(i := snd (feed f (node s i))),
       link := (link s)(j := (link s j)(i := link s j i - {#f#}))\<rparr>)"

definition net_start :: "(u16 \<Rightarrow> 'a proc) \<Rightarrow> 'a net" where
  "net_start tasks = \<lparr>node = (\<lambda>i. snd (start (tasks i))), link = (\<lambda>j i. {#})\<rparr>"

definition net_reachable :: "u16 set \<Rightarrow> (u16 \<Rightarrow> 'a proc) \<Rightarrow> 'a net \<Rightarrow> bool" where
  "net_reachable ps tasks = (net_step ps)\<^sup>*\<^sup>* (net_start tasks)"

section \<open>The invariant\<close>

text \<open>The frames from \<open>j\<close> to \<open>i\<close> among the messages that were taken from the session of \<open>j\<close>.\<close>

definition frames_to :: "u16 \<Rightarrow> u16 \<Rightarrow> bytes list \<Rightarrow> bytes multiset" where
  "frames_to j i ms = mset (map (frame_of j) (filter (addressed j i) ms))"

definition from_party :: "u16 \<Rightarrow> bytes list \<Rightarrow> bytes multiset" where
  "from_party j fs = filter_mset (\<lambda>f. fst (recv_frame f) = j) (mset fs)"

text \<open>
  \<open>hist\<close> are the frames that were fed, \<open>out\<close> the messages that were taken: sessions follow their tasks,
  and what was taken for a party was fed to it or is on its way.
\<close>

definition net_inv where
  "net_inv ps tasks s hist out \<longleftrightarrow>
     (\<forall>i \<in> ps. simulates (tasks i) (hist i) (out i, node s i) \<and> (\<forall>f \<in> set (hist i). fst (recv_frame f) \<in> ps)) \<and>
     (\<forall>i \<in> ps. \<forall>j \<in> ps. link s j i + from_party j (hist i) = frames_to j i (out j))"

lemma sender_frame_of [simp]: "fst (recv_frame (frame_of j m)) = j"
  by (simp add: frame_of_def)

lemma in_frames_to: "f \<in># frames_to j i ms \<Longrightarrow> fst (recv_frame f) = j"
  by (auto simp: frames_to_def)

lemma net_inv_start: "net_inv ps tasks (net_start tasks) (\<lambda>i. []) (\<lambda>i. [])"
  by (simp add: net_inv_def net_start_def simulates_start from_party_def frames_to_def)

lemma net_inv_step:
  assumes "net_step ps s s'" "net_inv ps tasks s hist out"
  shows "\<exists>hist' out'. net_inv ps tasks s' hist' out'"
  using assms(1)
proof cases
  case (taken j m pr)
  have "simulates (tasks j) (hist j) (host_step Take_msg (out j, node s j))"
    using assms(2) taken(2) by (intro simulates_take) (simp add: net_inv_def)
  with taken(3) have sim: "simulates (tasks j) (hist j) (out j @ [m], pr)" by simp
  have "net_inv ps tasks s' hist (out(j := out j @ [m]))"
    using assms(2) sim by (auto simp: net_inv_def taken(1) frames_to_def)
  then show ?thesis by blast
next
  case (delivered i j f)
  have "simulates (tasks i) (hist i @ [f]) (host_step (Feed f) (out i, node s i))"
    using assms(2) delivered(2) by (intro simulates_feed) (simp add: net_inv_def)
  then have sim: "simulates (tasks i) (hist i @ [f]) (out i, snd (feed f (node s i)))" by simp
  have "f \<in># frames_to j i (out j)"
    using assms(2) delivered(2-4) by (metis net_inv_def union_iff)
  then have sender: "fst (recv_frame f) = j" by (rule in_frames_to)
  have "net_inv ps tasks s' (hist(i := hist i @ [f])) out"
    using assms(2) sim delivered(2-4) sender \<open>f \<in># frames_to j i (out j)\<close>
    by (auto simp: net_inv_def delivered(1) from_party_def insert_DiffM)
  then show ?thesis by blast
qed

lemma net_reachable_inv: "net_reachable ps tasks s \<Longrightarrow> \<exists>hist out. net_inv ps tasks s hist out"
  unfolding net_reachable_def
proof (induction rule: rtranclp_induct)
  case base
  show ?case using net_inv_start by blast
qed (blast intro: net_inv_step)

section \<open>Frames from one party to another\<close>

lemma read_recipient_wrap: "read_recipient (wrap_sender n d) = n"
  using frames_round_trip [of n d] by blast

lemma payload_wrap: "payload (wrap_sender n d) = d"
  by (simp add: payload_def wrap_sender_def)

lemma frames_to_simps:
  "frames_to k j [] = {#}"
  "frames_to k j (wrap_sender n d # ms) =
     (if (if n = 0 then j \<noteq> k else n = j) then add_mset (wrap_sender k d) (frames_to k j ms) else frames_to k j ms)"
  by (auto simp: frames_to_def addressed_def frame_of_def read_recipient_wrap payload_wrap)

section \<open>Loops that get one frame from each party\<close>

lemma distinct_by_filter:
  "(\<And>k. size (filter_mset (\<lambda>f. g f = k) (mset xs)) \<le> 1) \<Longrightarrow> distinct (map g xs)"
proof (induction xs)
  case (Cons x xs)
  have "size (filter_mset (\<lambda>f. g f = k) (mset xs)) \<le> 1" for k
    by (rule order_trans [OF _ Cons.prems [of k]]) simp
  moreover have "g x \<notin> g ` set xs"
  proof
    assume "g x \<in> g ` set xs"
    then obtain y where "y \<in> set xs" "g y = g x" by auto
    with Cons.prems [of "g x"] show False by auto
  qed
  ultimately show ?case using Cons.IH by simp
qed simp

lemma recv_insert_Ok:
  "recv_insert L de m acc = Ok a \<longleftrightarrow>
     (\<exists>i p. id_try_from L (fst m) = Some i \<and> de (snd m) = Some p \<and> a = bt_insert i p acc)"
  by (auto simp: recv_insert_def try_id_def ser_err_def rbind_eq_Ok)

lemma rfold_recv_decodes:
  "rfold (recv_insert L de) ms acc = Ok a \<Longrightarrow> m \<in> set ms \<Longrightarrow> de (snd m) \<noteq> None"
  by (induction ms arbitrary: acc) (auto simp: recv_insert_Ok elim!: rbind_OkE)

lemma rfold_recv_keys:
  "rfold (recv_insert L de) ms acc = Ok a \<Longrightarrow>
     fst ` set a \<subseteq> fst ` set acc \<union> {i. \<exists>m \<in> set ms. id_try_from L (fst m) = Some i}"
proof (induction ms arbitrary: acc)
  case (Cons m ms)
  then obtain i p where m: "id_try_from L (fst m) = Some i" "rfold (recv_insert L de) ms (bt_insert i p acc) = Ok a"
    by (auto simp: recv_insert_Ok elim!: rbind_OkE)
  from Cons.IH [OF m(2)] m(1) show ?case by (auto simp: set_bt_insert_keys)
qed simp

lemma rfold_recv_wf: "rfold (recv_insert L de) ms acc = Ok a \<Longrightarrow> bt_wf acc \<Longrightarrow> bt_wf a"
  by (induction ms arbitrary: acc) (auto intro: recv_insert_wf elim!: rbind_OkE)

text \<open>A loop that got one frame from each of the other parties, in any order.\<close>

lemma one_from_each:
  assumes "ids_ok L" "distinct ks" "length fs = length ks" "rfold (recv_insert L de) (map recv_frame fs) acc = Ok r" "bt_wf acc"
    and "\<And>f. f \<in> set fs \<Longrightarrow> fst (recv_frame f) \<in> set ks \<and> snd (recv_frame f) = D (fst (recv_frame f))"
    and "\<And>k. k \<in> set ks \<Longrightarrow> size (from_party k fs) \<le> 1"
  shows "mset (map (fst \<circ> recv_frame) fs) = mset ks"
    "rfold (recv_insert L de) (map (\<lambda>k. (k, D k)) ks) acc = Ok r"
proof -
  let ?g = "fst \<circ> recv_frame"
  have "size (filter_mset (\<lambda>f. ?g f = k) (mset fs)) \<le> 1" for k
  proof (cases "k \<in> set ks")
    case True
    then show ?thesis using assms(7) [of k] by (simp add: from_party_def)
  next
    case False
    then have "filter_mset (\<lambda>f. ?g f = k) (mset fs) = {#}" using assms(6) by auto
    then show ?thesis by (simp only: size_empty)
  qed
  then have d: "distinct (map ?g fs)" by (rule distinct_by_filter)
  have "set (map ?g fs) \<subseteq> set ks" using assms(6) by auto
  moreover have "card (set (map ?g fs)) = card (set ks)"
    using distinct_card [OF d] distinct_card [OF assms(2)] assms(3) by simp
  ultimately have "set (map ?g fs) = set ks" by (intro card_subset_eq) simp_all
  with d assms(2) show m: "mset (map ?g fs) = mset ks" by (simp only: set_eq_iff_mset_eq_distinct)
  have "map recv_frame fs = map (\<lambda>k. (k, D k)) (map ?g fs)"
    using assms(6) by (simp add: prod_eq_iff)
  then have "mset (map recv_frame fs) = mset (map (\<lambda>k. (k, D k)) ks)"
    using m by (metis mset_map)
  then show "rfold (recv_insert L de) (map (\<lambda>k. (k, D k)) ks) acc = Ok r"
    using d by (intro rfold_recv_perm [OF assms(4,5,1)]) (simp_all add: comp_def)
qed

lemma from_party_append: "from_party k (a @ b) = from_party k a + from_party k b"
  by (simp add: from_party_def)

lemma in_from_party: "f \<in># from_party k fs \<longleftrightarrow> f \<in> set fs \<and> fst (recv_frame f) = k"
  by (auto simp: from_party_def)

lemma fed_were_sent:
  "net_inv ps tasks s hist out \<Longrightarrow> i \<in> ps \<Longrightarrow> k \<in> ps \<Longrightarrow> from_party k (hist i) \<subseteq># frames_to k i (out k)"
  unfolding net_inv_def by (metis mset_subset_eq_add_right)

lemma length_filter_other: "distinct ks \<Longrightarrow> j \<in> set ks \<Longrightarrow> length (filter (\<lambda>k. k \<noteq> j) ks) = length ks - 1"
proof (induction ks)
  case (Cons x ks)
  have "filter (\<lambda>k. k \<noteq> j) ks = ks" if "j \<notin> set ks" using that by (induction ks) auto
  with Cons show ?case by (cases ks) auto
qed simp

text \<open>
  The first loop of a party when every other one sends it one frame that the loop can read, besides
  others that it cannot: the loop got these frames, one from each party.
\<close>

lemma first_loop:
  assumes "ids_ok L" "distinct ks" "j \<in> set ks" "net_inv (set ks) tasks s hist out" "length ks - 1 \<le> length (hist j)"
    and "rfold (recv_insert L de) (map recv_frame (take (length ks - 1) (hist j))) acc = Ok r" "bt_wf acc"
    and "\<And>k. k \<in> set ks \<Longrightarrow> \<exists>R. frames_to k j (out k) \<subseteq># (if j \<noteq> k then {#wrap_sender k (b k)#} else {#}) + R \<and>
       (\<forall>f \<in># R. de (snd (recv_frame f)) = None)"
  shows "rfold (recv_insert L de) (map (\<lambda>k. (k, b k)) (filter (\<lambda>k. k \<noteq> j) ks)) acc = Ok r"
    "\<And>k. k \<in> set ks \<Longrightarrow> k \<noteq> j \<Longrightarrow> from_party k (take (length ks - 1) (hist j)) = {#wrap_sender k (b k)#}"
proof -
  let ?others = "filter (\<lambda>k. k \<noteq> j) ks"
  define fs where "fs = take (length ks - 1) (hist j)"
  define P where "P = (\<lambda>f. de (snd (recv_frame f)) \<noteq> None)"
  have r: "rfold (recv_insert L de) (map recv_frame fs) acc = Ok r" using assms(6) by (simp add: fs_def)
  have P: "\<forall>f \<in> set fs. P f" using rfold_recv_decodes [OF r] by (auto simp: P_def)
  have one: "from_party k fs \<subseteq># (if j \<noteq> k then {#wrap_sender k (b k)#} else {#})" if k: "k \<in> set ks" for k
  proof -
    obtain R where R: "frames_to k j (out k) \<subseteq># (if j \<noteq> k then {#wrap_sender k (b k)#} else {#}) + R"
      "\<forall>f \<in># R. \<not> P f" using assms(8) [OF k] by (auto simp: P_def)
    have "from_party k fs \<subseteq># from_party k (hist j)"
      unfolding fs_def by (metis append_take_drop_id from_party_append mset_subset_eq_add_left)
    also have "\<dots> \<subseteq># frames_to k j (out k)" by (rule fed_were_sent [OF assms(4,3) k])
    also note R(1)
    finally have "filter_mset P (from_party k fs) \<subseteq># filter_mset P ((if j \<noteq> k then {#wrap_sender k (b k)#} else {#}) + R)"
      by (rule multiset_filter_mono)
    moreover have "filter_mset P (from_party k fs) = from_party k fs"
      using P by (auto simp: in_from_party filter_mset_eq_conv)
    moreover have "filter_mset P R = {#}" using R(2) by auto
    ultimately have "from_party k fs \<subseteq># filter_mset P (if j \<noteq> k then {#wrap_sender k (b k)#} else {#})"
      by (simp only: filter_union_mset empty_neutral)
    then show ?thesis using multiset_filter_subset subset_mset.order_trans by blast
  qed
  have senders: "\<And>f. f \<in> set fs \<Longrightarrow> fst (recv_frame f) \<in> set ks"
    using assms(3,4) unfolding net_inv_def fs_def by (meson in_set_takeD)
  have each: "fst (recv_frame f) \<in> set ?others \<and> snd (recv_frame f) = b (fst (recv_frame f))" if f: "f \<in> set fs" for f
  proof -
    let ?k = "fst (recv_frame f)"
    have "f \<in># from_party ?k fs" using f by (simp add: in_from_party)
    with one [OF senders [OF f]] have "f \<in># (if j \<noteq> ?k then {#wrap_sender ?k (b ?k)#} else {#})"
      by (rule mset_subset_eqD)
    then have ne: "j \<noteq> ?k" and f': "f = wrap_sender ?k (b ?k)" by (auto split: if_splits)
    have "recv_frame f = (?k, b ?k)" by (subst f') (rule recv_wrap_sender)
    then have "snd (recv_frame f) = b ?k" by (metis snd_conv)
    with ne senders [OF f] show ?thesis by simp
  qed
  have size: "size (from_party k fs) \<le> 1" if "k \<in> set ?others" for k
    using size_mset_mono [OF one [of k]] that by (auto split: if_splits)
  have len: "length fs = length ?others" using assms(5) length_filter_other [OF assms(2,3)] by (simp add: fs_def)
  note all = one_from_each [OF assms(1) distinct_filter [OF assms(2)] len r assms(7) each size]
  show "rfold (recv_insert L de) (map (\<lambda>k. (k, b k)) ?others) acc = Ok r" by (rule all(2))
  fix k assume k: "k \<in> set ks" "k \<noteq> j"
  then have "k \<in> set (map (fst \<circ> recv_frame) fs)" 
    using arg_cong [OF all(1), of set_mset] by simp
  then obtain f where "f \<in> set fs" "fst (recv_frame f) = k" by auto
  then have "from_party k fs \<noteq> {#}" using in_from_party [of f k fs] by auto
  moreover have "from_party k fs \<subseteq># {#wrap_sender k (b k)#}" using one [of k] k by (auto split: if_splits)
  ultimately show "from_party k (take (length ks - 1) (hist j)) = {#wrap_sender k (b k)#}"
    unfolding fs_def by (rule nonempty_subseteq_mset_eq_single)
qed

text \<open>
  The second loop: besides the frame that the first loop got, each of the others sends at most one frame,
  the one that \<open>c\<close> says.
\<close>

lemma second_loop:
  assumes "ids_ok L" "distinct ks" "i \<in> set ks" "net_inv (set ks) tasks s hist out" "2 * (length ks - 1) \<le> length (hist i)"
    and "rfold (recv_insert L de) (map recv_frame (take (length ks - 1) (drop (length ks - 1) (hist i)))) acc = Ok r" "bt_wf acc"
    and "\<And>k. k \<in> set ks \<Longrightarrow> k \<noteq> i \<Longrightarrow> from_party k (take (length ks - 1) (hist i)) = {#wrap_sender k (b k)#}"
    and "\<And>k. k \<in> set ks \<Longrightarrow> \<exists>R. frames_to k i (out k) \<subseteq># (if i \<noteq> k then {#wrap_sender k (b k)#} else {#}) + R \<and>
       size R \<le> 1 \<and> (\<forall>f \<in># R. k \<noteq> i \<and> c k = Ok (recv_frame f))"
  shows "\<exists>ms. rmap c (filter (\<lambda>k. k \<noteq> i) ks) = Ok ms \<and> rfold (recv_insert L de) ms acc = Ok r"
proof -
  let ?N = "length ks - 1" and ?others = "filter (\<lambda>k. k \<noteq> i) ks"
  define fs where "fs = take ?N (drop ?N (hist i))"
  define D where "D = (\<lambda>k. case c k of Ok m \<Rightarrow> snd m | _ \<Rightarrow> [])"
  have r: "rfold (recv_insert L de) (map recv_frame fs) acc = Ok r" using assms(6) by (simp add: fs_def)
  have sub: "from_party k (take ?N (hist i)) + from_party k fs \<subseteq># from_party k (hist i)" for k
  proof -
    have "hist i = take ?N (hist i) @ fs @ drop ?N (drop ?N (hist i))" by (simp only: fs_def append_take_drop_id)
    then show ?thesis by (metis from_party_append mset_subset_eq_add_left add.assoc)
  qed
  have sent: "(\<forall>f \<in># from_party k fs. k \<noteq> i \<and> c k = Ok (recv_frame f)) \<and> size (from_party k fs) \<le> 1"
    if k: "k \<in> set ks" for k
  proof -
    obtain R where R: "frames_to k i (out k) \<subseteq># (if i \<noteq> k then {#wrap_sender k (b k)#} else {#}) + R"
      "size R \<le> 1" "\<forall>f \<in># R. k \<noteq> i \<and> c k = Ok (recv_frame f)" using assms(9) [OF k] by blast
    have "from_party k (take ?N (hist i)) + from_party k fs \<subseteq># (if i \<noteq> k then {#wrap_sender k (b k)#} else {#}) + R"
      using sub fed_were_sent [OF assms(4,3) k] R(1) by (meson subset_mset.order_trans)
    with assms(8) [OF k] have "from_party k fs \<subseteq># R"
      by (cases "i = k") (auto intro: subset_mset.order_trans [OF mset_subset_eq_add_right])
    with R(2,3) size_mset_mono [OF this] show ?thesis by (auto dest: mset_subset_eqD)
  qed
  have senders: "\<And>f. f \<in> set fs \<Longrightarrow> fst (recv_frame f) \<in> set ks"
    using assms(3,4) unfolding net_inv_def fs_def by (meson in_set_takeD in_set_dropD)
  have each: "fst (recv_frame f) \<in> set ?others \<and> c (fst (recv_frame f)) = Ok (recv_frame f)" if f: "f \<in> set fs" for f
  proof -
    have "f \<in># from_party (fst (recv_frame f)) fs" using f by (simp add: in_from_party)
    with sent [OF senders [OF f]] senders [OF f] show ?thesis by simp
  qed
  then have get: "fst (recv_frame f) \<in> set ?others \<and> snd (recv_frame f) = D (fst (recv_frame f))" if "f \<in> set fs" for f
    using that by (simp add: D_def)
  have size: "size (from_party k fs) \<le> 1" if "k \<in> set ?others" for k using sent [of k] that by simp
  have len: "length fs = length ?others" using assms(5) length_filter_other [OF assms(2,3)] by (simp add: fs_def)
  note all = one_from_each [OF assms(1) distinct_filter [OF assms(2)] len r assms(7) get size]
  have "c k = Ok (k, D k)" if k: "k \<in> set ?others" for k
  proof -
    from k have "k \<in> set (map (fst \<circ> recv_frame) fs)" using arg_cong [OF all(1), of set_mset] by simp
    then obtain f where f: "f \<in> set fs" "fst (recv_frame f) = k" by auto
    with each [OF f(1)] get [OF f(1)] show ?thesis by (metis prod.collapse)
  qed
  then have "rmap c ?others = Ok (map (\<lambda>k. (k, D k)) ?others)" by (intro rmap_Ok_map) simp
  with all(2) show ?thesis by blast
qed

section \<open>Schedules\<close>

text \<open>Schedules as lists of events, to evaluate a run.\<close>

datatype net_event = Takes u16 | Delivers u16 u16 bytes

fun net_do :: "u16 list \<Rightarrow> net_event \<Rightarrow> 'a net \<Rightarrow> 'a net option" where
  "net_do ps (Takes j) s =
     (case take_msg (node s j) of
        (Some m, pr) \<Rightarrow>
          if j \<in> set ps then
            Some (s\<lparr>node := (node s)(j := pr),
              link := (link s)(j := (\<lambda>i. if i \<in> set ps \<and> addressed j i m then add_mset (frame_of j m) (link s j i) else link s j i))\<rparr>)
          else None
      | _ \<Rightarrow> None)"
| "net_do ps (Delivers j i f) s =
     (if i \<in> set ps \<and> j \<in> set ps \<and> f \<in># link s j i then
        Some (s\<lparr>node := (node s)(i := snd (feed f (node s i))),
          link := (link s)(j := (link s j)(i := link s j i - {#f#}))\<rparr>)
      else None)"

primrec net_play :: "u16 list \<Rightarrow> net_event list \<Rightarrow> 'a net \<Rightarrow> 'a net option" where
  "net_play ps [] s = Some s"
| "net_play ps (e # es) s = (case net_do ps e s of Some s' \<Rightarrow> net_play ps es s' | None \<Rightarrow> None)"

lemma net_do_step: "net_do ps e s = Some s' \<Longrightarrow> net_step (set ps) s s'"
  by (cases e) (auto intro: net_step.intros split: prod.splits option.splits if_splits)

lemma net_play_steps: "net_play ps es s = Some s' \<Longrightarrow> (net_step (set ps))\<^sup>*\<^sup>* s s'"
  by (induction es arbitrary: s) (auto split: option.splits dest: net_do_step intro: converse_rtranclp_into_rtranclp)

end
