(* ===== verification/Network_Agreement.thy ===== *)
theory Network_Agreement
  imports Network
begin

text \<open>
  Key generation, key import and resharing in a network of sessions, compared with the same ceremony
  computed in one place: whatever the schedule, a party that succeeds has the keys of the latter.
\<close>

section \<open>What the rounds send and return\<close>

text \<open>
  \<open>round_one\<close> is the map that a party has after its first loop; the messages of round two, as far as they
  were sent, come from the packages of \<open>dkg_core_part2\<close> on this map.
\<close>

definition round_one where
  "round_one L N fs = rfold (recv_insert L (package1_deserialize L)) (map recv_frame (take N fs)) []"

definition round_two where
  "round_two L N fs = rfold (recv_insert L (package2_deserialize L)) (map recv_frame (take N (drop N fs))) []"

lemma dkg_rounds_output:
  assumes "poll (dkg_rounds L mx idm s b) fs [] = (p', rest, out)"
  shows "\<exists>ys. out = map (\<lambda>(n, d). wrap_sender n d) ((0, b) # ys) \<and>
    (ys \<noteq> [] \<longrightarrow> unat (mx - 1) \<le> length fs \<and> (\<exists>r1 s2 pkgs k. round_one L (unat (mx - 1)) fs = Ok r1 \<and>
       dkg_core_part2 L s r1 = Inr (s2, pkgs) \<and> rmap (prepare_r2 L idm) (take k pkgs) = Ok ys))"
proof -
  define N where "N = unat (mx - 1)"
  define g where "g = (\<lambda>s2 r1 pkgs. pbind (send_loop (prepare_r2 L idm) pkgs) (\<lambda>_.
     pbind (recv_loop N (recv_insert L (package2_deserialize L)) []) (\<lambda>r2_received.
       Ret (or_blame L (dkg_core_part3 L s2 r1 r2_received) LIB_DKG_ERROR))))"
  define h where "h = (\<lambda>r1. pbind (Ret (or_blame L (dkg_core_part2 L s r1) LIB_DKG_ERROR)) (\<lambda>(s2, pkgs). g s2 r1 pkgs))"
  have rounds: "dkg_rounds L mx idm s b = Send (wrap_sender 0 b) (pbind (recv_loop N (recv_insert L (package1_deserialize L)) []) h)"
    by (simp add: dkg_rounds_def broadcast_def wrap_sender_def h_def g_def N_def case_prod_unfold)
  obtain p1 rest1 o1 where p1: "poll (recv_loop N (recv_insert L (package1_deserialize L)) []) fs [wrap_sender 0 b] = (p1, rest1, o1)"
    by (cases "poll (recv_loop N (recv_insert L (package1_deserialize L)) []) fs [wrap_sender 0 b]")
  note c = poll_recv_loop_cases [OF p1]
  show ?thesis
  proof (cases "\<exists>x. p1 = Ret (Ok x)")
    case False
    then have "out = [wrap_sender 0 b]"
      using assms p1 c by (auto simp: rounds poll_pbind split: proc.splits res.splits)
    then show ?thesis by (intro exI [of _ "[]"]) simp
  next
    case True
    then obtain r1 where r1: "N \<le> length fs" "round_one L N fs = Ok r1" "p1 = Ret (Ok r1)" "rest1 = drop N fs"
      using c by (auto simp: round_one_def)
    have run: "poll (h r1) (drop N fs) [wrap_sender 0 b] = (p', rest, out)"
      using assms p1 c r1 by (simp add: rounds poll_pbind)
    show ?thesis
    proof (cases "dkg_core_part2 L s r1")
      case (Inl e)
      with run have "out = [wrap_sender 0 b]"
        by (cases "or_blame L (dkg_core_part2 L s r1) LIB_DKG_ERROR") (auto simp: h_def or_blame_Ok)
      then show ?thesis by (intro exI [of _ "[]"]) simp
    next
      case (Inr x)
      obtain s2 pkgs where x: "x = (s2, pkgs)" by (cases x)
      obtain p2 rest2 o2 where p2: "poll (send_loop (prepare_r2 L idm) pkgs) (drop N fs) [wrap_sender 0 b] = (p2, rest2, o2)"
        by (cases "poll (send_loop (prepare_r2 L idm) pkgs) (drop N fs) [wrap_sender 0 b]")
      from poll_send_loop_cases [OF p2] obtain k ys where ys: "rmap (prepare_r2 L idm) (take k pkgs) = Ok ys"
        "o2 = [wrap_sender 0 b] @ map (\<lambda>(n, b). wrap_sender n b) ys" by blast
      have "out = o2"
        using run p2 poll_recv_loop_cases [of N "recv_insert L (package2_deserialize L)" "[]" rest2 o2]
        by (auto simp: h_def Inr x or_blame_def g_def poll_pbind split: proc.splits res.splits prod.splits)
      with ys Inr x r1 show ?thesis
        unfolding N_def [symmetric] by (intro exI [of _ ys]) (auto simp del: rmap.simps)
    qed
  qed
qed

lemma dkg_rounds_returns:
  assumes "poll (dkg_rounds L mx idm s b) fs [] = (Ret (Ok x), rest, out)"
  obtains r1 s2 pkgs r2 where "2 * unat (mx - 1) \<le> length fs" "round_one L (unat (mx - 1)) fs = Ok r1"
    "dkg_core_part2 L s r1 = Inr (s2, pkgs)" "round_two L (unat (mx - 1)) fs = Ok r2"
    "dkg_core_part3 L s2 r1 r2 = Inr x"
  using assms unfolding dkg_rounds_def broadcast_def pbind.simps(2) poll.simps(2) round_one_def round_two_def case_prod_unfold
  by (auto elim!: bind_recv_loop_OkE bind_send_loop_OkE bind_Ret_OkE simp: or_blame_Ok split: res.splits)

section \<open>The ceremony in one place\<close>

definition parties_of :: "u16 \<Rightarrow> u16 list" where
  "parties_of mx = map word_of_nat [1..<unat mx + 1]"

definition others :: "u16 \<Rightarrow> u16 \<Rightarrow> u16 list" where
  "others mx i = filter (\<lambda>k. k \<noteq> i) (parties_of mx)"

text \<open>
  The same ceremony without messages: \<open>sec k\<close> and \<open>bs k\<close> are the secret and the package that party \<open>k\<close> has
  made in its first round.
\<close>

definition central_round_one where
  "central_round_one L mx bs i =
     rfold (recv_insert L (package1_deserialize L)) (map (\<lambda>k. (k, bs k)) (others mx i)) []"

definition central_package where
  "central_package L mx sec bs i k =
     rbind (central_round_one L mx bs k) (\<lambda>r1.
     rbind (or_blame L (dkg_core_part2 L (sec k) r1) LIB_DKG_ERROR) (\<lambda>(s2, pkgs).
     rbind (try_id L i) (\<lambda>ident.
     rbind (ok_or (map_of pkgs ident) LIB_DKG_ERROR) (\<lambda>p.
     rbind (ser_err (package2_serialize L p)) (\<lambda>d. Ok (k, d))))))"

definition central_dkg where
  "central_dkg L mx sec bs i =
     rbind (central_round_one L mx bs i) (\<lambda>r1.
     rbind (or_blame L (dkg_core_part2 L (sec i) r1) LIB_DKG_ERROR) (\<lambda>(s2, pkgs).
     rbind (rmap (central_package L mx sec bs i) (others mx i)) (\<lambda>ms.
     rbind (rfold (recv_insert L (package2_deserialize L)) ms []) (\<lambda>r2.
       or_blame L (dkg_core_part3 L s2 r1 r2) LIB_DKG_ERROR))))"

text \<open>
  Two facts about \<^verbatim>\<open>frost-core\<close>: its round-one packages are longer than its round-two packages, so the bytes
  of one of the latter are not read as one of the former; and \<^verbatim>\<open>dkg::part2\<close> makes a package for each
  of the parties whose round-one packages it gets.
\<close>

definition rounds_distinct ::
  "('i, 'f, 'g, 'sig, 'e, 'rng, 's1, 'p1, 's2, 'p2, 'kp, 'pk, 'z) frost_scheme \<Rightarrow> bool" where
  "rounds_distinct L \<longleftrightarrow> (\<forall>p d. package2_serialize L p = Some d \<longrightarrow> package1_deserialize L d = None)"

definition part2_for_all ::
  "('i, 'f, 'g, 'sig, 'e, 'rng, 's1, 'p1, 's2, 'p2, 'kp, 'pk, 'z) frost_scheme \<Rightarrow> bool" where
  "part2_for_all L \<longleftrightarrow>
     (\<forall>s r1 s2 pkgs. dkg_core_part2 L s r1 = Inr (s2, pkgs) \<longrightarrow> map fst pkgs = map fst r1)"

lemma set_parties_of: "set (parties_of mx) = {n. n \<noteq> 0 \<and> n \<le> mx}"
proof -
  have "unat mx < 2 ^ 16" using unsigned_less [of mx, where ?'a = nat] by simp
  from set_u16_range [OF this] show ?thesis
    by (auto simp: parties_of_def word_le_nat_alt Suc_le_eq unat_gt_0)
qed

lemma distinct_parties_of: "distinct (parties_of mx)"
proof -
  have "unat mx < 2 ^ 16" using unsigned_less [of mx, where ?'a = nat] by simp
  then have "inj_on (word_of_nat :: nat \<Rightarrow> u16) (set [1..<unat mx + 1])"
    by (intro inj_on_inverseI [where g = unat]) (auto simp: unat_of_nat)
  then show ?thesis by (simp add: parties_of_def distinct_map)
qed

lemma length_parties: "i \<in> set (parties_of mx) \<Longrightarrow> unat (mx - 1) = length (parties_of mx) - 1"
proof -
  assume "i \<in> set (parties_of mx)"
  then have "mx \<noteq> 0" by (auto simp: set_parties_of)
  then show ?thesis by (simp add: parties_of_def unat_minus_one)
qed

section \<open>Agreement\<close>

lemma prepare_r2_Ok:
  "prepare_r2 L idm e = Ok y \<longleftrightarrow>
     lookup_u16 L idm (fst e) = Ok (fst y) \<and> package2_serialize L (snd e) = Some (snd y)"
  by (cases y) (auto simp: prepare_r2_def ser_err_def rbind_eq_Ok)

text \<open>The messages of round two: one for each party, with the bytes of the package for it.\<close>

lemma prepared_messages:
  assumes "rmap (prepare_r2 L idm) (take k pkgs) = Ok ys" "distinct (map fst pkgs)"
    and "\<And>i. i \<in> fst ` set pkgs \<Longrightarrow> \<exists>n \<in> P. id_try_from L n = Some i \<and> lookup_u16 L idm i = Ok n"
  shows "distinct (map fst ys) \<and> (\<forall>(n, d) \<in> set ys. n \<in> P \<and>
    (\<exists>i p. id_try_from L n = Some i \<and> (i, p) \<in> set pkgs \<and> package2_serialize L p = Some d))"
proof -
  have "distinct (map fst ys) \<and> (\<forall>(n, d) \<in> set ys. n \<in> P \<and>
    (\<exists>i p. id_try_from L n = Some i \<and> (i, p) \<in> set xs \<and> package2_serialize L p = Some d))"
    if "rmap (prepare_r2 L idm) xs = Ok ys" "distinct (map fst xs)"
      "\<And>i. i \<in> fst ` set xs \<Longrightarrow> \<exists>n \<in> P. id_try_from L n = Some i \<and> lookup_u16 L idm i = Ok n" for xs
    using that
  proof (induction xs arbitrary: ys)
    case (Cons x xs)
    obtain i p where x: "x = (i, p)" by (cases x)
    obtain n where n: "n \<in> P" "id_try_from L n = Some i" "lookup_u16 L idm i = Ok n" using Cons.prems(3) [of i] x by auto
    from Cons.prems(1) obtain y ys' where y: "prepare_r2 L idm (i, p) = Ok y" "rmap (prepare_r2 L idm) xs = Ok ys'" "ys = y # ys'"
      by (auto simp: x elim!: rbind_OkE)
    then obtain d where ys: "package2_serialize L p = Some d" "rmap (prepare_r2 L idm) xs = Ok ys'" "ys = (n, d) # ys'"
      using n(3) by (cases y) (auto simp: prepare_r2_Ok)
    have IH: "distinct (map fst ys') \<and> (\<forall>(n, d) \<in> set ys'. n \<in> P \<and>
      (\<exists>i p. id_try_from L n = Some i \<and> (i, p) \<in> set xs \<and> package2_serialize L p = Some d))"
      using Cons.prems(2,3) by (intro Cons.IH [OF ys(2)]) auto
    have "n \<notin> fst ` set ys'"
    proof
      assume "n \<in> fst ` set ys'"
      with IH obtain q where "(i, q) \<in> set xs" using n(2) by fastforce
      with Cons.prems(2) x show False by (force simp: image_iff)
    qed
    with IH ys n(1,2) x show ?case by (auto 0 3 simp: image_iff case_prod_unfold)
  qed simp
  from this [OF assms(1)] assms(2,3) show ?thesis
    by (force dest: in_set_takeD simp: distinct_take take_map [symmetric])
qed

text \<open>The setting of the following lemmas: every party runs the rounds and then something local.\<close>

definition runs_rounds where
  "runs_rounds L mx idm sec bs tasks local_step \<longleftrightarrow>
     ids_ok L \<and> rounds_distinct L \<and> part2_for_all L \<and> build_id_map L mx = Ok idm \<and>
     (\<forall>i \<in> set (parties_of mx).
        tasks i = pbind (dkg_rounds L mx idm (sec i) (bs i)) (\<lambda>x. Ret (local_step i x)))"

lemma frames_directed:
  "\<forall>(n, d) \<in> set ys. n \<noteq> 0 \<Longrightarrow> frames_to k j (map (\<lambda>(n, d). wrap_sender n d) ys) =
     mset (map (\<lambda>(n, d). wrap_sender k d) (filter (\<lambda>(n, d). n = j) ys))"
  by (induction ys) (auto simp: frames_to_simps)

lemma frames_of_rounds:
  assumes "\<forall>(n, d) \<in> set ys. n \<noteq> 0"
  shows "frames_to k j (map (\<lambda>(n, d). wrap_sender n d) ((0, b) # ys)) =
    (if j \<noteq> k then {#wrap_sender k b#} else {#}) + mset (map (\<lambda>(n, d). wrap_sender k d) (filter (\<lambda>(n, d). n = j) ys))"
  using frames_directed [OF assms, of k j] by (cases "j = k") (simp_all add: frames_to_simps)

text \<open>What a party sends to another one: its package of round one and at most one of round two.\<close>

lemma outgoing_frames:
  assumes "runs_rounds L mx idm sec bs tasks f" "net_inv (set (parties_of mx)) tasks s hist out"
    and "k \<in> set (parties_of mx)"
  shows "\<exists>ys. frames_to k j (out k) \<subseteq># (if j \<noteq> k then {#wrap_sender k (bs k)#} else {#}) +
      mset (map (\<lambda>(n, d). wrap_sender k d) (filter (\<lambda>(n, d). n = j) ys)) \<and>
    distinct (map fst ys) \<and>
    (ys \<noteq> [] \<longrightarrow> unat (mx - 1) \<le> length (hist k) \<and>
      (\<exists>r1 s2 pkgs. round_one L (unat (mx - 1)) (hist k) = Ok r1 \<and> dkg_core_part2 L (sec k) r1 = Inr (s2, pkgs) \<and>
        bt_wf r1 \<and> map fst pkgs = map fst r1 \<and>
        (\<forall>(n, d) \<in> set ys. n \<in> set (parties_of mx) \<and>
          (\<exists>i p. id_try_from L n = Some i \<and> (i, p) \<in> set pkgs \<and> package2_serialize L p = Some d))))"
proof -
  let ?N = "unat (mx - 1)"
  from assms(1,3) have run: "ids_ok L" "part2_for_all L" "build_id_map L mx = Ok idm"
    "tasks k = pbind (dkg_rounds L mx idm (sec k) (bs k)) (\<lambda>x. Ret (f k x))"
    by (auto simp: runs_rounds_def)
  obtain p' rest o1 where p': "poll (tasks k) (hist k) [] = (p', rest, o1)" by (cases "poll (tasks k) (hist k) []")
  have sim: "out k @ outbox (node s k) = o1" using assms(2,3) p' by (auto simp: net_inv_def simulates_def)
  obtain q where q: "poll (dkg_rounds L mx idm (sec k) (bs k)) (hist k) [] = (q, rest, o1)"
    using p' unfolding run(4) by (rule poll_rounds_then_local)
  obtain ys where ys: "o1 = map (\<lambda>(n, d). wrap_sender n d) ((0, bs k) # ys)"
    "ys \<noteq> [] \<longrightarrow> ?N \<le> length (hist k) \<and> (\<exists>r1 s2 pkgs kk. round_one L ?N (hist k) = Ok r1 \<and>
       dkg_core_part2 L (sec k) r1 = Inr (s2, pkgs) \<and> rmap (prepare_r2 L idm) (take kk pkgs) = Ok ys)"
    using dkg_rounds_output [OF q] by blast
  have good: "distinct (map fst ys) \<and> (ys \<noteq> [] \<longrightarrow> ?N \<le> length (hist k) \<and>
      (\<exists>r1 s2 pkgs. round_one L ?N (hist k) = Ok r1 \<and> dkg_core_part2 L (sec k) r1 = Inr (s2, pkgs) \<and>
        bt_wf r1 \<and> map fst pkgs = map fst r1 \<and>
        (\<forall>(n, d) \<in> set ys. n \<in> set (parties_of mx) \<and>
          (\<exists>i p. id_try_from L n = Some i \<and> (i, p) \<in> set pkgs \<and> package2_serialize L p = Some d))))"
  proof (cases "ys = []")
    case False
    with ys(2) obtain r1 s2 pkgs kk where r: "?N \<le> length (hist k)" "round_one L ?N (hist k) = Ok r1"
      "dkg_core_part2 L (sec k) r1 = Inr (s2, pkgs)" "rmap (prepare_r2 L idm) (take kk pkgs) = Ok ys" by blast
    have wf: "bt_wf r1" using rfold_recv_wf [of L] r(2) bt_wf_Nil unfolding round_one_def by blast
    have keys: "map fst pkgs = map fst r1" using run(2) r(3) unfolding part2_for_all_def by blast
    have senders: "\<forall>f \<in> set (hist k). fst (recv_frame f) \<in> set (parties_of mx)"
      using assms(2,3) by (auto simp: net_inv_def)
    have look: "\<exists>n \<in> set (parties_of mx). id_try_from L n = Some i \<and> lookup_u16 L idm i = Ok n"
      if "i \<in> fst ` set pkgs" for i
    proof -
      have "i \<in> fst ` set r1" using that keys by (metis set_map)
      with rfold_recv_keys [OF r(2) [unfolded round_one_def]]
      have "\<exists>m \<in> set (map recv_frame (take ?N (hist k))). id_try_from L (fst m) = Some i"
        by (auto simp del: set_map)
      then obtain m where m: "m \<in> set (map recv_frame (take ?N (hist k)))" "id_try_from L (fst m) = Some i" by blast
      then have "fst m \<in> set (parties_of mx)" using senders by (auto dest: in_set_takeD)
      moreover have "lookup_u16 L idm i = Ok (fst m)"
        using build_id_map_Ok [OF run(1), of mx] run(3) m(2) calculation by (auto simp: set_parties_of)
      ultimately show ?thesis using m(2) by blast
    qed
    have "distinct (map fst pkgs)" using keys bt_wf_distinct [OF wf] by simp
    from prepared_messages [OF r(4) this look] r(1-3) wf keys show ?thesis by blast
  qed simp
  have "frames_to k j (out k) \<subseteq># frames_to k j o1"
    unfolding sim [symmetric] frames_to_def by (simp add: filter_append)
  moreover have "\<forall>(n, d) \<in> set ys. n \<noteq> 0"
  proof (cases "ys = []")
    case False
    with good have "\<forall>(n, d) \<in> set ys. n \<in> set (parties_of mx)" by blast
    then show ?thesis by (auto simp: set_parties_of)
  qed simp
  note frames_of_rounds [OF this, of k j "bs k"]
  ultimately have "frames_to k j (out k) \<subseteq># (if j \<noteq> k then {#wrap_sender k (bs k)#} else {#}) +
      mset (map (\<lambda>(n, d). wrap_sender k d) (filter (\<lambda>(n, d). n = j) ys))" by (simp only: ys(1))
  with good show ?thesis by blast
qed

lemma round_one_agrees:
  assumes "runs_rounds L mx idm sec bs tasks f" "net_inv (set (parties_of mx)) tasks s hist out"
    and "j \<in> set (parties_of mx)" "unat (mx - 1) \<le> length (hist j)" "round_one L (unat (mx - 1)) (hist j) = Ok r1"
  shows "central_round_one L mx bs j = Ok r1"
    "\<And>k. k \<in> set (parties_of mx) \<Longrightarrow> k \<noteq> j \<Longrightarrow> from_party k (take (unat (mx - 1)) (hist j)) = {#wrap_sender k (bs k)#}"
proof -
  have L: "ids_ok L" "rounds_distinct L" using assms(1) by (simp_all add: runs_rounds_def)
  have sent: "\<exists>R. frames_to k j (out k) \<subseteq># (if j \<noteq> k then {#wrap_sender k (bs k)#} else {#}) + R \<and>
      (\<forall>f \<in># R. package1_deserialize L (snd (recv_frame f)) = None)" if k: "k \<in> set (parties_of mx)" for k
  proof -
    obtain ys where ys: "frames_to k j (out k) \<subseteq># (if j \<noteq> k then {#wrap_sender k (bs k)#} else {#}) +
        mset (map (\<lambda>(n, d). wrap_sender k d) (filter (\<lambda>(n, d). n = j) ys))"
      "\<forall>(n, d) \<in> set ys. \<exists>p. package2_serialize L p = Some d"
      using outgoing_frames [OF assms(1,2) k, of j] by (fastforce simp: case_prod_unfold)
    have "package1_deserialize L d = None" if "(n, d) \<in> set ys" for n d
      using ys(2) that L(2) unfolding rounds_distinct_def by blast
    then have "\<forall>f \<in># mset (map (\<lambda>(n, d). wrap_sender k d) (filter (\<lambda>(n, d). n = j) ys)).
        package1_deserialize L (snd (recv_frame f)) = None" by auto
    with ys(1) show ?thesis by blast
  qed
  note first_loop [OF L(1) distinct_parties_of assms(3,2) _ _ bt_wf_Nil sent, folded others_def]
  then show "central_round_one L mx bs j = Ok r1"
    "\<And>k. k \<in> set (parties_of mx) \<Longrightarrow> k \<noteq> j \<Longrightarrow> from_party k (take (unat (mx - 1)) (hist j)) = {#wrap_sender k (bs k)#}"
    using assms(4,5) unfolding central_round_one_def round_one_def length_parties [OF assms(3)] by blast+
qed

lemma one_with_key: "distinct (map fst ys) \<Longrightarrow> length (filter (\<lambda>(n, d). n = i) ys) \<le> 1"
proof (induction ys)
  case (Cons y ys)
  then show ?case by (cases "fst y = i") (auto simp: case_prod_unfold filter_empty_conv image_iff)
qed simp

lemma package_from:
  assumes "ids_ok L" "central_round_one L mx bs k = Ok q1" "dkg_core_part2 L (sec k) q1 = Inr (s2, pkgs)" "bt_wf q1"
    and "map fst pkgs = map fst q1" "id_try_from L i = Some ident" "(ident, p) \<in> set pkgs" "package2_serialize L p = Some d"
  shows "k \<noteq> i \<and> central_package L mx sec bs i k = Ok (k, d)"
proof
  have "map_of pkgs ident = Some p" using assms(7) bt_wf_distinct [OF assms(4)] by (simp add: assms(5) [symmetric])
  then show "central_package L mx sec bs i k = Ok (k, d)"
    by (simp add: central_package_def assms(2,3,6,8) or_blame_def try_id_def ser_err_def)
  show "k \<noteq> i"
  proof
    assume "k = i"
    have "ident \<in> fst ` set q1" using assms(5,7) by (metis fst_conv image_eqI set_map)
    with rfold_recv_keys [OF assms(2) [unfolded central_round_one_def]]
    obtain n where "n \<in> set (others mx k)" "id_try_from L n = Some ident" by auto
    then show False using ids_ok_try_from_inj [OF assms(1,6)] \<open>k = i\<close> by (auto simp: others_def)
  qed
qed

lemma round_two_agrees:
  assumes "runs_rounds L mx idm sec bs tasks f" "net_inv (set (parties_of mx)) tasks s hist out"
    and "i \<in> set (parties_of mx)" "2 * unat (mx - 1) \<le> length (hist i)"
    and "round_one L (unat (mx - 1)) (hist i) = Ok r1" "round_two L (unat (mx - 1)) (hist i) = Ok r2"
  shows "\<exists>ms. rmap (central_package L mx sec bs i) (others mx i) = Ok ms \<and>
    rfold (recv_insert L (package2_deserialize L)) ms [] = Ok r2"
proof -
  let ?N = "unat (mx - 1)"
  have L: "ids_ok L" using assms(1) by (simp add: runs_rounds_def)
  have "?N \<le> length (hist i)" using assms(4) by simp
  note first = round_one_agrees(2) [OF assms(1-3) this assms(5)]
  have sent: "\<exists>R. frames_to k i (out k) \<subseteq># (if i \<noteq> k then {#wrap_sender k (bs k)#} else {#}) + R \<and> size R \<le> 1 \<and>
      (\<forall>f \<in># R. k \<noteq> i \<and> central_package L mx sec bs i k = Ok (recv_frame f))" if k: "k \<in> set (parties_of mx)" for k
  proof -
    obtain ys where ys: "frames_to k i (out k) \<subseteq># (if i \<noteq> k then {#wrap_sender k (bs k)#} else {#}) +
        mset (map (\<lambda>(n, d). wrap_sender k d) (filter (\<lambda>(n, d). n = i) ys))" "distinct (map fst ys)"
      "ys \<noteq> [] \<longrightarrow> ?N \<le> length (hist k) \<and>
        (\<exists>r1 s2 pkgs. round_one L ?N (hist k) = Ok r1 \<and> dkg_core_part2 L (sec k) r1 = Inr (s2, pkgs) \<and>
          bt_wf r1 \<and> map fst pkgs = map fst r1 \<and>
          (\<forall>(n, d) \<in> set ys. n \<in> set (parties_of mx) \<and>
            (\<exists>i p. id_try_from L n = Some i \<and> (i, p) \<in> set pkgs \<and> package2_serialize L p = Some d)))"
      using outgoing_frames [OF assms(1,2) k, of i] by blast
    have "k \<noteq> i \<and> central_package L mx sec bs i k = Ok (k, d)" if d: "(i, d) \<in> set ys" for d
    proof -
      from d have "ys \<noteq> []" by auto
      with ys(3) obtain q1 s2 pkgs where q: "?N \<le> length (hist k)" "round_one L ?N (hist k) = Ok q1"
        "dkg_core_part2 L (sec k) q1 = Inr (s2, pkgs)" "bt_wf q1" "map fst pkgs = map fst q1"
        "\<forall>(n, d) \<in> set ys. \<exists>i p. id_try_from L n = Some i \<and> (i, p) \<in> set pkgs \<and> package2_serialize L p = Some d"
        by (auto simp: case_prod_unfold)
      from q(6) d obtain ident p where p: "id_try_from L i = Some ident" "(ident, p) \<in> set pkgs"
        "package2_serialize L p = Some d" by blast
      have "central_round_one L mx bs k = Ok q1" by (rule round_one_agrees(1) [OF assms(1,2) k q(1,2)])
      from package_from [where sec = sec and k = k, OF L this q(3-5) p] show ?thesis .
    qed
    then have "\<forall>f \<in># mset (map (\<lambda>(n, d). wrap_sender k d) (filter (\<lambda>(n, d). n = i) ys)).
        k \<noteq> i \<and> central_package L mx sec bs i k = Ok (recv_frame f)" by auto
    moreover have "size (mset (map (\<lambda>(n, d). wrap_sender k d) (filter (\<lambda>(n, d). n = i) ys))) \<le> 1"
      using one_with_key [OF ys(2), of i] by (simp only: size_mset length_map)
    ultimately show ?thesis using ys(1) by blast
  qed
  show ?thesis
    using second_loop [OF L distinct_parties_of assms(3,2) _ _ bt_wf_Nil _ sent, folded others_def] assms(4,6) first
    unfolding round_two_def length_parties [OF assms(3)] by blast
qed

lemma rounds_central:
  assumes "runs_rounds L mx idm sec bs tasks f" "net_inv (set (parties_of mx)) tasks s hist out"
    and "i \<in> set (parties_of mx)" "outcome (node s i) = Some (Ok y)"
  shows "\<exists>x. central_dkg L mx sec bs i = Ok x \<and> f i x = Ok y"
proof -
  have run: "tasks i = pbind (dkg_rounds L mx idm (sec i) (bs i)) (\<lambda>x. Ret (f i x))"
    using assms(1,3) by (simp add: runs_rounds_def)
  obtain p' rest o1 where p': "poll (tasks i) (hist i) [] = (p', rest, o1)" by (cases "poll (tasks i) (hist i) []")
  have "outcome_of p' = Some (Ok y)" using assms(2-4) p' by (auto simp: net_inv_def simulates_def)
  then have "p' = Ret (Ok y)" by (auto simp: outcome_of_def split: proc.splits res.splits)
  with p' obtain x where x: "poll (dkg_rounds L mx idm (sec i) (bs i)) (hist i) [] = (Ret (Ok x), rest, o1)" "f i x = Ok y"
    unfolding run by (elim poll_rounds_then_local) auto
  from dkg_rounds_returns [OF x(1)] obtain r1 s2 pkgs r2 where r: "2 * unat (mx - 1) \<le> length (hist i)"
    "round_one L (unat (mx - 1)) (hist i) = Ok r1" "dkg_core_part2 L (sec i) r1 = Inr (s2, pkgs)"
    "round_two L (unat (mx - 1)) (hist i) = Ok r2" "dkg_core_part3 L s2 r1 r2 = Inr x" .
  have "central_round_one L mx bs i = Ok r1"
    using r(1) by (intro round_one_agrees(1) [OF assms(1-3) _ r(2)]) simp
  with round_two_agrees [OF assms(1-3) r(1,2,4)] r(3,5) have "central_dkg L mx sec bs i = Ok x"
    by (auto simp: central_dkg_def or_blame_def)
  with x(2) show ?thesis by blast
qed

lemma pbind_Ret_Ok: "pbind (Ret (Ok z)) h = h z"
  by simp

lemma pbind_Ret_Ret: "pbind (Ret r) (\<lambda>v. Ret (g v)) = Ret (rbind r g)"
  by (cases r) simp_all

text \<open>The three ceremonies are rounds after a first part.\<close>

lemma ceremonies_run_rounds:
  assumes "build_id_map L mx = Ok idm"
  shows "dkg_part1 L rng i mx mn = Ok (s, b) \<Longrightarrow> dkg_run L rng i mx mn = pbind (dkg_rounds L mx idm s b) (\<lambda>x. Ret (Ok x))"
    "key_import_part1 L rng i mx mn c = Ok (s, b) \<Longrightarrow>
       key_import_run L rng i mx mn c = pbind (dkg_rounds L mx idm s b) (\<lambda>x. Ret (Ok x))"
    "reshare_part1 L rng i mx mn c = Ok (s, b) \<Longrightarrow>
       reshare_run L rng i mx mn c vk = pbind (dkg_rounds L mx idm s b)
         (\<lambda>x. Ret (rbind (ser_err (vk_serialize L (pk_verifying_key L (snd x)))) (\<lambda>v. if v \<noteq> vk then Err LIB_RESHARE_ERROR else Ok x)))"
proof -
  show "dkg_run L rng i mx mn = pbind (dkg_rounds L mx idm s b) (\<lambda>x. Ret (Ok x))" if "dkg_part1 L rng i mx mn = Ok (s, b)"
    using that assms by (auto simp: dkg_run_eq dkg_part1_def split: if_splits elim!: rbind_OkE)
  show "key_import_run L rng i mx mn c = pbind (dkg_rounds L mx idm s b) (\<lambda>x. Ret (Ok x))"
    if "key_import_part1 L rng i mx mn c = Ok (s, b)"
    using that assms by (simp add: key_import_run_eq)
  show "reshare_run L rng i mx mn c vk = pbind (dkg_rounds L mx idm s b)
      (\<lambda>x. Ret (rbind (ser_err (vk_serialize L (pk_verifying_key L (snd x)))) (\<lambda>v. if v \<noteq> vk then Err LIB_RESHARE_ERROR else Ok x)))"
    if "reshare_part1 L rng i mx mn c = Ok (s, b)"
    by (simp only: reshare_run_eq assms that pbind_Ret_Ok pbind_Ret_Ret case_prod_unfold fst_conv snd_conv prod.collapse)
qed

section \<open>Properties\<close>

text \<open>C4: The parties of a ceremony agree under every schedule. Let every party run a key generation, a key
  import or a resharing whose first part succeeds, and let the hosts take, route and feed messages in
  any order, with frames overtaking each other, also those of one sender. Then a party whose session
  has succeeded holds exactly the keys that the ceremony computed in one place gives it: from the
  round-one packages of all the others, and from the round-two packages that the others compute for it
  from the same round-one packages. Frames out of order can end a session with an error, but never
  with other keys.\<close>

theorem network_computes_central:
  assumes "ids_ok L" "rounds_distinct L" "part2_for_all L"
    and "\<forall>i \<in> set (parties_of mx).
      (tasks i = dkg_run L (rng i) i mx mn \<and> dkg_part1 L (rng i) i mx mn = Ok (sec i, bs i)) \<or>
      (tasks i = key_import_run L (rng i) i mx mn (share i) \<and>
         key_import_part1 L (rng i) i mx mn (share i) = Ok (sec i, bs i)) \<or>
      (tasks i = reshare_run L (rng i) i mx mn (share i) vk \<and>
         reshare_part1 L (rng i) i mx mn (share i) = Ok (sec i, bs i))"
    and "net_reachable (set (parties_of mx)) tasks s" "i \<in> set (parties_of mx)"
    and "outcome (node s i) = Some (Ok keys)"
  shows "central_dkg L mx sec bs i = Ok keys"
proof -
  obtain idm where idm: "build_id_map L mx = Ok idm" using build_id_map_Ok [OF assms(1)] by blast
  obtain hist out where inv: "net_inv (set (parties_of mx)) tasks s hist out"
    using net_reachable_inv [OF assms(5)] by blast
  have "\<exists>h. tasks i = pbind (dkg_rounds L mx idm (sec i) (bs i)) (\<lambda>x. Ret (h x)) \<and> (\<forall>x y. h x = Ok y \<longrightarrow> x = y)"
    if "i \<in> set (parties_of mx)" for i
  proof -
    note run = ceremonies_run_rounds [OF idm]
    let ?vk = "\<lambda>x. rbind (ser_err (vk_serialize L (pk_verifying_key L (snd x)))) (\<lambda>v. if v \<noteq> vk then Err LIB_RESHARE_ERROR else Ok x)"
    from assms(4) that consider "tasks i = dkg_run L (rng i) i mx mn \<and> dkg_part1 L (rng i) i mx mn = Ok (sec i, bs i)"
      | "tasks i = key_import_run L (rng i) i mx mn (share i) \<and> key_import_part1 L (rng i) i mx mn (share i) = Ok (sec i, bs i)"
      | "tasks i = reshare_run L (rng i) i mx mn (share i) vk \<and> reshare_part1 L (rng i) i mx mn (share i) = Ok (sec i, bs i)"
      by blast
    then show ?thesis
    proof cases
      case 1
      with run(1) show ?thesis by (intro exI [of _ Ok]) auto
    next
      case 2
      with run(2) show ?thesis by (intro exI [of _ Ok]) auto
    next
      case 3
      with run(3) show ?thesis by (intro exI [of _ ?vk]) (auto simp: rbind_eq_Ok split: if_splits)
    qed
  qed
  then obtain h where h: "\<forall>i \<in> set (parties_of mx).
      tasks i = pbind (dkg_rounds L mx idm (sec i) (bs i)) (\<lambda>x. Ret (h i x)) \<and> (\<forall>x y. h i x = Ok y \<longrightarrow> x = y)"
    by metis
  then have "runs_rounds L mx idm sec bs tasks h" using assms(1-3) idm by (simp add: runs_rounds_def)
  from rounds_central [OF this inv assms(6,7)] h assms(6) show ?thesis by blast
qed

section \<open>A concrete run\<close>

text \<open>The library of the other examples, with round-one packages of at least two coefficients.\<close>

definition demo_two_rounds where
  "demo_two_rounds = demo\<lparr>package1_deserialize := (\<lambda>b. if length b < 2 then None else Some (map rat_of_byte b))\<rparr>"

lemma demo_two_rounds_ok: "ids_ok demo_two_rounds" "rounds_distinct demo_two_rounds" "part2_for_all demo_two_rounds"
proof -
  show "ids_ok demo_two_rounds" using ids_ok_demo by (simp add: ids_ok_def demo_two_rounds_def)
  show "rounds_distinct demo_two_rounds" by (auto simp: rounds_distinct_def demo_two_rounds_def demo_def)
  show "part2_for_all demo_two_rounds"
    by (auto simp: part2_for_all_def demo_two_rounds_def demo_def case_prod_unfold comp_def)
qed

definition demo_tasks where
  "demo_tasks i = dkg_run demo_two_rounds (unat i) i 2 2"

definition demo_schedule where
  "demo_schedule = [Takes 2, Takes 1, Delivers 2 1 [2, 0, 2, 3], Delivers 1 2 [1, 0, 1, 2],
     Takes 2, Delivers 2 1 [2, 0, 5]]"

lemma demo_schedule_ends:
  "case net_play (parties_of 2) demo_schedule (net_start demo_tasks) of
     Some s \<Rightarrow> outcome (node s 1) = Some (Ok ((1, 8), 3)) | None \<Rightarrow> False"
  by code_simp

theorem network_computes_central_witness:
  "\<exists>s keys. net_reachable (set (parties_of 2)) demo_tasks s \<and> outcome (node s 1) = Some (Ok keys) \<and>
     central_dkg demo_two_rounds 2 (\<lambda>i. (unat i, [of_nat (unat i), of_nat (unat i + 1)]))
       (\<lambda>i. if i = 1 then [1, 2] else [2, 3]) 1 = Ok keys"
proof -
  obtain s where s: "net_play (parties_of 2) demo_schedule (net_start demo_tasks) = Some s"
    "outcome (node s 1) = Some (Ok ((1, 8), 3))"
    using demo_schedule_ends by (auto split: option.splits)
  then have r: "net_reachable (set (parties_of 2)) demo_tasks s"
    unfolding net_reachable_def by (intro net_play_steps)
  have ps: "parties_of 2 = [1, 2]" by code_simp
  have p: "dkg_part1 demo_two_rounds 1 1 2 2 = Ok ((1, [1, 2]), [1, 2])" "dkg_part1 demo_two_rounds 2 2 2 2 = Ok ((2, [2, 3]), [2, 3])"
    by code_simp+
  have "central_dkg demo_two_rounds 2 (\<lambda>i. (unat i, [of_nat (unat i), of_nat (unat i + 1)]))
       (\<lambda>i. if i = 1 then [1, 2] else [2, 3]) 1 = Ok ((1, 8), 3)"
    by (rule network_computes_central [OF demo_two_rounds_ok _ r _ s(2), where rng = unat and mn = 2 and share = "\<lambda>_. 0" and vk = "[]"])
       (simp_all del: One_nat_def add: ps demo_tasks_def p)
  with r s(2) show ?thesis by blast
qed

end
