(* ===== verification/Network_Signing.thy ===== *)
theory Network_Signing
  imports Network
begin

text \<open>
  Signing in a network of sessions: every signer that succeeds, under any schedule, returns the one
  signature that is aggregated from the commitments and shares of all signers.
\<close>

section \<open>Signing in one place\<close>

text \<open>
  \<open>cb k\<close> are the bytes of the commitments of signer \<open>k\<close>, \<open>nonces k\<close> its nonces and \<open>kp k\<close> its key package.
\<close>

definition central_commitments where
  "central_commitments L S cb ks = rfold (recv_insert L (cm_deserialize S)) (map (\<lambda>k. (k, cb k)) ks) []"

definition central_share where
  "central_share L S cb nonces kp msg ks k =
     rbind (central_commitments L S cb ks) (\<lambda>m.
     rbind (or_blame L (core_sign S (signing_package_new S m msg) (nonces k) (kp k)) LIB_SIGNING_ERROR) (\<lambda>share.
       Ok (k, share_serialize S share)))"

definition central_signature where
  "central_signature L S cb nonces kp pkp msg ks =
     rbind (central_commitments L S cb ks) (\<lambda>m.
     rbind (rmap (central_share L S cb nonces kp msg ks) ks) (\<lambda>ms.
     rbind (rfold (recv_insert L (share_deserialize S)) ms []) (\<lambda>shares.
     rbind (or_blame L (core_aggregate S (signing_package_new S m msg) shares pkp) LIB_SIGNING_ERROR) (\<lambda>signature.
       ser_err (sig_serialize S signature)))))"

text \<open>
  What is relied on: commitments and shares are read back from their bytes, and the bytes of a share,
  which are shorter, are not read as commitments.
\<close>

definition signing_formats_ok ::
  "('i, 'e, 'rng, 'kp, 'pk, 'sig, 'f, 'nonces, 'cm, 'sp, 'sh) frost_sign \<Rightarrow> bool" where
  "signing_formats_ok S \<longleftrightarrow>
     serde_ok (cm_serialize S) (cm_deserialize S) \<and> serde_ok (Some \<circ> share_serialize S) (share_deserialize S) \<and>
     (\<forall>sh. cm_deserialize S (share_serialize S sh) = None)"

text \<open>Every signer runs the session with its own key package and randomness.\<close>

definition signers_ready where
  "signers_ready L S ks kp pkp msg rng nonces cb tasks \<longleftrightarrow>
     (\<forall>k \<in> set ks. tasks k = sign_run L S (rng k) (kp k) pkp msg (length ks) \<and>
        id_try_from L k = Some (kp_identifier L (kp k)) \<and>
        nonces k = fst (commit S (kp_signing_share L (kp k)) (rng k)) \<and>
        cm_serialize S (snd (commit S (kp_signing_share L (kp k)) (rng k))) = Some (cb k))"

section \<open>What a signer sends and returns\<close>

definition own_commitments where
  "own_commitments L S kp rng k = [(kp_identifier L (kp k), snd (commit S (kp_signing_share L (kp k)) (rng k)))]"

definition commitments_from where
  "commitments_from L S kp rng k N fs =
     rfold (recv_insert L (cm_deserialize S)) (map recv_frame (take N fs)) (own_commitments L S kp rng k)"

lemma usize_pred_signers: "k \<in> set ks \<Longrightarrow> usize_pred (length ks) = length ks - 1"
  by (auto simp: usize_pred_def)

lemma sign_output:
  assumes "signers_ready L S ks kp pkp msg rng nonces cb tasks" "k \<in> set ks"
    and "poll (tasks k) fs [] = (p', rest, out)"
  shows "\<exists>ys. out = map (wrap_sender 0) (cb k # ys) \<and>
    (ys \<noteq> [] \<longrightarrow> (\<exists>m sh. length ks - 1 \<le> length fs \<and> commitments_from L S kp rng k (length ks - 1) fs = Ok m \<and>
       core_sign S (signing_package_new S m msg) (nonces k) (kp k) = Inr sh \<and> ys = [share_serialize S sh]))"
proof -
  let ?N = "length ks - 1"
  define g where "g = (\<lambda>m sh. pbind (recv_loop ?N (recv_insert L (share_deserialize S)) [(kp_identifier L (kp k), sh)]) (\<lambda>shares.
     pbind (Ret (or_blame L (core_aggregate S (signing_package_new S m msg) shares pkp) LIB_SIGNING_ERROR)) (\<lambda>signature.
       Ret (ser_err (sig_serialize S signature)))))"
  define h where "h = (\<lambda>m. pbind (Ret (or_blame L (core_sign S (signing_package_new S m msg) (nonces k) (kp k)) LIB_SIGNING_ERROR))
     (\<lambda>sh. pbind (broadcast (share_serialize S sh)) (\<lambda>_. g m sh)))"
  have run: "tasks k = Send (wrap_sender 0 (cb k)) (pbind (recv_loop ?N (recv_insert L (cm_deserialize S)) (own_commitments L S kp rng k)) h)"
    using assms(1,2)
    by (simp add: signers_ready_def sign_run_def Let_def case_prod_unfold ser_err_def broadcast_def wrap_sender_def
        usize_pred_signers [OF assms(2)] own_commitments_def h_def g_def)
  obtain p1 rest1 o1 where p1: "poll (recv_loop ?N (recv_insert L (cm_deserialize S)) (own_commitments L S kp rng k)) fs
      [wrap_sender 0 (cb k)] = (p1, rest1, o1)"
    by (cases "poll (recv_loop ?N (recv_insert L (cm_deserialize S)) (own_commitments L S kp rng k)) fs [wrap_sender 0 (cb k)]")
  note c = poll_recv_loop_cases [OF p1]
  show ?thesis
  proof (cases "\<exists>x. p1 = Ret (Ok x)")
    case False
    then have "out = [wrap_sender 0 (cb k)]"
      using assms(3) p1 c by (auto simp: run poll_pbind split: proc.splits res.splits)
    then show ?thesis by (intro exI [of _ "[]"]) simp
  next
    case True
    then obtain m where m: "?N \<le> length fs" "commitments_from L S kp rng k ?N fs = Ok m" "p1 = Ret (Ok m)" "rest1 = drop ?N fs"
      using c by (auto simp: commitments_from_def)
    have hm: "poll (h m) (drop ?N fs) [wrap_sender 0 (cb k)] = (p', rest, out)"
      using assms(3) p1 c m by (simp add: run poll_pbind)
    show ?thesis
    proof (cases "core_sign S (signing_package_new S m msg) (nonces k) (kp k)")
      case (Inl e)
      with hm have "out = [wrap_sender 0 (cb k)]"
        by (cases "or_blame L (core_sign S (signing_package_new S m msg) (nonces k) (kp k)) LIB_SIGNING_ERROR")
          (auto simp: h_def or_blame_Ok)
      then show ?thesis by (intro exI [of _ "[]"]) simp
    next
      case (Inr sh)
      then have "poll (g m sh) (drop ?N fs) [wrap_sender 0 (cb k), wrap_sender 0 (share_serialize S sh)] = (p', rest, out)"
        using hm by (simp add: h_def or_blame_def broadcast_def wrap_sender_def)
      then have "out = [wrap_sender 0 (cb k), wrap_sender 0 (share_serialize S sh)]"
        using poll_recv_loop_cases [of ?N "recv_insert L (share_deserialize S)" "[(kp_identifier L (kp k), sh)]" "drop ?N fs"]
        by (auto simp: g_def poll_pbind split: proc.splits res.splits prod.splits)
      with Inr m show ?thesis by (intro exI [of _ "[share_serialize S sh]"]) auto
    qed
  qed
qed

lemma sign_returns:
  assumes "signers_ready L S ks kp pkp msg rng nonces cb tasks" "k \<in> set ks"
    and "poll (tasks k) fs [] = (Ret (Ok sig), rest, out)"
  obtains m sh shares signature where "2 * (length ks - 1) \<le> length fs" "commitments_from L S kp rng k (length ks - 1) fs = Ok m"
    "core_sign S (signing_package_new S m msg) (nonces k) (kp k) = Inr sh"
    "rfold (recv_insert L (share_deserialize S)) (map recv_frame (take (length ks - 1) (drop (length ks - 1) fs)))
       [(kp_identifier L (kp k), sh)] = Ok shares"
    "core_aggregate S (signing_package_new S m msg) shares pkp = Inr signature" "sig_serialize S signature = Some sig"
  using assms unfolding signers_ready_def sign_run_def Let_def case_prod_unfold broadcast_def pbind.simps(2) poll.simps(2)
    commitments_from_def own_commitments_def
  by (auto elim!: bind_recv_loop_OkE bind_Ret_OkE simp: or_blame_Ok ser_err_def usize_pred_signers split: res.splits)

section \<open>Agreement\<close>

lemma frames_broadcast:
  "frames_to k j (map (wrap_sender 0) xs) = (if j \<noteq> k then mset (map (wrap_sender k) xs) else {#})"
  by (induction xs) (auto simp: frames_to_simps)

lemma signer_sends:
  assumes "signers_ready L S ks kp pkp msg rng nonces cb tasks" "net_inv (set ks) tasks s hist out" "k \<in> set ks"
  shows "\<exists>ys. frames_to k j (out k) \<subseteq># (if j \<noteq> k then {#wrap_sender k (cb k)#} else {#}) +
      (if j \<noteq> k then mset (map (wrap_sender k) ys) else {#}) \<and>
    (ys \<noteq> [] \<longrightarrow> (\<exists>m sh. length ks - 1 \<le> length (hist k) \<and> commitments_from L S kp rng k (length ks - 1) (hist k) = Ok m \<and>
       core_sign S (signing_package_new S m msg) (nonces k) (kp k) = Inr sh \<and> ys = [share_serialize S sh]))"
proof -
  obtain p' rest o1 where p': "poll (tasks k) (hist k) [] = (p', rest, o1)" by (cases "poll (tasks k) (hist k) []")
  have sim: "out k @ outbox (node s k) = o1" using assms(2,3) p' by (auto simp: net_inv_def simulates_def)
  obtain ys where ys: "o1 = map (wrap_sender 0) (cb k # ys)"
    "ys \<noteq> [] \<longrightarrow> (\<exists>m sh. length ks - 1 \<le> length (hist k) \<and> commitments_from L S kp rng k (length ks - 1) (hist k) = Ok m \<and>
       core_sign S (signing_package_new S m msg) (nonces k) (kp k) = Inr sh \<and> ys = [share_serialize S sh])"
    using sign_output [OF assms(1,3) p'] by blast
  have "frames_to k j (out k) \<subseteq># frames_to k j o1"
    unfolding sim [symmetric] frames_to_def by (simp add: filter_append)
  also have "frames_to k j o1 = (if j \<noteq> k then {#wrap_sender k (cb k)#} else {#}) +
      (if j \<noteq> k then mset (map (wrap_sender k) ys) else {#})"
    unfolding ys(1) frames_broadcast by simp
  finally show ?thesis using ys(2) by blast
qed

text \<open>A loop over the others that starts with the own value is a loop over all from nothing.\<close>

lemma loop_with_own:
  assumes "ids_ok L" "distinct ks" "j \<in> set ks" "id_try_from L j = Some ident" "de (b j) = Some v"
    and "rfold (recv_insert L de) (map (\<lambda>k. (k, b k)) (filter (\<lambda>k. k \<noteq> j) ks)) [(ident, v)] = Ok r"
  shows "rfold (recv_insert L de) (map (\<lambda>k. (k, b k)) ks) [] = Ok r"
proof -
  let ?k = "\<lambda>k. (k, b k)"
  let ?js = "j # filter (\<lambda>k. k \<noteq> j) ks"
  have "recv_insert L de (j, b j) [] = Ok [(ident, v)]" using assms(4,5) by (simp add: recv_insert_Ok)
  then have run: "rfold (recv_insert L de) (map ?k ?js) [] = Ok r" using assms(6) by simp
  have js: "distinct ?js" "set ?js = set ks" using assms(2,3) by auto
  then have "mset ?js = mset ks" using assms(2) by (simp only: set_eq_iff_mset_eq_distinct)
  then have perm: "mset (map ?k ?js) = mset (map ?k ks)" by (simp only: mset_map)
  have keys: "distinct (map fst (map ?k ?js))" using js(1) by (simp only: map_map comp_def fst_conv list.map_ident)
  show ?thesis by (rule rfold_recv_perm [OF run bt_wf_Nil assms(1) keys perm])
qed

lemma rmap_Ok_each: "rmap f xs = Ok ys \<Longrightarrow> x \<in> set xs \<Longrightarrow> \<exists>y. f x = Ok y"
  by (induction xs arbitrary: ys) (auto elim!: rbind_OkE)

lemma bt_wf_single: "bt_wf [(k, v)]"
  by (simp add: bt_wf_def)

lemma commitments_agree:
  assumes "ids_ok L" "signing_formats_ok S" "distinct ks" "signers_ready L S ks kp pkp msg rng nonces cb tasks"
    and "net_inv (set ks) tasks s hist out" "j \<in> set ks" "length ks - 1 \<le> length (hist j)"
    and "commitments_from L S kp rng j (length ks - 1) (hist j) = Ok m"
  shows "central_commitments L S cb ks = Ok m"
    "\<And>k. k \<in> set ks \<Longrightarrow> k \<noteq> j \<Longrightarrow> from_party k (take (length ks - 1) (hist j)) = {#wrap_sender k (cb k)#}"
proof -
  let ?own = "(kp_identifier L (kp j), snd (commit S (kp_signing_share L (kp j)) (rng j)))"
  have sent: "\<exists>R. frames_to k j (out k) \<subseteq># (if j \<noteq> k then {#wrap_sender k (cb k)#} else {#}) + R \<and>
      (\<forall>f \<in># R. cm_deserialize S (snd (recv_frame f)) = None)" if k: "k \<in> set ks" for k
  proof -
    obtain ys where ys: "frames_to k j (out k) \<subseteq># (if j \<noteq> k then {#wrap_sender k (cb k)#} else {#}) +
        (if j \<noteq> k then mset (map (wrap_sender k) ys) else {#})" "\<forall>d \<in> set ys. \<exists>sh. d = share_serialize S sh"
      using signer_sends [OF assms(4,5) k, of j] by force
    have "cm_deserialize S d = None" if "d \<in> set ys" for d
      using ys(2) that assms(2) unfolding signing_formats_ok_def by auto
    then have "\<forall>f \<in># (if j \<noteq> k then mset (map (wrap_sender k) ys) else {#}). cm_deserialize S (snd (recv_frame f)) = None"
      by auto
    with ys(1) show ?thesis by blast
  qed
  have loop: "rfold (recv_insert L (cm_deserialize S)) (map recv_frame (take (length ks - 1) (hist j))) [?own] = Ok m"
    using assms(8) by (simp add: commitments_from_def own_commitments_def)
  note first = first_loop [OF assms(1,3,6,5,7) loop bt_wf_single sent]
  have own: "id_try_from L j = Some (fst ?own)" "cm_deserialize S (cb j) = Some (snd ?own)"
    using assms(2,4,6) by (auto simp: signers_ready_def signing_formats_ok_def serde_ok_def)
  show "central_commitments L S cb ks = Ok m"
    unfolding central_commitments_def
    by (rule loop_with_own [where b = cb and de = "cm_deserialize S", OF assms(1,3,6) own]) (simp add: first(1))
  show "\<And>k. k \<in> set ks \<Longrightarrow> k \<noteq> j \<Longrightarrow> from_party k (take (length ks - 1) (hist j)) = {#wrap_sender k (cb k)#}"
    by (rule first(2))
qed

lemma shares_agree:
  assumes "ids_ok L" "signing_formats_ok S" "distinct ks" "signers_ready L S ks kp pkp msg rng nonces cb tasks"
    and "net_inv (set ks) tasks s hist out" "i \<in> set ks" "2 * (length ks - 1) \<le> length (hist i)"
    and "commitments_from L S kp rng i (length ks - 1) (hist i) = Ok m"
    and "core_sign S (signing_package_new S m msg) (nonces i) (kp i) = Inr sh"
    and "rfold (recv_insert L (share_deserialize S)) (map recv_frame (take (length ks - 1) (drop (length ks - 1) (hist i))))
       [(kp_identifier L (kp i), sh)] = Ok shares"
  shows "\<exists>ms. rmap (central_share L S cb nonces kp msg ks) ks = Ok ms \<and>
    rfold (recv_insert L (share_deserialize S)) ms [] = Ok shares"
proof -
  let ?c = "central_share L S cb nonces kp msg ks"
  have "length ks - 1 \<le> length (hist i)" using assms(7) by simp
  note one = commitments_agree [OF assms(1-6) this assms(8)]
  have share: "?c k = Ok (k, share_serialize S sh')"
    if "core_sign S (signing_package_new S m msg) (nonces k) (kp k) = Inr sh'" for k sh'
    using that one(1) by (simp add: central_share_def or_blame_def)
  have sent: "\<exists>R. frames_to k i (out k) \<subseteq># (if i \<noteq> k then {#wrap_sender k (cb k)#} else {#}) + R \<and> size R \<le> 1 \<and>
      (\<forall>f \<in># R. k \<noteq> i \<and> ?c k = Ok (recv_frame f))" if k: "k \<in> set ks" for k
  proof -
    obtain ys where ys: "frames_to k i (out k) \<subseteq># (if i \<noteq> k then {#wrap_sender k (cb k)#} else {#}) +
        (if i \<noteq> k then mset (map (wrap_sender k) ys) else {#})"
      "ys \<noteq> [] \<longrightarrow> (\<exists>m sh. length ks - 1 \<le> length (hist k) \<and> commitments_from L S kp rng k (length ks - 1) (hist k) = Ok m \<and>
         core_sign S (signing_package_new S m msg) (nonces k) (kp k) = Inr sh \<and> ys = [share_serialize S sh])"
      using signer_sends [OF assms(4,5) k, of i] by blast
    have "length ys \<le> 1 \<and> (\<forall>d \<in> set ys. ?c k = Ok (k, d))"
    proof (cases "ys = []")
      case False
      with ys(2) obtain m' sh' where q: "length ks - 1 \<le> length (hist k)"
        "commitments_from L S kp rng k (length ks - 1) (hist k) = Ok m'"
        "core_sign S (signing_package_new S m' msg) (nonces k) (kp k) = Inr sh'" "ys = [share_serialize S sh']" by blast
      have "m' = m" using commitments_agree(1) [OF assms(1-5) k q(1,2)] one(1) by simp
      with q(3,4) share show ?thesis by simp
    qed simp
    then have "size (if i \<noteq> k then mset (map (wrap_sender k) ys) else {#}) \<le> 1 \<and>
        (\<forall>f \<in># (if i \<noteq> k then mset (map (wrap_sender k) ys) else {#}). k \<noteq> i \<and> ?c k = Ok (recv_frame f))" by auto
    with ys(1) show ?thesis by blast
  qed
  from second_loop [OF assms(1,3,6,5,7,10) bt_wf_single one(2) sent]
  obtain ms where ms: "rmap ?c (filter (\<lambda>k. k \<noteq> i) ks) = Ok ms"
    "rfold (recv_insert L (share_deserialize S)) ms [(kp_identifier L (kp i), sh)] = Ok shares" by blast
  define D where "D = (\<lambda>k. case ?c k of Ok m \<Rightarrow> snd m | _ \<Rightarrow> [])"
  have c: "?c k = Ok (k, D k)" if "k \<in> set ks" for k
  proof (cases "k = i")
    case False
    with that ms(1) obtain y where "?c k = Ok y" using rmap_Ok_each [OF ms(1), of k] by auto
    then show ?thesis by (auto simp: D_def central_share_def rbind_eq_Ok)
  qed (use share [OF assms(9)] in \<open>simp add: D_def\<close>)
  then have "ms = map (\<lambda>k. (k, D k)) (filter (\<lambda>k. k \<noteq> i) ks)"
    using ms(1) rmap_Ok_map [of "filter (\<lambda>k. k \<noteq> i) ks" ?c "\<lambda>k. (k, D k)"] by simp
  then have others: "rfold (recv_insert L (share_deserialize S)) (map (\<lambda>k. (k, D k)) (filter (\<lambda>k. k \<noteq> i) ks))
      [(kp_identifier L (kp i), sh)] = Ok shares" using ms(2) by simp
  have ident: "id_try_from L i = Some (kp_identifier L (kp i))" using assms(4,6) by (simp add: signers_ready_def)
  have own: "share_deserialize S (D i) = Some sh"
    using assms(2) share [OF assms(9)] by (simp add: D_def signing_formats_ok_def serde_ok_def)
  have "rfold (recv_insert L (share_deserialize S)) (map (\<lambda>k. (k, D k)) ks) [] = Ok shares"
    by (rule loop_with_own [where b = D and de = "share_deserialize S", OF assms(1,3,6) ident own others])
  moreover have "rmap ?c ks = Ok (map (\<lambda>k. (k, D k)) ks)" using c by (intro rmap_Ok_map) simp
  ultimately show ?thesis by blast
qed

lemma signs_central:
  assumes "ids_ok L" "signing_formats_ok S" "distinct ks" "signers_ready L S ks kp pkp msg rng nonces cb tasks"
    and "net_inv (set ks) tasks s hist out" "i \<in> set ks" "outcome (node s i) = Some (Ok sig)"
  shows "central_signature L S cb nonces kp pkp msg ks = Ok sig"
proof -
  obtain p' rest o1 where p': "poll (tasks i) (hist i) [] = (p', rest, o1)" by (cases "poll (tasks i) (hist i) []")
  have "outcome_of p' = Some (Ok sig)" using assms(5-7) p' by (auto simp: net_inv_def simulates_def)
  then have "p' = Ret (Ok sig)" by (auto simp: outcome_of_def split: proc.splits res.splits)
  with p' have run: "poll (tasks i) (hist i) [] = (Ret (Ok sig), rest, o1)" by simp
  from sign_returns [OF assms(4,6) run] obtain m sh shares signature where
    r: "2 * (length ks - 1) \<le> length (hist i)" "commitments_from L S kp rng i (length ks - 1) (hist i) = Ok m"
      "core_sign S (signing_package_new S m msg) (nonces i) (kp i) = Inr sh"
      "rfold (recv_insert L (share_deserialize S)) (map recv_frame (take (length ks - 1) (drop (length ks - 1) (hist i))))
         [(kp_identifier L (kp i), sh)] = Ok shares"
    and sig: "core_aggregate S (signing_package_new S m msg) shares pkp = Inr signature" "sig_serialize S signature = Some sig" .
  have "central_commitments L S cb ks = Ok m"
    using r(1) by (intro commitments_agree(1) [OF assms(1-6) _ r(2)]) simp
  with shares_agree [OF assms(1-6) r] sig show ?thesis
    by (auto simp: central_signature_def or_blame_def ser_err_def)
qed

section \<open>Properties\<close>

text \<open>C5: The signers of a message end with one signature under every schedule. Let every signer run the
  signing session on the same message with its own key package and randomness, and let the hosts take,
  route and feed messages in any order, with frames overtaking each other. Then the signature of a signer
  whose session has succeeded is the one aggregated in one place from the commitments of all signers and
  from the shares that they compute over those commitments, and every other signer whose session has
  succeeded holds the same bytes.\<close>

theorem network_signs_once:
  assumes "ids_ok L" "signing_formats_ok S" "distinct ks" "signers_ready L S ks kp pkp msg rng nonces cb tasks"
    and "net_reachable (set ks) tasks s" "i \<in> set ks" "outcome (node s i) = Some (Ok sig)"
  shows "central_signature L S cb nonces kp pkp msg ks = Ok sig \<and>
    (\<forall>j \<in> set ks. \<forall>sig'. outcome (node s j) = Some (Ok sig') \<longrightarrow> sig' = sig)"
proof -
  obtain hist out where inv: "net_inv (set ks) tasks s hist out" using net_reachable_inv [OF assms(5)] by blast
  note central = signs_central [OF assms(1-4) inv]
  from central [OF assms(6,7)] show ?thesis using central by fastforce
qed

section \<open>A concrete run\<close>

text \<open>A signing scheme on bytes; only the formats matter.\<close>

definition demo_signer :: "(nat, nat option, nat, nat \<times> rat, rat, u8, rat, nat, u8, (nat \<times> u8) list \<times> bytes, u8) frost_sign" where
  "demo_signer = \<lparr>
     commit = (\<lambda>x r. (r, of_nat (r + 1))),
     cm_serialize = (\<lambda>c. Some [c]),
     cm_deserialize = (\<lambda>b. case b of [x] \<Rightarrow> Some x | _ \<Rightarrow> None),
     signing_package_new = Pair,
     sp_serialize = (\<lambda>_. None),
     core_sign = (\<lambda>(cs, m) n (i, x). Inr (sum_list (map snd cs) + of_nat (n * i))),
     share_serialize = (\<lambda>x. [x, 0]),
     share_deserialize = (\<lambda>b. case b of [x, y] \<Rightarrow> Some x | _ \<Rightarrow> None),
     core_aggregate = (\<lambda>sp xs pk. Inr (sum_list (map snd xs))),
     sig_serialize = (\<lambda>x. Some [x])\<rparr>"

lemma demo_signer_ok: "signing_formats_ok demo_signer"
  by (auto simp: signing_formats_ok_def serde_ok_def demo_signer_def)

lemma demo_fields:
  "commit demo_signer = (\<lambda>x r. (r, of_nat (r + 1)))" "cm_serialize demo_signer = (\<lambda>c. Some [c])"
  "id_try_from demo = (\<lambda>n. if n = 0 then None else Some (unat n))" "kp_identifier demo = fst"
  by (simp_all add: demo_signer_def demo_def)

definition demo_signers where
  "demo_signers k = sign_run demo demo_signer (unat k) (unat k, 5) 3 [7] 2"

text \<open>The frame with the share of signer 2 is delivered after its commitments, while signer 1 waits for it.\<close>

definition demo_signing where
  "demo_signing = [Takes 2, Takes 1, Delivers 1 2 [1, 0, 2], Takes 2, Delivers 2 1 [2, 0, 3], Delivers 2 1 [2, 0, 9, 0]]"

lemma demo_signing_ends:
  "case net_play [1, 2] demo_signing (net_start demo_signers) of
     Some s \<Rightarrow> outcome (node s 1) = Some (Ok [15]) | None \<Rightarrow> False"
  by code_simp

theorem network_signs_once_witness:
  "\<exists>s sig. net_reachable {1, 2} demo_signers s \<and> outcome (node s 1) = Some (Ok sig) \<and>
     central_signature demo demo_signer (\<lambda>k. [ucast k + 1]) unat (\<lambda>k. (unat k, 5)) 3 [7] [1, 2] = Ok sig"
proof -
  obtain s where s: "net_play [1, 2] demo_signing (net_start demo_signers) = Some s"
    "outcome (node s 1) = Some (Ok [15])"
    using demo_signing_ends by (auto split: option.splits)
  then have r: "net_reachable (set [1, 2]) demo_signers s"
    unfolding net_reachable_def by (intro net_play_steps)
  have ready: "signers_ready demo demo_signer [1, 2] (\<lambda>k. (unat k, 5)) 3 [7] unat unat (\<lambda>k. [ucast k + 1]) demo_signers"
    by (simp del: One_nat_def add: signers_ready_def demo_signers_def demo_fields numeral_2_eq_2 [symmetric])
  have "central_signature demo demo_signer (\<lambda>k. [ucast k + 1]) unat (\<lambda>k. (unat k, 5)) 3 [7] [1, 2] = Ok [15]"
    using network_signs_once [OF ids_ok_demo demo_signer_ok _ ready r _ s(2)] by simp
  with r s(2) show ?thesis by auto
qed

end
