(* ===== verification/Network_Relay.thy ===== *)
theory Network_Relay
  imports Network_Agreement Network_Signing
begin

text \<open>
  A relay that keeps one log for all parties, which every host reads in its order. There the messages of a
  round never overtake those of the round before, so that the ceremonies complete: when the ceremony
  computed in one place succeeds, no session fails, and when everything was posted and read, all
  have succeeded.
\<close>

section \<open>The relay\<close>

text \<open>
  \<open>session_of i\<close> is the session of party \<open>i\<close>, \<open>posts\<close> the log of messages with their senders, and \<open>seen i\<close> the
  number of posts that the host of \<open>i\<close> has read. It skips those that are not for it.
\<close>

record 'a relay =
  session_of :: "u16 \<Rightarrow> 'a protocol"
  posts :: "(u16 \<times> bytes) list"
  seen :: "u16 \<Rightarrow> nat"

inductive relay_step :: "u16 set \<Rightarrow> 'a relay \<Rightarrow> 'a relay \<Rightarrow> bool" for ps where
  posted: "j \<in> ps \<Longrightarrow> take_msg (session_of s j) = (Some m, pr) \<Longrightarrow>
     relay_step ps s (s\<lparr>session_of := (session_of s)(j := pr), posts := posts s @ [(j, m)]\<rparr>)"
| fetched: "i \<in> ps \<Longrightarrow> seen s i < length (posts s) \<Longrightarrow> posts s ! seen s i = (j, m) \<Longrightarrow>
     relay_step ps s (s\<lparr>
       session_of := (if addressed j i m then (session_of s)(i := snd (feed (frame_of j m) (session_of s i))) else session_of s),
       seen := (seen s)(i := Suc (seen s i))\<rparr>)"

definition relay_start :: "(u16 \<Rightarrow> 'a proc) \<Rightarrow> 'a relay" where
  "relay_start tasks = \<lparr>session_of = (\<lambda>i. snd (start (tasks i))), posts = [], seen = (\<lambda>i. 0)\<rparr>"

definition relay_reachable :: "u16 set \<Rightarrow> (u16 \<Rightarrow> 'a proc) \<Rightarrow> 'a relay \<Rightarrow> bool" where
  "relay_reachable ps tasks = (relay_step ps)\<^sup>*\<^sup>* (relay_start tasks)"

text \<open>What was posted by a party, and the frames for a party among some posts.\<close>

definition posts_of :: "u16 \<Rightarrow> (u16 \<times> bytes) list \<Rightarrow> bytes list" where
  "posts_of j es = map snd (filter (\<lambda>e. fst e = j) es)"

definition frames_for :: "u16 \<Rightarrow> (u16 \<times> bytes) list \<Rightarrow> bytes list" where
  "frames_for i es = map (\<lambda>(j, m). frame_of j m) (filter (\<lambda>(j, m). addressed j i m) es)"

lemma posts_of_append [simp]: "posts_of j (xs @ ys) = posts_of j xs @ posts_of j ys"
  by (simp add: posts_of_def)

lemma posts_of_simps [simp]:
  "posts_of j [] = []" "posts_of j ((k, m) # es) = (if k = j then m # posts_of j es else posts_of j es)"
  by (simp_all add: posts_of_def)

lemma frames_for_append [simp]: "frames_for j (xs @ ys) = frames_for j xs @ frames_for j ys"
  by (simp add: frames_for_def)

lemma frames_for_simps [simp]:
  "frames_for i [] = []"
  "frames_for i ((j, m) # es) = (if addressed j i m then frame_of j m # frames_for i es else frames_for i es)"
  by (simp_all add: frames_for_def)

text \<open>Every session follows its task on the posts that its host has read.\<close>

definition relay_inv where
  "relay_inv ps tasks s \<longleftrightarrow> fst ` set (posts s) \<subseteq> ps \<and>
     (\<forall>i \<in> ps. seen s i \<le> length (posts s) \<and>
        simulates (tasks i) (frames_for i (take (seen s i) (posts s))) (posts_of i (posts s), session_of s i))"

lemma relay_inv_start: "relay_inv ps tasks (relay_start tasks)"
  by (simp add: relay_inv_def relay_start_def simulates_start)

lemma relay_inv_step:
  assumes "relay_step ps s s'" "relay_inv ps tasks s"
  shows "relay_inv ps tasks s'"
  using assms(1)
proof cases
  case (posted j m pr)
  have "simulates (tasks j) (frames_for j (take (seen s j) (posts s)))
      (host_step Take_msg (posts_of j (posts s), session_of s j))"
    using assms(2) posted(2) by (intro simulates_take) (simp add: relay_inv_def)
  with posted assms(2) show ?thesis by (auto simp: relay_inv_def)
next
  case (fetched i j m)
  have "simulates (tasks i) (frames_for i (take (seen s i) (posts s)) @ [frame_of j m])
      (host_step (Feed (frame_of j m)) (posts_of i (posts s), session_of s i))"
    using assms(2) fetched(2) by (intro simulates_feed) (simp add: relay_inv_def)
  moreover have "take (Suc (seen s i)) (posts s) = take (seen s i) (posts s) @ [(j, m)]"
    using fetched(3,4) by (simp add: take_Suc_conv_app_nth)
  ultimately show ?thesis using fetched assms(2) by (auto simp: relay_inv_def)
qed

lemma relay_reachable_inv: "relay_reachable ps tasks s \<Longrightarrow> relay_inv ps tasks s"
  unfolding relay_reachable_def
  by (induction rule: rtranclp_induct) (auto intro: relay_inv_start relay_inv_step)

section \<open>Ceremonies of two rounds\<close>

text \<open>
  A party \<open>k\<close> broadcasts \<open>b k\<close> at once and the messages \<open>sec k\<close> when it has got the broadcasts of the others; one of
  these messages, as the frame \<open>second k i\<close>, goes to \<open>i\<close>. With the messages of both rounds, each in any
  order, the task of \<open>i\<close> returns \<open>res i\<close>.
\<close>

definition complete_rounds where
  "complete_rounds ps b second i fs1 fs2 \<longleftrightarrow>
     mset fs1 = mset (map (\<lambda>k. wrap_sender k (b k)) (filter (\<lambda>k. k \<noteq> i) ps)) \<and>
     mset fs2 = mset (map (\<lambda>k. second k i) (filter (\<lambda>k. k \<noteq> i) ps))"

definition two_rounds where
  "two_rounds ps tasks b sec second res \<longleftrightarrow> distinct ps \<and>
     (\<forall>i \<in> set ps. \<forall>k \<in> set ps. frames_for i (map (Pair k) (sec k)) = (if k = i then [] else [second k i])) \<and>
     (\<forall>i \<in> set ps. \<forall>h p' rest out. length h < length ps - 1 \<longrightarrow> poll (tasks i) h [] = (p', rest, out) \<longrightarrow>
        out = [wrap_sender 0 (b i)]) \<and>
     (\<forall>i \<in> set ps. \<forall>fs1 fs2. complete_rounds ps b second i fs1 fs2 \<longrightarrow>
        poll (tasks i) (fs1 @ fs2) [] = (Ret (Ok (res i)), [], wrap_sender 0 (b i) # sec i) \<and>
        snd (snd (poll (tasks i) fs1 [])) = wrap_sender 0 (b i) # sec i)"

lemma complete_length: "complete_rounds ps b second i fs1 fs2 \<Longrightarrow> distinct ps \<Longrightarrow> i \<in> set ps \<Longrightarrow> length fs1 = length ps - 1"
proof -
  assume "complete_rounds ps b second i fs1 fs2" and ps: "distinct ps" "i \<in> set ps"
  then have "size (mset fs1) = size (mset (map (\<lambda>k. wrap_sender k (b k)) (filter (\<lambda>k. k \<noteq> i) ps)))"
    by (simp only: complete_rounds_def)
  then show "length fs1 = length ps - 1" by (simp only: size_mset length_map length_filter_other [OF ps])
qed

lemma two_rounds_complete:
  assumes "two_rounds ps tasks b sec second res" "i \<in> set ps" "complete_rounds ps b second i fs1 fs2"
  shows "poll (tasks i) (fs1 @ fs2) [] = (Ret (Ok (res i)), [], wrap_sender 0 (b i) # sec i)"
    "snd (snd (poll (tasks i) fs1 [])) = wrap_sender 0 (b i) # sec i"
proof -
  have "\<forall>i \<in> set ps. \<forall>fs1 fs2. complete_rounds ps b second i fs1 fs2 \<longrightarrow>
      poll (tasks i) (fs1 @ fs2) [] = (Ret (Ok (res i)), [], wrap_sender 0 (b i) # sec i) \<and>
      snd (snd (poll (tasks i) fs1 [])) = wrap_sender 0 (b i) # sec i"
    using assms(1) unfolding two_rounds_def by (elim conjE)
  from this [rule_format, OF assms(2,3)]
  show "poll (tasks i) (fs1 @ fs2) [] = (Ret (Ok (res i)), [], wrap_sender 0 (b i) # sec i)"
    "snd (snd (poll (tasks i) fs1 [])) = wrap_sender 0 (b i) # sec i" by simp_all
qed

text \<open>A task on a part of its messages, from the beginning.\<close>

lemma prefix_of_rounds:
  assumes "two_rounds ps tasks b sec second res" "i \<in> set ps" "complete_rounds ps b second i fs1 fs2" "h @ X = fs1 @ fs2"
    and "poll (tasks i) h [] = (p', rest, out)"
  shows "\<exists>more. wrap_sender 0 (b i) # sec i = out @ more" "\<forall>r. outcome_of p' = Some r \<longrightarrow> r = Ok (res i)"
    "length ps - 1 \<le> length h \<Longrightarrow> out = wrap_sender 0 (b i) # sec i"
proof -
  let ?full = "wrap_sender 0 (b i) # sec i"
  have c: "poll (tasks i) (h @ X) [] = (Ret (Ok (res i)), [], ?full)" "snd (snd (poll (tasks i) fs1 [])) = ?full"
    using two_rounds_complete [OF assms(1-3)] by (simp_all only: assms(4))
  have on: "poll p' (rest @ X) out = (Ret (Ok (res i)), [], ?full)" using c(1) unfolding poll_append [of _ h X] assms(5) by simp
  show more: "\<exists>more. ?full = out @ more"
  proof -
    obtain p2 rest2 o2 where "poll p' (rest @ X) [] = (p2, rest2, o2)" by (cases "poll p' (rest @ X) []")
    with on have "?full = out @ o2" by (simp add: poll_outbox [of p' "rest @ X" out])
    then show ?thesis by blast
  qed
  show "\<forall>r. outcome_of p' = Some r \<longrightarrow> r = Ok (res i)"
    using on by (auto simp: outcome_of_def split: proc.splits res.splits)
  assume len: "length ps - 1 \<le> length h"
  have "length fs1 = length ps - 1"
    using complete_length [OF assms(3)] assms(1,2) by (simp add: two_rounds_def)
  then have "take (length fs1) h = fs1" using len arg_cong [OF assms(4), of "take (length fs1)"] by simp
  then obtain h2 where h: "h = fs1 @ h2" by (metis append_take_drop_id)
  obtain p1 rest1 where p1: "poll (tasks i) fs1 [] = (p1, rest1, ?full)"
    using c(2) by (cases "poll (tasks i) fs1 []") auto
  have "poll p1 (rest1 @ h2) ?full = (p', rest, out)"
    using assms(5) unfolding h poll_append [of _ fs1 h2] p1 by simp
  moreover obtain p2 rest2 o2 where "poll p1 (rest1 @ h2) [] = (p2, rest2, o2)" by (cases "poll p1 (rest1 @ h2) []")
  ultimately have "out = ?full @ o2" by (simp add: poll_outbox [of p1 "rest1 @ h2" ?full])
  with more show "out = ?full" by auto
qed

section \<open>The shape of the log\<close>

definition log_shape where
  "log_shape ps b sec es \<longleftrightarrow> (\<exists>ks rest. es = map (\<lambda>k. (k, wrap_sender 0 (b k))) ks @ rest \<and> distinct ks \<and> set ks \<subseteq> set ps \<and>
     (rest \<noteq> [] \<longrightarrow> set ks = set ps) \<and> fst ` set rest \<subseteq> set ps \<and>
     (\<forall>j \<in> set ps. \<exists>c. posts_of j rest = take c (sec j)))"

lemma broadcasts_for:
  "frames_for i (map (\<lambda>k. (k, wrap_sender 0 (b k))) ks) = map (\<lambda>k. wrap_sender k (b k)) (filter (\<lambda>k. k \<noteq> i) ks)"
  by (induction ks) (auto simp: addressed_def frame_of_def read_recipient_wrap payload_wrap)

lemma broadcasts_of:
  "distinct ks \<Longrightarrow> posts_of j (map (\<lambda>k. (k, wrap_sender 0 (b k))) ks) = (if j \<in> set ks then [wrap_sender 0 (b j)] else [])"
  by (induction ks) auto

lemma frames_from_sender: "filter (\<lambda>f. fst (recv_frame f) = k) (frames_for i es) = frames_for i (map (Pair k) (posts_of k es))"
  by (induction es) auto

lemma frames_for_take: "\<exists>c'. frames_for i (map (Pair k) (take c ms)) = take c' (frames_for i (map (Pair k) ms))"
  by (metis append_eq_conv_conj append_take_drop_id frames_for_append map_append)

text \<open>The frames of the second round that are in the log are some of those that the party waits for.\<close>

lemma second_frames:
  assumes "\<forall>k \<in> set ps. frames_for i (map (Pair k) (sec k)) = (if k = i then [] else [second k i])"
    and "fst ` set rest \<subseteq> set ps" "\<forall>j \<in> set ps. \<exists>c. posts_of j rest = take c (sec j)"
  shows "mset (frames_for i rest) \<subseteq># mset (map (\<lambda>k. second k i) (filter (\<lambda>k. k \<noteq> i) ps))"
proof (rule mset_subset_eqI)
  fix f
  let ?k = "fst (recv_frame f)" and ?all = "map (\<lambda>k. second k i) (filter (\<lambda>k. k \<noteq> i) ps)"
  have "count (mset (frames_for i rest)) f = count (mset (filter (\<lambda>g. fst (recv_frame g) = ?k) (frames_for i rest))) f"
    by simp
  also have "\<dots> = count (mset (frames_for i (map (Pair ?k) (posts_of ?k rest)))) f" by (simp only: frames_from_sender)
  also have "\<dots> \<le> count (mset ?all) f"
  proof (cases "?k \<in> set ps")
    case True
    with assms(3) obtain c where c: "posts_of ?k rest = take c (sec ?k)" by blast
    have all: "frames_for i (map (Pair ?k) (sec ?k)) = (if ?k = i then [] else [second ?k i])"
      using assms(1) True by (rule bspec)
    obtain c' where "frames_for i (map (Pair ?k) (take c (sec ?k))) = take c' (frames_for i (map (Pair ?k) (sec ?k)))"
      using frames_for_take by blast
    then have c': "frames_for i (map (Pair ?k) (posts_of ?k rest)) = take c' (if ?k = i then [] else [second ?k i])"
      by (simp only: c all)
    show ?thesis
    proof (cases "?k = i")
      case False
      then have "second ?k i \<in># mset ?all" using True by auto
      then have "mset [second ?k i] \<subseteq># mset ?all" by simp
      then have "mset (take c' [second ?k i]) \<subseteq># mset ?all" by (cases c') simp_all
      then show ?thesis using False by (simp only: c' if_False mset_subset_eq_count)
    next
      case True
      with c' have "frames_for i (map (Pair ?k) (posts_of ?k rest)) = []" by simp
      then show ?thesis by (simp only:) simp
    qed
  next
    case False
    then have "posts_of ?k rest = []" using assms(2) by (auto simp: posts_of_def filter_empty_conv)
    then show ?thesis by simp
  qed
  finally show "count (mset (frames_for i rest)) f \<le> count (mset ?all) f" .
qed

lemma extend_mset: "mset xs \<subseteq># mset ys \<Longrightarrow> \<exists>zs. mset (xs @ zs) = mset ys"
  by (metis ex_mset mset_append subset_mset.add_diff_inverse)

lemma some_broadcasts:
  assumes "distinct ks" "distinct ps" "set ks \<subseteq> set ps"
  shows "mset (map f (filter P ks)) \<subseteq># mset (map f (filter P ps))"
proof -
  have "mset ks \<subseteq># mset ps" using assms by (simp add: mset_set_set [symmetric] subset_imp_msubset_mset_set)
  then show ?thesis by (simp add: image_mset_subseteq_mono multiset_filter_mono)
qed

text \<open>What a party can read is the beginning of a complete ceremony.\<close>

lemma log_completes:
  assumes "two_rounds ps tasks b sec second res" "i \<in> set ps" "log_shape ps b sec es"
  shows "\<exists>fs1 fs2 X. complete_rounds ps b second i fs1 fs2 \<and> frames_for i es @ X = fs1 @ fs2"
proof -
  let ?o = "filter (\<lambda>k. k \<noteq> i)" and ?f = "\<lambda>k. wrap_sender k (b k)"
  have ps: "distinct ps" "\<forall>k \<in> set ps. frames_for i (map (Pair k) (sec k)) = (if k = i then [] else [second k i])"
    using assms(1,2) by (simp_all add: two_rounds_def)
  obtain ks rest where es: "es = map (\<lambda>k. (k, wrap_sender 0 (b k))) ks @ rest" "distinct ks" "set ks \<subseteq> set ps"
    "rest \<noteq> [] \<longrightarrow> set ks = set ps" "fst ` set rest \<subseteq> set ps" "\<forall>j \<in> set ps. \<exists>c. posts_of j rest = take c (sec j)"
    using assms(3) by (auto simp: log_shape_def)
  obtain z1 where z1: "mset (map ?f (?o ks) @ z1) = mset (map ?f (?o ps))"
    using extend_mset [OF some_broadcasts [OF es(2) ps(1) es(3)]] by blast
  obtain z2 where z2: "mset (frames_for i rest @ z2) = mset (map (\<lambda>k. second k i) (?o ps))"
    using extend_mset [OF second_frames [where second = second and sec = sec, OF ps(2) es(5,6)]] by blast
  have c: "complete_rounds ps b second i (map ?f (?o ks) @ z1) (frames_for i rest @ z2)"
    using z1 z2 by (simp only: complete_rounds_def)
  have "frames_for i es @ (if rest = [] then z1 @ z2 else z2) = (map ?f (?o ks) @ z1) @ (frames_for i rest @ z2)"
  proof (cases "rest = []")
    case False
    with es(4) have "set ks = set ps" by blast
    then have "mset ks = mset ps" using es(2) ps(1) by (simp only: set_eq_iff_mset_eq_distinct)
    then have "mset (map ?f (?o ks)) = mset (map ?f (?o ps))" by simp
    with z1 have "z1 = []" by simp
    with False show ?thesis by (simp add: es(1) broadcasts_for)
  qed (simp add: es(1) broadcasts_for)
  with c show ?thesis by blast
qed

section \<open>The log keeps its shape\<close>

definition relay_good where
  "relay_good ps tasks b sec s \<longleftrightarrow> relay_inv (set ps) tasks s \<and> log_shape ps b sec (posts s)"

text \<open>A session of a relay in such a state: its output, its outcome and whether it is in the second round.\<close>

lemma good_session:
  assumes "two_rounds ps tasks b sec second res" "relay_good ps tasks b sec s" "i \<in> set ps"
  defines "h \<equiv> frames_for i (take (seen s i) (posts s))" and "out \<equiv> posts_of i (posts s) @ outbox (session_of s i)"
  shows "\<exists>more. wrap_sender 0 (b i) # sec i = out @ more" "\<forall>r. outcome (session_of s i) = Some r \<longrightarrow> r = Ok (res i)"
    "length h < length ps - 1 \<Longrightarrow> out = [wrap_sender 0 (b i)]"
    "length ps - 1 \<le> length h \<Longrightarrow> out = wrap_sender 0 (b i) # sec i"
    "complete_rounds ps b second i fs1 fs2 \<Longrightarrow> h = fs1 @ fs2 \<Longrightarrow> outcome (session_of s i) = Some (Ok (res i))"
proof -
  obtain p' rest o1 where p': "poll (tasks i) h [] = (p', rest, o1)" by (cases "poll (tasks i) h []")
  have "simulates (tasks i) h (posts_of i (posts s), session_of s i)"
    using assms(2,3) by (simp add: relay_good_def relay_inv_def h_def)
  with p' have o1: "o1 = out" and oc: "outcome (session_of s i) = outcome_of p'"
    by (auto simp: simulates_def out_def)
  have "log_shape ps b sec (posts s)" using assms(2) by (simp add: relay_good_def)
  from log_completes [OF assms(1,3) this]
  obtain fs1 fs2 X where c: "complete_rounds ps b second i fs1 fs2" "frames_for i (posts s) @ X = fs1 @ fs2" by blast
  have "frames_for i (posts s) = h @ frames_for i (drop (seen s i) (posts s))"
    unfolding h_def frames_for_append [symmetric] by simp
  with c(2) have "h @ (frames_for i (drop (seen s i) (posts s)) @ X) = fs1 @ fs2" by simp
  note part = prefix_of_rounds [OF assms(1,3) c(1) this p']
  show "\<exists>more. wrap_sender 0 (b i) # sec i = out @ more" "\<forall>r. outcome (session_of s i) = Some r \<longrightarrow> r = Ok (res i)"
    using part(1,2) by (simp_all add: o1 oc)
  show "length ps - 1 \<le> length h \<Longrightarrow> out = wrap_sender 0 (b i) # sec i" using part(3) by (simp add: o1)
  show "length h < length ps - 1 \<Longrightarrow> out = [wrap_sender 0 (b i)]"
    using assms(1,3) p' unfolding two_rounds_def o1 by blast
  show "outcome (session_of s i) = Some (Ok (res i))" if "complete_rounds ps b second i fs1 fs2" "h = fs1 @ fs2" for fs1 fs2
    using two_rounds_complete(1) [OF assms(1,3) that(1)] p' that(2) by (auto simp: oc outcome_of_def)
qed

lemma all_broadcast:
  assumes "distinct ks" "distinct ps" "set ks \<subseteq> set ps" "j \<in> set ks" "length ps - 1 \<le> length (filter (\<lambda>k. k \<noteq> j) ks)"
  shows "set ks = set ps"
proof (rule card_subset_eq)
  have "length ks = Suc (length ks - 1)" using assms(4) by (cases ks) auto
  then have "card (set ps) \<le> card (set ks)"
    using assms(5) length_filter_other [OF assms(1,4)] distinct_card [OF assms(1)] distinct_card [OF assms(2)] by simp
  then show "card (set ks) = card (set ps)" using card_mono [OF _ assms(3)] by simp
qed (use assms in simp_all)

lemma take_grows: "take c xs @ [m] @ zs = xs \<Longrightarrow> take c xs @ [m] = take (Suc (length (take c xs))) xs"
  by (metis append_eq_conv_conj length_append_singleton append.assoc)

lemma shape_posted:
  assumes "two_rounds ps tasks b sec second res" "relay_good ps tasks b sec s" "j \<in> set ps"
    and "outbox (session_of s j) = m # ms"
  shows "log_shape ps b sec (posts s @ [(j, m)])"
proof -
  let ?b = "\<lambda>k. (k, wrap_sender 0 (b k))"
  obtain ks rest where es: "posts s = map ?b ks @ rest" "distinct ks" "set ks \<subseteq> set ps"
    "rest \<noteq> [] \<longrightarrow> set ks = set ps" "fst ` set rest \<subseteq> set ps" "\<forall>j \<in> set ps. \<exists>c. posts_of j rest = take c (sec j)"
    using assms(2) by (auto simp: relay_good_def log_shape_def)
  note me = good_session [OF assms(1-3)]
  from me(1) obtain more where more: "wrap_sender 0 (b j) # sec j = (posts_of j (posts s) @ m # ms) @ more"
    using assms(4) by auto
  show ?thesis
  proof (cases "j \<in> set ks")
    case False
    then have "rest = []" using es(4) assms(3) by blast
    with False more have "m = wrap_sender 0 (b j)" by (simp add: es(1) broadcasts_of [OF es(2)])
    then have "posts s @ [(j, m)] = map ?b (ks @ [j]) @ []" by (simp add: es(1) \<open>rest = []\<close>)
    moreover have "distinct (ks @ [j])" "set (ks @ [j]) \<subseteq> set ps" using False es(2,3) assms(3) by auto
    moreover have "\<exists>c. posts_of k [] = take c (sec k)" for k by (intro exI [of _ 0]) simp
    ultimately show ?thesis unfolding log_shape_def by (intro exI [of _ "ks @ [j]"] exI [of _ "[]"]) simp
  next
    case True
    obtain c where c: "posts_of j rest = take c (sec j)" using es(6) assms(3) by blast
    have mine: "posts_of j (posts s) = wrap_sender 0 (b j) # take c (sec j)"
      using True by (simp add: es(1) broadcasts_of [OF es(2)] c)
    with more have "take c (sec j) @ [m] @ (ms @ more) = sec j" by simp
    from take_grows [OF this] have grows: "posts_of j (rest @ [(j, m)]) = take (Suc (length (take c (sec j)))) (sec j)"
      by (simp add: c)
    have "set ks = set ps"
    proof (cases "rest = []")
      case True
      let ?h = "frames_for j (take (seen s j) (posts s))"
      have "\<not> length ?h < length ps - 1" using me(3) assms(4) mine by auto
      moreover have "length ?h \<le> length (frames_for j (posts s))"
        by (metis append_take_drop_id frames_for_append length_append le_add1)
      moreover have "frames_for j (posts s) = map (\<lambda>k. wrap_sender k (b k)) (filter (\<lambda>k. k \<noteq> j) ks)"
        by (simp add: es(1) True broadcasts_for)
      ultimately show ?thesis
        using assms(1) es(2,3) \<open>j \<in> set ks\<close> by (intro all_broadcast [of ks ps j]) (auto simp: two_rounds_def)
    qed (use es(4) in simp)
    moreover have "\<exists>c. posts_of k (rest @ [(j, m)]) = take c (sec k)" if "k \<in> set ps" for k
      using es(6) that grows by (cases "k = j") auto
    ultimately show ?thesis
      unfolding log_shape_def using es assms(3) by (intro exI [of _ ks] exI [of _ "rest @ [(j, m)]"]) auto
  qed
qed

lemma relay_good_start: "relay_good ps tasks b sec (relay_start tasks)"
proof -
  have "\<exists>c. posts_of k [] = take c (sec k)" for k by (intro exI [of _ 0]) simp
  then have "log_shape ps b sec []"
    unfolding log_shape_def by (intro exI [of _ "[]"]) simp
  then show ?thesis by (simp add: relay_good_def relay_inv_start) (simp add: relay_start_def)
qed

lemma relay_good_step:
  assumes "two_rounds ps tasks b sec second res" "relay_step (set ps) s s'" "relay_good ps tasks b sec s"
  shows "relay_good ps tasks b sec s'"
proof -
  have inv: "relay_inv (set ps) tasks s'" using relay_inv_step [OF assms(2)] assms(3) by (simp add: relay_good_def)
  from assms(2) have "log_shape ps b sec (posts s')"
  proof cases
    case (posted j m pr)
    then have "\<exists>ms. outbox (session_of s j) = m # ms" by (auto simp: take_msg_def split: list.splits)
    with shape_posted [OF assms(1,3) posted(2)] posted(1) show ?thesis by auto
  qed (use assms(3) in \<open>auto simp: relay_good_def\<close>)
  with inv show ?thesis by (simp add: relay_good_def)
qed

lemma relay_reachable_good:
  assumes "two_rounds ps tasks b sec second res" "relay_reachable (set ps) tasks s"
  shows "relay_good ps tasks b sec s"
  using assms(2) unfolding relay_reachable_def
proof (induction rule: rtranclp_induct)
  case base
  show ?case by (rule relay_good_start)
next
  case (step s s')
  show ?case by (rule relay_good_step [OF assms(1) step.hyps(2) step.IH])
qed

section \<open>Completion\<close>

text \<open>Nothing is left to be posted or read.\<close>

definition relay_idle where
  "relay_idle ps s \<longleftrightarrow> (\<forall>i \<in> ps. outbox (session_of s i) = [] \<and> seen s i = length (posts s))"

lemma distinct_seconds:
  assumes "\<forall>k \<in> set ks. fst (recv_frame (g k)) = k" "distinct ks"
  shows "distinct (map g ks)"
  using assms by (auto simp: distinct_map intro: inj_on_inverseI [where g = "\<lambda>f. fst (recv_frame f)"])

lemma distinct_mset_subset:
  assumes "distinct xs" "set xs \<subseteq> set ys"
  shows "mset xs \<subseteq># mset ys"
proof (rule mset_subset_eqI)
  fix a
  show "count (mset xs) a \<le> count (mset ys) a"
  proof (cases "a \<in> set xs")
    case True
    with assms have "count (mset xs) a = 1" "0 < count (mset ys) a"
      by (auto simp: distinct_count_atmost_1 count_greater_zero_iff)
    then show ?thesis by simp
  next
    case False
    then have "a \<notin># mset xs" by simp
    then have "count (mset xs) a = 0" by (simp only: not_in_iff)
    then show ?thesis by (simp only: le0)
  qed
qed

lemma second_sender:
  assumes "frames_for i (map (Pair k) ms) = [f]"
  shows "fst (recv_frame f) = k"
proof -
  have "f \<in> set (frames_for i (map (Pair k) ms))" using assms by simp
  then show ?thesis by (auto simp: frames_for_def)
qed

lemma idle_complete:
  assumes "two_rounds ps tasks b sec second res" "relay_good ps tasks b sec s" "relay_idle (set ps) s" "i \<in> set ps"
  shows "outcome (session_of s i) = Some (Ok (res i))"
proof -
  let ?b = "\<lambda>k. (k, wrap_sender 0 (b k))" and ?o = "filter (\<lambda>k. k \<noteq> i)"
  have ps: "distinct ps" "\<forall>i \<in> set ps. \<forall>k \<in> set ps. frames_for i (map (Pair k) (sec k)) = (if k = i then [] else [second k i])"
    using assms(1) by (simp_all add: two_rounds_def)
  obtain ks rest where es: "posts s = map ?b ks @ rest" "distinct ks" "set ks \<subseteq> set ps"
    "rest \<noteq> [] \<longrightarrow> set ks = set ps" "fst ` set rest \<subseteq> set ps" "\<forall>j \<in> set ps. \<exists>c. posts_of j rest = take c (sec j)"
    using assms(2) by (auto simp: relay_good_def log_shape_def)
  have quiet: "outbox (session_of s j) = []" "take (seen s j) (posts s) = posts s" if "j \<in> set ps" for j
    using assms(3) that by (simp_all add: relay_idle_def)
  have read: "frames_for j (posts s) = map (\<lambda>k. wrap_sender k (b k)) (filter (\<lambda>k. k \<noteq> j) ks) @ frames_for j rest" for j
    by (simp add: es(1) broadcasts_for)
  have "j \<in> set ks" if j: "j \<in> set ps" for j
  proof (rule ccontr)
    assume "j \<notin> set ks"
    with es(4) j have "posts_of j (posts s) = []" by (auto simp: es(1) broadcasts_of [OF es(2)])
    with good_session(3,4) [OF assms(1,2) j] quiet(1) [OF j] show False by (metis append_Nil linorder_not_less list.discI)
  qed
  then have all: "set ks = set ps" using es(3) by blast
  then have mset: "mset ks = mset ps" using es(2) ps(1) by (simp only: set_eq_iff_mset_eq_distinct)
  then have one: "mset (map (\<lambda>k. wrap_sender k (b k)) (filter (\<lambda>k. k \<noteq> j) ks))
      = mset (map (\<lambda>k. wrap_sender k (b k)) (filter (\<lambda>k. k \<noteq> j) ps))" for j by simp
  have long: "length ps - 1 \<le> length (frames_for j (posts s))" if "j \<in> set ps" for j
    using arg_cong [OF one [of j], of size] that length_filter_other [OF ps(1) that]
    by (simp only: read length_append size_mset length_map)
  have second: "posts_of j rest = sec j" if j: "j \<in> set ps" for j
  proof -
    have "posts_of j (posts s) @ outbox (session_of s j) = wrap_sender 0 (b j) # sec j"
      by (rule good_session(4) [OF assms(1,2) j]) (simp only: quiet(2) [OF j] long [OF j])
    then show ?thesis using all j by (simp add: quiet(1) [OF j] es(1) broadcasts_of [OF es(2)])
  qed
  have i: "\<forall>k \<in> set ps. frames_for i (map (Pair k) (sec k)) = (if k = i then [] else [second k i])"
    using ps(2) assms(4) by blast
  have "mset (map (\<lambda>k. second k i) (?o ps)) \<subseteq># mset (frames_for i rest)"
  proof -
    have from_k: "second k i \<in> set (frames_for i rest) \<and> fst (recv_frame (second k i)) = k" if "k \<in> set (?o ps)" for k
    proof -
      have k: "frames_for i (map (Pair k) (posts_of k rest)) = [second k i]" using that second i by simp
      then have "second k i \<in> set (filter (\<lambda>f. fst (recv_frame f) = k) (frames_for i rest))"
        by (simp only: frames_from_sender) simp
      with second_sender [OF k] show ?thesis by simp
    qed
    then have "distinct (map (\<lambda>k. second k i) (?o ps))" using ps(1) by (intro distinct_seconds) simp_all
    moreover have "set (map (\<lambda>k. second k i) (?o ps)) \<subseteq> set (frames_for i rest)" using from_k by auto
    ultimately show ?thesis by (rule distinct_mset_subset)
  qed
  with second_frames [where second = second and sec = sec, OF i es(5,6)]
  have "mset (frames_for i rest) = mset (map (\<lambda>k. second k i) (?o ps))" by (rule subset_mset.antisym)
  with one [of i] have "complete_rounds ps b second i (map (\<lambda>k. wrap_sender k (b k)) (?o ks)) (frames_for i rest)"
    by (simp only: complete_rounds_def)
  from good_session(5) [OF assms(1,2,4) this] quiet(2) [OF assms(4)] read [of i] show ?thesis by simp
qed

text \<open>No session of a relay fails, and all have succeeded when it is idle.\<close>

lemma relay_completes:
  assumes "two_rounds ps tasks b sec second res" "relay_reachable (set ps) tasks s" "i \<in> set ps"
  shows "\<forall>r. outcome (session_of s i) = Some r \<longrightarrow> r = Ok (res i)"
    "relay_idle (set ps) s \<Longrightarrow> outcome (session_of s i) = Some (Ok (res i))"
  using good_session(2) [OF assms(1) relay_reachable_good [OF assms(1,2)] assms(3)]
    idle_complete [OF assms(1) relay_reachable_good [OF assms(1,2)] _ assms(3)] by blast+

end
