(* ===== verification/Network_Completion.thy ===== *)
theory Network_Completion
  imports Network_Relay
begin

text \<open>
  The ceremonies over a relay: key generation, key import, resharing and signing are ceremonies of two
  rounds, so they complete when the ceremony computed in one place succeeds.
\<close>

section \<open>Frames of one round\<close>

lemma recv_frames_perm:
  assumes "rfold (recv_insert L de) (map (\<lambda>k. (k, D k)) ks) [] = Ok r" "ids_ok L" "distinct ks"
    and "mset fs = mset (map (\<lambda>k. wrap_sender k (D k)) ks)"
  shows "rfold (recv_insert L de) (map recv_frame fs) [] = Ok r"
proof -
  have "mset (map recv_frame fs) = image_mset recv_frame (mset (map (\<lambda>k. wrap_sender k (D k)) ks))"
    by (simp only: mset_map [of recv_frame] assms(4))
  also have "\<dots> = mset (map (\<lambda>k. (k, D k)) ks)" by (simp add: multiset.map_comp comp_def)
  finally have perm: "mset (map (\<lambda>k. (k, D k)) ks) = mset (map recv_frame fs)" by simp
  have "distinct (map fst (map (\<lambda>k. (k, D k)) ks))" using assms(3) by (simp add: comp_def)
  then show ?thesis by (rule rfold_recv_perm [OF assms(1) bt_wf_Nil assms(2) _ perm])
qed

lemma frames_for_directed:
  "\<forall>(n, d) \<in> set ys. n \<noteq> 0 \<Longrightarrow> frames_for i (map (Pair k) (map (\<lambda>(n, d). wrap_sender n d) ys)) =
     map (\<lambda>(n, d). wrap_sender k d) (filter (\<lambda>(n, d). n = i) ys)"
  by (induction ys) (auto simp: addressed_def frame_of_def read_recipient_wrap payload_wrap)

lemma filter_key: "distinct (map fst ys) \<Longrightarrow> (i, d) \<in> set ys \<Longrightarrow> filter (\<lambda>(n, d). n = i) ys = [(i, d)]"
proof (induction ys)
  case (Cons y ys)
  have "filter (\<lambda>(n, d). n = fst y) ys = []" using Cons.prems(1) by (auto simp: filter_empty_conv image_iff)
  with Cons show ?case by (cases y) (auto simp: image_iff)
qed simp

section \<open>Key generation, key import and resharing\<close>

text \<open>When the ceremony in one place gives everyone a package, a party can send all its packages of round two.\<close>

lemma prepared_for_all:
  assumes "ids_ok L" "part2_for_all L" "build_id_map L mx = Ok idm" "central_round_one L mx bs k = Ok r1"
    and "dkg_core_part2 L (sec k) r1 = Inr (s2, pkgs)"
    and "\<forall>i \<in> set (others mx k). central_package L mx sec bs i k = Ok (k, D i)"
  shows "\<exists>ys. rmap (prepare_r2 L idm) pkgs = Ok ys \<and> distinct (map fst ys) \<and> set ys = (\<lambda>i. (i, D i)) ` set (others mx k)"
proof -
  have wf: "bt_wf r1" using rfold_recv_wf [of L] assms(4) bt_wf_Nil unfolding central_round_one_def by blast
  have keys: "map fst pkgs = map fst r1" using assms(2,5) unfolding part2_for_all_def by blast
  then have dist: "distinct (map fst pkgs)" using bt_wf_distinct [OF wf] by simp
  have look: "\<exists>n \<in> set (others mx k). id_try_from L n = Some i \<and> lookup_u16 L idm i = Ok n" if "i \<in> fst ` set pkgs" for i
  proof -
    have "i \<in> fst ` set r1" using that keys by (metis set_map)
    with rfold_recv_keys [OF assms(4) [unfolded central_round_one_def]]
    obtain n where n: "n \<in> set (others mx k)" "id_try_from L n = Some i" by auto
    then have "lookup_u16 L idm i = Ok n"
      using build_id_map_Ok [OF assms(1), of mx] assms(3) by (auto simp: set_parties_of others_def)
    with n show ?thesis by blast
  qed
  have one: "\<exists>n \<in> set (others mx k). id_try_from L n = Some (fst e) \<and> prepare_r2 L idm e = Ok (n, D n)" if e: "e \<in> set pkgs" for e
  proof -
    obtain n where n: "n \<in> set (others mx k)" "id_try_from L n = Some (fst e)" "lookup_u16 L idm (fst e) = Ok n"
      using look [of "fst e"] e by blast
    have "map_of pkgs (fst e) = Some (snd e)" using dist e by (cases e) simp
    with assms(4-6) n have "package2_serialize L (snd e) = Some (D n)"
      by (auto simp: central_package_def or_blame_def try_id_def ser_err_def rbind_eq_Ok)
    with n show ?thesis by (auto simp: prepare_r2_Ok)
  qed
  define g where "g = (\<lambda>e. case prepare_r2 L idm e of Ok y \<Rightarrow> y)"
  have run: "rmap (prepare_r2 L idm) pkgs = Ok (map g pkgs)"
  proof (rule rmap_Ok_map, rule ballI)
    fix e assume "e \<in> set pkgs"
    from one [OF this] show "prepare_r2 L idm e = Ok (g e)" by (auto simp: g_def)
  qed
  then have "distinct (map fst (map g pkgs))"
    using prepared_messages [where k = "length pkgs" and P = "set (others mx k)", OF _ dist look] by simp
  moreover have "set (map g pkgs) = (\<lambda>i. (i, D i)) ` set (others mx k)"
  proof
    show "set (map g pkgs) \<subseteq> (\<lambda>i. (i, D i)) ` set (others mx k)"
    proof
      fix y assume "y \<in> set (map g pkgs)"
      then obtain e where e: "e \<in> set pkgs" "y = g e" by auto
      with one [OF e(1)] show "y \<in> (\<lambda>i. (i, D i)) ` set (others mx k)" by (auto simp: g_def)
    qed
    show "(\<lambda>i. (i, D i)) ` set (others mx k) \<subseteq> set (map g pkgs)"
    proof
      fix y assume "y \<in> (\<lambda>i. (i, D i)) ` set (others mx k)"
      then obtain i where i: "i \<in> set (others mx k)" "y = (i, D i)" by blast
      with assms(4-6) obtain ident p where p: "id_try_from L i = Some ident" "map_of pkgs ident = Some p"
        by (auto simp: central_package_def or_blame_def try_id_def rbind_eq_Ok)
      then have e: "(ident, p) \<in> set pkgs" by (simp add: map_of_SomeD)
      from one [OF e] obtain n where n: "id_try_from L n = Some ident" "prepare_r2 L idm (ident, p) = Ok (n, D n)" by auto
      have "n = i" using ids_ok_try_from_inj [OF assms(1)] n(1) p(1) by blast
      then have "g (ident, p) = y" using n(2) i(2) by (simp add: g_def)
      with e show "y \<in> set (map g pkgs)" by force
    qed
  qed
  ultimately show ?thesis using run by blast
qed

lemma silent_loop: "snd (snd (poll (recv_loop n stp acc) fs outb)) = outb"
  using poll_recv_loop_cases [of n stp acc fs outb] by (cases "poll (recv_loop n stp acc) fs outb") auto

lemma silent_bind:
  "(\<And>x fs out. snd (snd (poll (g x) fs out)) = out) \<Longrightarrow> snd (snd (poll (pbind p g) fs outb)) = snd (snd (poll p fs outb))"
  by (cases "poll p fs outb") (auto simp: poll_pbind split: proc.splits res.splits)

text \<open>One poll of the rounds over the frames of the first round sends everything.\<close>

lemma poll_first_round:
  assumes "length fs1 = unat (mx - 1)" "rfold (recv_insert L (package1_deserialize L)) (map recv_frame fs1) [] = Ok r1"
    and "dkg_core_part2 L s r1 = Inr (s2, pkgs)" "rmap (prepare_r2 L idm) pkgs = Ok ys"
  shows "snd (snd (poll (dkg_rounds L mx idm s b) fs1 [])) = map (\<lambda>(n, b). wrap_sender n b) ((0, b) # ys)"
proof -
  let ?second = "recv_loop (unat (mx - 1)) (recv_insert L (package2_deserialize L)) []"
  let ?out = "map (\<lambda>(n, b). wrap_sender n b) ((0, b) # ys)"
  define g where "g = (\<lambda>r2. Ret (or_blame L (dkg_core_part3 L s2 r1 r2) LIB_DKG_ERROR))"
  have "poll (dkg_rounds L mx idm s b) fs1 [] = poll (pbind ?second g) [] ?out"
    using poll_recv_loop_Ok [OF assms(2), of "[]"] poll_send_loop_Ok [OF assms(4)] assms(3)
    by (simp add: dkg_rounds_def poll_pbind [of "recv_loop _ (recv_insert L (package1_deserialize L)) _"]
        poll_pbind [of "send_loop _ _"] broadcast_def or_blame_def [of L "Inr _"] assms(1) wrap_sender_def split_def g_def)
  then show ?thesis by (simp add: silent_bind silent_loop g_def)
qed

lemma poll_then_local:
  "poll (pbind p (\<lambda>x. Ret (h x))) fs outb =
     (case poll p fs outb of (q, rest, out) \<Rightarrow> (pbind q (\<lambda>x. Ret (h x)), rest, out))"
  by (auto simp: poll_pbind split: prod.splits proc.splits res.splits)

text \<open>The setting of the following lemmas: the ceremony in one place succeeds for all parties.\<close>

definition all_succeed where
  "all_succeed L mx idm sec bs tasks h keys \<longleftrightarrow>
     ids_ok L \<and> part2_for_all L \<and> build_id_map L mx = Ok idm \<and>
     (\<forall>i \<in> set (parties_of mx). tasks i = pbind (dkg_rounds L mx idm (sec i) (bs i)) (\<lambda>x. Ret (h i x)) \<and>
        (\<exists>x. central_dkg L mx sec bs i = Ok x \<and> h i x = Ok (keys i)))"

definition package_bytes where
  "package_bytes L mx sec bs i k = (case central_package L mx sec bs i k of Ok m \<Rightarrow> snd m | _ \<Rightarrow> [])"

lemma central_parts:
  assumes "all_succeed L mx idm sec bs tasks h keys" "i \<in> set (parties_of mx)"
  obtains r1 s2 pkgs r2 x where "central_round_one L mx bs i = Ok r1" "dkg_core_part2 L (sec i) r1 = Inr (s2, pkgs)"
    "\<forall>k \<in> set (others mx i). central_package L mx sec bs i k = Ok (k, package_bytes L mx sec bs i k)"
    "rfold (recv_insert L (package2_deserialize L)) (map (\<lambda>k. (k, package_bytes L mx sec bs i k)) (others mx i)) [] = Ok r2"
    "dkg_core_part3 L s2 r1 r2 = Inr x" "h i x = Ok (keys i)"
proof -
  let ?p = "central_package L mx sec bs i" and ?D = "package_bytes L mx sec bs i"
  obtain x where x: "central_dkg L mx sec bs i = Ok x" "h i x = Ok (keys i)"
    using assms by (auto simp: all_succeed_def)
  then obtain r1 s2 pkgs ms r2 where r: "central_round_one L mx bs i = Ok r1" "dkg_core_part2 L (sec i) r1 = Inr (s2, pkgs)"
    "rmap ?p (others mx i) = Ok ms" "rfold (recv_insert L (package2_deserialize L)) ms [] = Ok r2"
    "dkg_core_part3 L s2 r1 r2 = Inr x"
    by (auto simp: central_dkg_def rbind_eq_Ok or_blame_Ok)
  have each: "\<forall>k \<in> set (others mx i). ?p k = Ok (k, ?D k)"
  proof
    fix k assume "k \<in> set (others mx i)"
    then obtain y where "?p k = Ok y" using rmap_Ok_each [OF r(3)] by blast
    then show "?p k = Ok (k, ?D k)" by (auto simp: package_bytes_def central_package_def rbind_eq_Ok)
  qed
  then have "ms = map (\<lambda>k. (k, ?D k)) (others mx i)" using rmap_Ok_map [of "others mx i" ?p "\<lambda>k. (k, ?D k)"] r(3) by simp
  with that [OF r(1,2) each _ r(5) x(2)] r(4) show thesis by simp
qed

lemma other_way: "k \<in> set (parties_of mx) \<Longrightarrow> i \<in> set (others mx k) \<Longrightarrow> i \<in> set (parties_of mx) \<and> k \<in> set (others mx i)"
  by (auto simp: others_def)

lemma packages_sent:
  assumes "all_succeed L mx idm sec bs tasks h keys" "k \<in> set (parties_of mx)"
  shows "\<exists>ys. \<forall>r1 s2 pkgs. central_round_one L mx bs k = Ok r1 \<longrightarrow> dkg_core_part2 L (sec k) r1 = Inr (s2, pkgs) \<longrightarrow>
    rmap (prepare_r2 L idm) pkgs = Ok ys \<and> distinct (map fst ys) \<and>
    set ys = (\<lambda>i. (i, package_bytes L mx sec bs i k)) ` set (others mx k)"
proof -
  have L: "ids_ok L" "part2_for_all L" "build_id_map L mx = Ok idm" using assms(1) by (simp_all add: all_succeed_def)
  obtain r1 s2 pkgs where r: "central_round_one L mx bs k = Ok r1" "dkg_core_part2 L (sec k) r1 = Inr (s2, pkgs)"
    using central_parts [OF assms] by metis
  have "\<forall>i \<in> set (others mx k). central_package L mx sec bs i k = Ok (k, package_bytes L mx sec bs i k)"
  proof
    fix i assume "i \<in> set (others mx k)"
    from other_way [OF assms(2) this] central_parts [OF assms(1), of i]
    show "central_package L mx sec bs i k = Ok (k, package_bytes L mx sec bs i k)" by metis
  qed
  from prepared_for_all [where D = "\<lambda>i. package_bytes L mx sec bs i k" and sec = sec and k = k, OF L r this] r
  show ?thesis by auto
qed

lemma rounds_are_two_rounds:
  assumes "all_succeed L mx idm sec bs tasks h keys"
  shows "\<exists>snds. two_rounds (parties_of mx) tasks bs snds (\<lambda>k i. wrap_sender k (package_bytes L mx sec bs i k)) keys"
proof -
  let ?ps = "parties_of mx" and ?D = "package_bytes L mx sec bs"
  have L: "ids_ok L" using assms(1) by (simp add: all_succeed_def)
  have "\<forall>k \<in> set ?ps. \<exists>ys. \<forall>r1 s2 pkgs. central_round_one L mx bs k = Ok r1 \<longrightarrow> dkg_core_part2 L (sec k) r1 = Inr (s2, pkgs) \<longrightarrow>
    rmap (prepare_r2 L idm) pkgs = Ok ys \<and> distinct (map fst ys) \<and> set ys = (\<lambda>i. (i, ?D i k)) ` set (others mx k)"
    using packages_sent [OF assms] by blast
  from bchoice [OF this] obtain ys where each: "\<forall>k \<in> set ?ps. \<forall>r1 s2 pkgs. central_round_one L mx bs k = Ok r1 \<longrightarrow>
      dkg_core_part2 L (sec k) r1 = Inr (s2, pkgs) \<longrightarrow>
      rmap (prepare_r2 L idm) pkgs = Ok (ys k) \<and> distinct (map fst (ys k)) \<and> set (ys k) = (\<lambda>i. (i, ?D i k)) ` set (others mx k)"
    by blast
  note ys = each [rule_format]
  define snds where "snds = (\<lambda>k. map (\<lambda>(n, d). wrap_sender n d) (ys k))"
  have run: "tasks i = pbind (dkg_rounds L mx idm (sec i) (bs i)) (\<lambda>x. Ret (h i x))" if "i \<in> set ?ps" for i
    using assms that by (simp add: all_succeed_def)
  have sent: "frames_for i (map (Pair k) (snds k)) = (if k = i then [] else [wrap_sender k (?D i k)])"
    if i: "i \<in> set ?ps" and k: "k \<in> set ?ps" for i k
  proof -
    obtain r1 s2 pkgs where "central_round_one L mx bs k = Ok r1" "dkg_core_part2 L (sec k) r1 = Inr (s2, pkgs)"
      using central_parts [OF assms k] by metis
    from ys [OF k this] have y: "distinct (map fst (ys k))" "set (ys k) = (\<lambda>i. (i, ?D i k)) ` set (others mx k)" by simp_all
    have "\<forall>(n, d) \<in> set (ys k). n \<noteq> 0" by (auto simp: y(2) others_def set_parties_of)
    note frames_for_directed [OF this, of i k, folded snds_def]
    moreover have "filter (\<lambda>(n, d). n = i) (ys k) = (if k = i then [] else [(i, ?D i k)])"
    proof (cases "k = i")
      case True
      then show ?thesis using y(2) by (auto simp: filter_empty_conv others_def)
    next
      case False
      with i have "(i, ?D i k) \<in> set (ys k)" by (auto simp: y(2) others_def)
      with filter_key [OF y(1)] False show ?thesis by simp
    qed
    ultimately show ?thesis by (simp add: snds_def)
  qed
  have first: "out = [wrap_sender 0 (bs i)]"
    if i: "i \<in> set ?ps" and short: "length fs < length ?ps - 1" and p: "poll (tasks i) fs [] = (p', rest, out)"
    for i fs p' rest out
  proof -
    obtain q where "poll (dkg_rounds L mx idm (sec i) (bs i)) fs [] = (q, rest, out)"
      using p unfolding run [OF i] by (rule poll_rounds_then_local)
    from dkg_rounds_output [OF this] short show ?thesis by (auto simp: length_parties [OF i])
  qed
  have whole: "poll (tasks i) (fs1 @ fs2) [] = (Ret (Ok (keys i)), [], wrap_sender 0 (bs i) # snds i) \<and>
      snd (snd (poll (tasks i) fs1 [])) = wrap_sender 0 (bs i) # snds i"
    if i: "i \<in> set ?ps" and c: "complete_rounds ?ps bs (\<lambda>k i. wrap_sender k (?D i k)) i fs1 fs2" for i fs1 fs2
  proof -
    from central_parts [OF assms i] obtain r1 s2 pkgs r2 x where r: "central_round_one L mx bs i = Ok r1"
      "dkg_core_part2 L (sec i) r1 = Inr (s2, pkgs)"
      "rfold (recv_insert L (package2_deserialize L)) (map (\<lambda>k. (k, ?D i k)) (others mx i)) [] = Ok r2"
      "dkg_core_part3 L s2 r1 r2 = Inr x" "h i x = Ok (keys i)" .
    have dist: "distinct (others mx i)" by (simp add: others_def distinct_parties_of)
    have m: "mset fs1 = mset (map (\<lambda>k. wrap_sender k (bs k)) (others mx i))"
      "mset fs2 = mset (map (\<lambda>k. wrap_sender k (?D i k)) (others mx i))"
      using c by (simp_all only: complete_rounds_def others_def)
    have "length (others mx i) = unat (mx - 1)"
      unfolding others_def length_parties [OF i] by (rule length_filter_other [OF distinct_parties_of i])
    then have len: "length fs1 = unat (mx - 1)" "length fs2 = unat (mx - 1)"
      using arg_cong [OF m(1), of size] arg_cong [OF m(2), of size] by (simp_all only: size_mset length_map)
    have one: "rfold (recv_insert L (package1_deserialize L)) (map recv_frame fs1) [] = Ok r1"
      by (rule recv_frames_perm [OF r(1) [unfolded central_round_one_def] L dist m(1)])
    have two: "rfold (recv_insert L (package2_deserialize L)) (map recv_frame fs2) [] = Ok r2"
      by (rule recv_frames_perm [OF r(3) L dist m(2)])
    have y: "rmap (prepare_r2 L idm) pkgs = Ok (ys i)" using ys [OF i r(1,2)] by simp
    have "poll (tasks i) (fs1 @ fs2) [] = (Ret (Ok (keys i)), [], wrap_sender 0 (bs i) # snds i)"
      unfolding run [OF i] poll_then_local poll_dkg_rounds [OF len one two r(2) y]
      by (simp add: r(4,5) or_blame_def snds_def)
    moreover have "snd (snd (poll (tasks i) fs1 [])) = wrap_sender 0 (bs i) # snds i"
      unfolding run [OF i] poll_then_local
      using poll_first_round [where b = "bs i" and s = "sec i", OF len(1) one r(2) y]
      by (auto simp: snds_def split: prod.splits)
    ultimately show ?thesis by blast
  qed
  have "two_rounds ?ps tasks bs snds (\<lambda>k i. wrap_sender k (?D i k)) keys"
    unfolding two_rounds_def using sent first whole distinct_parties_of by blast
  then show ?thesis by blast
qed

section \<open>Signing\<close>

lemma loop_after_own:
  assumes "ids_ok L" "distinct ks" "j \<in> set ks" "id_try_from L j = Some ident" "de (b j) = Some v"
    and "rfold (recv_insert L de) (map (\<lambda>k. (k, b k)) ks) [] = Ok r"
    and "mset fs = mset (map (\<lambda>k. wrap_sender k (b k)) (filter (\<lambda>k. k \<noteq> j) ks))"
  shows "rfold (recv_insert L de) (map recv_frame fs) [(ident, v)] = Ok r"
proof -
  let ?all = "wrap_sender j (b j) # fs"
  have js: "distinct (j # filter (\<lambda>k. k \<noteq> j) ks)" "set (j # filter (\<lambda>k. k \<noteq> j) ks) = set ks" using assms(2,3) by auto
  then have ks: "mset (j # filter (\<lambda>k. k \<noteq> j) ks) = mset ks" using assms(2) by (simp only: set_eq_iff_mset_eq_distinct)
  have "mset ?all = mset (map (\<lambda>k. wrap_sender k (b k)) (j # filter (\<lambda>k. k \<noteq> j) ks))" using assms(7) by simp
  also have "\<dots> = mset (map (\<lambda>k. wrap_sender k (b k)) ks)" by (simp only: mset_map ks)
  finally have "rfold (recv_insert L de) (map recv_frame ?all) [] = Ok r"
    by (rule recv_frames_perm [where D = b, OF assms(6,1,2)])
  moreover have "recv_insert L de (j, b j) [] = Ok [(ident, v)]" using assms(4,5) by (simp add: recv_insert_Ok)
  ultimately show ?thesis by simp
qed

text \<open>One poll of the signing task over the frames of both rounds.\<close>

lemma poll_sign_run:
  assumes "length fs1 = usize_pred n" "length fs2 = usize_pred n"
    and "cm_serialize S (snd (commit S (kp_signing_share L kp) rng)) = Some c"
    and "rfold (recv_insert L (cm_deserialize S)) (map recv_frame fs1)
           [(kp_identifier L kp, snd (commit S (kp_signing_share L kp) rng))] = Ok m"
    and "core_sign S (signing_package_new S m msg) (fst (commit S (kp_signing_share L kp) rng)) kp = Inr sh"
    and "rfold (recv_insert L (share_deserialize S)) (map recv_frame fs2) [(kp_identifier L kp, sh)] = Ok shares"
    and "core_aggregate S (signing_package_new S m msg) shares pkp = Inr signature" "sig_serialize S signature = Some sig"
  shows "poll (sign_run L S rng kp pkp msg n) (fs1 @ fs2) [] =
      (Ret (Ok sig), [], [wrap_sender 0 c, wrap_sender 0 (share_serialize S sh)])"
    "snd (snd (poll (sign_run L S rng kp pkp msg n) fs1 [])) = [wrap_sender 0 c, wrap_sender 0 (share_serialize S sh)]"
proof -
  let ?out = "[wrap_sender 0 c, wrap_sender 0 (share_serialize S sh)]"
  let ?second = "recv_loop (usize_pred n) (recv_insert L (share_deserialize S)) [(kp_identifier L kp, sh)]"
  define g where "g = (\<lambda>shares. pbind (Ret (or_blame L (core_aggregate S (signing_package_new S m msg) shares pkp) LIB_SIGNING_ERROR))
    (\<lambda>signature. Ret (ser_err (sig_serialize S signature))))"
  have first: "poll (sign_run L S rng kp pkp msg n) (fs1 @ fs) [] = poll (pbind ?second g) fs ?out" for fs
    using poll_recv_loop_Ok [OF assms(4), of fs]
    by (simp add: sign_run_def Let_def case_prod_unfold assms(1,3,5) ser_err_def broadcast_def or_blame_def [of L "Inr sh"]
        poll_pbind [of "recv_loop _ (recv_insert L (cm_deserialize S)) _"] wrap_sender_def g_def)
  show "poll (sign_run L S rng kp pkp msg n) (fs1 @ fs2) [] = (Ret (Ok sig), [], ?out)"
    using poll_recv_loop_Ok [OF assms(6), of "[]"] assms(2,7,8)
    by (simp add: first poll_pbind [of ?second] g_def or_blame_def ser_err_def)
  have "snd (snd (poll (g x) fs out)) = out" for x fs out
    by (cases "or_blame L (core_aggregate S (signing_package_new S m msg) x pkp) LIB_SIGNING_ERROR") (simp_all add: g_def)
  then show "snd (snd (poll (sign_run L S rng kp pkp msg n) fs1 [])) = ?out"
    using first [of "[]"] by (simp add: silent_bind silent_loop)
qed

lemma signing_is_two_rounds:
  assumes "ids_ok L" "signing_formats_ok S" "distinct ks" "signers_ready L S ks kp pkp msg rng nonces cb tasks"
    and "central_signature L S cb nonces kp pkp msg ks = Ok sig"
  shows "\<exists>snds second. two_rounds ks tasks cb snds second (\<lambda>_. sig)"
proof -
  let ?c = "central_share L S cb nonces kp msg ks" and ?N = "length ks - 1"
  obtain m ms shares signature where r: "central_commitments L S cb ks = Ok m" "rmap ?c ks = Ok ms"
    "rfold (recv_insert L (share_deserialize S)) ms [] = Ok shares"
    "core_aggregate S (signing_package_new S m msg) shares pkp = Inr signature" "sig_serialize S signature = Some sig"
    using assms(5) by (auto simp: central_signature_def rbind_eq_Ok or_blame_Ok ser_err_def)
  define sh where "sh = (\<lambda>k. case core_sign S (signing_package_new S m msg) (nonces k) (kp k) of Inr x \<Rightarrow> x | Inl _ \<Rightarrow> undefined)"
  let ?D = "\<lambda>k. share_serialize S (sh k)"
  have share: "core_sign S (signing_package_new S m msg) (nonces k) (kp k) = Inr (sh k) \<and> ?c k = Ok (k, ?D k)"
    if k: "k \<in> set ks" for k
  proof -
    obtain y where "?c k = Ok y" using rmap_Ok_each [OF r(2) k] by blast
    then obtain x where "core_sign S (signing_package_new S m msg) (nonces k) (kp k) = Inr x"
      using r(1) by (auto simp: central_share_def rbind_eq_Ok or_blame_Ok)
    then show ?thesis using r(1) by (simp add: central_share_def or_blame_def sh_def)
  qed
  then have "ms = map (\<lambda>k. (k, ?D k)) ks" using rmap_Ok_map [of ks ?c "\<lambda>k. (k, ?D k)"] r(2) by simp
  with r(3) have shares: "rfold (recv_insert L (share_deserialize S)) (map (\<lambda>k. (k, ?D k)) ks) [] = Ok shares" by simp
  have first: "out = [wrap_sender 0 (cb i)]"
    if i: "i \<in> set ks" and short: "length fs < ?N" and p: "poll (tasks i) fs [] = (p', rest, out)" for i fs p' rest out
    using sign_output [OF assms(4) i p] short by auto
  have sent: "frames_for i (map (Pair k) [wrap_sender 0 (?D k)]) = (if k = i then [] else [wrap_sender k (?D k)])" for i k
    by (auto simp: addressed_def frame_of_def read_recipient_wrap payload_wrap)
  have whole: "poll (tasks i) (fs1 @ fs2) [] = (Ret (Ok sig), [], wrap_sender 0 (cb i) # [wrap_sender 0 (?D i)]) \<and>
      snd (snd (poll (tasks i) fs1 [])) = wrap_sender 0 (cb i) # [wrap_sender 0 (?D i)]"
    if i: "i \<in> set ks" and c: "complete_rounds ks cb (\<lambda>k i. wrap_sender k (?D k)) i fs1 fs2" for i fs1 fs2
  proof -
    have ready: "tasks i = sign_run L S (rng i) (kp i) pkp msg (length ks)" "id_try_from L i = Some (kp_identifier L (kp i))"
      "nonces i = fst (commit S (kp_signing_share L (kp i)) (rng i))"
      "cm_serialize S (snd (commit S (kp_signing_share L (kp i)) (rng i))) = Some (cb i)"
      using assms(4) i by (simp_all add: signers_ready_def)
    have m: "mset fs1 = mset (map (\<lambda>k. wrap_sender k (cb k)) (filter (\<lambda>k. k \<noteq> i) ks))"
      "mset fs2 = mset (map (\<lambda>k. wrap_sender k (?D k)) (filter (\<lambda>k. k \<noteq> i) ks))"
      using c by (simp_all only: complete_rounds_def)
    have len: "length fs1 = usize_pred (length ks)" "length fs2 = usize_pred (length ks)"
      using arg_cong [OF m(1), of size] arg_cong [OF m(2), of size] length_filter_other [OF assms(3) i] usize_pred_signers [OF i]
      by (simp_all only: size_mset length_map)
    have "cm_deserialize S (cb i) = Some (snd (commit S (kp_signing_share L (kp i)) (rng i)))"
      using assms(2) ready(4) by (simp add: signing_formats_ok_def serde_ok_def)
    from loop_after_own [where b = cb and de = "cm_deserialize S", OF assms(1,3) i ready(2) this r(1) [unfolded central_commitments_def] m(1)]
    have one: "rfold (recv_insert L (cm_deserialize S)) (map recv_frame fs1)
        [(kp_identifier L (kp i), snd (commit S (kp_signing_share L (kp i)) (rng i)))] = Ok m" .
    have "share_deserialize S (?D i) = Some (sh i)" using assms(2) by (simp add: signing_formats_ok_def serde_ok_def)
    from loop_after_own [where b = ?D and de = "share_deserialize S", OF assms(1,3) i ready(2) this shares m(2)]
    have two: "rfold (recv_insert L (share_deserialize S)) (map recv_frame fs2) [(kp_identifier L (kp i), sh i)] = Ok shares" .
    have core: "core_sign S (signing_package_new S m msg) (fst (commit S (kp_signing_share L (kp i)) (rng i))) (kp i) = Inr (sh i)"
      using share [OF i] ready(3) by simp
    show ?thesis
      using poll_sign_run [OF len ready(4) one core two r(4,5)] by (simp add: ready(1))
  qed
  have "two_rounds ks tasks cb (\<lambda>k. [wrap_sender 0 (?D k)]) (\<lambda>k i. wrap_sender k (?D k)) (\<lambda>_. sig)"
    unfolding two_rounds_def using sent first whole assms(3) by blast
  then show ?thesis by blast
qed

section \<open>Schedules\<close>

datatype relay_event = Posts u16 | Fetches u16

fun relay_do :: "u16 list \<Rightarrow> relay_event \<Rightarrow> 'a relay \<Rightarrow> 'a relay option" where
  "relay_do ps (Posts j) s =
     (case take_msg (session_of s j) of
        (Some m, pr) \<Rightarrow>
          if j \<in> set ps then Some (s\<lparr>session_of := (session_of s)(j := pr), posts := posts s @ [(j, m)]\<rparr>) else None
      | _ \<Rightarrow> None)"
| "relay_do ps (Fetches i) s =
     (if i \<in> set ps \<and> seen s i < length (posts s) then
        (case posts s ! seen s i of (j, m) \<Rightarrow> Some (s\<lparr>
           session_of := (if addressed j i m then (session_of s)(i := snd (feed (frame_of j m) (session_of s i))) else session_of s),
           seen := (seen s)(i := Suc (seen s i))\<rparr>))
      else None)"

primrec relay_play :: "u16 list \<Rightarrow> relay_event list \<Rightarrow> 'a relay \<Rightarrow> 'a relay option" where
  "relay_play ps [] s = Some s"
| "relay_play ps (e # es) s = (case relay_do ps e s of Some s' \<Rightarrow> relay_play ps es s' | None \<Rightarrow> None)"

lemma relay_do_step: "relay_do ps e s = Some s' \<Longrightarrow> relay_step (set ps) s s'"
proof (cases e)
  case (Fetches i)
  assume "relay_do ps e s = Some s'"
  moreover obtain j m where jm: "posts s ! seen s i = (j, m)" by (cases "posts s ! seen s i")
  ultimately have "i \<in> set ps" "seen s i < length (posts s)" and s': "s' = s\<lparr>
      session_of := (if addressed j i m then (session_of s)(i := snd (feed (frame_of j m) (session_of s i))) else session_of s),
      seen := (seen s)(i := Suc (seen s i))\<rparr>"
    by (simp_all add: Fetches split: if_splits)
  from relay_step.fetched [OF this(1,2) jm] show ?thesis by (simp only: s')
qed (auto intro: relay_step.posted split: prod.splits option.splits if_splits)

lemma relay_play_reaches: "relay_play ps es (relay_start tasks) = Some s' \<Longrightarrow> relay_reachable (set ps) tasks s'"
proof -
  have "relay_play ps es s = Some s' \<Longrightarrow> (relay_step (set ps))\<^sup>*\<^sup>* s s'" for s
    by (induction es arbitrary: s)
      (auto split: option.splits dest: relay_do_step intro: converse_rtranclp_into_rtranclp)
  then show "relay_play ps es (relay_start tasks) = Some s' \<Longrightarrow> relay_reachable (set ps) tasks s'"
    by (simp add: relay_reachable_def)
qed

section \<open>Properties\<close>

text \<open>C6: Ceremonies complete over a relay. Let every party run a key generation, a key import or a resharing
  whose first part succeeds, over a relay with one log that every host reads in its order, at its own
  pace. If the ceremony computed in one place gives every party its keys (for a resharing, with the
  expected verifying key), no session ever ends with an error, other keys or a panic, and as soon as
  nothing is left to be posted or read, every session has succeeded with these keys. So the order of
  such a relay is enough for the ceremonies, which do not tell their rounds apart.\<close>

theorem relay_ceremony_completes:
  assumes "ids_ok L" "part2_for_all L"
    and "\<forall>i \<in> set (parties_of mx).
      (tasks i = dkg_run L (rng i) i mx mn \<and> dkg_part1 L (rng i) i mx mn = Ok (sec i, bs i)) \<or>
      (tasks i = key_import_run L (rng i) i mx mn (share i) \<and>
         key_import_part1 L (rng i) i mx mn (share i) = Ok (sec i, bs i)) \<or>
      (tasks i = reshare_run L (rng i) i mx mn (share i) vk \<and>
         reshare_part1 L (rng i) i mx mn (share i) = Ok (sec i, bs i) \<and>
         vk_serialize L (pk_verifying_key L (snd (keys i))) = Some vk)"
    and "\<forall>i \<in> set (parties_of mx). central_dkg L mx sec bs i = Ok (keys i)"
    and "relay_reachable (set (parties_of mx)) tasks s" "i \<in> set (parties_of mx)"
  shows "(\<forall>r. outcome (session_of s i) = Some r \<longrightarrow> r = Ok (keys i)) \<and>
    (relay_idle (set (parties_of mx)) s \<longrightarrow> outcome (session_of s i) = Some (Ok (keys i)))"
proof -
  obtain idm where idm: "build_id_map L mx = Ok idm" using build_id_map_Ok [OF assms(1)] by blast
  have "\<exists>h. tasks i = pbind (dkg_rounds L mx idm (sec i) (bs i)) (\<lambda>x. Ret (h x)) \<and> h (keys i) = Ok (keys i)"
    if "i \<in> set (parties_of mx)" for i
  proof -
    note run = ceremonies_run_rounds [OF idm]
    let ?vk = "\<lambda>x. rbind (ser_err (vk_serialize L (pk_verifying_key L (snd x)))) (\<lambda>v. if v \<noteq> vk then Err LIB_RESHARE_ERROR else Ok x)"
    from assms(3) that consider "tasks i = dkg_run L (rng i) i mx mn \<and> dkg_part1 L (rng i) i mx mn = Ok (sec i, bs i)"
      | "tasks i = key_import_run L (rng i) i mx mn (share i) \<and> key_import_part1 L (rng i) i mx mn (share i) = Ok (sec i, bs i)"
      | "tasks i = reshare_run L (rng i) i mx mn (share i) vk \<and> reshare_part1 L (rng i) i mx mn (share i) = Ok (sec i, bs i) \<and>
          vk_serialize L (pk_verifying_key L (snd (keys i))) = Some vk"
      by blast
    then show ?thesis
    proof cases
      case 1
      with run(1) show ?thesis by (intro exI [of _ Ok]) auto
    next
      case 2
      with run(2) show ?thesis by (intro exI [of _ Ok]) auto
    next
      case 3
      with run(3) show ?thesis by (intro exI [of _ ?vk]) (auto simp: ser_err_def)
    qed
  qed
  then obtain h where h: "\<forall>i \<in> set (parties_of mx).
      tasks i = pbind (dkg_rounds L mx idm (sec i) (bs i)) (\<lambda>x. Ret (h i x)) \<and> h i (keys i) = Ok (keys i)"
    by metis
  with assms(1,2,4) idm have "all_succeed L mx idm sec bs tasks h keys" by (auto simp: all_succeed_def)
  then obtain snds where "two_rounds (parties_of mx) tasks bs snds (\<lambda>k i. wrap_sender k (package_bytes L mx sec bs i k)) keys"
    using rounds_are_two_rounds by blast
  from relay_completes [OF this assms(5,6)] show ?thesis by blast
qed

text \<open>C7: Signing completes over a relay. Let every signer run the signing session on the same message with its
  own key package and randomness, over a relay with one log that every host reads in its order. If the
  commitments and shares of all signers, put together in one place, give a signature, no session ever ends
  without this signature, and as soon as nothing is left to be posted or read, every signer has it.\<close>

theorem relay_signing_completes:
  assumes "ids_ok L" "signing_formats_ok S" "distinct ks" "signers_ready L S ks kp pkp msg rng nonces cb tasks"
    and "central_signature L S cb nonces kp pkp msg ks = Ok sig"
    and "relay_reachable (set ks) tasks s" "i \<in> set ks"
  shows "(\<forall>r. outcome (session_of s i) = Some r \<longrightarrow> r = Ok sig) \<and>
    (relay_idle (set ks) s \<longrightarrow> outcome (session_of s i) = Some (Ok sig))"
proof -
  obtain snds second where "two_rounds ks tasks cb snds second (\<lambda>_. sig)"
    using signing_is_two_rounds [OF assms(1-5)] by blast
  from relay_completes [OF this assms(6,7)] show ?thesis by blast
qed

section \<open>Concrete runs\<close>

definition relay_schedule where
  "relay_schedule = [Posts 2, Posts 1, Fetches 1, Fetches 2, Fetches 2, Posts 2, Fetches 1, Posts 1, Fetches 2, Fetches 2,
     Fetches 1, Fetches 1]"

definition relay_ends :: "u16 list \<Rightarrow> 'a relay option \<Rightarrow> bool" where
  "relay_ends ps r = (case r of Some s \<Rightarrow>
     list_all (\<lambda>i. outbox (session_of s i) = [] \<and> seen s i = length (posts s)) ps | None \<Rightarrow> False)"

lemma relay_endsD: "relay_ends ps r \<Longrightarrow> \<exists>s. r = Some s \<and> relay_idle (set ps) s"
  by (auto simp: relay_ends_def relay_idle_def list_all_iff split: option.splits)

lemma schedules_end:
  "relay_ends [1, 2] (relay_play [1, 2] relay_schedule (relay_start demo_tasks))"
  "relay_ends [1, 2] (relay_play [1, 2] relay_schedule (relay_start demo_signers))"
  by code_simp+

definition demo_keys :: "u16 \<Rightarrow> (nat \<times> rat) \<times> rat" where
  "demo_keys i = (if i = 1 then ((1, 8), 3) else ((2, 13), 3))"

theorem relay_ceremony_completes_witness:
  "\<exists>s. relay_reachable {1, 2} demo_tasks s \<and> relay_idle {1, 2} s \<and>
     outcome (session_of s 1) = Some (Ok (demo_keys 1)) \<and> outcome (session_of s 2) = Some (Ok (demo_keys 2))"
proof -
  let ?sec = "\<lambda>i. (unat i, [of_nat (unat i), of_nat (unat i + 1)])" and ?bs = "\<lambda>i. if i = 1 then [1, 2] else [2, 3]"
  have ps: "parties_of 2 = [1, 2]" by code_simp
  obtain s where s: "relay_play [1, 2] relay_schedule (relay_start demo_tasks) = Some s" "relay_idle (set [1, 2]) s"
    using relay_endsD [OF schedules_end(1)] by blast
  have r: "relay_reachable (set (parties_of 2)) demo_tasks s" using relay_play_reaches [OF s(1)] by (simp only: ps)
  have p: "dkg_part1 demo_two_rounds 1 1 2 2 = Ok ((1, [1, 2]), [1, 2])" "dkg_part1 demo_two_rounds 2 2 2 2 = Ok ((2, [2, 3]), [2, 3])"
    by code_simp+
  have c: "central_dkg demo_two_rounds 2 ?sec ?bs 1 = Ok (demo_keys 1)" "central_dkg demo_two_rounds 2 ?sec ?bs 2 = Ok (demo_keys 2)"
    by code_simp+
  have parts: "\<forall>i \<in> set (parties_of 2).
      (demo_tasks i = dkg_run demo_two_rounds (unat i) i 2 2 \<and> dkg_part1 demo_two_rounds (unat i) i 2 2 = Ok (?sec i, ?bs i)) \<or>
      (demo_tasks i = key_import_run demo_two_rounds (unat i) i 2 2 0 \<and>
         key_import_part1 demo_two_rounds (unat i) i 2 2 0 = Ok (?sec i, ?bs i)) \<or>
      (demo_tasks i = reshare_run demo_two_rounds (unat i) i 2 2 0 [] \<and>
         reshare_part1 demo_two_rounds (unat i) i 2 2 0 = Ok (?sec i, ?bs i) \<and>
         vk_serialize demo_two_rounds (pk_verifying_key demo_two_rounds (snd (demo_keys i))) = Some [])"
    unfolding ps list.set ball_simps by (simp_all del: One_nat_def add: demo_tasks_def p)
  have central: "\<forall>i \<in> set (parties_of 2). central_dkg demo_two_rounds 2 ?sec ?bs i = Ok (demo_keys i)"
    unfolding ps list.set ball_simps using c by simp
  have "outcome (session_of s i) = Some (Ok (demo_keys i))" if "i \<in> set (parties_of 2)" for i
    by (rule relay_ceremony_completes [where L = demo_two_rounds and rng = unat and mn = 2 and share = "\<lambda>_. 0" and vk = "[]"
        and sec = ?sec and bs = ?bs and keys = demo_keys, OF demo_two_rounds_ok(1,3) parts central r that, THEN conjunct2, rule_format])
      (use s(2) in \<open>simp only: ps\<close>)
  from this [of 1] this [of 2] r s(2) show ?thesis by (intro exI [of _ s]) (simp add: ps)
qed

theorem relay_signing_completes_witness:
  "\<exists>s. relay_reachable {1, 2} demo_signers s \<and> relay_idle {1, 2} s \<and>
     outcome (session_of s 1) = Some (Ok [15]) \<and> outcome (session_of s 2) = Some (Ok [15])"
proof -
  obtain s where s: "relay_play [1, 2] relay_schedule (relay_start demo_signers) = Some s" "relay_idle (set [1, 2]) s"
    using relay_endsD [OF schedules_end(2)] by blast
  note r = relay_play_reaches [OF s(1)]
  have ready: "signers_ready demo demo_signer [1, 2] (\<lambda>k. (unat k, 5)) 3 [7] unat unat (\<lambda>k. [ucast k + 1]) demo_signers"
    by (simp del: One_nat_def add: signers_ready_def demo_signers_def demo_fields numeral_2_eq_2 [symmetric])
  have c: "central_signature demo demo_signer (\<lambda>k. [ucast k + 1]) unat (\<lambda>k. (unat k, 5)) 3 [7] [1, 2] = Ok [15]"
    by code_simp
  have "outcome (session_of s i) = Some (Ok [15])" if "i \<in> set [1, 2]" for i
    by (rule relay_signing_completes [OF ids_ok_demo demo_signer_ok _ ready c r that, THEN conjunct2, rule_format])
      (use s(2) in simp_all)
  from this [of 1] this [of 2] r s(2) show ?thesis by (intro exI [of _ s]) simp
qed

end
