(* ===== verification/Spec2Isabelle.thy ===== *)
theory Spec2Isabelle
  imports Frozt_Rounds Ceremony_Liveness Fromt_Rounds Fromt_Session_Properties Monero_Address Tx_Context Buffers
    Shielding_Properties Monero_Wallet_Properties Wasm_Fromt_Properties Wasm_Session_Properties
    Wasm_Sapling_Properties Sdk_Properties Network_Completion
begin

text \<open>
  Threshold wallets for Zcash (\<^verbatim>\<open>frozt\<close>) and Monero (\<^verbatim>\<open>fromt\<close>): a shallow embedding of the Rust crates
  under \<^verbatim>\<open>crates/\<close>, and their correctness.

  \<^bold>\<open>The program.\<close> Parties that each hold a share of a signing key run ceremonies: key generation, key
  import, resharing, signing, and for Monero the key images and child keys. \<^verbatim>\<open>frost-ceremony\<close> has the
  ceremonies for every ciphersuite, both as functions for single rounds and as asynchronous tasks that
  send and receive messages. \<^verbatim>\<open>frost-session\<close> drives a task: the host feeds messages in, takes
  messages out and finally asks for the result; it also has the setup messages that tell the parties who
  takes part. \<^verbatim>\<open>frost-ffi\<close> is the boundary to C hosts: error codes, a global table of handles, byte
  buffers and the encoding of maps. \<^verbatim>\<open>frozt-lib\<close> and \<^verbatim>\<open>fromt-lib\<close> put the two coins on top: key share
  bundles, their ceremonies with metadata and view keys, addresses, notes, witnesses, wallets and
  transactions. \<^verbatim>\<open>frozt-wasm\<close> and \<^verbatim>\<open>fromt-wasm\<close> offer the same to browsers.

  \<^bold>\<open>Theories and sources\<close> (paths below \<^verbatim>\<open>crates/\<close>).
  \<^item> \<open>Prelude\<close>, \<open>Wire\<close>: integers, bytes, results and ordered maps; byte readers and the locale
    \<open>wire_format\<close> that every reader and writer pair of the program interprets.
  \<^item> \<open>Ffi_Errors\<close>, \<open>Handle_Table\<close>, \<open>Map_Codec\<close>, \<open>Buffers\<close>: \<^verbatim>\<open>frost-ffi/src\<close> (\<^verbatim>\<open>errors.rs\<close>, \<^verbatim>\<open>handle.rs\<close>,
    \<^verbatim>\<open>codec.rs\<close>, \<^verbatim>\<open>bytes.rs\<close>). The table is a record with the allocator's counter and the slots; a slot
    that is lent to a guard is \<open>None\<close>. The locale \<open>object_store\<close> is its contract.
  \<^item> \<open>Session_Driver\<close>, \<open>Setup_Messages\<close>: \<^verbatim>\<open>frost-session/src\<close>. A task is a value of the datatype \<open>proc\<close>
    (return, send, receive), \<open>poll\<close> runs it on the inbox and reads each frame with \<open>pop_frame\<close>, whose
    indexing can panic, \<open>feed\<close>, \<open>take_msg\<close> and \<open>protocol_result\<close> are
    the calls of the host. The locale \<open>ceremony\<close> is what the exported functions use of it.
  \<^item> \<open>Interpolation\<close>, \<open>Frost_Library\<close>, \<open>Ceremonies\<close>, \<open>Ceremony_Properties\<close>, \<open>Ceremony_Liveness\<close>:
    \<^verbatim>\<open>frost-ceremony/src\<close>; \<open>Demo_Library\<close> and \<open>Demo_Field\<close> are the instances of the witnesses.
  \<^item> \<open>Network\<close>, \<open>Network_Agreement\<close>, \<open>Network_Signing\<close>: the sessions of all parties together. A state of the
    network has the session of every party and the frames under way between every two of them; a step is a
    host that takes a message, which is then under way to its addressees, or a host that feeds a frame
    that is under way to it. The abstract specification is the ceremony computed in one place.
    \<open>Network_Relay\<close>, \<open>Network_Completion\<close>: the same with a relay that keeps one log for all parties, which
    every host reads in its order. The hosts and the relay are the environment of the crates.
  \<^item> \<open>Ffi_Calls\<close>, \<open>Session_Starts\<close>, \<open>Party_Lists\<close>, \<open>Identifier_Table\<close>: what the exported functions of both
    libraries share; \<open>exported\<close> is \<^verbatim>\<open>with_error_handler\<close>, its state the handle table and the blamed party.
  \<^item> \<open>Frozt_Keyshare\<close>, \<open>Frozt_Session\<close>, \<open>Frozt_Session_Properties\<close>, \<open>Frozt_Rounds\<close>: \<^verbatim>\<open>frozt-lib/src\<close>
    (\<^verbatim>\<open>keyshare\<close>, \<^verbatim>\<open>ceremony_metadata.rs\<close>, \<^verbatim>\<open>session.rs\<close>, \<^verbatim>\<open>keygen.rs\<close>, \<^verbatim>\<open>reshare.rs\<close>, \<^verbatim>\<open>key_import.rs\<close>,
    \<^verbatim>\<open>sign.rs\<close>).
  \<^item> \<open>Byte_Streams\<close>, \<open>Commitment_Tree\<close>, \<open>Sapling_Keys\<close>, \<open>Zcash_Tx\<close>, \<open>Zcash_Tx_Properties\<close>, \<open>Shielding_Tx\<close>,
    \<open>Shielding_Properties\<close>: \<^verbatim>\<open>frozt-lib/src\<close> (\<^verbatim>\<open>tree.rs\<close>, \<^verbatim>\<open>sapling.rs\<close>, \<^verbatim>\<open>tx.rs\<close>, \<^verbatim>\<open>shielding_tx.rs\<close>).
  \<^item> \<open>Fromt_Keyshare\<close>, \<open>Fromt_Ceremonies\<close>, \<open>Fromt_Ceremony_Properties\<close>, \<open>Fromt_Session\<close>,
    \<open>Fromt_Session_Properties\<close>, \<open>Fromt_Rounds\<close>: \<^verbatim>\<open>fromt-lib/src\<close> (\<^verbatim>\<open>keyshare\<close>, \<^verbatim>\<open>ceremony\<close>, \<^verbatim>\<open>session.rs\<close>, \<^verbatim>\<open>ffi\<close>).
  \<^item> \<open>Monero_Address\<close>, \<open>Tx_Context\<close>, \<open>Monero_Wallet\<close>, \<open>Monero_Wallet_Properties\<close>, \<open>Monero_Spend\<close>,
    \<open>Monero_Spend_Properties\<close>: \<^verbatim>\<open>fromt-lib/src/monero\<close> and \<^verbatim>\<open>ffi/spend.rs\<close>.
  \<^item> \<open>Wasm_Calls\<close>, \<open>Wasm_Spend\<close>, \<open>Wasm_Scan\<close>, \<open>Wasm_Fromt_Session\<close>, \<open>Wasm_Fromt_Properties\<close>:
    \<^verbatim>\<open>fromt-wasm/src\<close>; \<open>Task_Simulation\<close>, \<open>Wasm_Sessions\<close>, \<open>Wasm_Readers\<close>, \<open>Wasm_Frozt_Session\<close>, \<open>Wasm_Session_Properties\<close>,
    \<open>Wasm_Tx\<close>, \<open>Wasm_Tx_Properties\<close>, \<open>Wasm_Sapling\<close>, \<open>Wasm_Sapling_Properties\<close>: \<^verbatim>\<open>frozt-wasm/src\<close> and what the
    sessions of both crates share.
  \<^item> \<open>Sdk_Calls\<close>, \<open>Sdk_Properties\<close>: \<^verbatim>\<open>fromt-sdk/src/ffi.rs\<close> and the scanner of \<^verbatim>\<open>frozt-sdk/src\<close>, which put a
    daemon or a light wallet server under the libraries.

  \<^bold>\<open>How the code is modelled.\<close> A structure is a record, an enumeration a datatype, and integers have
  their width, so that sums wrap around as in a release build. \<open>usize\<close> is a natural number on the
  64-bit hosts of the native libraries, where no length reaches its bound (a subtraction that
  underflows is written out); in the browser it has 32 bits, and the readers whose lengths
  another party or the caller chooses keep the wrap-around. A browser function that calls a native one
  uses the native model otherwise. A fallible function returns \<open>res\<close>: a value, an error code, an error that blames
  a party, or a panic; a browser function returns \<open>js\<close>: a value, a thrown error or a trap. Errors that
  JavaScript sees are kept up to the arguments in their text. Memory allocation succeeds, except where
  the requested capacity exceeds what Rust allows. Each use of the operating system's randomness is an
  argument of its own.

  Third-party crates are records of functions that the definitions take as arguments: \<open>L\<close> is \<^verbatim>\<open>frost-core\<close>,
  \<open>S\<close> its signing, \<open>R\<close> \<^verbatim>\<open>frost-rerandomized\<close>, \<open>Z\<close> the Zcash hashes and keys, \<open>Y\<close> and \<open>X\<close> the Sapling and
  transaction crates with \<open>P\<close>, the proving parameters, \<open>V\<close> output recovery and unified addresses, \<open>T\<close> the
  Merkle tree, \<open>K\<close> Ed25519 and Keccak, \<open>W\<close>, \<open>H\<close> and \<open>M\<close> the Monero wallet with its node and the signing
  machines, \<open>B\<close> the synchronisation engine. What a theorem needs of them is a named hypothesis
  (\<open>serde_ok\<close> says that a value is read back from its bytes, \<open>node_ok\<close> the same of tree nodes, and so on),
  and its witness satisfies it with a concrete record.

  Loops are recursive functions without fuel: the loops over messages and bytes are counted or get
  shorter input. The search for a free handle ends because a table below its limit has a free
  handle, and the loop that writes a variable-length integer because each round drops seven bits.

  \<^bold>\<open>What is shown.\<close>
  \<^item> \<open>The key\<close>: resharing preserves the secret, child keys and key images are those of the undivided key, an
    imported view key is the one of the imported spend key, a resharing session returns only the expected key.
  \<^item> \<open>Sessions\<close>: any interleaving of the host's calls is one run of the task; the message-driven ceremony
    computes what the round functions compute; the Monero ceremony refines the common one; no message
    makes any of the ten sessions panic, although their decoders index and slice what they receive; every
    session ends after a number of messages known in advance; the parties of a Zcash key generation end
    with the same metadata or with an error; errors blame the culprit.
    In a network, under every schedule of the hosts, parties that succeed hold the keys and the signature of
    the ceremony computed in one place, and over a relay with one log all of them succeed.
  \<^item> \<open>The boundary\<close>: no object is in two places, and a handle is marked as in use exactly while its one guard
    is out, unless it was freed while it was borrowed; allocation finds a fresh handle; buffers are never
    freed twice; a signing machine is used once.
  \<^item> \<open>Formats\<close>: setup messages, maps, bundles, witnesses, transactions, rings and compact sizes can be read back,
    and addresses determine their keys.
  \<^item> \<open>Transactions and wallets\<close>: built transactions balance and their binding key belongs to their commitments, coin
    selection is optimal, notes and outputs that are recognised can be spent, consecutive spends share
    no input.
  \<^item> \<open>Browsers\<close>: the sessions, builders and note functions written for the browser agree with the native
    ones (\<open>Task_Simulation\<close> has the relation between tasks that a host cannot tell apart), and where they
    do not: sums of lengths that trap, an output that is not signed, a
    session that is lost by asking for its result.

  \<^bold>\<open>Not modelled.\<close> Code that is compiled for tests only (the round-based ceremonies and the map decoder of
  \<^verbatim>\<open>frozt-wasm\<close>), logging, and the erasure of secrets from memory. The Go and TypeScript clients are not
  part of the crates.
\<close>

end
